(* ===== verification/Prelude.thy ===== *)
theory Prelude
  imports Main "HOL-Library.Monad_Syntax"
begin

text \<open>
  Shared vocabulary of the development: the types that stand for Go values in every
  component, the idiom "return early when err is not nil", the collections of simplification
  rules the component proofs use, and generic lemmas on lists, options and maps.

  Instants (\<^verbatim>\<open>time.Time\<close>) are integers: nanoseconds since the Unix epoch, in UTC. Lengths of
  time (\<^verbatim>\<open>time.Duration\<close>) are integers too: nanoseconds. A Go string is a list of bytes
  (\<open>string\<close>). A Go map that the code ranges over is an association list, in the order in
  which one run of the program happens to visit it.
\<close>

type_synonym gtime = int
type_synonym duration = int

definition nanosecond :: duration where "nanosecond = 1"
definition millisecond :: duration where "millisecond = 1000000"
definition second :: duration where "second = 1000000000"
definition minute :: duration where "minute = 60000000000"
definition hour :: duration where "hour = 3600000000000"

named_theorems time_units \<open>the lengths of the named durations\<close>
named_theorems frame \<open>what an operation leaves unchanged\<close>
named_theorems inv_intros \<open>operations preserve the invariant of their component\<close>

lemmas [time_units] =
  nanosecond_def millisecond_def second_def minute_def hour_def

text \<open>
  A call that returns \<^verbatim>\<open>error\<close> and acts on a state is a pair of an optional error and the new
  state; \<open>on_ok r k\<close> is \<^verbatim>\<open>if err := r; err != nil { return err }\<close> followed by \<open>k\<close>.
\<close>

type_synonym ('e, 's) outcome = "'e option \<times> 's"

fun on_ok :: "('e, 's) outcome \<Rightarrow> ('s \<Rightarrow> ('e, 's) outcome) \<Rightarrow> ('e, 's) outcome" where
  "on_ok (Some e, s) k = (Some e, s)"
| "on_ok (None, s) k = k s"

lemma on_ok_split:
  "P (on_ok r k) \<longleftrightarrow>
     (\<forall>e s. r = (Some e, s) \<longrightarrow> P (Some e, s)) \<and> (\<forall>s. r = (None, s) \<longrightarrow> P (k s))"
  by (cases r; cases "fst r") auto

lemma on_ok_cases:
  obtains (err) e s where "r = (Some e, s)" "on_ok r k = (Some e, s)"
  | (ok) s where "r = (None, s)" "on_ok r k = k s"
  by (cases r; cases "fst r") auto

text \<open>Looking an association list up, and replacing the first row with a given key.\<close>

lemma map_of_filter_neq:
  "map_of (filter (\<lambda>(k, v). k \<noteq> a) xs) = (map_of xs)(a := None)"
  by (induction xs) (auto simp: fun_eq_iff)

lemma distinct_map_filter_fst [intro]:
  "distinct (map f xs) \<Longrightarrow> distinct (map f (filter P xs))"
  by (induction xs) auto

lemma find_Some_iff_distinct:
  assumes "distinct (map f xs)"
  shows "find (\<lambda>x. f x = k) xs = Some y \<longleftrightarrow> y \<in> set xs \<and> f y = k"
  using assms by (induction xs) (auto simp: image_iff)

lemma find_map_same_key:
  assumes "\<And>x. f (g x) = f x"
  shows "find (\<lambda>x. f x = k) (map g xs) = map_option g (find (\<lambda>x. f x = k) xs)"
  by (induction xs) (auto simp: assms)

lemma find_NoneD: "find P xs = None \<Longrightarrow> x \<in> set xs \<Longrightarrow> \<not> P x"
  by (auto simp: find_None_iff)

lemma find_SomeD: "find P xs = Some x \<Longrightarrow> x \<in> set xs \<and> P x"
  by (auto simp: find_Some_iff)

lemma finite_dom_update [intro]: "finite (dom m) \<Longrightarrow> finite (dom (m(k := v)))"
  by (cases v) (auto simp: dom_def intro: finite_subset [of _ "insert k (dom m)"])

end
