(* ===== verification/GoStrings.thy ===== *)
theory GoStrings
  imports Prelude
begin

text \<open>
  The functions of Go's \<^verbatim>\<open>strings\<close> and \<^verbatim>\<open>strconv\<close> packages that the program calls, on strings
  as byte lists. White space and case are those of ASCII: the program applies these functions
  to configuration scalars and cron expressions, whose grammar is ASCII.
\<close>

section \<open>strings\<close>

definition is_space :: "char \<Rightarrow> bool" where
  "is_space c = (c \<in> {CHR ''\<newline>'', CHR '' '', CHR 0x09, CHR 0x0B, CHR 0x0C, CHR 0x0D})"

definition TrimSpace :: "string \<Rightarrow> string" where
  "TrimSpace s = rev (dropWhile is_space (rev (dropWhile is_space s)))"

definition HasPrefix :: "string \<Rightarrow> string \<Rightarrow> bool" where
  "HasPrefix s pre = (take (length pre) s = pre)"

definition HasSuffix :: "string \<Rightarrow> string \<Rightarrow> bool" where
  "HasSuffix s suf = (length suf \<le> length s \<and> drop (length s - length suf) s = suf)"

definition TrimSuffix :: "string \<Rightarrow> string \<Rightarrow> string" where
  "TrimSuffix s suf = (if HasSuffix s suf then take (length s - length suf) s else s)"

text \<open>\<^verbatim>\<open>Cut\<close> with a one-byte separator: the text before and after it, and whether it occurs.\<close>

fun Cut :: "string \<Rightarrow> char \<Rightarrow> string \<times> string \<times> bool" where
  "Cut [] sep = ([], [], False)"
| "Cut (c # cs) sep =
     (if c = sep then ([], cs, True)
      else case Cut cs sep of
             (before, after, True) \<Rightarrow> (c # before, after, True)
           | (_, _, False) \<Rightarrow> (c # cs, [], False))"

text \<open>\<^verbatim>\<open>SplitSeq\<close> with a one-byte separator: always at least one piece.\<close>

fun Split :: "string \<Rightarrow> char \<Rightarrow> string list" where
  "Split [] sep = [[]]"
| "Split (c # cs) sep =
     (if c = sep then [] # Split cs sep
      else case Split cs sep of
             p # ps \<Rightarrow> (c # p) # ps
           | [] \<Rightarrow> [[c]])"

text \<open>\<^verbatim>\<open>Fields\<close>: the maximal runs of bytes that are not white space.\<close>

function Fields :: "string \<Rightarrow> string list" where
  "Fields s =
     (case dropWhile is_space s of
        [] \<Rightarrow> []
      | c # cs \<Rightarrow> takeWhile (\<lambda>x. \<not> is_space x) (c # cs)
                  # Fields (dropWhile (\<lambda>x. \<not> is_space x) (c # cs)))"
  by pat_completeness auto
termination
proof (relation "measure length", simp)
  fix s c cs
  assume d: "dropWhile is_space s = c # cs"
  then have "\<not> is_space c" using hd_dropWhile [of is_space s] by auto
  then have "length (dropWhile (\<lambda>x. \<not> is_space x) (c # cs)) \<le> length cs"
    by (simp add: length_dropWhile_le)
  also have "length cs < length s"
    using length_dropWhile_le [of is_space s] d by simp
  finally show "(dropWhile (\<lambda>x. \<not> is_space x) (c # cs), s) \<in> measure length" by simp
qed

declare Fields.simps [simp del]

definition to_lower :: "char \<Rightarrow> char" where
  "to_lower c = (if 65 \<le> (of_char c :: nat) \<and> (of_char c :: nat) \<le> 90
                 then char_of ((of_char c :: nat) + 32) else c)"

definition ToLower :: "string \<Rightarrow> string" where
  "ToLower s = map to_lower s"

section \<open>strconv\<close>

definition is_digit :: "char \<Rightarrow> bool" where
  "is_digit c = (48 \<le> (of_char c :: nat) \<and> (of_char c :: nat) \<le> 57)"

definition digit_val :: "char \<Rightarrow> int" where
  "digit_val c = of_char c - 48"

fun digits_val :: "int \<Rightarrow> string \<Rightarrow> int" where
  "digits_val acc [] = acc"
| "digits_val acc (c # cs) = digits_val (10 * acc + digit_val c) cs"

text \<open>
  \<^verbatim>\<open>ParseUint(s, 10, 32)\<close>: decimal digits only (no sign, no underscore), at least one, and a
  value of at most 32 bits. \<open>None\<close> is the error.
\<close>

definition ParseUint32 :: "string \<Rightarrow> nat option" where
  "ParseUint32 s =
     (if s = [] \<or> \<not> list_all is_digit s then None
      else let n = digits_val 0 s in if n < 2 ^ 32 then Some (nat n) else None)"

text \<open>
  \<^verbatim>\<open>ParseInt(s, 10, 64)\<close>, which is also what \<^verbatim>\<open>Atoi\<close> computes on a 64-bit machine: an optional
  sign and decimal digits, with a value that fits 64 bits in two's complement.
\<close>

definition ParseInt64 :: "string \<Rightarrow> int option" where
  "ParseInt64 s =
     (let neg = (case s of c # _ \<Rightarrow> c = CHR ''-'' | [] \<Rightarrow> False);
          body = (case s of c # cs \<Rightarrow> if c = CHR ''-'' \<or> c = CHR ''+'' then cs else s | [] \<Rightarrow> s)
      in if body = [] \<or> \<not> list_all is_digit body then None
         else let n = digits_val 0 body; v = (if neg then - n else n)
              in if - (2 ^ 63) \<le> v \<and> v < 2 ^ 63 then Some v else None)"

definition digit_char :: "int \<Rightarrow> char" where
  "digit_char d = char_of (48 + d)"

function nat_digits :: "int \<Rightarrow> string" where
  "nat_digits n = (if n < 10 then [digit_char n] else nat_digits (n div 10) @ [digit_char (n mod 10)])"
  by pat_completeness auto
termination by (relation "measure nat") auto

declare nat_digits.simps [simp del]

text \<open>\<^verbatim>\<open>Itoa\<close> and \<^verbatim>\<open>FormatInt(i, 10)\<close>.\<close>

definition Itoa :: "int \<Rightarrow> string" where
  "Itoa i = (if i < 0 then CHR ''-'' # nat_digits (- i) else nat_digits i)"

section \<open>Decimal round trip\<close>

lemma of_char_digit:
  assumes "0 \<le> d" and "d < 10"
  shows "(of_char (digit_char d) :: int) = 48 + d" and "(of_char (digit_char d) :: nat) = nat (48 + d)"
proof -
  show i: "(of_char (digit_char d) :: int) = 48 + d"
    using assms by (simp add: digit_char_def)
  show "(of_char (digit_char d) :: nat) = nat (48 + d)"
    using i by (metis nat_int of_nat_of_char)
qed

lemma digit_char_props:
  assumes "0 \<le> d" and "d < 10"
  shows "is_digit (digit_char d)" and "digit_val (digit_char d) = d"
  using assms by (simp add: is_digit_def of_char_digit, linarith)
    (use assms in \<open>simp add: digit_val_def of_char_digit\<close>)

lemma digit_val_bounds: "is_digit c \<Longrightarrow> 0 \<le> digit_val c \<and> digit_val c \<le> 9"
proof -
  assume "is_digit c"
  then have "48 \<le> int (of_char c)" "int (of_char c) \<le> 57" unfolding is_digit_def by linarith+
  moreover have "int (of_char c) = of_char c" by (rule of_nat_of_char)
  ultimately show ?thesis by (simp add: digit_val_def)
qed

lemma digits_val_nonneg: "0 \<le> a \<Longrightarrow> list_all is_digit s \<Longrightarrow> 0 \<le> digits_val a s"
proof (induction s arbitrary: a)
  case (Cons c cs)
  then show ?case using digit_val_bounds [of c] by simp
qed simp

lemma digits_val_append: "digits_val a (xs @ ys) = digits_val (digits_val a xs) ys"
  by (induction xs arbitrary: a) auto

lemma nat_digits_props:
  "0 \<le> n \<Longrightarrow> nat_digits n \<noteq> [] \<and> list_all is_digit (nat_digits n) \<and> digits_val 0 (nat_digits n) = n"
proof (induction n rule: nat_digits.induct)
  case (1 n)
  then show ?case
    by (cases "n < 10")
       (simp_all add: nat_digits.simps [of n] digits_val_append digit_char_props)
qed

lemma is_digit_not_sign: "is_digit c \<Longrightarrow> c \<noteq> CHR ''-'' \<and> c \<noteq> CHR ''+''"
  by (auto simp: is_digit_def)

lemma is_digit_not_space: "is_digit c \<Longrightarrow> \<not> is_space c"
  by (auto simp: is_digit_def is_space_def)

lemma ParseInt64_digits:
  assumes "s \<noteq> []" and "list_all is_digit s"
  shows "ParseInt64 s = (if digits_val 0 s < 2 ^ 63 then Some (digits_val 0 s) else None)"
proof -
  obtain c cs where s: "s = c # cs" using assms(1) by (cases s) auto
  then have "c \<noteq> CHR ''-''" "c \<noteq> CHR ''+''"
    using assms(2) is_digit_not_sign by auto
  then show ?thesis
    using assms s digits_val_nonneg [of 0 s] by (simp add: ParseInt64_def Let_def)
qed

lemma ParseInt64_Itoa:
  assumes "- (2 ^ 63) \<le> i" and "i < 2 ^ 63"
  shows "ParseInt64 (Itoa i) = Some i"
proof (cases "i < 0")
  case True
  then show ?thesis
    using assms nat_digits_props [of "- i"] by (simp add: Itoa_def ParseInt64_def Let_def)
next
  case False
  then show ?thesis
    using assms nat_digits_props [of i] by (simp add: Itoa_def ParseInt64_digits)
qed

lemma dropWhile_hd: "xs \<noteq> [] \<Longrightarrow> \<not> P (hd xs) \<Longrightarrow> dropWhile P xs = xs"
  by (cases xs) simp_all

lemma TrimSpace_no_space:
  assumes "s \<noteq> []" and "\<not> is_space (hd s)" and "\<not> is_space (last s)"
  shows "TrimSpace s = s"
  using assms by (simp add: TrimSpace_def dropWhile_hd hd_rev)

section \<open>Digits of a date\<close>

text \<open>A number in at least \<open>n\<close> digits, as \<^verbatim>\<open>time.Format\<close> writes the fields of a date.\<close>

definition pad :: "nat \<Rightarrow> int \<Rightarrow> string" where
  "pad n v = (let s = Itoa v in replicate (n - length s) CHR ''0'' @ s)"

section \<open>Pieces of a string\<close>

lemma Split_not_Nil [simp]: "Split d sep \<noteq> []"
  by (cases d) (auto split: list.splits)

lemma Split_append_sep: "Split (x @ sep # y) sep = Split x sep @ Split y sep"
  by (induction x) (auto split: list.splits)

lemma Split_no_sep: "sep \<notin> set d \<Longrightarrow> Split d sep = [d]"
  by (induction d) auto

end
