(* ===== verification/GoTime.thy ===== *)
theory GoTime
  imports Prelude
begin

text \<open>
  The part of Go's \<^verbatim>\<open>time\<close> package that the cron search uses: the proleptic Gregorian calendar,
  locations as tables of offset changes, the field accessors of an instant in a location, and
  \<^verbatim>\<open>time.Date\<close>, which turns wall-clock fields back into an instant. \<^verbatim>\<open>Date\<close> is written as the
  standard library implements it: it looks the offset up at the wall-clock reading taken as if
  it were UTC, and looks again only if that offset does not cover the instant it gives. Where
  the wall clock shows a reading twice, this picks one of the two instants.
\<close>

section \<open>The calendar\<close>

definition is_leap :: "int \<Rightarrow> bool" where
  "is_leap y = (y mod 4 = 0 \<and> (y mod 100 \<noteq> 0 \<or> y mod 400 = 0))"

definition year_len :: "int \<Rightarrow> int" where
  "year_len y = (if is_leap y then 366 else 365)"

text \<open>Days from 1 January of year 1 to 1 January of year \<open>y\<close>.\<close>

definition days_before_year :: "int \<Rightarrow> int" where
  "days_before_year y = 365 * (y - 1) + (y - 1) div 4 - (y - 1) div 100 + (y - 1) div 400"

definition month_lens :: "int \<Rightarrow> int list" where
  "month_lens y = [31, if is_leap y then 29 else 28, 31, 30, 31, 30, 31, 31, 30, 31, 30, 31]"

definition days_before_month :: "int \<Rightarrow> int \<Rightarrow> int" where
  "days_before_month y m = sum_list (take (nat (m - 1)) (month_lens y))"

text \<open>The day of 1970-01-01 counted from 0001-01-01.\<close>

definition epoch_day :: int where "epoch_day = 719162"

definition days_from_civil :: "int \<Rightarrow> int \<Rightarrow> int \<Rightarrow> int" where
  "days_from_civil y m d = days_before_year y + days_before_month y m + (d - 1) - epoch_day"

definition year_of_day :: "int \<Rightarrow> int" where
  "year_of_day n =
     (let n400 = n div 146097; r = n mod 146097;
          c = (let c0 = r div 36524 in c0 - c0 div 4); r1 = r - 36524 * c;
          q = r1 div 1461; r2 = r1 - 1461 * q;
          k = (let k0 = r2 div 365 in k0 - k0 div 4)
      in 400 * n400 + 100 * c + 4 * q + k + 1)"

fun find_month :: "int list \<Rightarrow> int \<Rightarrow> int \<Rightarrow> int \<times> int" where
  "find_month [] m d = (m, d + 1)"
| "find_month (l # ls) m d = (if d < l \<or> ls = [] then (m, d + 1) else find_month ls (m + 1) (d - l))"

text \<open>Year, month (1 to 12) and day of month (from 1) of a day counted from 1970-01-01.\<close>

definition civil :: "int \<Rightarrow> int \<times> int \<times> int" where
  "civil day =
     (let n = day + epoch_day; y = year_of_day n;
          (m, d) = find_month (month_lens y) 1 (n - days_before_year y)
      in (y, m, d))"

text \<open>0 is Sunday; 1970-01-01 was a Thursday.\<close>

definition weekday :: "int \<Rightarrow> int" where
  "weekday day = (day + 4) mod 7"

section \<open>Locations\<close>

text \<open>
  A location is its name, its first offset from UTC in seconds, and the ascending list of the
  instants (in Unix seconds) at which the offset changes, each with the new offset.
\<close>

record Location =
  loc_name :: string
  loc_offset :: int
  loc_tx :: "(int \<times> int) list"

definition UTC :: Location where
  "UTC = \<lparr>loc_name = ''UTC'', loc_offset = 0, loc_tx = []\<rparr>"

text \<open>
  The offset in force at a Unix second, and the interval (start included, end excluded,
  \<open>None\<close> for unbounded) over which it is.
\<close>

fun lookup_from :: "int \<Rightarrow> int option \<Rightarrow> (int \<times> int) list \<Rightarrow> int \<Rightarrow> int \<times> int option \<times> int option" where
  "lookup_from off start [] sec = (off, start, None)"
| "lookup_from off start ((w, off') # rest) sec =
     (if sec < w then (off, start, Some w) else lookup_from off' (Some w) rest sec)"

definition loc_lookup :: "Location \<Rightarrow> int \<Rightarrow> int \<times> int option \<times> int option" where
  "loc_lookup loc sec = lookup_from (loc_offset loc) None (loc_tx loc) sec"

definition offset_at :: "Location \<Rightarrow> int \<Rightarrow> int" where
  "offset_at loc sec = fst (loc_lookup loc sec)"

section \<open>Instants in a location\<close>

definition unix :: "gtime \<Rightarrow> int" where
  "unix t = t div second"

text \<open>The wall-clock reading of an instant, in seconds.\<close>

definition wall :: "Location \<Rightarrow> gtime \<Rightarrow> int" where
  "wall loc t = unix t + offset_at loc (unix t)"

definition Year :: "Location \<Rightarrow> gtime \<Rightarrow> int" where
  "Year loc t = fst (civil (wall loc t div 86400))"

definition Month :: "Location \<Rightarrow> gtime \<Rightarrow> int" where
  "Month loc t = fst (snd (civil (wall loc t div 86400)))"

definition Day :: "Location \<Rightarrow> gtime \<Rightarrow> int" where
  "Day loc t = snd (snd (civil (wall loc t div 86400)))"

definition Hour :: "Location \<Rightarrow> gtime \<Rightarrow> int" where
  "Hour loc t = wall loc t mod 86400 div 3600"

definition Minute :: "Location \<Rightarrow> gtime \<Rightarrow> int" where
  "Minute loc t = wall loc t mod 3600 div 60"

definition Second :: "Location \<Rightarrow> gtime \<Rightarrow> int" where
  "Second loc t = wall loc t mod 60"

definition Nanosecond :: "gtime \<Rightarrow> int" where
  "Nanosecond t = t mod second"

definition Weekday :: "Location \<Rightarrow> gtime \<Rightarrow> int" where
  "Weekday loc t = weekday (wall loc t div 86400)"

text \<open>
  The Unix second that \<^verbatim>\<open>Date\<close> picks for a wall-clock reading: the offset is looked up at the
  reading as if it were UTC, and again at the instant this gives if the first offset is not in
  force there.
\<close>

definition from_wall :: "Location \<Rightarrow> int \<Rightarrow> int" where
  "from_wall loc local =
     (case loc_lookup loc local of (offset, start, end') \<Rightarrow>
        let utc = local - offset in
        if offset \<noteq> 0
        then if (case start of None \<Rightarrow> False | Some s \<Rightarrow> utc < s) \<or>
                (case end' of None \<Rightarrow> False | Some e \<Rightarrow> e \<le> utc)
             then local - offset_at loc utc else utc
        else local)"

text \<open>
  \<^verbatim>\<open>time.Date\<close>: months outside 1 to 12 carry into the year; days, hours, minutes and seconds
  outside their ranges carry by plain addition.
\<close>

definition Date :: "int \<Rightarrow> int \<Rightarrow> int \<Rightarrow> int \<Rightarrow> int \<Rightarrow> int \<Rightarrow> int \<Rightarrow> Location \<Rightarrow> gtime" where
  "Date year month day hh mm ss ns loc =
     (let y = year + (month - 1) div 12; m = (month - 1) mod 12 + 1
      in from_wall loc (days_from_civil y m day * 86400 + hh * 3600 + mm * 60 + ss) * second + ns)"

definition AddDate :: "Location \<Rightarrow> gtime \<Rightarrow> int \<Rightarrow> int \<Rightarrow> int \<Rightarrow> gtime" where
  "AddDate loc t years months days =
     Date (Year loc t + years) (Month loc t + months) (Day loc t + days)
       (Hour loc t) (Minute loc t) (Second loc t) (Nanosecond t) loc"

section \<open>Calendar facts\<close>

lemma div_bounds: "0 < b \<Longrightarrow> b * (x div b) \<le> x \<and> x < b * (x div b) + (b::int)"
  by (metis add.commute add_strict_left_mono le_add_same_cancel2 mult_div_mod_eq pos_mod_bound
      pos_mod_sign)

lemma div_exactly: "0 < b \<Longrightarrow> b * q \<le> x \<Longrightarrow> x < b * q + b \<Longrightarrow> x div b = (q::int)"
  by (rule int_div_pos_eq [where r = "x - b * q"]) simp_all

lemma div_pred:
  assumes "0 < (b::int)"
  shows "x div b = (x - 1) div b + (if x mod b = 0 then 1 else 0)"
proof -
  have x: "x = b * (x div b) + x mod b" by simp
  have m: "0 \<le> x mod b" "x mod b < b" using assms by simp_all
  show ?thesis
  proof (cases "x mod b = 0")
    case True
    have "(x - 1) div b = x div b - 1"
      by (rule div_exactly [OF assms]) (use x True assms in \<open>simp_all add: right_diff_distrib\<close>)
    then show ?thesis using True by simp
  next
    case False
    have "(x - 1) div b = x div b"
      by (rule div_exactly [OF assms]) (use x m False in linarith)+
    then show ?thesis using False by simp
  qed
qed

lemma leap_cases:
  assumes "C \<longrightarrow> B" and "B \<longrightarrow> A"
  shows "(if A \<and> (\<not> B \<or> C) then 366 else 365) =
    365 + (if A then 1 else 0) - (if B then 1 else 0) + (if C then 1 else (0::int))"
  using assms by (cases A; cases B; cases C) simp_all

lemma year_sum:
  assumes "len = 365 + a - b + c" and "nxt = 365 * y + p - q + r"
    and "p = p' + a" and "q = q' + b" and "r = r' + c"
    and "cur = 365 * (y - 1) + p' - q' + (r'::int)"
  shows "nxt = cur + len"
  using assms by simp

lemma days_before_year_Suc: "days_before_year (y + 1) = days_before_year y + year_len y"
proof -
  have i: "y mod 400 = 0 \<longrightarrow> y mod 100 = 0" "y mod 100 = 0 \<longrightarrow> y mod 4 = 0"
    unfolding dvd_eq_mod_eq_0 [symmetric]
    using dvd_trans [of 100 400 y] dvd_trans [of 4 100 y] by force+
  have len: "year_len y = 365 + (if y mod 4 = 0 then 1 else 0) - (if y mod 100 = 0 then 1 else 0)
      + (if y mod 400 = 0 then 1 else 0)"
    unfolding year_len_def is_leap_def by (rule leap_cases [OF i])
  have nxt: "days_before_year (y + 1) = 365 * y + y div 4 - y div 100 + y div 400"
    by (simp add: days_before_year_def)
  have cur: "days_before_year y = 365 * (y - 1) + (y - 1) div 4 - (y - 1) div 100 + (y - 1) div 400"
    by (simp only: days_before_year_def)
  show ?thesis
    by (rule year_sum [OF len nxt div_pred div_pred div_pred cur]) simp_all
qed

lemma year_len_pos: "365 \<le> year_len y \<and> year_len y \<le> 366"
  by (simp add: year_len_def)

lemma days_before_year_add: "days_before_year y + 365 * int n \<le> days_before_year (y + int n)"
proof (induction n)
  case (Suc n)
  have "days_before_year (y + int (Suc n)) = days_before_year (y + int n) + year_len (y + int n)"
    using days_before_year_Suc [of "y + int n"] by (simp add: ac_simps)
  then show ?case using Suc year_len_pos [of "y + int n"] by simp
qed simp

lemma days_before_year_mono: "y \<le> z \<Longrightarrow> days_before_year y \<le> days_before_year z"
  using days_before_year_add [of y "nat (z - y)"] by simp

lemma year_unique:
  assumes "days_before_year y \<le> n" "n < days_before_year (y + 1)"
    and "days_before_year z \<le> n" "n < days_before_year (z + 1)"
  shows "y = z"
proof (rule ccontr)
  assume "y \<noteq> z"
  then have "y + 1 \<le> z \<or> z + 1 \<le> y" by linarith
  then show False
    using days_before_year_mono [of "y + 1" z] days_before_year_mono [of "z + 1" y] assms by linarith
qed

text \<open>The year computed by the cycle arithmetic is the one that contains the day.\<close>

lemma days_before_year_cycles:
  assumes "0 \<le> c" "c \<le> 3" "0 \<le> q" "q \<le> 24" "0 \<le> k" "k \<le> 3"
  shows "days_before_year (400 * a + 100 * c + 4 * q + k + 1) =
           146097 * a + 36524 * c + 1461 * q + 365 * k"
proof -
  let ?z = "400 * a + 100 * c + 4 * q + k :: int"
  have "?z div 4 = 100 * a + 25 * c + q" "?z div 100 = 4 * a + c" "?z div 400 = a"
    using assms by (auto intro!: div_exactly)
  then show ?thesis by (simp add: days_before_year_def)
qed

lemma mod_full: "1 \<le> x \<Longrightarrow> x \<le> b \<Longrightarrow> (x mod b = 0) = (x = (b::int))"
  by (cases "x = b") auto

lemma is_leap_cycles:
  assumes "0 \<le> c" "c \<le> 3" "0 \<le> q" "q \<le> 24" "0 \<le> k" "k \<le> 3"
  shows "is_leap (400 * a + 100 * c + 4 * q + k + 1) \<longleftrightarrow> k = 3 \<and> (q \<noteq> 24 \<or> c = 3)"
proof -
  let ?y = "400 * a + 100 * c + 4 * q + k + 1 :: int"
  have "?y = (k + 1) + 4 * (100 * a + 25 * c + q)" by simp
  then have "?y mod 4 = (k + 1) mod 4" by (metis mod_mult_self2)
  moreover have "?y = (4 * q + k + 1) + 100 * (4 * a + c)" by simp
  then have "?y mod 100 = (4 * q + k + 1) mod 100" by (metis mod_mult_self2)
  moreover have "?y = (100 * c + 4 * q + k + 1) + 400 * a" by simp
  then have "?y mod 400 = (100 * c + 4 * q + k + 1) mod 400" by (metis mod_mult_self2)
  moreover have "(k + 1) mod 4 = 0 \<longleftrightarrow> k = 3"
    using mod_full [of "k + 1" 4] assms by auto
  moreover have "(4 * q + k + 1) mod 100 = 0 \<longleftrightarrow> k = 3 \<and> q = 24"
    using mod_full [of "4 * q + k + 1" 100] assms by linarith
  moreover have "(100 * c + 4 * q + k + 1) mod 400 = 0 \<longleftrightarrow> k = 3 \<and> q = 24 \<and> c = 3"
    using mod_full [of "100 * c + 4 * q + k + 1" 400] assms by linarith
  ultimately show ?thesis by (auto simp: is_leap_def)
qed

lemma quarter_off: "0 \<le> x \<Longrightarrow> x \<le> 4 \<Longrightarrow> x - x div 4 = (if x = 4 then 3 else (x::int))"
  by (cases "x = 4") simp_all

lemma year_of_day_bounds:
  "days_before_year (year_of_day n) \<le> n \<and> n < days_before_year (year_of_day n + 1)"
proof -
  define a r where ar: "a = n div 146097" "r = n mod 146097"
  define c where c: "c = r div 36524 - r div 36524 div 4"
  define r1 where r1: "r1 = r - 36524 * c"
  define q where q: "q = r1 div 1461"
  define r2 where r2: "r2 = r1 - 1461 * q"
  define k where k: "k = r2 div 365 - r2 div 365 div 4"
  have n: "n = 146097 * a + r" "0 \<le> r" "r < 146097" using ar by simp_all
  have "c = (if r div 36524 = 4 then 3 else r div 36524)"
    using n div_bounds [of 36524 r] unfolding c by (intro quarter_off) linarith+
  then have cb: "0 \<le> c" "c \<le> 3" "0 \<le> r1" "r1 < 36524 \<or> (c = 3 \<and> r1 \<le> 36524)"
    using n div_bounds [of 36524 r] unfolding r1 by (auto split: if_splits)
  have qb: "0 \<le> q" "q \<le> 24" "0 \<le> r2" "r2 < 1461" "q = 24 \<longrightarrow> c \<noteq> 3 \<longrightarrow> r2 < 1460"
    using cb div_bounds [of 1461 r1] unfolding q r2 by auto
  have "k = (if r2 div 365 = 4 then 3 else r2 div 365)"
    using qb div_bounds [of 365 r2] unfolding k by (intro quarter_off) linarith+
  then have kb: "0 \<le> k" "k \<le> 3" "365 * k \<le> r2" "r2 < 365 * k + 365 \<or> (k = 3 \<and> r2 = 1460)"
    using qb(3,4) div_bounds [of 365 r2] by (auto split: if_splits)
  let ?y = "400 * a + 100 * c + 4 * q + k + 1"
  have y: "year_of_day n = ?y"
    by (simp add: year_of_day_def Let_def ar c r1 q r2 k)
  have nn: "n = 146097 * a + 36524 * c + 1461 * q + r2" using n r1 r2 by simp
  have d: "days_before_year ?y = 146097 * a + 36524 * c + 1461 * q + 365 * k"
    by (rule days_before_year_cycles) (use cb qb kb in auto)
  have l: "is_leap ?y \<longleftrightarrow> k = 3 \<and> (q \<noteq> 24 \<or> c = 3)"
    by (rule is_leap_cycles) (use cb qb kb in auto)
  have "r2 < 365 * k + year_len ?y"
    using kb(4) qb(5) unfolding year_len_def l by auto
  then show ?thesis
    using kb(3) nn d unfolding y days_before_year_Suc by linarith
qed

lemma find_month_day:
  assumes "0 \<le> d" and "d < sum_list ls" and "find_month ls m0 d = (m, dd)"
    and "\<forall>l \<in> set ls. 0 < l"
  shows "m0 \<le> m \<and> m < m0 + int (length ls) \<and> 1 \<le> dd \<and> dd \<le> ls ! nat (m - m0) \<and>
         d = sum_list (take (nat (m - m0)) ls) + dd - 1"
  using assms
proof (induction ls m0 d arbitrary: m dd rule: find_month.induct)
  case (2 l ls m0 d)
  show ?case
  proof (cases "d < l \<or> ls = []")
    case True
    then show ?thesis using "2.prems" by auto
  next
    case False
    then have "m0 + 1 \<le> m \<and> m < m0 + 1 + int (length ls) \<and> 1 \<le> dd \<and>
        dd \<le> ls ! nat (m - (m0 + 1)) \<and> d - l = sum_list (take (nat (m - (m0 + 1))) ls) + dd - 1"
      using "2.prems" by (intro "2.IH") auto
    moreover from this have "nat (m - m0) = Suc (nat (m - (m0 + 1)))" by linarith
    ultimately show ?thesis by simp
  qed
qed simp

lemma find_month_unique:
  assumes "i < length ls" and "1 \<le> dd" and "dd \<le> ls ! i" and "\<forall>l \<in> set ls. 0 < l"
  shows "find_month ls m0 (sum_list (take i ls) + dd - 1) = (m0 + int i, dd)"
  using assms
proof (induction ls arbitrary: i m0)
  case (Cons l ls)
  show ?case
  proof (cases i)
    case 0
    then show ?thesis using Cons.prems by simp
  next
    case (Suc j)
    have "0 \<le> sum_list (take j ls)"
      using Cons.prems(4) by (intro sum_list_nonneg) (auto dest!: in_set_takeD intro: less_imp_le)
    then have "\<not> (l + sum_list (take j ls) + dd - 1 < l \<or> ls = [])"
      using Cons.prems Suc by auto
    then have "find_month (l # ls) m0 (l + sum_list (take j ls) + dd - 1)
        = find_month ls (m0 + 1) (sum_list (take j ls) + dd - 1)"
      by (simp add: algebra_simps)
    also have "\<dots> = (m0 + 1 + int j, dd)"
      using Cons.prems Suc by (intro Cons.IH) auto
    finally show ?thesis using Suc by simp
  qed
qed simp

lemma month_lens_facts:
  "length (month_lens y) = 12" "sum_list (month_lens y) = year_len y" "\<forall>l \<in> set (month_lens y). 0 < l"
  by (auto simp: month_lens_def year_len_def)

lemma civil_props:
  assumes "civil day = (y, m, d)"
  shows "1 \<le> m \<and> m \<le> 12 \<and> 1 \<le> d \<and> d \<le> month_lens y ! nat (m - 1) \<and>
         days_from_civil y m d = day"
proof -
  let ?n = "day + epoch_day"
  have y: "y = year_of_day ?n"
    and md: "find_month (month_lens y) 1 (?n - days_before_year y) = (m, d)"
    using assms by (auto simp: civil_def Let_def split: prod.splits)
  have b: "0 \<le> ?n - days_before_year y" "?n - days_before_year y < sum_list (month_lens y)"
    using year_of_day_bounds [of ?n] unfolding y days_before_year_Suc month_lens_facts(2) by auto
  show ?thesis
    using find_month_day [OF b md month_lens_facts(3)]
    by (auto simp: month_lens_facts days_from_civil_def days_before_month_def)
qed

lemma take_month_bound:
  assumes "i < 12" and "dd \<le> month_lens y ! i" and "1 \<le> dd"
  shows "0 \<le> sum_list (take i (month_lens y)) + dd - 1"
    and "sum_list (take i (month_lens y)) + dd - 1 < year_len y"
proof -
  let ?ls = "month_lens y"
  show "0 \<le> sum_list (take i ?ls) + dd - 1"
    using assms month_lens_facts(3) [of y]
    by (smt (verit) in_set_takeD sum_list_nonneg)
  have "?ls = take i ?ls @ ?ls ! i # drop (Suc i) ?ls"
    using assms(1) by (simp add: id_take_nth_drop month_lens_facts(1))
  then have "sum_list ?ls = sum_list (take i ?ls) + ?ls ! i + sum_list (drop (Suc i) ?ls)"
    by (metis add.assoc sum_list.Cons sum_list_append)
  moreover have "0 \<le> sum_list (drop (Suc i) ?ls)"
    using month_lens_facts(3) [of y] by (intro sum_list_nonneg) (auto dest: in_set_dropD intro: less_imp_le)
  ultimately show "sum_list (take i ?ls) + dd - 1 < year_len y"
    using assms month_lens_facts(2) [of y] by linarith
qed

lemma civil_days_from_civil:
  assumes "1 \<le> m" "m \<le> 12" "1 \<le> d" "d \<le> month_lens y ! nat (m - 1)"
  shows "civil (days_from_civil y m d) = (y, m, d)"
proof -
  let ?i = "nat (m - 1)"
  let ?x = "sum_list (take ?i (month_lens y)) + d - 1"
  let ?n = "days_before_year y + ?x"
  have i: "?i < 12" using assms by linarith
  have x: "0 \<le> ?x" "?x < year_len y"
    using take_month_bound [OF i assms(4,3)] by simp_all
  have "year_of_day ?n = y"
    using x by (intro year_unique [OF _ _ _ _])
      (use year_of_day_bounds [of ?n] days_before_year_Suc [of y] in auto)
  moreover have "find_month (month_lens y) 1 ?x = (1 + int ?i, d)"
    using i assms by (intro find_month_unique) (auto simp: month_lens_facts)
  moreover have "days_from_civil y m d + epoch_day = ?n"
    by (simp add: days_from_civil_def days_before_month_def)
  ultimately show ?thesis using assms(1) by (simp add: civil_def Let_def)
qed

end
