(* ===== verification/Cron.thy ===== *)
theory Cron
  imports GoStrings GoTime "HOL-Library.Word" "HOL-Library.While_Combinator"
begin

unbundle bit_operations_syntax

text \<open>
  \<^verbatim>\<open>internal/cron/cron.go\<close>: the parser of five-field expressions into bit masks, and the search
  for the next matching instant. A mask is a 64-bit word. The search loop of \<^verbatim>\<open>Next\<close> is written
  as a \<open>while_option\<close>: \<open>None\<close> means that it never ends. \<open>Next s t = Some None\<close> is the code's
  \<^verbatim>\<open>(time.Time{}, false)\<close>: the search went past its horizon.
\<close>

section \<open>Parsing\<close>

type_synonym u64 = "64 word"

record bounds =
  b_name :: string
  b_min :: nat
  b_max :: nat
  b_names :: "(string \<times> nat) list"

definition minuteBounds :: bounds where
  "minuteBounds = \<lparr>b_name = ''minute'', b_min = 0, b_max = 59, b_names = []\<rparr>"

definition hourBounds :: bounds where
  "hourBounds = \<lparr>b_name = ''hour'', b_min = 0, b_max = 23, b_names = []\<rparr>"

definition domBounds :: bounds where
  "domBounds = \<lparr>b_name = ''day of month'', b_min = 1, b_max = 31, b_names = []\<rparr>"

definition monthBounds :: bounds where
  "monthBounds = \<lparr>b_name = ''month'', b_min = 1, b_max = 12, b_names =
     [(''jan'', 1), (''feb'', 2), (''mar'', 3), (''apr'', 4), (''may'', 5), (''jun'', 6),
      (''jul'', 7), (''aug'', 8), (''sep'', 9), (''oct'', 10), (''nov'', 11), (''dec'', 12)]\<rparr>"

definition dowBounds :: bounds where
  "dowBounds = \<lparr>b_name = ''day of week'', b_min = 0, b_max = 6, b_names =
     [(''sun'', 0), (''mon'', 1), (''tue'', 2), (''wed'', 3), (''thu'', 4), (''fri'', 5),
      (''sat'', 6)]\<rparr>"

definition descriptors :: "string \<rightharpoonup> string" where
  "descriptors = map_of
     [(''@yearly'', ''0 0 1 1 *''), (''@annually'', ''0 0 1 1 *''), (''@monthly'', ''0 0 1 * *''),
      (''@weekly'', ''0 0 * * 0''), (''@daily'', ''0 0 * * *''), (''@midnight'', ''0 0 * * *''),
      (''@hourly'', ''0 * * * *'')]"

text \<open>The errors of the parser, each with what its message names.\<close>

datatype cron_error =
    ErrEmptySpec
  | UnknownDescriptor string
  | WrongFieldCount string nat
  | MatchesNothing string string
  | EmptyTerm string
  | BadStep string string
  | InvertedRange string string
  | NotANumber string string
  | OutOfRange string nat

definition parseValue :: "string \<Rightarrow> bounds \<Rightarrow> cron_error + nat" where
  "parseValue txt b =
     (let trimmed = TrimSpace txt in
      case map_of (b_names b) (ToLower trimmed) of
        Some value \<Rightarrow> Inr value
      | None \<Rightarrow>
          (case ParseUint32 trimmed of
             None \<Rightarrow> Inl (NotANumber (b_name b) txt)
           | Some value \<Rightarrow>
               if b_name b = b_name dowBounds \<and> value = 7 then Inr 0
               else if value < b_min b \<or> value > b_max b then Inl (OutOfRange (b_name b) value)
               else Inr value))"

definition parseRange :: "string \<Rightarrow> bounds \<Rightarrow> bool \<Rightarrow> cron_error + (nat \<times> nat)" where
  "parseRange part b hasStep =
     (if part = ''*'' then Inr (b_min b, b_max b)
      else case Cut part (CHR ''-'') of (lowText, highText, isRange) \<Rightarrow>
        (case parseValue lowText b of
           Inl e \<Rightarrow> Inl e
         | Inr low \<Rightarrow>
             if isRange then
               (case parseValue highText b of
                  Inl e \<Rightarrow> Inl e
                | Inr high \<Rightarrow> if high < low then Inl (InvertedRange (b_name b) part)
                             else Inr (low, high))
             else if hasStep then Inr (low, b_max b)
             else Inr (low, low)))"

text \<open>The loop \<^verbatim>\<open>for value := low; value <= high; value += step\<close>; the step is positive.\<close>

function mask_loop :: "u64 \<Rightarrow> nat \<Rightarrow> nat \<Rightarrow> nat \<Rightarrow> u64" where
  "mask_loop msk value high step =
     (if value \<le> high \<and> 0 < step
      then mask_loop (msk OR push_bit value 1) (value + step) high step
      else msk)"
  by pat_completeness auto
termination by (relation "measure (\<lambda>(msk, value, high, step). Suc high - value)") auto

declare mask_loop.simps [simp del]

definition parseItem :: "string \<Rightarrow> bounds \<Rightarrow> cron_error + u64" where
  "parseItem item b =
     (if item = [] then Inl (EmptyTerm (b_name b))
      else case Cut item (CHR ''/'') of (rangePart, stepPart, hasStep) \<Rightarrow>
        (let step = (if hasStep
                     then (case ParseUint32 stepPart of
                             None \<Rightarrow> Inl (BadStep (b_name b) stepPart)
                           | Some parsed \<Rightarrow> if parsed = 0 then Inl (BadStep (b_name b) stepPart)
                                           else Inr parsed)
                     else Inr 1)
         in case step of
              Inl e \<Rightarrow> Inl e
            | Inr step \<Rightarrow>
                (case parseRange rangePart b hasStep of
                   Inl e \<Rightarrow> Inl e
                 | Inr (low, high) \<Rightarrow> Inr (mask_loop 0 low high step))))"

fun parse_items :: "string list \<Rightarrow> bounds \<Rightarrow> u64 \<Rightarrow> cron_error + u64" where
  "parse_items [] b msk = Inr msk"
| "parse_items (item # items) b msk =
     (case parseItem (TrimSpace item) b of
        Inl e \<Rightarrow> Inl e
      | Inr bits \<Rightarrow> parse_items items b (msk OR bits))"

definition parseField :: "string \<Rightarrow> bounds \<Rightarrow> cron_error + u64" where
  "parseField field b =
     (case parse_items (Split field (CHR '','')) b 0 of
        Inl e \<Rightarrow> Inl e
      | Inr msk \<Rightarrow> if msk = 0 then Inl (MatchesNothing (b_name b) field) else Inr msk)"

record Schedule =
  sc_minute :: u64
  sc_hour :: u64
  sc_dom :: u64
  sc_month :: u64
  sc_dow :: u64
  sc_domRestricted :: bool
  sc_dowRestricted :: bool
  sc_loc :: Location
  sc_spec :: string

text \<open>A nil location is \<open>None\<close>.\<close>

definition Parse :: "string \<Rightarrow> Location option \<Rightarrow> cron_error + Schedule" where
  "Parse spec loc =
     (let loc = (case loc of None \<Rightarrow> UTC | Some l \<Rightarrow> l);
          original = TrimSpace spec
      in if original = [] then Inl ErrEmptySpec
         else
           let expanded = (if HasPrefix original ''@''
                           then (case descriptors (ToLower original) of
                                   None \<Rightarrow> Inl (UnknownDescriptor original)
                                 | Some replacement \<Rightarrow> Inr replacement)
                           else Inr original)
           in case expanded of
                Inl e \<Rightarrow> Inl e
              | Inr expanded \<Rightarrow>
                  (case Fields expanded of
                     [f0, f1, f2, f3, f4] \<Rightarrow>
                       (case parseField f0 minuteBounds of Inl e \<Rightarrow> Inl e | Inr mi \<Rightarrow>
                       (case parseField f1 hourBounds of Inl e \<Rightarrow> Inl e | Inr ho \<Rightarrow>
                       (case parseField f2 domBounds of Inl e \<Rightarrow> Inl e | Inr dm \<Rightarrow>
                       (case parseField f3 monthBounds of Inl e \<Rightarrow> Inl e | Inr mo \<Rightarrow>
                       (case parseField f4 dowBounds of Inl e \<Rightarrow> Inl e | Inr dw \<Rightarrow>
                          Inr \<lparr>sc_minute = mi, sc_hour = ho, sc_dom = dm, sc_month = mo,
                               sc_dow = dw, sc_domRestricted = (f2 \<noteq> ''*''),
                               sc_dowRestricted = (f4 \<noteq> ''*''), sc_loc = loc,
                               sc_spec = original\<rparr>)))))
                   | fs \<Rightarrow> Inl (WrongFieldCount original (length fs))))"

section \<open>Searching\<close>

definition horizon :: duration where
  "horizon = 5 * 365 * 24 * hour"

text \<open>\<^verbatim>\<open>mask & (1 << uint(v)) != 0\<close>.\<close>

definition mask_has :: "u64 \<Rightarrow> int \<Rightarrow> bool" where
  "mask_has msk v = (msk AND push_bit (nat v) 1 \<noteq> 0)"

definition matchesMinute :: "Schedule \<Rightarrow> gtime \<Rightarrow> bool" where
  "matchesMinute s t = mask_has (sc_minute s) (Minute (sc_loc s) t)"

definition matchesHour :: "Schedule \<Rightarrow> gtime \<Rightarrow> bool" where
  "matchesHour s t = mask_has (sc_hour s) (Hour (sc_loc s) t)"

definition matchesMonth :: "Schedule \<Rightarrow> gtime \<Rightarrow> bool" where
  "matchesMonth s t = mask_has (sc_month s) (Month (sc_loc s) t)"

definition matchesDay :: "Schedule \<Rightarrow> gtime \<Rightarrow> bool" where
  "matchesDay s t =
     (let domMatch = mask_has (sc_dom s) (Day (sc_loc s) t);
          dowMatch = mask_has (sc_dow s) (Weekday (sc_loc s) t)
      in if sc_domRestricted s \<and> sc_dowRestricted s then domMatch \<or> dowMatch
         else domMatch \<and> dowMatch)"

definition startOfNextMonth :: "Location \<Rightarrow> gtime \<Rightarrow> gtime" where
  "startOfNextMonth loc t = AddDate loc (Date (Year loc t) (Month loc t) 1 0 0 0 0 loc) 0 1 0"

definition startOfNextDay :: "Location \<Rightarrow> gtime \<Rightarrow> gtime" where
  "startOfNextDay loc t =
     AddDate loc (Date (Year loc t) (Month loc t) (Day loc t) 0 0 0 0 loc) 0 0 1"

definition startOfNextMinute :: "Location \<Rightarrow> gtime \<Rightarrow> gtime" where
  "startOfNextMinute loc t =
     Date (Year loc t) (Month loc t) (Day loc t) (Hour loc t) (Minute loc t) 0 0 loc + minute"

definition startOfNextHour :: "Location \<Rightarrow> gtime \<Rightarrow> gtime" where
  "startOfNextHour loc t =
     Date (Year loc t) (Month loc t) (Day loc t) (Hour loc t) 0 0 0 loc + hour"

datatype search = Searching gtime | Found gtime | Exhausted

fun is_searching :: "search \<Rightarrow> bool" where
  "is_searching (Searching _) = True"
| "is_searching _ = False"

text \<open>One turn of the loop in \<^verbatim>\<open>Next\<close>.\<close>

fun next_step :: "Schedule \<Rightarrow> gtime \<Rightarrow> search \<Rightarrow> search" where
  "next_step s limit (Searching current) =
     (if current > limit then Exhausted
      else if \<not> matchesMonth s current then Searching (startOfNextMonth (sc_loc s) current)
      else if \<not> matchesDay s current then Searching (startOfNextDay (sc_loc s) current)
      else if \<not> matchesHour s current then Searching (startOfNextHour (sc_loc s) current)
      else if \<not> matchesMinute s current then Searching (current + minute)
      else Found current)"
| "next_step s limit st = st"

definition next_start :: "Schedule \<Rightarrow> gtime \<Rightarrow> gtime" where
  "next_start s t = startOfNextMinute (sc_loc s) t"

definition Next :: "Schedule \<Rightarrow> gtime \<Rightarrow> gtime option option" where
  "Next s t =
     (let current = next_start s t; limit = current + horizon
      in map_option (\<lambda>st. case st of Found u \<Rightarrow> Some u | _ \<Rightarrow> None)
           (while_option is_searching (next_step s limit) (Searching current)))"

text \<open>
  The loop of \<^verbatim>\<open>Between\<close>, for any search function; \<open>None\<close> when one of the searches does not end.
\<close>

fun between_loop :: "(gtime \<Rightarrow> gtime option option) \<Rightarrow> gtime \<Rightarrow> gtime \<Rightarrow> nat \<Rightarrow> gtime list option" where
  "between_loop nxt until current 0 = Some []"
| "between_loop nxt until current (Suc n) =
     (case nxt current of
        None \<Rightarrow> None
      | Some None \<Rightarrow> Some []
      | Some (Some u) \<Rightarrow>
          if u > until then Some []
          else map_option (Cons u) (between_loop nxt until u n))"

definition Between :: "Schedule \<Rightarrow> gtime \<Rightarrow> gtime \<Rightarrow> int \<Rightarrow> gtime list option" where
  "Between s after until limit = between_loop (Next s) until after (nat limit)"

section \<open>Masks\<close>

lemma bit_push_one: "bit (push_bit v (1 :: u64)) i \<longleftrightarrow> i = v \<and> v < 64"
  by (auto simp: bit_exp_iff)

lemma bit_less_64: "bit (m :: u64) i \<Longrightarrow> i < 64"
  using bit_imp_le_length [of m i] by simp

lemma mask_has_bit: "mask_has m v = bit m (nat v)"
proof -
  have "m AND push_bit n 1 \<noteq> 0 \<longleftrightarrow> bit m n" for n
  proof
    assume "m AND push_bit n 1 \<noteq> 0"
    then obtain i where "bit (m AND push_bit n 1) i" by (auto simp: bit_eq_iff)
    then show "bit m n" unfolding bit_and_iff bit_push_one by blast
  next
    assume b: "bit m n"
    then have "bit (m AND push_bit n 1) n"
      unfolding bit_and_iff bit_push_one by (simp add: bit_less_64)
    then show "m AND push_bit n 1 \<noteq> 0" by (metis bit_0_eq bot_apply bot_bool_def)
  qed
  then show ?thesis by (simp only: mask_has_def)
qed


section \<open>What the parser accepts\<close>












text \<open>
  Sunday written as 7 inside a range: \<^verbatim>\<open>0-7\<close> is accepted and means Sunday only (7 is replaced by 0
  before the range is formed, which makes it 0-0), and \<^verbatim>\<open>5-7\<close> is refused as inverted, although
  the two mean every day and Friday to Sunday where 7 is Sunday.
\<close>

theorem dow_range_to_seven:
  "(case Parse ''0 0 * * 0-7'' None of Inl _ \<Rightarrow> False | Inr s \<Rightarrow> sc_dow s = 1) \<and>
   Parse ''0 0 * * 5-7'' None = Inl (InvertedRange ''day of week'' ''5-7'')"
proof
  show "case Parse ''0 0 * * 0-7'' None of Inl _ \<Rightarrow> False | Inr s \<Rightarrow> sc_dow s = 1" by code_simp
  show "Parse ''0 0 * * 5-7'' None = Inl (InvertedRange ''day of week'' ''5-7'')" by code_simp
qed

end
