(* ===== verification/CronSearch.thy ===== *)
theory CronSearch
  imports Cron
begin

text \<open>
  What the search of \<^verbatim>\<open>internal/cron/cron.go\<close> computes. In a zone that keeps one offset from UTC
  (UTC itself, and every zone between two changes of its clock) it ends and finds the first
  occurrence. In a zone that sets its clock back it need not end: the last section computes
  what it does in New York on the night of 1 November 2026.
\<close>

section \<open>Zones with one offset\<close>

definition fixed :: "Location \<Rightarrow> bool" where
  "fixed loc = (loc_tx loc = [])"

lemma fixed_offset: "fixed loc \<Longrightarrow> offset_at loc x = loc_offset loc"
  by (simp add: fixed_def offset_at_def loc_lookup_def)

lemma fixed_wall: "fixed loc \<Longrightarrow> wall loc t = t div second + loc_offset loc"
  by (simp add: wall_def fixed_offset unix_def)

lemma mod_div_factor: "0 < b \<Longrightarrow> 0 < c \<Longrightarrow> x mod (b * c) div b = x div b mod (c::int)"
  by (simp add: zmod_zmult2_eq)

lemma floor_in_steps:
  assumes "0 < b" and "0 < (c::int)"
  shows "x div (b * c) * (b * c) + x mod (b * c) div b * b = x div b * b"
proof -
  have "x div (b * c) * (b * c) + x mod (b * c) div b * b =
      b * (c * (x div b div c) + x div b mod c)"
    unfolding mod_div_factor [OF assms] zdiv_zmult2_eq [OF less_imp_le [OF assms(2)]]
    by (simp only: distrib_left mult.assoc mult.commute mult.left_commute)
  then show ?thesis by (simp only: mult_div_mod_eq mult.commute)
qed

lemma fixed_from_wall: "fixed loc \<Longrightarrow> from_wall loc w = w - loc_offset loc"
  by (simp add: from_wall_def fixed_def loc_lookup_def Let_def)

lemma fixed_Date:
  "fixed loc \<Longrightarrow> 1 \<le> m \<Longrightarrow> m \<le> 12 \<Longrightarrow>
     Date y m d hh mm ss 0 loc =
       (days_from_civil y m d * 86400 + hh * 3600 + mm * 60 + ss - loc_offset loc) * second"
  by (simp add: Date_def fixed_from_wall)

text \<open>The instant at which the wall clock of a fixed zone reads \<open>w\<close> seconds.\<close>

definition at_wall :: "Location \<Rightarrow> int \<Rightarrow> gtime" where
  "at_wall loc w = (w - loc_offset loc) * second"

lemma second_pos: "0 < second"
  by (simp add: second_def)

lemma wall_at_wall [simp]: "fixed loc \<Longrightarrow> wall loc (at_wall loc w) = w"
  using second_pos by (simp add: fixed_wall at_wall_def)

lemma at_wall_add: "at_wall loc w + k * second = at_wall loc (w + k)"
  by (simp add: at_wall_def algebra_simps)

lemma at_wall_le_iff [simp]: "at_wall loc v \<le> at_wall loc w \<longleftrightarrow> v \<le> w"
  using second_pos by (simp add: at_wall_def)

lemma at_wall_less_iff [simp]: "at_wall loc v < at_wall loc w \<longleftrightarrow> v < w"
  using second_pos by (simp add: at_wall_def)

lemma less_mult_iff_div_less:
  assumes "0 < (s::int)"
  shows "t < w * s \<longleftrightarrow> t div s < w"
proof
  show "t < w * s \<Longrightarrow> t div s < w"
    using div_bounds [OF assms, of t] assms
    by (smt (verit) mult.commute mult_less_cancel_left_pos)
  assume "t div s < w"
  then have "s * (t div s + 1) \<le> s * w" using assms by simp
  then show "t < w * s" using div_bounds [OF assms, of t] by (simp add: algebra_simps)
qed

lemma wall_less_iff: "fixed loc \<Longrightarrow> t < at_wall loc w \<longleftrightarrow> wall loc t < w"
proof -
  assume f: "fixed loc"
  have "t < (w - loc_offset loc) * second \<longleftrightarrow> t div second < w - loc_offset loc"
    by (rule less_mult_iff_div_less [OF second_pos])
  then show ?thesis by (simp add: at_wall_def fixed_wall [OF f] algebra_simps)
qed

lemma wall_le_iff: "fixed loc \<Longrightarrow> at_wall loc w \<le> t \<longleftrightarrow> w \<le> wall loc t"
  using wall_less_iff [of loc t w] by linarith

lemma civil_fields:
  fixes t
  assumes "fixed loc"
  shows "1 \<le> Month loc t" "Month loc t \<le> 12"
    "days_from_civil (Year loc t) (Month loc t) (Day loc t) = wall loc t div 86400"
    "1 \<le> Day loc t"
    "Day loc t \<le> month_lens (Year loc t) ! nat (Month loc t - 1)"
  using civil_props [of "wall loc t div 86400" "Year loc t" "Month loc t" "Day loc t"]
  by (simp_all add: Year_def Month_def Day_def)

lemma startOfNextMinute_fixed:
  assumes "fixed loc"
  shows "startOfNextMinute loc t = at_wall loc (wall loc t div 60 * 60 + 60)"
proof -
  have "wall loc t div 86400 * 86400 + wall loc t mod 86400 div 3600 * 3600 +
        wall loc t mod 3600 div 60 * 60 = wall loc t div 60 * 60"
    using floor_in_steps [of 3600 24 "wall loc t"] floor_in_steps [of 60 60 "wall loc t"] by simp
  moreover have "minute = 60 * second" by (simp add: minute_def second_def)
  ultimately show ?thesis
    using civil_fields [OF assms, of t]
    by (simp add: startOfNextMinute_def fixed_Date [OF assms] Hour_def Minute_def at_wall_def
        algebra_simps)
qed

lemma startOfNextHour_fixed:
  assumes "fixed loc"
  shows "startOfNextHour loc t = at_wall loc (wall loc t div 3600 * 3600 + 3600)"
proof -
  have "wall loc t div 86400 * 86400 + wall loc t mod 86400 div 3600 * 3600 =
        wall loc t div 3600 * 3600"
    using floor_in_steps [of 3600 24 "wall loc t"] by simp
  moreover have "hour = 3600 * second" by (simp add: hour_def second_def)
  ultimately show ?thesis
    using civil_fields [OF assms, of t]
    by (simp add: startOfNextHour_def fixed_Date [OF assms] Hour_def at_wall_def algebra_simps)
qed

lemma Date_midnight:
  assumes "fixed loc" "1 \<le> m" "m \<le> 12"
  shows "Date y m d 0 0 0 0 loc = at_wall loc (days_from_civil y m d * 86400)"
  by (simp add: fixed_Date assms at_wall_def)

lemma fields_at_midnight:
  assumes "fixed loc"
  shows "Hour loc (at_wall loc (D * 86400)) = 0" "Minute loc (at_wall loc (D * 86400)) = 0"
    "Second loc (at_wall loc (D * 86400)) = 0" "Nanosecond (at_wall loc (D * 86400)) = 0"
proof -
  have "D * 86400 = 3600 * (24 * D)" "D * 86400 = 60 * (1440 * D)" by simp_all
  then have "D * 86400 mod 3600 = 0" "D * 86400 mod 60 = 0"
    by (metis mod_mult_self1_is_0)+
  then show "Hour loc (at_wall loc (D * 86400)) = 0" "Minute loc (at_wall loc (D * 86400)) = 0"
    "Second loc (at_wall loc (D * 86400)) = 0"
    using assms by (simp_all add: Hour_def Minute_def Second_def)
  show "Nanosecond (at_wall loc (D * 86400)) = 0" by (simp add: Nanosecond_def at_wall_def)
qed

lemma days_from_civil_Suc_day: "days_from_civil y m (d + 1) = days_from_civil y m d + 1"
  by (simp add: days_from_civil_def)

lemma startOfNextDay_fixed:
  assumes f: "fixed loc"
  shows "startOfNextDay loc t = at_wall loc ((wall loc t div 86400 + 1) * 86400)"
proof -
  let ?D = "wall loc t div 86400"
  let ?u = "at_wall loc (?D * 86400)"
  have "Date (Year loc t) (Month loc t) (Day loc t) 0 0 0 0 loc = ?u"
    using civil_fields [OF f, of t] by (simp add: Date_midnight [OF f])
  moreover have "AddDate loc ?u 0 0 1 = at_wall loc ((?D + 1) * 86400)"
    using civil_fields [OF f, of ?u] f
    by (simp add: AddDate_def fields_at_midnight Date_midnight days_from_civil_Suc_day)
  ultimately show ?thesis by (simp add: startOfNextDay_def)
qed

text \<open>The first day of the month after the one that contains day \<open>D\<close>.\<close>

definition next_month_day :: "int \<Rightarrow> int" where
  "next_month_day D = (case civil D of (y, m, d) \<Rightarrow>
     days_from_civil y m 1 + month_lens y ! nat (m - 1))"

lemma days_from_civil_next_month:
  assumes "1 \<le> m" "m \<le> 12"
  shows "days_from_civil (y + m div 12) (m mod 12 + 1) 1 =
         days_from_civil y m 1 + month_lens y ! nat (m - 1)"
proof (cases "m = 12")
  case True
  have "sum_list (take 12 (month_lens y)) = year_len y"
    using month_lens_facts [of y] by (metis order_refl take_all_iff)
  moreover have "sum_list (take 12 (month_lens y)) =
      sum_list (take 11 (month_lens y)) + month_lens y ! 11"
    by (simp add: month_lens_def eval_nat_numeral)
  ultimately show ?thesis
    using True by (simp add: days_from_civil_def days_before_month_def days_before_year_Suc)
next
  case False
  then have m: "m div 12 = 0" "m mod 12 = m" using assms by auto
  have "nat m = Suc (nat (m - 1))" using assms by linarith
  moreover have "nat (m - 1) < length (month_lens y)"
    using assms by (simp add: month_lens_facts)
  ultimately have "sum_list (take (nat m) (month_lens y)) =
      sum_list (take (nat (m - 1)) (month_lens y)) + month_lens y ! nat (m - 1)"
    by (simp add: take_Suc_conv_app_nth)
  then show ?thesis by (simp add: m days_from_civil_def days_before_month_def)
qed

lemma same_month_until:
  assumes "D \<le> E" and "E < next_month_day D"
  shows "fst (snd (civil E)) = fst (snd (civil D))"
proof -
  obtain y m d where c: "civil D = (y, m, d)" by (cases "civil D")
  note p = civil_props [OF c]
  let ?e = "d + (E - D)"
  have E: "E = days_from_civil y m ?e"
    using p by (simp add: days_from_civil_def)
  have "?e \<le> month_lens y ! nat (m - 1)"
    using assms(2) p by (simp add: next_month_day_def c days_from_civil_def)
  then have "civil (days_from_civil y m ?e) = (y, m, ?e)"
    using p assms(1) by (intro civil_days_from_civil) auto
  then show ?thesis using c E by simp
qed

lemma next_month_day_gt: "D < next_month_day D"
proof -
  obtain y m d where c: "civil D = (y, m, d)" by (cases "civil D")
  show ?thesis
    using civil_props [OF c] by (simp add: next_month_day_def c days_from_civil_def)
qed

lemma startOfNextMonth_fixed:
  assumes f: "fixed loc"
  shows "startOfNextMonth loc t = at_wall loc (next_month_day (wall loc t div 86400) * 86400)"
proof -
  obtain y m d where c: "civil (wall loc t div 86400) = (y, m, d)"
    by (cases "civil (wall loc t div 86400)")
  note p = civil_props [OF c]
  let ?F = "days_from_civil y m 1"
  let ?u = "at_wall loc (?F * 86400)"
  have u: "Date (Year loc t) (Month loc t) 1 0 0 0 0 loc = ?u"
    using p c by (simp add: Date_midnight [OF f] Year_def Month_def)
  have "civil ?F = (y, m, 1)"
    using p by (intro civil_days_from_civil) auto
  then have fields: "Year loc ?u = y" "Month loc ?u = m" "Day loc ?u = 1"
    using f by (simp_all add: Year_def Month_def Day_def)
  have "AddDate loc ?u 0 1 0 =
      at_wall loc (days_from_civil (y + m div 12) (m mod 12 + 1) 1 * 86400)"
    using f fields fields_at_midnight [OF f, of ?F]
    by (simp add: AddDate_def Date_def fixed_from_wall at_wall_def)
  also have "\<dots> = at_wall loc (next_month_day (wall loc t div 86400) * 86400)"
    using days_from_civil_next_month [of m y] p by (simp add: next_month_day_def c)
  finally show ?thesis by (simp add: startOfNextMonth_def u)
qed

section \<open>The search in a fixed zone\<close>

definition matches :: "Schedule \<Rightarrow> gtime \<Rightarrow> bool" where
  "matches s t = (matchesMonth s t \<and> matchesDay s t \<and> matchesHour s t \<and> matchesMinute s t)"

text \<open>The instants a schedule can fire at: those at which the wall clock shows a full minute.\<close>

definition on_minute :: "Location \<Rightarrow> gtime \<Rightarrow> bool" where
  "on_minute loc t = (\<exists>k. t = at_wall loc (60 * k))"

lemma on_minuteI: "t = at_wall loc (60 * k) \<Longrightarrow> on_minute loc t"
  by (auto simp: on_minute_def)

lemma same_day_fields:
  assumes "wall loc u div 86400 = wall loc t div 86400"
  shows "Month loc u = Month loc t" "Day loc u = Day loc t" "Weekday loc u = Weekday loc t"
  using assms by (simp_all add: Month_def Day_def Weekday_def)

lemma div_between: "0 < b \<Longrightarrow> x \<le> y \<Longrightarrow> y < b * (x div b) + b \<Longrightarrow> y div b = x div (b::int)"
  using div_bounds [of b x] by (intro div_exactly) auto

lemma skip_month:
  assumes f: "fixed (sc_loc s)" and no: "\<not> matchesMonth s c"
    and v: "c \<le> v" "v < startOfNextMonth (sc_loc s) c"
  shows "\<not> matches s v"
proof -
  let ?D = "\<lambda>t. wall (sc_loc s) t div 86400"
  have "wall (sc_loc s) c \<le> wall (sc_loc s) v"
    using v(1) zdiv_mono1 [of c v second] second_pos by (simp add: fixed_wall [OF f])
  then have "?D c \<le> ?D v" by (simp add: zdiv_mono1)
  moreover have "wall (sc_loc s) v < next_month_day (?D c) * 86400"
    using v(2) by (simp add: startOfNextMonth_fixed [OF f] wall_less_iff [OF f])
  then have "?D v < next_month_day (?D c)" by (simp add: less_mult_iff_div_less)
  ultimately have "Month (sc_loc s) v = Month (sc_loc s) c"
    unfolding Month_def by (rule same_month_until)
  then show ?thesis using no by (simp add: matches_def matchesMonth_def)
qed

lemma wall_mono: "fixed loc \<Longrightarrow> t \<le> u \<Longrightarrow> wall loc t \<le> wall loc u"
  using second_pos by (simp add: fixed_wall zdiv_mono1)

lemma skip_day:
  assumes f: "fixed (sc_loc s)" and no: "\<not> matchesDay s c"
    and v: "c \<le> v" "v < startOfNextDay (sc_loc s) c"
  shows "\<not> matches s v"
proof -
  have "wall (sc_loc s) v div 86400 = wall (sc_loc s) c div 86400"
    using v wall_mono [OF f v(1)]
    by (intro div_between) (simp_all add: startOfNextDay_fixed [OF f] wall_less_iff [OF f])
  then show ?thesis
    using no same_day_fields [of "sc_loc s" v c]
    by (simp add: matches_def matchesDay_def)
qed

lemma skip_hour:
  assumes f: "fixed (sc_loc s)" and no: "\<not> matchesHour s c"
    and v: "c \<le> v" "v < startOfNextHour (sc_loc s) c"
  shows "\<not> matches s v"
proof -
  have d: "wall (sc_loc s) v div 3600 = wall (sc_loc s) c div 3600"
    using v wall_mono [OF f v(1)]
    by (intro div_between) (simp_all add: startOfNextHour_fixed [OF f] wall_less_iff [OF f])
  have "w mod 86400 div 3600 = w div 3600 mod 24" for w :: int
    using mod_div_factor [of 3600 24 w] by simp
  then have "Hour (sc_loc s) v = Hour (sc_loc s) c" by (simp add: Hour_def d)
  then show ?thesis using no by (simp add: matches_def matchesHour_def)
qed

lemma minute_second: "minute = 60 * second"
  by (simp add: minute_def second_def)

lemma skip_minute:
  assumes f: "fixed (sc_loc s)" and no: "\<not> matchesMinute s c" and al: "on_minute (sc_loc s) c"
    and v: "c \<le> v" "v < c + minute"
  shows "\<not> matches s v"
proof -
  obtain k where c: "c = at_wall (sc_loc s) (60 * k)" using al by (auto simp: on_minute_def)
  have "v < at_wall (sc_loc s) (60 * k + 60)"
    using v(2) at_wall_add [of "sc_loc s" "60 * k" 60] by (simp add: c minute_second)
  then have d: "wall (sc_loc s) v div 60 = wall (sc_loc s) c div 60"
    using v wall_mono [OF f v(1)] f
    by (intro div_between) (simp_all add: wall_less_iff [OF f] c)
  have "w mod 3600 div 60 = w div 60 mod 60" for w :: int
    using mod_div_factor [of 60 60 w] by simp
  then have "Minute (sc_loc s) v = Minute (sc_loc s) c" by (simp add: Minute_def d)
  then show ?thesis using no by (simp add: matches_def matchesMinute_def)
qed

text \<open>Where one turn of the search moves to.\<close>

lemma next_step_moves:
  assumes f: "fixed (sc_loc s)" and al: "on_minute (sc_loc s) c"
    and st: "next_step s limit (Searching c) = Searching c'"
  shows "c < c' \<and> on_minute (sc_loc s) c' \<and> c \<le> limit \<and> (\<forall>v. c \<le> v \<longrightarrow> v < c' \<longrightarrow> \<not> matches s v)"
proof -
  let ?l = "sc_loc s"
  let ?w = "wall ?l c"
  obtain k where c: "c = at_wall ?l (60 * k)" using al by (auto simp: on_minute_def)
  then have w: "?w = 60 * k" using f by simp
  have lim: "c \<le> limit" using st by (auto split: if_splits)
  consider (mo) "\<not> matchesMonth s c" "c' = startOfNextMonth ?l c"
    | (dy) "\<not> matchesDay s c" "c' = startOfNextDay ?l c"
    | (ho) "\<not> matchesHour s c" "c' = startOfNextHour ?l c"
    | (mi) "\<not> matchesMinute s c" "c' = c + minute"
    using st by (auto split: if_splits)
  then show ?thesis
  proof cases
    case mo
    let ?F = "next_month_day (?w div 86400)"
    have c': "c' = at_wall ?l (60 * (?F * 1440))"
      using mo f by (simp add: startOfNextMonth_fixed mult.commute)
    have "?w < ?F * 86400"
      using next_month_day_gt [of "?w div 86400"] by (simp add: less_mult_iff_div_less)
    then have "c < c'" using c w c' by simp
    then show ?thesis
      using lim skip_month [OF f mo(1), folded mo(2)] on_minuteI [OF c'] by simp
  next
    case dy
    let ?F = "?w div 86400 + 1"
    have c': "c' = at_wall ?l (60 * (?F * 1440))"
      using dy f by (simp add: startOfNextDay_fixed mult.commute)
    have "?w < ?F * 86400" by (simp add: less_mult_iff_div_less)
    then have "c < c'" using c w c' by simp
    then show ?thesis
      using lim skip_day [OF f dy(1), folded dy(2)] on_minuteI [OF c'] by simp
  next
    case ho
    let ?F = "?w div 3600 + 1"
    have sixty: "60 * ((x + 1) * 60) = x * 3600 + (3600::int)" for x by simp
    have c': "c' = at_wall ?l (60 * (?F * 60))"
      using ho(2) unfolding startOfNextHour_fixed [OF f] sixty .
    have "?w < ?F * 3600" by (simp add: less_mult_iff_div_less)
    then have "c < c'" using c w c' by simp
    then show ?thesis
      using lim skip_hour [OF f ho(1), folded ho(2)] on_minuteI [OF c'] by simp
  next
    case mi
    have c': "c' = at_wall ?l (60 * (k + 1))"
      using mi at_wall_add [of ?l "60 * k" 60] by (simp add: c minute_second)
    then have "c < c'" using c by simp
    then show ?thesis
      using lim skip_minute [OF f mi(1) al, folded mi(2)] on_minuteI [OF c'] by simp
  qed
qed

lemma next_start_fixed:
  assumes f: "fixed (sc_loc s)"
  shows "on_minute (sc_loc s) (next_start s t) \<and> t < next_start s t \<and>
         (\<forall>v. t < v \<longrightarrow> v < next_start s t \<longrightarrow> \<not> on_minute (sc_loc s) v)"
proof -
  let ?l = "sc_loc s"
  let ?k = "wall ?l t div 60"
  have six: "60 * (x + 1) = x * 60 + (60::int)" for x by simp
  have n: "next_start s t = at_wall ?l (60 * (?k + 1))"
    unfolding next_start_def startOfNextMinute_fixed [OF f] six ..
  have b: "60 * ?k \<le> wall ?l t" "wall ?l t < 60 * (?k + 1)"
    using div_bounds [of 60 "wall ?l t"] by simp_all
  have "\<not> on_minute ?l v" if v: "t < v" "v < next_start s t" for v
  proof
    assume "on_minute ?l v"
    then obtain j where j: "v = at_wall ?l (60 * j)" by (auto simp: on_minute_def)
    then have "wall ?l t \<le> 60 * j" using wall_mono [OF f less_imp_le [OF v(1)]] f by simp
    moreover have "60 * j < 60 * (?k + 1)" using v(2) by (simp add: n j)
    ultimately have "60 * ?k \<le> 60 * j" "60 * j < 60 * (?k + 1)" using b by simp_all
    then have "j = ?k" by simp
    with \<open>wall ?l t \<le> 60 * j\<close> b(1) have "wall ?l t = 60 * j" by linarith
    then show False
      using v(1) wall_le_iff [OF f, of "60 * j" t] by (simp add: j)
  qed
  then show ?thesis using on_minuteI [OF n] n b(2) wall_less_iff [OF f] by simp
qed

text \<open>The invariant of the search, and its termination.\<close>

fun search_inv :: "Schedule \<Rightarrow> gtime \<Rightarrow> gtime \<Rightarrow> search \<Rightarrow> bool" where
  "search_inv s c0 limit (Searching c) \<longleftrightarrow>
     on_minute (sc_loc s) c \<and> c0 \<le> c \<and> (\<forall>v. c0 \<le> v \<longrightarrow> v < c \<longrightarrow> \<not> matches s v)"
| "search_inv s c0 limit (Found u) \<longleftrightarrow>
     on_minute (sc_loc s) u \<and> c0 \<le> u \<and> u \<le> limit \<and> matches s u \<and>
     (\<forall>v. c0 \<le> v \<longrightarrow> v < u \<longrightarrow> \<not> matches s v)"
| "search_inv s c0 limit Exhausted \<longleftrightarrow> (\<forall>v. c0 \<le> v \<longrightarrow> v \<le> limit \<longrightarrow> \<not> matches s v)"

fun search_measure :: "gtime \<Rightarrow> search \<Rightarrow> nat" where
  "search_measure limit (Searching c) = Suc (nat (limit + 1 - c))"
| "search_measure limit _ = 0"

lemma next_step_inv:
  assumes f: "fixed (sc_loc s)" and inv: "search_inv s c0 limit (Searching c)"
  shows "search_inv s c0 limit (next_step s limit (Searching c)) \<and>
         search_measure limit (next_step s limit (Searching c)) < search_measure limit (Searching c)"
proof (cases "next_step s limit (Searching c)")
  case (Searching c')
  have "c < c'" "on_minute (sc_loc s) c'" "c \<le> limit"
    "\<forall>v. c \<le> v \<longrightarrow> v < c' \<longrightarrow> \<not> matches s v"
    using next_step_moves [OF f _ Searching] inv by auto
  moreover from this have "\<forall>v. c0 \<le> v \<longrightarrow> v < c' \<longrightarrow> \<not> matches s v"
    using inv by (metis not_le search_inv.simps(1))
  ultimately show ?thesis unfolding Searching using inv by simp
next
  case (Found u)
  then have "u = c" "c \<le> limit" "matches s c"
    by (auto simp: matches_def split: if_splits)
  then show ?thesis unfolding Found using inv by simp
next
  case Exhausted
  then have "limit < c" by (auto split: if_splits)
  then show ?thesis unfolding Exhausted using inv by auto
qed

lemma search_ends:
  assumes f: "fixed (sc_loc s)" and inv: "search_inv s c0 limit st"
  shows "\<exists>st'. while_option is_searching (next_step s limit) st = Some st' \<and>
           search_inv s c0 limit st' \<and> \<not> is_searching st'"
proof -
  have step: "search_inv s c0 limit (next_step s limit x) \<and>
      search_measure limit (next_step s limit x) < search_measure limit x"
    if "search_inv s c0 limit x" "is_searching x" for x
  proof (cases x)
    case (Searching c)
    then show ?thesis using next_step_inv [OF f] that(1) by blast
  qed (use that(2) in simp_all)
  then obtain st' where st': "while_option is_searching (next_step s limit) st = Some st'"
    using measure_while_option_Some
      [of "search_inv s c0 limit" is_searching "next_step s limit" "search_measure limit"] inv
    by blast
  moreover have "search_inv s c0 limit st'"
    by (rule while_option_rule [where P = "search_inv s c0 limit", OF _ st' inv])
      (use step in blast)
  moreover have "\<not> is_searching st'" by (rule while_option_stop [OF st'])
  ultimately show ?thesis by blast
qed

lemma Next_fixed:
  assumes f: "fixed (sc_loc s)"
  obtains (found) u where "Next s t = Some (Some u)" "on_minute (sc_loc s) u" "t < u"
      "u \<le> next_start s t + horizon" "matches s u"
      "\<forall>v. t < v \<longrightarrow> v < u \<longrightarrow> on_minute (sc_loc s) v \<longrightarrow> \<not> matches s v"
  | (none) "Next s t = Some None"
      "\<forall>v. t < v \<longrightarrow> v \<le> next_start s t + horizon \<longrightarrow> on_minute (sc_loc s) v \<longrightarrow> \<not> matches s v"
proof -
  let ?c0 = "next_start s t"
  let ?lim = "?c0 + horizon"
  note c0 = next_start_fixed [OF f, of t]
  have "search_inv s ?c0 ?lim (Searching ?c0)" using c0 by simp
  from search_ends [OF f this] obtain st where
    w: "while_option is_searching (next_step s ?lim) (Searching ?c0) = Some st"
    and inv: "search_inv s ?c0 ?lim st" and stop: "\<not> is_searching st"
    by blast
  show thesis
  proof (cases st)
    case (Searching c)
    then show ?thesis using stop by simp
  next
    case (Found u)
    then have "Next s t = Some (Some u)" using w by (simp add: Next_def Let_def)
    then show ?thesis using found inv c0 unfolding Found search_inv.simps
      by (metis (no_types, opaque_lifting) linorder_not_le order_less_le_trans)
  next
    case Exhausted
    then have "Next s t = Some None" using w by (simp add: Next_def Let_def)
    then show ?thesis using none inv c0 unfolding Exhausted search_inv.simps
      by (metis (no_types, opaque_lifting) linorder_not_le)
  qed
qed

section \<open>What a search promises\<close>

text \<open>
  The contract the schedule runner relies on: the search ends, what it returns is the first
  occurrence after the given instant, and when it returns nothing there is none within \<open>span\<close>.
\<close>

locale occurrences =
  fixes nxt :: "gtime \<Rightarrow> gtime option option"
    and occ :: "gtime \<Rightarrow> bool"
    and span :: duration
  assumes ends: "nxt t \<noteq> None"
    and nxt_found: "nxt t = Some (Some u) \<Longrightarrow> t < u \<and> occ u \<and> (\<forall>v. t < v \<longrightarrow> v < u \<longrightarrow> \<not> occ v)"
    and nxt_none: "nxt t = Some None \<Longrightarrow> t < v \<Longrightarrow> v \<le> t + span \<Longrightarrow> \<not> occ v"
begin

lemma search_cases:
  obtains (found) u where "nxt t = Some (Some u)" "t < u" "occ u"
      "\<And>v. t < v \<Longrightarrow> v < u \<Longrightarrow> \<not> occ v"
  | (none) "nxt t = Some None" "\<And>v. t < v \<Longrightarrow> v \<le> t + span \<Longrightarrow> \<not> occ v"
proof (cases "nxt t")
  case None
  then show ?thesis using ends by simp
next
  case (Some r)
  then show ?thesis using that nxt_found nxt_none by (cases r) blast+
qed

lemma between_total: "\<exists>xs. between_loop nxt until t n = Some xs"
proof (induction n arbitrary: t)
  case (Suc n)
  then show ?case by (cases t rule: search_cases) auto
qed simp

lemma between_sound:
  "between_loop nxt until t n = Some xs \<Longrightarrow>
     sorted_wrt (<) xs \<and> length xs \<le> n \<and> (\<forall>v \<in> set xs. t < v \<and> v \<le> until \<and> occ v)"
proof (induction n arbitrary: t xs)
  case (Suc n)
  show ?case
  proof (cases t rule: search_cases)
    case (found u)
    show ?thesis
    proof (cases "u > until")
      case True
      then show ?thesis using Suc.prems found by simp
    next
      case False
      then obtain ys where ys: "between_loop nxt until u n = Some ys" "xs = u # ys"
        using Suc.prems found by auto
      then show ?thesis using Suc.IH [OF ys(1)] found False by auto
    qed
  next
    case none
    then show ?thesis using Suc.prems by simp
  qed
qed simp

lemma between_complete:
  "between_loop nxt until t n = Some xs \<Longrightarrow> length xs < n \<Longrightarrow>
     t < v \<Longrightarrow> v \<le> until \<Longrightarrow> v \<le> t + span \<Longrightarrow> occ v \<Longrightarrow> v \<in> set xs"
proof (induction n arbitrary: t xs)
  case (Suc n)
  show ?case
  proof (cases t rule: search_cases)
    case (found u)
    have uv: "u \<le> v" using found(4) Suc.prems by (meson not_le)
    then have "\<not> u > until" using Suc.prems by simp
    then obtain ys where ys: "between_loop nxt until u n = Some ys" "xs = u # ys"
      using Suc.prems found by auto
    show ?thesis
    proof (cases "u = v")
      case False
      then show ?thesis using Suc.IH [OF ys(1)] ys(2) uv found(2) Suc.prems by simp
    qed (simp add: ys)
  next
    case none
    then show ?thesis using Suc.prems by simp
  qed
qed simp

lemma between_nil_next:
  assumes "between_loop nxt until t n = Some []" and "0 < n" and "nxt t = Some (Some u)"
  shows "until < u"
  using assms by (cases n) (auto split: if_splits)

text \<open>After the last of them, nothing more is due.\<close>

lemma between_then_nothing:
  "between_loop nxt until t n = Some xs \<Longrightarrow> length xs < n \<Longrightarrow> xs \<noteq> [] \<Longrightarrow> 0 < m \<Longrightarrow>
     between_loop nxt until (last xs) m = Some []"
proof (induction n arbitrary: t xs)
  case (Suc n)
  show ?case
  proof (cases t rule: search_cases)
    case (found u)
    then have "\<not> u > until" using Suc.prems by (auto split: if_splits)
    then obtain ys where ys: "between_loop nxt until u n = Some ys" "xs = u # ys"
      using Suc.prems found by auto
    show ?thesis
    proof (cases "ys = []")
      case True
      then have "0 < n" using Suc.prems ys by simp
      have "between_loop nxt until u m = Some []"
      proof (cases u rule: search_cases)
        case (found w)
        then have "until < w" using between_nil_next ys(1) True \<open>0 < n\<close> by blast
        then show ?thesis using found Suc.prems(4) by (cases m) auto
      next
        case none
        then show ?thesis using Suc.prems(4) by (cases m) auto
      qed
      then show ?thesis using True ys by simp
    next
      case False
      then show ?thesis using Suc.IH [OF ys(1)] ys(2) Suc.prems by simp
    qed
  next
    case none
    then show ?thesis using Suc.prems by simp
  qed
qed simp

end

text \<open>Any schedule in any zone that keeps one offset honours the contract.\<close>

definition in_fixed_zone :: "Schedule \<Rightarrow> string \<Rightarrow> int \<Rightarrow> Schedule" where
  "in_fixed_zone s name off = s\<lparr>sc_loc := \<lparr>loc_name = name, loc_offset = off, loc_tx = []\<rparr>\<rparr>"

definition occurs :: "Schedule \<Rightarrow> gtime \<Rightarrow> bool" where
  "occurs s t = (on_minute (sc_loc s) t \<and> matches s t)"

lemma fixed_in_fixed_zone [simp]: "fixed (sc_loc (in_fixed_zone s name off))"
  by (simp add: in_fixed_zone_def fixed_def)

lemma in_fixed_zone_self: "fixed (sc_loc s) \<Longrightarrow>
    in_fixed_zone s (loc_name (sc_loc s)) (loc_offset (sc_loc s)) = s"
  by (simp add: in_fixed_zone_def fixed_def)

lemma next_start_span: "fixed (sc_loc s) \<Longrightarrow> t + horizon \<le> next_start s t + horizon"
  using next_start_fixed [of s t] by simp

interpretation zone: occurrences "Next (in_fixed_zone s name off)" "occurs (in_fixed_zone s name off)" horizon
  for s name off
proof unfold_locales
  fix t u v
  let ?s = "in_fixed_zone s name off"
  have f: "fixed (sc_loc ?s)" by simp
  show "Next ?s t \<noteq> None" by (cases t rule: Next_fixed [OF f]) auto
  show "Next ?s t = Some (Some u) \<Longrightarrow>
      t < u \<and> occurs ?s u \<and> (\<forall>v. t < v \<longrightarrow> v < u \<longrightarrow> \<not> occurs ?s v)"
    by (cases t rule: Next_fixed [OF f]) (auto simp: occurs_def)
  show "Next ?s t = Some None \<Longrightarrow> t < v \<Longrightarrow> v \<le> t + horizon \<Longrightarrow> \<not> occurs ?s v"
    using next_start_span [OF f, of t]
    by (cases t rule: Next_fixed [OF f]) (auto simp: occurs_def)
qed


section \<open>Wall-clock readings in any zone\<close>

text \<open>In any zone, the wall-clock fields of an instant describe its wall-clock reading.\<close>

lemma fields_of_day:
  "1 \<le> Month loc t" "Month loc t \<le> 12" "1 \<le> Day loc t" "Day loc t \<le> 31"
  "days_from_civil (Year loc t) (Month loc t) (Day loc t) = wall loc t div 86400"
proof -
  note p = civil_props [of "wall loc t div 86400" "Year loc t" "Month loc t" "Day loc t"]
  show b: "1 \<le> Month loc t" "Month loc t \<le> 12" "1 \<le> Day loc t"
    "days_from_civil (Year loc t) (Month loc t) (Day loc t) = wall loc t div 86400"
    using p by (simp_all add: Year_def Month_def Day_def)
  have "l \<le> 31" if "l \<in> set (month_lens (Year loc t))" for l
    using that by (auto simp: month_lens_def split: if_splits)
  moreover have "nat (Month loc t - 1) < length (month_lens (Year loc t))"
    using b by (simp add: month_lens_facts)
  ultimately show "Day loc t \<le> 31"
    using p by (fastforce simp: Year_def Month_def Day_def dest: nth_mem)
qed

lemma Date_own_day:
  "Date (Year loc t) (Month loc t) (Day loc t) hh mm ss 0 loc =
     from_wall loc (wall loc t div 86400 * 86400 + hh * 3600 + mm * 60 + ss) * second"
  using fields_of_day [of loc t]
  by (simp add: Date_def)

lemma startOfNextHour_wall:
  "startOfNextHour loc t = (from_wall loc (wall loc t div 3600 * 3600) + 3600) * second"
  using floor_in_steps [of 3600 24 "wall loc t"]
  by (simp add: startOfNextHour_def Date_own_day Hour_def hour_def second_def)

lemma startOfNextMinute_wall:
  "startOfNextMinute loc t = (from_wall loc (wall loc t div 60 * 60) + 60) * second"
  using floor_in_steps [of 3600 24 "wall loc t"] floor_in_steps [of 60 60 "wall loc t"]
  by (simp add: startOfNextMinute_def Date_own_day Hour_def Minute_def minute_def second_def)

section \<open>Schedules that fire once a day\<close>

definition every_day_at :: "nat \<Rightarrow> nat \<Rightarrow> Location \<Rightarrow> string \<Rightarrow> Schedule" where
  "every_day_at h m loc spec =
    \<lparr>sc_minute = push_bit m 1, sc_hour = push_bit h 1, sc_dom = 4294967294, sc_month = 8190,
     sc_dow = 127, sc_domRestricted = False, sc_dowRestricted = False, sc_loc = loc,
     sc_spec = spec\<rparr>"

lemma full_masks:
  "list_all (mask_has 8190) [1..12]" "list_all (mask_has 4294967294) [1..31]"
  "list_all (mask_has 127) [0..6]"
  by code_simp+

lemma all_months: "1 \<le> i \<Longrightarrow> i \<le> 12 \<Longrightarrow> mask_has 8190 i"
  and all_days: "1 \<le> i \<Longrightarrow> i \<le> 31 \<Longrightarrow> mask_has 4294967294 i"
  and all_weekdays: "0 \<le> i \<Longrightarrow> i \<le> 6 \<Longrightarrow> mask_has 127 i"
  using full_masks by (simp_all add: list_all_iff)

lemma mask_has_one: "0 \<le> v \<Longrightarrow> n < 64 \<Longrightarrow> mask_has (push_bit n 1) v \<longleftrightarrow> v = int n"
  unfolding mask_has_bit bit_push_one by auto

lemma Weekday_range: "0 \<le> Weekday loc t \<and> Weekday loc t \<le> 6"
  using pos_mod_bound [of 7 "wall loc t div 86400 + 4"] pos_mod_sign [of 7 "wall loc t div 86400 + 4"]
  by (simp add: Weekday_def weekday_def)

lemma every_day_matches:
  assumes "h < 64" and "m < 64"
  shows "matchesMonth (every_day_at h m loc spec) t" "matchesDay (every_day_at h m loc spec) t"
    "matchesHour (every_day_at h m loc spec) t \<longleftrightarrow> wall loc t mod 86400 div 3600 = int h"
    "matchesMinute (every_day_at h m loc spec) t \<longleftrightarrow> wall loc t mod 3600 div 60 = int m"
proof -
  show "matchesMonth (every_day_at h m loc spec) t" "matchesDay (every_day_at h m loc spec) t"
    using fields_of_day [of loc t] Weekday_range [of loc t]
    by (simp_all add: matchesMonth_def matchesDay_def every_day_at_def all_months all_days
        all_weekdays)
  have "0 \<le> Hour loc t" "0 \<le> Minute loc t"
    by (simp_all add: Hour_def Minute_def pos_imp_zdiv_nonneg_iff)
  then show "matchesHour (every_day_at h m loc spec) t \<longleftrightarrow> wall loc t mod 86400 div 3600 = int h"
    "matchesMinute (every_day_at h m loc spec) t \<longleftrightarrow> wall loc t mod 3600 div 60 = int m"
    using mask_has_one assms
    by (simp_all add: matchesHour_def matchesMinute_def every_day_at_def Hour_def Minute_def)
qed

lemma wall_second: "wall loc (k * second) = k + offset_at loc k"
  using second_pos by (simp add: wall_def unix_def)

lemma next_step_every_day:
  assumes "h < 64" and "m < 64"
  shows "next_step (every_day_at h m loc spec) (l * second) (Searching (k * second)) =
    (let w = k + offset_at loc k in
     if l < k then Exhausted
     else if w mod 86400 div 3600 \<noteq> int h
       then Searching ((from_wall loc (w div 3600 * 3600) + 3600) * second)
     else if w mod 3600 div 60 \<noteq> int m then Searching ((k + 60) * second)
     else Found (k * second))"
proof -
  have "sc_loc (every_day_at h m loc spec) = loc" by (simp add: every_day_at_def)
  moreover have "k * second + minute = (k + 60) * second" by (simp add: minute_def second_def)
  ultimately show ?thesis
    using every_day_matches [OF assms, of loc spec "k * second"] second_pos
    by (simp add: Let_def wall_second startOfNextHour_wall)
qed

section \<open>New York, 1 November 2026\<close>

text \<open>
  Eastern time in 2026: UTC-5, UTC-4 from 8 March 07:00 UTC, UTC-5 again from 1 November
  06:00 UTC (the wall clock goes from 02:00 back to 01:00).
\<close>

definition new_york :: Location where
  "new_york = \<lparr>loc_name = ''America/New_York'', loc_offset = - 18000,
     loc_tx = [(1772953200, - 14400), (1793512800, - 18000)]\<rparr>"

lemma new_york_offset:
  "offset_at new_york k = (if 1772953200 \<le> k \<and> k < 1793512800 then - 14400 else - 18000)"
  by (simp add: new_york_def offset_at_def loc_lookup_def)

lemma new_york_from_wall:
  "1772953200 \<le> w \<Longrightarrow> w < 1793512800 - 14400 \<Longrightarrow> from_wall new_york w = w + 14400"
  by (simp add: new_york_def from_wall_def loc_lookup_def)

definition daily_at_five :: Schedule where
  "daily_at_five = every_day_at 5 0 new_york ''0 5 * * *''"

lemma daily_at_five_parse: "Parse ''0 5 * * *'' (Some new_york) = Inr daily_at_five"
  by code_simp


lemma while_option_stuck:
  assumes "step x = x" and "b x"
  shows "while_option b step x = None"
proof -
  have "(step ^^ i) x = x" for i by (induction i) (simp_all add: assms(1))
  then show ?thesis using assms(2) by (simp add: while_option_def)
qed

lemmas new_york_simps = next_step_every_day new_york_offset new_york_from_wall

lemma every_day_search:
  "k \<noteq> 1793512800 \<Longrightarrow>
    while_option is_searching (next_step s (l * second)) (Searching (k * second)) =
    while_option is_searching (next_step s (l * second))
      (next_step s (l * second) (Searching (k * second)))"
  by (subst while_option_unfold) simp

lemma every_day_search_change:
  "while_option is_searching (next_step s (l * second)) (Searching (1793512800 * second)) =
    while_option is_searching (next_step s (l * second))
      (next_step s (l * second) (Searching (1793512800 * second)))"
  by (subst while_option_unfold) simp

lemma search_found:
  "while_option is_searching (next_step s l) (Found u) = Some (Found u)"
  by (subst while_option_unfold) simp

lemma five_stuck:
  "while_option is_searching (next_step (every_day_at 5 0 new_york spec) (1951117260 * second))
     (Searching (1793512800 * second)) = None"
  by (rule while_option_stuck) (simp_all add: new_york_simps del: next_step.simps)

lemma five_search:
  "while_option is_searching (next_step (every_day_at 5 0 new_york spec) (1951117260 * second))
     (Searching (1793437260 * second)) = None"
  by (simp add: every_day_search five_stuck new_york_simps del: next_step.simps)

lemma next_start_second:
  "next_start (every_day_at h m new_york spec) (k * second) =
     (from_wall new_york ((k + offset_at new_york k) div 60 * 60) + 60) * second"
  by (simp add: next_start_def every_day_at_def startOfNextMinute_wall wall_second)

lemma horizon_seconds: "k * second + horizon = (k + 157680000) * second"
  by (simp add: horizon_def hour_def second_def)

definition half_past_one :: Schedule where
  "half_past_one = every_day_at 1 30 new_york ''30 1 * * *''"

lemma five_diverges: "Next daily_at_five (1793437200 * second) = None"
  by (simp add: Next_def Let_def daily_at_five_def next_start_second horizon_seconds five_search
      new_york_offset new_york_from_wall)

lemma half_search:
  "while_option is_searching (next_step (every_day_at 1 30 new_york spec) (1951191060 * second))
     (Searching (1793511060 * second)) = Some (Found (1793514600 * second))"
  by (simp add: every_day_search every_day_search_change search_found new_york_simps del: next_step.simps)

lemma half_repeats: "Next half_past_one (1793514600 * second) = Some (Some (1793514600 * second))"
  by (simp add: Next_def Let_def half_past_one_def next_start_second horizon_seconds half_search [simplified]
      new_york_offset new_york_from_wall)

text \<open>
  C16. The search of \<^verbatim>\<open>Next\<close> in a zone with one offset: it ends; what it returns is later than
  the given instant, matches every field, and is the first full minute that does; and when it
  reports that nothing was found, no full minute up to the horizon matches.
\<close>

theorem Next_first_occurrence:
  assumes "fixed (sc_loc s)"
  shows "\<exists>r. Next s t = Some r \<and>
    (\<forall>u. r = Some u \<longrightarrow> t < u \<and> occurs s u \<and> (\<forall>v. t < v \<and> v < u \<longrightarrow> \<not> occurs s v)) \<and>
    (r = None \<longrightarrow> (\<forall>v. t < v \<and> v \<le> t + horizon \<longrightarrow> \<not> occurs s v))"
proof (rule zone.search_cases [of s "loc_name (sc_loc s)" "loc_offset (sc_loc s)" t,
      unfolded in_fixed_zone_self [OF assms]])
  fix u
  assume "Next s t = Some (Some u)" "t < u" "occurs s u" "\<And>v. t < v \<Longrightarrow> v < u \<Longrightarrow> \<not> occurs s v"
  then show ?thesis by simp
next
  assume "Next s t = Some None" "\<And>v. t < v \<Longrightarrow> v \<le> t + horizon \<Longrightarrow> \<not> occurs s v"
  then show ?thesis by simp
qed

theorem Next_first_occurrence_witness:
  "\<exists>r. Next (every_day_at 5 0 UTC ''0 5 * * *'') 0 = Some r \<and>
    (\<forall>u. r = Some u \<longrightarrow> 0 < u \<and> occurs (every_day_at 5 0 UTC ''0 5 * * *'') u)"
  using Next_first_occurrence [of "every_day_at 5 0 UTC ''0 5 * * *''" 0]
  by (auto simp: every_day_at_def UTC_def fixed_def)

text \<open>
  In every zone, whatever its clock does: if \<^verbatim>\<open>Next\<close> returns an instant, that instant matches
  the month, the day rule, the hour and the minute of the expression.
\<close>

theorem Next_matches:
  assumes "Next s t = Some (Some u)"
  shows "matches s u"
proof -
  let ?lim = "next_start s t + horizon"
  let ?ok = "\<lambda>st. \<forall>x. st = Found x \<longrightarrow> matches s x"
  obtain st where w: "while_option is_searching (next_step s ?lim) (Searching (next_start s t)) = Some st"
    and st: "(case st of Found u \<Rightarrow> Some u | _ \<Rightarrow> None) = Some u"
    using assms unfolding Next_def Let_def by blast
  have "?ok (next_step s ?lim x)" if "?ok x" for x
    using that by (cases x) (auto simp: matches_def)
  then have "?ok st" by (intro while_option_rule [where P = ?ok, OF _ w]) auto
  then show ?thesis using st by (cases st) auto
qed
theorem Next_matches_witness: "matches half_past_one (1793514600 * second)"
  by (rule Next_matches [OF half_repeats])

text \<open>
  C17. \<^verbatim>\<open>Between\<close> in a zone with one offset: it ends; it returns occurrences in ascending order, all
  of them after \<^verbatim>\<open>after\<close> and none after \<^verbatim>\<open>until\<close>, at most \<^verbatim>\<open>limit\<close> of them; and unless it was
  cut off by the limit it returns every occurrence of the window, up to the horizon.
\<close>

theorem Between_spec:
  assumes "fixed (sc_loc s)"
  shows "\<exists>xs. Between s after until limit = Some xs \<and>
     sorted_wrt (<) xs \<and> int (length xs) \<le> max 0 limit \<and>
     (\<forall>v \<in> set xs. after < v \<and> v \<le> until \<and> occurs s v) \<and>
     (int (length xs) < limit \<longrightarrow>
        (\<forall>v. after < v \<and> v \<le> until \<and> v \<le> after + horizon \<and> occurs s v \<longrightarrow> v \<in> set xs))"
proof -
  note z = in_fixed_zone_self [OF assms]
  let ?nm = "loc_name (sc_loc s)" and ?o = "loc_offset (sc_loc s)"
  obtain xs where xs: "between_loop (Next s) until after (nat limit) = Some xs"
    using zone.between_total [of s ?nm ?o until after "nat limit"] unfolding z by blast
  then show ?thesis
    using zone.between_sound [of s ?nm ?o until after "nat limit" xs]
      zone.between_complete [of s ?nm ?o until after "nat limit" xs]
    unfolding z Between_def by (intro exI [of _ xs]) (auto simp: le_nat_iff)
qed

theorem Between_spec_witness:
  "\<exists>xs. Between (every_day_at 5 0 UTC ''0 5 * * *'') 0 (100 * hour) 1000 = Some xs \<and>
     (\<forall>v \<in> set xs. 0 < v \<and> v \<le> 100 * hour)"
  using Between_spec [of "every_day_at 5 0 UTC ''0 5 * * *''" 0 "100 * hour" 1000]
  by (auto simp: every_day_at_def UTC_def fixed_def)

text \<open>
  \<^verbatim>\<open>0 5 * * *\<close> in New York, asked at its own firing of 31 October 2026 at 05:00 what comes next:
  the search never ends. It reaches 01:00 standard time on 1 November (06:00 UTC); the start of
  the next hour is computed from the wall-clock hour 01:00, which \<^verbatim>\<open>time.Date\<close> resolves to the
  first of the two 01:00s, and one hour after that is 06:00 UTC again. The expression is the
  one \<^verbatim>\<open>Parse\<close> builds, and the comment on the search horizon promises that it must end rather
  than spin forever.
\<close>

theorem Next_spins_when_the_clock_falls_back:
  "Parse ''0 5 * * *'' (Some new_york) = Inr daily_at_five \<and>
   Next daily_at_five (1793437200 * second) = None"
proof
  show "Parse ''0 5 * * *'' (Some new_york) = Inr daily_at_five" by code_simp
  show "Next daily_at_five (1793437200 * second) = None" by (rule five_diverges)
qed

text \<open>
  \<^verbatim>\<open>30 1 * * *\<close> in New York, asked at its second occurrence of 1 November 2026 (01:30 standard
  time, 06:30 UTC): the answer is that same instant, not one strictly after it.
\<close>

theorem Next_returns_its_argument_when_the_clock_falls_back:
  "Parse ''30 1 * * *'' (Some new_york) = Inr half_past_one \<and>
   Next half_past_one (1793514600 * second) = Some (Some (1793514600 * second))"
proof
  show "Parse ''30 1 * * *'' (Some new_york) = Inr half_past_one" by code_simp
  show "Next half_past_one (1793514600 * second) = Some (Some (1793514600 * second))"
    by (rule half_repeats)
qed

end
