(* ===== verification/Core.thy ===== *)
theory Core
  imports Prelude
begin

text \<open>
  The domain of \<^verbatim>\<open>internal/core\<close>: the lifecycle states and the table of allowed transitions
  (\<^verbatim>\<open>state.go\<close>), the execution record with its operations (\<^verbatim>\<open>process.go\<close>) and the errors the
  other packages branch on (\<^verbatim>\<open>errors.go\<close>).
\<close>

section \<open>Lifecycle states\<close>

text \<open>
  \<^verbatim>\<open>State\<close> is a Go string with ten named constants; any other string is \<open>StateOther\<close>.
\<close>

datatype State =
    StateCreated
  | StateQueued
  | StateStarting
  | StateRunning
  | StateStopping
  | StateCrashed
  | StateRetrying
  | StateCompleted
  | StateFailed
  | StateCanceled
  | StateOther string

definition allowedTransitionsList :: "(State \<times> State list) list" where
  "allowedTransitionsList =
    [(StateCreated, [StateQueued, StateStarting, StateCanceled]),
     (StateQueued, [StateStarting, StateCanceled, StateFailed]),
     (StateStarting, [StateRunning, StateCrashed]),
     (StateRunning, [StateCompleted, StateCrashed, StateStopping]),
     (StateStopping, [StateCanceled, StateFailed, StateCrashed, StateQueued]),
     (StateCrashed, [StateRetrying, StateFailed]),
     (StateRetrying, [StateStarting, StateQueued, StateCanceled]),
     (StateCompleted, []),
     (StateFailed, []),
     (StateCanceled, [])]"

definition allowedTransitions :: "State \<rightharpoonup> State list" where
  "allowedTransitions = map_of allowedTransitionsList"

fun IsTerminal :: "State \<Rightarrow> bool" where
  "IsTerminal StateCompleted = True"
| "IsTerminal StateFailed = True"
| "IsTerminal StateCanceled = True"
| "IsTerminal _ = False"

fun IsActive :: "State \<Rightarrow> bool" where
  "IsActive StateStarting = True"
| "IsActive StateRunning = True"
| "IsActive StateStopping = True"
| "IsActive _ = False"

definition Valid :: "State \<Rightarrow> bool" where
  "Valid s = (allowedTransitions s \<noteq> None)"

definition CanTransition :: "State \<Rightarrow> State \<Rightarrow> bool" where
  "CanTransition from to' =
     (case allowedTransitions from of
        None \<Rightarrow> False
      | Some nxt \<Rightarrow> to' \<in> set nxt)"

text \<open>\<^verbatim>\<open>States()\<close>: every key of the table (the code leaves their order open).\<close>

definition States :: "State list" where
  "States = map fst allowedTransitionsList"

section \<open>Types, reasons and errors\<close>

text \<open>\<^verbatim>\<open>Type\<close> is a Go string; the empty string and unknown ones are \<open>TypeOther\<close>.\<close>

datatype Type = TypeTask | TypeService | TypeOther string

text \<open>\<open>ReasonNone\<close> is the empty reason.\<close>

datatype Reason =
    ReasonNone
  | ReasonUserRequest
  | ReasonTimeout
  | ReasonMaxAttempts
  | ReasonQueueTimeout
  | ReasonShutdown
  | ReasonDaemonRestart
  | ReasonStartError
  | ReasonNoRetryExit
  | ReasonLockConflict
  | ReasonOrphaned
  | ReasonNoCapacity

text \<open>
  The sentinel errors, the two structured errors, and \<open>ErrIO\<close> for an error of the operating
  system or of the database driver, of which the code only knows that it is none of the others.
  Wrapping an error with a message keeps the constructor: the code only tests \<^verbatim>\<open>errors.Is\<close>.
\<close>

datatype error =
    ErrNotFound
  | ErrWorkerNotFound
  | ErrWorkerDisabled
  | ErrLockHeld
  | ErrQueueFull
  | ErrNoCapacity
  | ErrShuttingDown
  | ErrUnsupportedType
  | ErrRawCommandDenied
  | ErrNotRunning
  | ErrIdempotencyReuse
  | ErrIdempotencyClaimed
  | ErrIdempotencyInFlight
  | TransitionError string State State
  | ParamError string string
  | ErrIO

section \<open>Executions\<close>

record Process =
  p_ID :: string
  p_Worker :: string
  p_Type :: Type
  p_State :: State
  p_Reason :: Reason
  p_Attempt :: int
  p_Lock :: string
  p_Metadata :: "(string \<times> string) list"
  p_Restarts :: int
  p_Command :: string
  p_Args :: "string list"
  p_Env :: "(string \<times> string) list"
  p_Cwd :: string
  p_User :: string
  p_Group :: string
  p_Timeout :: duration
  p_MaxAttempts :: int
  p_PID :: int
  p_PIDStartTime :: nat
  p_ExitCode :: "int option"
  p_Signal :: string
  p_LogTruncated :: bool
  p_CreatedAt :: gtime
  p_QueuedAt :: "gtime option"
  p_StartedAt :: "gtime option"
  p_FinishedAt :: "gtime option"
  p_RetryAt :: "gtime option"

text \<open>The zero value of the struct.\<close>

definition zero_Process :: Process where
  "zero_Process = \<lparr>p_ID = '''', p_Worker = '''', p_Type = TypeOther '''', p_State = StateOther '''',
     p_Reason = ReasonNone, p_Attempt = 0, p_Lock = '''', p_Metadata = [], p_Restarts = 0,
     p_Command = '''', p_Args = [], p_Env = [], p_Cwd = '''', p_User = '''', p_Group = '''',
     p_Timeout = 0, p_MaxAttempts = 0, p_PID = 0, p_PIDStartTime = 0, p_ExitCode = None,
     p_Signal = '''', p_LogTruncated = False, p_CreatedAt = 0, p_QueuedAt = None,
     p_StartedAt = None, p_FinishedAt = None, p_RetryAt = None\<rparr>"

definition Duration :: "Process \<Rightarrow> duration" where
  "Duration p =
     (case (p_StartedAt p, p_FinishedAt p) of
        (Some started, Some finished) \<Rightarrow> finished - started
      | _ \<Rightarrow> 0)"

definition Elapsed :: "Process \<Rightarrow> gtime \<Rightarrow> duration" where
  "Elapsed p now =
     (case p_StartedAt p of
        None \<Rightarrow> 0
      | Some started \<Rightarrow>
          (case p_FinishedAt p of
             Some finished \<Rightarrow> finished - started
           | None \<Rightarrow> now - started))"

definition TransitionTo :: "Process \<Rightarrow> State \<Rightarrow> Reason \<Rightarrow> error + Process" where
  "TransitionTo p to' reason =
     (if \<not> CanTransition (p_State p) to'
      then Inl (TransitionError (p_ID p) (p_State p) to')
      else let p = p\<lparr>p_State := to'\<rparr>
           in Inr (if reason \<noteq> ReasonNone then p\<lparr>p_Reason := reason\<rparr> else p))"

definition ClearAttempt :: "Process \<Rightarrow> Process" where
  "ClearAttempt p = p\<lparr>p_PID := 0, p_PIDStartTime := 0, p_ExitCode := None, p_Signal := '''',
     p_LogTruncated := False, p_StartedAt := None, p_FinishedAt := None\<rparr>"

section \<open>The state machine\<close>

lemmas transition_table = CanTransition_def allowedTransitions_def allowedTransitionsList_def

lemma CanTransition_simps [simp]:
  "CanTransition StateCreated t \<longleftrightarrow> t \<in> {StateQueued, StateStarting, StateCanceled}"
  "CanTransition StateQueued t \<longleftrightarrow> t \<in> {StateStarting, StateCanceled, StateFailed}"
  "CanTransition StateStarting t \<longleftrightarrow> t \<in> {StateRunning, StateCrashed}"
  "CanTransition StateRunning t \<longleftrightarrow> t \<in> {StateCompleted, StateCrashed, StateStopping}"
  "CanTransition StateStopping t \<longleftrightarrow> t \<in> {StateCanceled, StateFailed, StateCrashed, StateQueued}"
  "CanTransition StateCrashed t \<longleftrightarrow> t \<in> {StateRetrying, StateFailed}"
  "CanTransition StateRetrying t \<longleftrightarrow> t \<in> {StateStarting, StateQueued, StateCanceled}"
  "CanTransition StateCompleted t \<longleftrightarrow> False"
  "CanTransition StateFailed t \<longleftrightarrow> False"
  "CanTransition StateCanceled t \<longleftrightarrow> False"
  "CanTransition (StateOther x) t \<longleftrightarrow> False"
  by (simp_all add: transition_table)

lemma Valid_iff: "Valid s \<longleftrightarrow> (\<forall>x. s \<noteq> StateOther x)"
  by (cases s) (simp_all add: Valid_def allowedTransitions_def allowedTransitionsList_def)

lemma CanTransition_valid: "CanTransition s t \<Longrightarrow> Valid s \<and> Valid t"
  by (cases s) (auto simp: Valid_iff)

lemma CanTransition_terminal: "IsTerminal s \<Longrightarrow> \<not> CanTransition s t"
  by (cases s) auto

text \<open>The paths of the machine: zero or more allowed transitions.\<close>

abbreviation path :: "State \<Rightarrow> State \<Rightarrow> bool" where
  "path \<equiv> CanTransition\<^sup>*\<^sup>*"

lemma path_from_terminal: "path s t \<Longrightarrow> IsTerminal s \<Longrightarrow> t = s"
  by (induction rule: converse_rtranclp_induct) (auto dest: CanTransition_terminal)

lemma path_step [intro]: "CanTransition s t \<Longrightarrow> path s t"
  by (rule r_into_rtranclp)

lemma path_two: "CanTransition s t \<Longrightarrow> CanTransition t u \<Longrightarrow> path s u"
  by (meson path_step rtranclp_trans)

lemma TransitionTo_Inr_iff:
  "TransitionTo p t r = Inr q \<longleftrightarrow>
     CanTransition (p_State p) t \<and>
     q = (if r \<noteq> ReasonNone then p\<lparr>p_State := t, p_Reason := r\<rparr> else p\<lparr>p_State := t\<rparr>)"
  by (auto simp: TransitionTo_def Let_def)

lemma TransitionTo_Inl_iff:
  "TransitionTo p t r = Inl e \<longleftrightarrow>
     \<not> CanTransition (p_State p) t \<and> e = TransitionError (p_ID p) (p_State p) t"
  by (auto simp: TransitionTo_def Let_def)

lemma ClearAttempt_frame [simp]:
  "p_ID (ClearAttempt p) = p_ID p" "p_Lock (ClearAttempt p) = p_Lock p"
  "p_State (ClearAttempt p) = p_State p" "p_Worker (ClearAttempt p) = p_Worker p"
  "p_Type (ClearAttempt p) = p_Type p" "p_Attempt (ClearAttempt p) = p_Attempt p"
  "p_StartedAt (ClearAttempt p) = None" "p_FinishedAt (ClearAttempt p) = None"
  "p_CreatedAt (ClearAttempt p) = p_CreatedAt p"
  by (simp_all add: ClearAttempt_def)

text \<open>
  The life cycle. A path of allowed transitions never leaves a terminal state; from every
  other known state a terminal one can be reached, so no execution is stuck by the table itself;
  and an execution that is COMPLETED can only have come from RUNNING.
\<close>

theorem life_cycle:
  "(IsTerminal s \<longrightarrow> (\<forall>t. path s t \<longrightarrow> t = s)) \<and>
   (Valid s \<longrightarrow> (\<exists>t. IsTerminal t \<and> path s t)) \<and>
   (CanTransition s StateCompleted \<longrightarrow> s = StateRunning)"
proof (intro conjI impI allI)
  fix t
  assume "IsTerminal s" "path s t"
  then show "t = s" using path_from_terminal by blast
next
  assume v: "Valid s"
  have "\<exists>t. IsTerminal t \<and> path s t" if "CanTransition s u" "IsTerminal u \<or> CanTransition u v" "IsTerminal u \<or> IsTerminal v" for u v
    using that path_step [of s u] path_two [of s u v] by blast
  note two = this [of StateCanceled StateFailed] this [of StateCrashed StateFailed]
    this [of StateFailed StateFailed]
  have "\<exists>t. IsTerminal t \<and> path s t" if "IsTerminal s"
    using that by (intro exI [of _ s]) simp
  with two show "\<exists>t. IsTerminal t \<and> path s t"
    using v by (cases s) (auto simp: Valid_iff)
next
  assume "CanTransition s StateCompleted"
  then show "s = StateRunning" by (cases s) auto
qed

theorem life_cycle_witness:
  "Collect (path StateFailed) = {StateFailed} \<and> (\<exists>t. IsTerminal t \<and> path StateRetrying t)"
  using life_cycle [of StateFailed] life_cycle [of StateRetrying] by (auto simp: Valid_iff)

text \<open>
  \<^verbatim>\<open>TransitionTo\<close> on every branch: it succeeds exactly on the edges of the table and then changes
  nothing but the state, and the reason when one is given; otherwise it reports the edge that
  was refused.
\<close>

theorem TransitionTo_spec:
  "TransitionTo p to' reason =
     (if CanTransition (p_State p) to'
      then Inr (p\<lparr>p_State := to', p_Reason := (if reason = ReasonNone then p_Reason p else reason)\<rparr>)
      else Inl (TransitionError (p_ID p) (p_State p) to'))"
  by (simp add: TransitionTo_def Let_def)

end
