(* ===== verification/Store.thy ===== *)
theory Store
  imports Core "HOL-Library.List_Lexorder" "HOL-Library.Char_ord" "HOL-Library.Product_Lexorder" "HOL-Library.Multiset"
begin

text \<open>
  \<^verbatim>\<open>internal/store\<close> and its SQLite implementation \<^verbatim>\<open>internal/store/sqlite\<close>: the tables as lists and
  maps, one definition per operation, written after the SQL statement it executes and the
  constraints the migrations declare (primary keys, the foreign keys of attempts and locks with
  ON DELETE CASCADE).

  Timestamps are stored as fixed-width text that sorts like the instants, so they are instants
  here, and the columns that hold JSON are the values they encode (\<open>SqliteProps\<close> shows it for executions). A statement may fail for a reason
  of the database's own (the disk, a cancelled context): \<open>d_faults\<close> says, statement by statement,
  which ones do; a failed statement changes nothing, and its error is \<open>ErrIO\<close>.
\<close>

record Idempotency =
  i_RequestHash :: string
  i_ProcessID :: string
  i_CreatedAt :: gtime

record ScheduleState =
  ss_LastFiredAt :: "gtime option"
  ss_LastMissedAt :: "gtime option"
  ss_MissedRuns :: int

record AuditEntry =
  a_At :: gtime
  a_TokenName :: string
  a_Action :: string
  a_ProcessID :: string
  a_Detail :: string

record AttemptRow =
  at_PID :: int
  at_PIDStartTime :: nat
  at_ExitCode :: "int option"
  at_Signal :: string
  at_Reason :: Reason
  at_LogTruncated :: bool
  at_StartedAt :: "gtime option"
  at_FinishedAt :: "gtime option"

record Db =
  d_processes :: "Process list"
  d_attempts :: "(string \<times> int) \<rightharpoonup> AttemptRow"
  d_locks :: "string \<rightharpoonup> string"
  d_idempotency :: "string \<rightharpoonup> Idempotency"
  d_schedules :: "string \<rightharpoonup> ScheduleState"
  d_audit :: "AuditEntry list"
  d_faults :: "bool list"

definition empty_db :: Db where
  "empty_db = \<lparr>d_processes = [], d_attempts = Map.empty, d_locks = Map.empty,
     d_idempotency = Map.empty, d_schedules = Map.empty, d_audit = [], d_faults = []\<rparr>"

text \<open>One statement: whether it fails, and the faults that remain.\<close>

definition exec_fails :: "Db \<Rightarrow> bool" where
  "exec_fails db = (case d_faults db of [] \<Rightarrow> False | b # _ \<Rightarrow> b)"

definition ticked :: "Db \<Rightarrow> Db" where
  "ticked db = db\<lparr>d_faults := tl (d_faults db)\<rparr>"

definition row_ids :: "Db \<Rightarrow> string set" where
  "row_ids db = p_ID ` set (d_processes db)"

definition lookup :: "Db \<Rightarrow> string \<Rightarrow> Process option" where
  "lookup db pid = find (\<lambda>p. p_ID p = pid) (d_processes db)"

section \<open>Executions\<close>

definition CreateProcess :: "Process \<Rightarrow> Db \<Rightarrow> (error, Db) outcome" where
  "CreateProcess p db =
     (let db' = ticked db
      in if exec_fails db \<or> lookup db (p_ID p) \<noteq> None then (Some ErrIO, db')
         else (None, db'\<lparr>d_processes := d_processes db' @ [p]\<rparr>))"

text \<open>The UPDATE does not touch \<^verbatim>\<open>created_at\<close>.\<close>

definition replace_row :: "Process \<Rightarrow> Process list \<Rightarrow> Process list" where
  "replace_row p rows =
     map (\<lambda>q. if p_ID q = p_ID p then p\<lparr>p_CreatedAt := p_CreatedAt q\<rparr> else q) rows"

definition upsertAttempt :: "Process \<Rightarrow> Db \<Rightarrow> Db" where
  "upsertAttempt p db =
     (if p_Attempt p \<le> 0 then db
      else db\<lparr>d_attempts := (d_attempts db)((p_ID p, p_Attempt p) \<mapsto>
        \<lparr>at_PID = p_PID p, at_PIDStartTime = p_PIDStartTime p, at_ExitCode = p_ExitCode p,
         at_Signal = p_Signal p, at_Reason = p_Reason p, at_LogTruncated = p_LogTruncated p,
         at_StartedAt = p_StartedAt p, at_FinishedAt = p_FinishedAt p\<rparr>)\<rparr>)"

text \<open>
  The transaction: the UPDATE and the attempt row become visible together or not at all, so one
  fault stands for the failure of any of its statements.
\<close>

definition UpdateProcess :: "Process \<Rightarrow> Db \<Rightarrow> (error, Db) outcome" where
  "UpdateProcess p db =
     (let db' = ticked db
      in if exec_fails db then (Some ErrIO, db')
         else if lookup db (p_ID p) = None then (Some ErrNotFound, db')
         else (None, upsertAttempt p (db'\<lparr>d_processes := replace_row p (d_processes db')\<rparr>)))"

definition GetProcess :: "string \<Rightarrow> Db \<Rightarrow> (error + Process) \<times> Db" where
  "GetProcess pid db =
     (if exec_fails db then Inl ErrIO
      else case lookup db pid of None \<Rightarrow> Inl ErrNotFound | Some p \<Rightarrow> Inr p, ticked db)"

text \<open>
  A listing. The cursor of the code is the base64 text of "created_at|id"; \<open>CursorBad\<close> is a text
  that \<^verbatim>\<open>decodeCursor\<close> refuses.
\<close>

datatype Cursor = CursorNone | CursorAt gtime string | CursorBad string

record Filter =
  f_States :: "State list"
  f_Type :: Type
  f_Worker :: string
  f_Lock :: string
  f_CreatedAfter :: "gtime option"
  f_CreatedBefore :: "gtime option"
  f_Limit :: int
  f_Cursor :: Cursor

record Page =
  pg_Items :: "Process list"
  pg_NextCursor :: Cursor

definition encodeCursor :: "Process \<Rightarrow> Cursor" where
  "encodeCursor p = CursorAt (p_CreatedAt p) (p_ID p)"

fun before_cursor :: "Cursor \<Rightarrow> Process \<Rightarrow> bool" where
  "before_cursor (CursorAt t pid) p \<longleftrightarrow> p_CreatedAt p < t \<or> (p_CreatedAt p = t \<and> p_ID p < pid)"
| "before_cursor _ p \<longleftrightarrow> True"

definition filter_matches :: "Filter \<Rightarrow> Process \<Rightarrow> bool" where
  "filter_matches f p \<longleftrightarrow>
     (f_Type f \<noteq> TypeOther '''' \<longrightarrow> p_Type p = f_Type f) \<and>
     (f_States f \<noteq> [] \<longrightarrow> p_State p \<in> set (f_States f)) \<and>
     (f_Worker f \<noteq> '''' \<longrightarrow> p_Worker p = f_Worker f) \<and>
     (f_Lock f \<noteq> '''' \<longrightarrow> p_Lock p = f_Lock f) \<and>
     (case f_CreatedAfter f of None \<Rightarrow> True | Some t \<Rightarrow> t < p_CreatedAt p) \<and>
     (case f_CreatedBefore f of None \<Rightarrow> True | Some t \<Rightarrow> p_CreatedAt p < t)"

text \<open>\<open>ORDER BY created_at, id\<close>, ascending or descending.\<close>

definition row_key :: "Process \<Rightarrow> gtime \<times> string" where
  "row_key p = (p_CreatedAt p, p_ID p)"

definition order_asc :: "Process list \<Rightarrow> Process list" where
  "order_asc rows = sort_key row_key rows"

definition order_desc :: "Process list \<Rightarrow> Process list" where
  "order_desc rows = rev (sort_key row_key rows)"

definition ListProcesses :: "Filter \<Rightarrow> Db \<Rightarrow> (error + Page) \<times> Db" where
  "ListProcesses f db =
     (case f_Cursor f of
        CursorBad _ \<Rightarrow> (Inl ErrIO, db)
      | _ \<Rightarrow>
        (let limit = nat (if f_Limit f \<le> 0 then 50 else f_Limit f);
             items = take (limit + 1)
               (order_desc (filter (\<lambda>p. filter_matches f p \<and> before_cursor (f_Cursor f) p) (d_processes db)))
         in (if exec_fails db then Inl ErrIO
             else if limit < length items
               then Inr \<lparr>pg_Items = take limit items, pg_NextCursor = encodeCursor (last (take limit items))\<rparr>
               else Inr \<lparr>pg_Items = items, pg_NextCursor = CursorNone\<rparr>,
             ticked db)))"

definition maxPendingBatch :: nat where "maxPendingBatch = 500"
definition maxPendingPerWorker :: nat where "maxPendingPerWorker = 100"

definition is_pending :: "gtime \<Rightarrow> Process \<Rightarrow> bool" where
  "is_pending now p \<longleftrightarrow>
     p_State p = StateQueued \<or>
     (p_State p = StateRetrying \<and> (case p_RetryAt p of None \<Rightarrow> True | Some t \<Rightarrow> t \<le> now))"

text \<open>
  \<open>ROW_NUMBER() OVER (PARTITION BY worker ORDER BY created_at, id)\<close> over rows in that order: the
  position of a row among the rows of its worker, counted from the rows already passed.
\<close>

fun per_worker :: "nat \<Rightarrow> Process list \<Rightarrow> Process list \<Rightarrow> Process list" where
  "per_worker cap seen [] = []"
| "per_worker cap seen (p # ps) =
     (if length (filter (\<lambda>q. p_Worker q = p_Worker p) seen) < cap
      then p # per_worker cap (seen @ [p]) ps
      else per_worker cap (seen @ [p]) ps)"

definition pending_rows :: "gtime \<Rightarrow> Db \<Rightarrow> Process list" where
  "pending_rows now db =
     take maxPendingBatch
       (per_worker maxPendingPerWorker [] (order_asc (filter (is_pending now) (d_processes db))))"

definition PendingProcesses :: "gtime \<Rightarrow> Db \<Rightarrow> (error + Process list) \<times> Db" where
  "PendingProcesses now db =
     (if exec_fails db then Inl ErrIO else Inr (pending_rows now db), ticked db)"

definition UnfinishedProcesses :: "Db \<Rightarrow> (error + Process list) \<times> Db" where
  "UnfinishedProcesses db =
     (if exec_fails db then Inl ErrIO
      else Inr (sort_key p_CreatedAt (filter (\<lambda>p. \<not> IsTerminal (p_State p)) (d_processes db))),
      ticked db)"

section \<open>Counts\<close>

definition in_line :: "Process \<Rightarrow> bool" where
  "in_line p \<longleftrightarrow> p_State p = StateQueued \<or> p_State p = StateRetrying"

definition PendingCount :: "Db \<Rightarrow> (error + int) \<times> Db" where
  "PendingCount db =
     (if exec_fails db then Inl ErrIO else Inr (int (length (filter in_line (d_processes db)))),
      ticked db)"

text \<open>\<open>GROUP BY\<close>: a key that no row has is absent, not zero.\<close>

definition group_count :: "(Process \<Rightarrow> 'k) \<Rightarrow> Process list \<Rightarrow> 'k \<rightharpoonup> int" where
  "group_count key rows = (\<lambda>k.
     let n = length (filter (\<lambda>p. key p = k) rows) in if n = 0 then None else Some (int n))"

definition CountByState :: "Db \<Rightarrow> (error + (State \<rightharpoonup> int)) \<times> Db" where
  "CountByState db =
     (if exec_fails db then Inl ErrIO else Inr (group_count p_State (d_processes db)), ticked db)"

definition CountActiveByState :: "Db \<Rightarrow> (error + (State \<rightharpoonup> int)) \<times> Db" where
  "CountActiveByState db =
     (if exec_fails db then Inl ErrIO
      else Inr (group_count p_State (filter (\<lambda>p. \<not> IsTerminal (p_State p)) (d_processes db))),
      ticked db)"

definition CountActiveByTypeAndState :: "Db \<Rightarrow> (error + (Type \<times> State \<rightharpoonup> int)) \<times> Db" where
  "CountActiveByTypeAndState db =
     (if exec_fails db then Inl ErrIO
      else Inr (group_count (\<lambda>p. (p_Type p, p_State p))
                  (filter (\<lambda>p. \<not> IsTerminal (p_State p)) (d_processes db))),
      ticked db)"

definition CountRestarts :: "Db \<Rightarrow> (error + int) \<times> Db" where
  "CountRestarts db =
     (if exec_fails db then Inl ErrIO
      else Inr (sum_list (map p_Restarts
        (filter (\<lambda>p. p_Type p = TypeService \<and> \<not> IsTerminal (p_State p)) (d_processes db)))),
      ticked db)"

definition CountPendingByWorker :: "Db \<Rightarrow> (error + (string \<rightharpoonup> int)) \<times> Db" where
  "CountPendingByWorker db =
     (if exec_fails db then Inl ErrIO
      else Inr (group_count p_Worker (filter in_line (d_processes db))),
      ticked db)"

definition Ping :: "Db \<Rightarrow> (error, Db) outcome" where
  "Ping db = (if exec_fails db then Some ErrIO else None, ticked db)"

section \<open>Locks\<close>

text \<open>
  The INSERT fails when it meets a fault, when the key is taken (primary key) or when no row has
  the process id (foreign key). Then the holder is read, which may fail too.
\<close>

definition AcquireLock :: "string \<Rightarrow> string \<Rightarrow> Db \<Rightarrow> (error, Db) outcome" where
  "AcquireLock key processID db =
     (if key = '''' then (None, db)
      else
        let db1 = ticked db
        in if \<not> exec_fails db \<and> d_locks db key = None \<and> processID \<in> row_ids db
           then (None, db1\<lparr>d_locks := (d_locks db1)(key \<mapsto> processID)\<rparr>)
           else
             let db2 = ticked db1
             in if exec_fails db1 then (Some ErrIO, db2)
                else case d_locks db key of
                       None \<Rightarrow> (Some ErrIO, db2)
                     | Some holder \<Rightarrow>
                         (if holder = processID then None else Some ErrLockHeld, db2))"

definition ReleaseLock :: "string \<Rightarrow> string \<Rightarrow> Db \<Rightarrow> (error, Db) outcome" where
  "ReleaseLock key processID db =
     (if key = '''' then (None, db)
      else if exec_fails db then (Some ErrIO, ticked db)
      else (None, (ticked db)\<lparr>d_locks :=
              (if d_locks db key = Some processID then (d_locks db)(key := None) else d_locks db)\<rparr>))"

definition ActiveLocks :: "Db \<Rightarrow> (error + (string \<rightharpoonup> string)) \<times> Db" where
  "ActiveLocks db = (if exec_fails db then Inl ErrIO else Inr (d_locks db), ticked db)"

section \<open>Idempotency keys\<close>

definition SaveIdempotency :: "string \<Rightarrow> Idempotency \<Rightarrow> Db \<Rightarrow> (error, Db) outcome" where
  "SaveIdempotency key rec db =
     (let db1 = ticked db
      in if \<not> exec_fails db \<and> d_idempotency db key = None
         then (None, db1\<lparr>d_idempotency := (d_idempotency db1)(key \<mapsto> rec)\<rparr>)
         else
           let db2 = ticked db1
           in if exec_fails db1 then (Some ErrIO, db2)
              else case d_idempotency db key of
                     None \<Rightarrow> (Some ErrIO, db2)
                   | Some held \<Rightarrow>
                       (if i_ProcessID held = i_ProcessID rec then None else Some ErrIdempotencyClaimed, db2))"

definition DeleteIdempotency :: "string \<Rightarrow> string \<Rightarrow> Db \<Rightarrow> (error, Db) outcome" where
  "DeleteIdempotency key processID db =
     (if exec_fails db then (Some ErrIO, ticked db)
      else (None, (ticked db)\<lparr>d_idempotency :=
              (case d_idempotency db key of
                 Some held \<Rightarrow> if i_ProcessID held = processID then (d_idempotency db)(key := None)
                              else d_idempotency db
               | None \<Rightarrow> d_idempotency db)\<rparr>))"

definition FindIdempotency :: "string \<Rightarrow> Db \<Rightarrow> (error + Idempotency) \<times> Db" where
  "FindIdempotency key db =
     (if exec_fails db then Inl ErrIO
      else case d_idempotency db key of None \<Rightarrow> Inl ErrNotFound | Some held \<Rightarrow> Inr held, ticked db)"

definition claimGrace :: duration where "claimGrace = minute"

definition purgeIdempotency :: "gtime \<Rightarrow> gtime \<Rightarrow> Db \<Rightarrow> (error, Db) outcome" where
  "purgeIdempotency now before db =
     (if exec_fails db then (Some ErrIO, ticked db)
      else (None, (ticked db)\<lparr>d_idempotency := (\<lambda>key.
              case d_idempotency db key of
                None \<Rightarrow> None
              | Some held \<Rightarrow>
                  if i_CreatedAt held < before \<or>
                     (i_CreatedAt held < now - claimGrace \<and> i_ProcessID held \<notin> row_ids db)
                  then None else Some held)\<rparr>))"

section \<open>Schedules and the audit trail\<close>

definition LoadSchedules :: "Db \<Rightarrow> (error + (string \<rightharpoonup> ScheduleState)) \<times> Db" where
  "LoadSchedules db = (if exec_fails db then Inl ErrIO else Inr (d_schedules db), ticked db)"

definition SaveSchedule :: "string \<Rightarrow> ScheduleState \<Rightarrow> Db \<Rightarrow> (error, Db) outcome" where
  "SaveSchedule w st db =
     (if exec_fails db then (Some ErrIO, ticked db)
      else (None, (ticked db)\<lparr>d_schedules := (d_schedules db)(w \<mapsto> st)\<rparr>))"

definition AppendAudit :: "AuditEntry \<Rightarrow> Db \<Rightarrow> (error, Db) outcome" where
  "AppendAudit entry db =
     (if exec_fails db then (Some ErrIO, ticked db)
      else (None, (ticked db)\<lparr>d_audit := d_audit db @ [entry]\<rparr>))"

section \<open>Retention\<close>

text \<open>Deleting rows of processes deletes the attempts and the locks that reference them.\<close>

definition delete_rows :: "(Process \<Rightarrow> bool) \<Rightarrow> Db \<Rightarrow> Db" where
  "delete_rows gone db =
     (let keep = filter (\<lambda>p. \<not> gone p) (d_processes db); ids = p_ID ` set keep
      in db\<lparr>d_processes := keep,
            d_attempts := (\<lambda>k. if fst k \<in> ids then d_attempts db k else None),
            d_locks := (\<lambda>k. case d_locks db k of
                              None \<Rightarrow> None
                            | Some pid \<Rightarrow> if pid \<in> ids then Some pid else None)\<rparr>)"

definition finished_or_created :: "Process \<Rightarrow> gtime" where
  "finished_or_created p = (case p_FinishedAt p of None \<Rightarrow> p_CreatedAt p | Some t \<Rightarrow> t)"

definition purge_age :: "gtime \<Rightarrow> Process \<Rightarrow> bool" where
  "purge_age before p \<longleftrightarrow> IsTerminal (p_State p) \<and> finished_or_created p < before"

text \<open>
  \<open>ORDER BY created_at DESC LIMIT -1 OFFSET maxRows\<close>: SQLite leaves open the order of rows created
  at the same instant; here they keep the order of insertion.
\<close>

definition beyond_count :: "nat \<Rightarrow> Db \<Rightarrow> string set" where
  "beyond_count maxRows db =
     p_ID ` set (drop maxRows
       (sort_key (\<lambda>p. - p_CreatedAt p) (filter (\<lambda>p. IsTerminal (p_State p)) (d_processes db))))"

definition PurgeHistory :: "gtime \<Rightarrow> gtime \<Rightarrow> int \<Rightarrow> Db \<Rightarrow> (int \<times> error option) \<times> Db" where
  "PurgeHistory now before maxRows db =
     (if exec_fails db then ((0, Some ErrIO), ticked db)
      else
        let db1 = delete_rows (purge_age before) (ticked db);
            removed1 = int (length (d_processes db)) - int (length (d_processes db1))
        in if 0 < maxRows \<and> exec_fails db1 then ((removed1, Some ErrIO), ticked db1)
           else
             let db2 = (if 0 < maxRows
                        then delete_rows (\<lambda>p. p_ID p \<in> beyond_count (nat maxRows) db1) (ticked db1)
                        else db1);
                 removed2 = int (length (d_processes db)) - int (length (d_processes db2))
             in case purgeIdempotency now before db2 of
                  (Some e, db3) \<Rightarrow> ((removed2, Some e), db3)
                | (None, db3) \<Rightarrow>
                    if exec_fails db3 then ((removed2, Some ErrIO), ticked db3)
                    else ((removed2, None),
                          (ticked db3)\<lparr>d_audit := filter (\<lambda>a. \<not> a_At a < before) (d_audit db3)\<rparr>))"

end
