(* ===== verification/StoreProps.thy ===== *)
theory StoreProps
  imports Store
begin

text \<open>
  What the store promises: its integrity constraints hold after any sequence of statements,
  whichever of them fail; a written row is what is read back; the lock table as an interface that
  excludes two holders; listings walked page by page; the batch the scheduler dispatches from;
  and what retention may delete.
\<close>

section \<open>Lookup\<close>

lemma ticked_simps [simp]:
  "d_processes (ticked db) = d_processes db" "d_attempts (ticked db) = d_attempts db"
  "d_locks (ticked db) = d_locks db" "d_idempotency (ticked db) = d_idempotency db"
  "d_schedules (ticked db) = d_schedules db" "d_audit (ticked db) = d_audit db"
  by (simp_all add: ticked_def)

lemma row_ids_ticked [simp]: "row_ids (ticked db) = row_ids db"
  by (simp add: row_ids_def)

lemma lookup_ticked [simp]: "lookup (ticked db) = lookup db"
  by (simp add: lookup_def fun_eq_iff)

lemma lookup_None_iff: "lookup db pid = None \<longleftrightarrow> pid \<notin> row_ids db"
  by (auto simp: lookup_def row_ids_def find_None_iff)

lemma lookup_SomeD: "lookup db pid = Some p \<Longrightarrow> p \<in> set (d_processes db) \<and> p_ID p = pid"
  by (auto simp: lookup_def dest: find_SomeD)

lemma lookup_in_ids: "lookup db pid = Some p \<Longrightarrow> pid \<in> row_ids db"
  by (auto simp: row_ids_def dest: lookup_SomeD)

lemma lookup_replace:
  "find (\<lambda>q. p_ID q = pid) (replace_row p rows) =
     (if pid = p_ID p
      then map_option (\<lambda>q. p\<lparr>p_CreatedAt := p_CreatedAt q\<rparr>) (find (\<lambda>q. p_ID q = pid) rows)
      else find (\<lambda>q. p_ID q = pid) rows)"
  by (induction rows) (auto simp: replace_row_def)

lemma ids_replace [simp]: "map p_ID (replace_row p rows) = map p_ID rows"
  by (auto simp: replace_row_def)

lemma set_ids_replace [simp]: "p_ID ` set (replace_row p rows) = p_ID ` set rows"
  by (metis ids_replace set_map)

lemma upsertAttempt_frame [simp]:
  "d_processes (upsertAttempt p db) = d_processes db" "d_locks (upsertAttempt p db) = d_locks db"
  "d_idempotency (upsertAttempt p db) = d_idempotency db"
  "d_schedules (upsertAttempt p db) = d_schedules db" "d_audit (upsertAttempt p db) = d_audit db"
  "d_faults (upsertAttempt p db) = d_faults db"
  by (simp_all add: upsertAttempt_def)

text \<open>Without a fault schedule every statement succeeds.\<close>

lemma no_faults [simp]: "d_faults db = [] \<Longrightarrow> \<not> exec_fails db" "d_faults db = [] \<Longrightarrow> ticked db = db"
  by (simp_all add: exec_fails_def ticked_def)

section \<open>What one write does\<close>

lemma CreateProcess_ok:
  "CreateProcess p db = (None, db') \<Longrightarrow>
     p_ID p \<notin> row_ids db \<and> d_processes db' = d_processes db @ [p] \<and> d_locks db' = d_locks db \<and>
     d_attempts db' = d_attempts db \<and> d_idempotency db' = d_idempotency db"
  by (auto simp: CreateProcess_def Let_def lookup_None_iff split: if_splits)

lemma CreateProcess_err: "CreateProcess p db = (Some e, db') \<Longrightarrow> db' = ticked db"
  by (auto simp: CreateProcess_def Let_def split: if_splits)

lemma UpdateProcess_ok:
  "UpdateProcess p db = (None, db') \<Longrightarrow>
     p_ID p \<in> row_ids db \<and> d_processes db' = replace_row p (d_processes db) \<and>
     d_locks db' = d_locks db \<and> d_idempotency db' = d_idempotency db \<and>
     d_attempts db' = d_attempts (upsertAttempt p db)"
  by (auto simp: UpdateProcess_def Let_def lookup_None_iff upsertAttempt_def split: if_splits)

lemma UpdateProcess_err:
  "UpdateProcess p db = (Some e, db') \<Longrightarrow> db' = ticked db"
  by (auto simp: UpdateProcess_def Let_def split: if_splits)

lemma UpdateProcess_locks [simp]: "d_locks (snd (UpdateProcess p db)) = d_locks db"
  by (simp add: UpdateProcess_def Let_def)

lemma UpdateProcess_ids [simp]: "row_ids (snd (UpdateProcess p db)) = row_ids db"
  by (simp add: UpdateProcess_def Let_def row_ids_def)

lemma lookup_UpdateProcess:
  "UpdateProcess p db = (None, db') \<Longrightarrow>
     lookup db' pid = (if pid = p_ID p
       then map_option (\<lambda>q. p\<lparr>p_CreatedAt := p_CreatedAt q\<rparr>) (lookup db pid) else lookup db pid)"
  by (simp add: lookup_def UpdateProcess_ok lookup_replace)

lemma lookup_CreateProcess:
  "CreateProcess p db = (None, db') \<Longrightarrow>
     lookup db' pid = (if pid = p_ID p then Some p else lookup db pid)"
proof -
  assume c: "CreateProcess p db = (None, db')"
  then have "lookup db (p_ID p) = None" using CreateProcess_ok [OF c] by (simp add: lookup_None_iff)
  then have "find (\<lambda>q. p_ID q = p_ID p) (d_processes db) = None" by (simp add: lookup_def)
  moreover have "find P (xs @ ys) = (case find P xs of None \<Rightarrow> find P ys | Some y \<Rightarrow> Some y)"
    for P and xs ys :: "Process list" by (induction xs) auto
  ultimately show ?thesis
    using CreateProcess_ok [OF c] by (auto simp: lookup_def split: option.splits)
qed

text \<open>
  What is written is what is read. A created execution reads back as it was given; an updated
  one reads back as given except for its creation time, which an update never moves; every other
  execution reads as before; and a write that returns an error changes no row, attempt or lock.
\<close>

theorem store_write_read:
  "(\<forall>db'. CreateProcess p db = (None, db') \<longrightarrow> lookup db pid = None \<or> pid \<noteq> p_ID p) \<and>
   (\<forall>db'. CreateProcess p db = (None, db') \<longrightarrow>
      lookup db' pid = (if pid = p_ID p then Some p else lookup db pid)) \<and>
   (\<forall>db'. UpdateProcess p db = (None, db') \<longrightarrow>
      (\<exists>q. lookup db (p_ID p) = Some q \<and>
        lookup db' pid = (if pid = p_ID p then Some (p\<lparr>p_CreatedAt := p_CreatedAt q\<rparr>) else lookup db pid))) \<and>
   (\<forall>e db'. CreateProcess p db = (Some e, db') \<or> UpdateProcess p db = (Some e, db') \<longrightarrow>
      d_processes db' = d_processes db \<and> d_attempts db' = d_attempts db \<and> d_locks db' = d_locks db)"
proof (intro conjI allI impI)
  fix db'
  assume c: "CreateProcess p db = (None, db')"
  show "lookup db pid = None \<or> pid \<noteq> p_ID p"
    using CreateProcess_ok [OF c] by (auto simp: lookup_None_iff)
  show "lookup db' pid = (if pid = p_ID p then Some p else lookup db pid)"
    by (rule lookup_CreateProcess [OF c])
next
  fix db'
  assume u: "UpdateProcess p db = (None, db')"
  then obtain q where "lookup db (p_ID p) = Some q"
    using UpdateProcess_ok [OF u] lookup_None_iff [of db "p_ID p"] by auto
  then show "\<exists>q. lookup db (p_ID p) = Some q \<and>
      lookup db' pid = (if pid = p_ID p then Some (p\<lparr>p_CreatedAt := p_CreatedAt q\<rparr>) else lookup db pid)"
    by (simp add: lookup_UpdateProcess [OF u])
qed (auto dest!: CreateProcess_err UpdateProcess_err)

section \<open>Integrity\<close>

definition store_inv :: "Db \<Rightarrow> bool" where
  "store_inv db \<longleftrightarrow>
     distinct (map p_ID (d_processes db)) \<and>
     fst ` dom (d_attempts db) \<subseteq> row_ids db \<and>
     ran (d_locks db) \<subseteq> row_ids db \<and>
     '''' \<notin> dom (d_locks db)"

lemma store_inv_ticked [simp]: "store_inv (ticked db) = store_inv db"
  by (simp add: store_inv_def)

lemma store_inv_empty [inv_intros]: "store_inv empty_db"
  by (simp add: store_inv_def empty_db_def)

lemma store_inv_locks_ok: "store_inv db \<Longrightarrow> d_locks db k = Some pid \<Longrightarrow> pid \<in> row_ids db"
  by (auto simp: store_inv_def intro: ranI)

lemma CreateProcess_inv [inv_intros]: "store_inv db \<Longrightarrow> store_inv (snd (CreateProcess p db))"
  by (auto simp: store_inv_def CreateProcess_def Let_def lookup_None_iff row_ids_def)

lemma UpdateProcess_inv [inv_intros]: "store_inv db \<Longrightarrow> store_inv (snd (UpdateProcess p db))"
proof -
  assume inv: "store_inv db"
  show ?thesis
  proof (cases "UpdateProcess p db")
    case (Pair r db')
    show ?thesis
    proof (cases r)
      case None
      note ok = UpdateProcess_ok [of p db db', OF Pair [unfolded None]]
      have "row_ids db' = row_ids db" using ok by (simp add: row_ids_def)
      moreover have "fst ` dom (d_attempts db') \<subseteq> row_ids db"
        using inv ok by (auto simp: store_inv_def upsertAttempt_def split: if_splits)
      ultimately show ?thesis using inv ok Pair by (simp add: store_inv_def)
    next
      case (Some e)
      then show ?thesis using inv Pair UpdateProcess_err [of p db e db'] by simp
    qed
  qed
qed

lemma AcquireLock_inv [inv_intros]: "store_inv db \<Longrightarrow> store_inv (snd (AcquireLock k pid db))"
  by (auto simp: AcquireLock_def Let_def store_inv_def row_ids_def ran_def split: option.splits if_splits)

lemma ReleaseLock_inv [inv_intros]: "store_inv db \<Longrightarrow> store_inv (snd (ReleaseLock k pid db))"
  by (auto simp: ReleaseLock_def Let_def store_inv_def row_ids_def ran_def split: if_splits)

lemma delete_rows_inv: "store_inv db \<Longrightarrow> store_inv (delete_rows gone db)"
  by (auto simp: store_inv_def delete_rows_def Let_def row_ids_def ran_def dom_def
      split: option.splits if_splits)

lemma purgeIdempotency_frame [simp]:
  "d_processes (snd (purgeIdempotency now before db)) = d_processes db"
  "d_attempts (snd (purgeIdempotency now before db)) = d_attempts db"
  "d_locks (snd (purgeIdempotency now before db)) = d_locks db"
  by (simp_all add: purgeIdempotency_def)

lemma store_inv_cong:
  "d_processes db' = d_processes db \<Longrightarrow> d_attempts db' = d_attempts db \<Longrightarrow> d_locks db' = d_locks db \<Longrightarrow>
   store_inv db' = store_inv db"
  by (simp add: store_inv_def row_ids_def)

lemma PurgeHistory_inv [inv_intros]: "store_inv db \<Longrightarrow> store_inv (snd (PurgeHistory now before maxRows db))"
proof -
  assume inv: "store_inv db"
  define db1 where "db1 = delete_rows (purge_age before) (ticked db)"
  define db2 where "db2 = (if 0 < maxRows
    then delete_rows (\<lambda>p. p_ID p \<in> beyond_count (nat maxRows) db1) (ticked db1) else db1)"
  have 1: "store_inv db1" using inv by (simp add: db1_def delete_rows_inv)
  then have 2: "store_inv db2" by (simp add: db2_def delete_rows_inv)
  obtain r db3 where 3: "purgeIdempotency now before db2 = (r, db3)" by fastforce
  then have "store_inv db3"
    using 2 purgeIdempotency_frame [of now before db2] by (simp add: store_inv_cong [of db3 db2])
  then have "store_inv (db3\<lparr>d_audit := a, d_faults := f\<rparr>)" for a f
    by (simp add: store_inv_def row_ids_def)
  then have "store_inv ((ticked db3)\<lparr>d_audit := a\<rparr>)" for a
    by (simp add: store_inv_def row_ids_def)
  then show ?thesis
    using 1 \<open>store_inv db3\<close> inv unfolding PurgeHistory_def Let_def db1_def [symmetric] db2_def [symmetric] 3
    by (auto split: option.splits)
qed

text \<open>The statements of the daemon, as a client of the store issues them.\<close>

datatype store_op =
    SCreate Process
  | SUpdate Process
  | SAcquire string string
  | SRelease string string
  | SSaveIdempotency string Idempotency
  | SDeleteIdempotency string string
  | SSaveSchedule string ScheduleState
  | SAudit AuditEntry
  | SPurge gtime gtime int
  | SRead

fun store_step :: "Db \<Rightarrow> store_op \<Rightarrow> Db" where
  "store_step db (SCreate p) = snd (CreateProcess p db)"
| "store_step db (SUpdate p) = snd (UpdateProcess p db)"
| "store_step db (SAcquire k pid) = snd (AcquireLock k pid db)"
| "store_step db (SRelease k pid) = snd (ReleaseLock k pid db)"
| "store_step db (SSaveIdempotency k r) = snd (SaveIdempotency k r db)"
| "store_step db (SDeleteIdempotency k pid) = snd (DeleteIdempotency k pid db)"
| "store_step db (SSaveSchedule w st) = snd (SaveSchedule w st db)"
| "store_step db (SAudit a) = snd (AppendAudit a db)"
| "store_step db (SPurge now before n) = snd (PurgeHistory now before n db)"
| "store_step db SRead = ticked db"

lemma SaveIdempotency_inv [inv_intros]: "store_inv db \<Longrightarrow> store_inv (snd (SaveIdempotency k r db))"
  by (simp add: SaveIdempotency_def Let_def store_inv_def row_ids_def split: option.splits)

lemma DeleteIdempotency_inv [inv_intros]: "store_inv db \<Longrightarrow> store_inv (snd (DeleteIdempotency k pid db))"
  by (simp add: DeleteIdempotency_def store_inv_def row_ids_def)

lemma SaveSchedule_inv [inv_intros]: "store_inv db \<Longrightarrow> store_inv (snd (SaveSchedule w st db))"
  by (simp add: SaveSchedule_def store_inv_def row_ids_def)

lemma AppendAudit_inv [inv_intros]: "store_inv db \<Longrightarrow> store_inv (snd (AppendAudit a db))"
  by (simp add: AppendAudit_def store_inv_def row_ids_def)

lemma store_step_inv: "store_inv db \<Longrightarrow> store_inv (store_step db op)"
  by (cases op) (simp_all add: inv_intros)

text \<open>
  C25. The integrity of the database: whatever statements the daemon issues, in whatever order, and
  whichever of them the database refuses, ids stay unique, every attempt row and every held lock
  belongs to an execution that exists, and the empty key is never held.
\<close>

theorem store_integrity: "store_inv (foldl store_step (empty_db\<lparr>d_faults := faults\<rparr>) ops)"
proof (induction ops rule: rev_induct)
  case Nil
  then show ?case by (simp add: store_inv_def empty_db_def)
next
  case (snoc op ops)
  then show ?case by (simp add: store_step_inv)
qed

theorem store_write_read_witness:
  "lookup (snd (CreateProcess (zero_Process\<lparr>p_ID := ''a''\<rparr>) empty_db)) ''a'' = Some (zero_Process\<lparr>p_ID := ''a''\<rparr>)"
proof -
  let ?p = "zero_Process\<lparr>p_ID := ''a''\<rparr>"
  obtain db' where "CreateProcess ?p empty_db = (None, db')"
    by (simp add: CreateProcess_def empty_db_def lookup_def exec_fails_def ticked_def)
  with store_write_read [of ?p empty_db "''a''"] show ?thesis by simp
qed

section \<open>The lock table as an interface\<close>

text \<open>
  What the supervisor and the scheduler rely on when they take and give back a lock. An empty key
  stands for "no lock" and is accepted without effect.
\<close>

locale lock_table =
  fixes holder :: "'s \<Rightarrow> string \<Rightarrow> string option"
    and acquire :: "string \<Rightarrow> string \<Rightarrow> 's \<Rightarrow> ('e, 's) outcome"
    and release :: "string \<Rightarrow> string \<Rightarrow> 's \<Rightarrow> ('e, 's) outcome"
  assumes acquire_empty: "acquire '''' pid s = (None, s)"
    and acquire_ok: "acquire key pid s = (None, s') \<Longrightarrow> key \<noteq> '''' \<Longrightarrow>
      (holder s key = None \<or> holder s key = Some pid) \<and> holder s' = (holder s)(key := Some pid)"
    and acquire_err: "acquire key pid s = (Some e, s') \<Longrightarrow> holder s' = holder s"
    and release_empty: "release '''' pid s = (None, s)"
    and release_ok: "release key pid s = (None, s') \<Longrightarrow> key \<noteq> '''' \<Longrightarrow>
      holder s' = (if holder s key = Some pid then (holder s)(key := None) else holder s)"
    and release_err: "release key pid s = (Some e, s') \<Longrightarrow> holder s' = holder s"
begin

lemma acquire_holds:
  assumes "acquire key pid s = (r, s')" and "holder s k = Some p"
  shows "holder s' k = Some p"
proof (cases "key = ''''")
  case True
  then show ?thesis using assms acquire_empty [of pid s] by simp
next
  case False
  show ?thesis
    using assms acquire_ok [of key pid s s'] acquire_err [of key pid s _ s'] False
    by (cases r) auto
qed

lemma release_holds:
  assumes "release key pid s = (r, s')" and "holder s k = Some p" and "key \<noteq> k \<or> pid \<noteq> p"
  shows "holder s' k = Some p"
proof (cases "key = ''''")
  case True
  then show ?thesis using assms release_empty [of pid s] by simp
next
  case False
  show ?thesis
    using assms release_ok [of key pid s s'] release_err [of key pid s _ s'] False
    by (cases r) auto
qed

lemma acquire_excludes:
  assumes "holder s key = Some p" and "p \<noteq> pid" and "key \<noteq> ''''"
  shows "\<exists>e. fst (acquire key pid s) = Some e"
  using acquire_ok [of key pid s "snd (acquire key pid s)"] assms
  by (cases "acquire key pid s"; cases "fst (acquire key pid s)") auto

end

interpretation locks: lock_table d_locks AcquireLock ReleaseLock
proof
  fix pid key db db' and e :: error
  show "AcquireLock '''' pid db = (None, db)" by (simp add: AcquireLock_def)
  show "ReleaseLock '''' pid db = (None, db)" by (simp add: ReleaseLock_def)
  show "AcquireLock key pid db = (None, db') \<Longrightarrow> key \<noteq> '''' \<Longrightarrow>
      (d_locks db key = None \<or> d_locks db key = Some pid) \<and> d_locks db' = (d_locks db)(key := Some pid)"
    by (auto simp: AcquireLock_def Let_def split: if_splits option.splits)
  show "AcquireLock key pid db = (Some e, db') \<Longrightarrow> d_locks db' = d_locks db"
    by (auto simp: AcquireLock_def Let_def split: if_splits option.splits)
  show "ReleaseLock key pid db = (None, db') \<Longrightarrow> key \<noteq> '''' \<Longrightarrow>
      d_locks db' = (if d_locks db key = Some pid then (d_locks db)(key := None) else d_locks db)"
    by (auto simp: ReleaseLock_def split: if_splits)
  show "ReleaseLock key pid db = (Some e, db') \<Longrightarrow> d_locks db' = d_locks db"
    by (auto simp: ReleaseLock_def split: if_splits)
qed

lemma lock_frame [frame]:
  "d_locks (snd (SaveIdempotency key r db)) = d_locks db"
  "d_locks (snd (DeleteIdempotency key pid db)) = d_locks db"
  "d_locks (snd (SaveSchedule w st db)) = d_locks db"
  "d_locks (snd (AppendAudit a db)) = d_locks db"
  "d_locks (snd (CreateProcess p db)) = d_locks db"
  by (simp_all add: SaveIdempotency_def DeleteIdempotency_def SaveSchedule_def AppendAudit_def
      CreateProcess_def Let_def split: option.splits)

text \<open>What every statement other than a release by the holder, or retention, does to a held lock.\<close>

lemma store_step_keeps_lock:
  assumes "d_locks db k = Some pid" and "op \<noteq> SRelease k pid" and "\<And>now before n. op \<noteq> SPurge now before n"
  shows "d_locks (store_step db op) k = Some pid"
proof (cases op)
  case (SAcquire key q)
  obtain r db' where *: "AcquireLock key q db = (r, db')" by fastforce
  show ?thesis using locks.acquire_holds [OF * assms(1)] SAcquire * by simp
next
  case (SRelease key q)
  obtain r db' where *: "ReleaseLock key q db = (r, db')" by fastforce
  show ?thesis using locks.release_holds [OF * assms(1)] SRelease * assms(2) by auto
next
  case (SPurge now before n)
  then show ?thesis using assms(3) by blast
qed (simp_all add: assms(1) frame)

text \<open>
  Mutual exclusion of the lock table. While an execution holds a key, an acquisition of it by
  another execution is refused; and whatever statements follow, failing or not, the key stays
  with its holder until that holder releases it (retention apart, which removes rows).
\<close>

theorem lock_exclusion:
  assumes "d_locks db k = Some pid" and "k \<noteq> ''''"
    and "\<forall>op \<in> set ops. op \<noteq> SRelease k pid \<and> (\<forall>now before n. op \<noteq> SPurge now before n)"
  shows "d_locks (foldl store_step db ops) k = Some pid \<and>
    (\<forall>q. q \<noteq> pid \<longrightarrow> (\<exists>e. fst (AcquireLock k q (foldl store_step db ops)) = Some e))"
proof -
  have held: "d_locks (foldl store_step db ops) k = Some pid"
    using assms(3)
  proof (induction ops rule: rev_induct)
    case Nil
    then show ?case using assms(1) by simp
  next
    case (snoc op ops)
    have ih: "d_locks (foldl store_step db ops) k = Some pid"
      by (rule snoc.IH) (rule conjunct1 [OF snoc.prems [unfolded set_append ball_Un]])
    have "op \<in> set (ops @ [op])" by simp
    with snoc.prems have "op \<noteq> SRelease k pid" "\<And>now before n. op \<noteq> SPurge now before n" by blast+
    then show ?case unfolding foldl_append foldl.simps by (rule store_step_keeps_lock [OF ih])
  qed
  show ?thesis
  proof (intro conjI allI impI)
    show "d_locks (foldl store_step db ops) k = Some pid" by (rule held)
    fix q assume "q \<noteq> pid"
    then show "\<exists>e. fst (AcquireLock k q (foldl store_step db ops)) = Some e"
      by (intro locks.acquire_excludes [OF held _ assms(2)]) simp
  qed
qed

definition one_holder :: Db where
  "one_holder = snd (AcquireLock ''key'' ''a'' (snd (CreateProcess (zero_Process\<lparr>p_ID := ''a''\<rparr>) empty_db)))"

lemma one_holder_locks: "d_locks one_holder ''key'' = Some ''a''"
  by (simp add: one_holder_def AcquireLock_def CreateProcess_def empty_db_def lookup_def exec_fails_def
      ticked_def row_ids_def Let_def)

theorem lock_exclusion_witness:
  "d_locks (foldl store_step one_holder [SAcquire ''key'' ''b'', SRelease ''key'' ''b'']) ''key'' = Some ''a''"
  using lock_exclusion [OF one_holder_locks, of "[SAcquire ''key'' ''b'', SRelease ''key'' ''b'']"] by simp

section \<open>Listings\<close>

text \<open>A client that follows \<^verbatim>\<open>next_cursor\<close> until there is none, for at most so many pages.\<close>

fun walk :: "nat \<Rightarrow> Filter \<Rightarrow> Db \<Rightarrow> Process list option" where
  "walk 0 f db = None"
| "walk (Suc n) f db =
     (case ListProcesses f db of
        (Inl e, db') \<Rightarrow> None
      | (Inr page, db') \<Rightarrow>
          (case pg_NextCursor page of
             CursorNone \<Rightarrow> Some (pg_Items page)
           | c \<Rightarrow> map_option ((@) (pg_Items page)) (walk n (f\<lparr>f_Cursor := c\<rparr>) db')))"

lemma set_order_desc [simp]: "set (order_desc xs) = set xs"
  by (simp add: order_desc_def)

lemma order_desc_filter: "order_desc (filter P xs) = filter P (order_desc xs)"
  by (simp add: order_desc_def filter_sort flip: rev_filter)

lemma row_key_distinct:
  "distinct (map p_ID rows) \<Longrightarrow> distinct (map row_key rows)"
  by (induction rows) (auto simp: row_key_def image_iff)

lemma order_desc_strict:
  assumes "distinct (map p_ID rows)"
  shows "sorted_wrt (\<lambda>p q. row_key q < row_key p) (order_desc rows)"
proof -
  have "distinct (map row_key (sort_key row_key rows))"
    using row_key_distinct [OF assms] by (metis distinct_map set_sort distinct_sort)
  then have "sorted_wrt (<) (map row_key (sort_key row_key rows))"
    using strict_sorted_iff by (metis sorted_sort_key)
  then show ?thesis by (simp add: order_desc_def sorted_wrt_rev sorted_wrt_map)
qed

lemma before_cursor_key: "before_cursor (encodeCursor q) p \<longleftrightarrow> row_key p < row_key q"
  by (auto simp: encodeCursor_def row_key_def less_prod_def)

text \<open>What is left of a strictly descending list behind one of its elements.\<close>

lemma filter_behind:
  assumes "sorted_wrt (\<lambda>p q. row_key q < row_key p) (xs @ x # ys)"
  shows "filter (\<lambda>p. row_key p < row_key x) (xs @ x # ys) = ys"
proof -
  have "\<forall>p \<in> set xs. \<not> row_key p < row_key x" "\<forall>p \<in> set ys. row_key p < row_key x"
    using assms by (auto simp: sorted_wrt_append)
  then show ?thesis by (simp add: filter_False filter_True)
qed

lemma ListProcesses_page:
  assumes "\<forall>x. f_Cursor f \<noteq> CursorBad x" and "d_faults db = []"
    and "limit = nat (if f_Limit f \<le> 0 then 50 else f_Limit f)"
    and "rest = order_desc (filter (\<lambda>p. filter_matches f p \<and> before_cursor (f_Cursor f) p) (d_processes db))"
  shows "ListProcesses f db =
     (Inr (if limit < length rest
           then \<lparr>pg_Items = take limit rest, pg_NextCursor = encodeCursor (last (take limit rest))\<rparr>
           else \<lparr>pg_Items = rest, pg_NextCursor = CursorNone\<rparr>), db)"
proof -
  have "limit < length (take (limit + 1) rest) \<longleftrightarrow> limit < length rest"
    "take limit (take (limit + 1) rest) = take limit rest"
    "\<not> limit < length rest \<Longrightarrow> take (limit + 1) rest = rest" by auto
  then show ?thesis
    using assms(1,2) unfolding ListProcesses_def assms(3,4) [symmetric]
    by (cases "f_Cursor f") (simp_all add: Let_def flip: assms(3,4))
qed

lemma filter_matches_cursor [simp]: "filter_matches (f\<lparr>f_Cursor := c\<rparr>) = filter_matches f"
  by (simp add: filter_matches_def fun_eq_iff)

lemma walk_all:
  assumes "distinct (map p_ID (d_processes db))" and "d_faults db = []"
    and "\<forall>x. f_Cursor f \<noteq> CursorBad x"
    and "rest = order_desc (filter (\<lambda>p. filter_matches f p \<and> before_cursor (f_Cursor f) p) (d_processes db))"
    and "length rest < n"
  shows "walk n f db = Some rest"
  using assms(3-5)
proof (induction n arbitrary: f rest)
  case 0
  then show ?case by simp
next
  case (Suc n)
  define limit where "limit = nat (if f_Limit f \<le> 0 then 50 else f_Limit f)"
  have lim: "0 < limit" by (simp add: limit_def)
  note page = ListProcesses_page [OF Suc.prems(1) assms(2) limit_def Suc.prems(2)]
  show ?case
  proof (cases "limit < length rest")
    case False
    then show ?thesis by (simp add: page)
  next
    case True
    define xs where "xs = take (limit - 1) rest"
    define x where "x = rest ! (limit - 1)"
    define ys where "ys = drop limit rest"
    have items: "take limit rest = xs @ [x]"
      using True lim take_Suc_conv_app_nth [of "limit - 1" rest] by (simp add: xs_def x_def)
    have split: "rest = xs @ x # ys"
      using items append_take_drop_id [of limit rest] by (simp add: ys_def)
    let ?f = "f\<lparr>f_Cursor := encodeCursor x\<rparr>"
    have strict: "sorted_wrt (\<lambda>p q. row_key q < row_key p) rest"
      unfolding Suc.prems(2) by (rule order_desc_strict) (use assms(1) in auto)
    have "x \<in> set rest" using split by simp
    then have bx: "before_cursor (f_Cursor f) x" using Suc.prems(2) by simp
    have trans: "before_cursor (f_Cursor f) p" if "row_key p < row_key x" for p
      using that bx Suc.prems(1) by (cases "f_Cursor f") (auto simp: row_key_def less_prod_def)
    have "order_desc (filter (\<lambda>p. filter_matches ?f p \<and> before_cursor (f_Cursor ?f) p) (d_processes db)) =
      filter (\<lambda>p. row_key p < row_key x) rest"
      unfolding Suc.prems(2) order_desc_filter filter_filter
      by (rule filter_cong) (auto simp: before_cursor_key trans)
    also have "\<dots> = ys" using strict unfolding split by (rule filter_behind)
    finally have rest': "ys = order_desc (filter (\<lambda>p. filter_matches ?f p \<and> before_cursor (f_Cursor ?f) p) (d_processes db))" ..
    have "length ys < n" using Suc.prems(3) lim True by (simp add: ys_def)
    then have "walk n ?f db = Some ys"
      using rest' by (intro Suc.IH) (auto simp: encodeCursor_def)
    moreover have "encodeCursor x \<noteq> CursorNone" "\<And>t. encodeCursor x \<noteq> CursorBad t"
      by (simp_all add: encodeCursor_def)
    ultimately have "walk (Suc n) f db = map_option ((@) (xs @ [x])) (Some ys)"
      using True by (simp add: page items) (simp add: encodeCursor_def)
    then show ?thesis by (simp add: split)
  qed
qed

text \<open>
  C22. Following \<^verbatim>\<open>next_cursor\<close> from the first page to the last ends, and yields every execution the
  filter matches exactly once, newest first, whatever the page size; on a database that does not
  change meanwhile.
\<close>

theorem pagination_complete:
  assumes "store_inv db" and "d_faults db = []" and "f_Cursor f = CursorNone"
  shows "\<exists>n xs. walk n f db = Some xs \<and> distinct (map p_ID xs) \<and>
    set xs = {p \<in> set (d_processes db). filter_matches f p} \<and>
    sorted_wrt (\<lambda>p q. row_key q < row_key p) xs"
proof -
  have d: "distinct (map p_ID (d_processes db))" using assms(1) by (simp add: store_inv_def)
  define rest where "rest = order_desc (filter (\<lambda>p. filter_matches f p \<and> before_cursor (f_Cursor f) p) (d_processes db))"
  have strict: "sorted_wrt (\<lambda>p q. row_key q < row_key p) rest"
    unfolding rest_def by (rule order_desc_strict) (use d in auto)
  have "walk (Suc (length rest)) f db = Some rest"
    by (rule walk_all [OF d assms(2) _ rest_def]) (auto simp: assms(3))
  moreover have "distinct (map p_ID rest)"
    using d by (auto simp: rest_def order_desc_def distinct_map inj_on_def)
  moreover have "set rest = {p \<in> set (d_processes db). filter_matches f p}"
    by (auto simp: rest_def assms(3))
  ultimately show ?thesis using strict by blast
qed

theorem pagination_complete_witness:
  "\<exists>n xs. walk n \<lparr>f_States = [], f_Type = TypeOther '''', f_Worker = '''', f_Lock = '''',
      f_CreatedAfter = None, f_CreatedBefore = None, f_Limit = 1, f_Cursor = CursorNone\<rparr>
      (empty_db\<lparr>d_processes := [zero_Process\<lparr>p_ID := ''a''\<rparr>, zero_Process\<lparr>p_ID := ''b''\<rparr>]\<rparr>) = Some xs \<and>
    set xs = {zero_Process\<lparr>p_ID := ''a''\<rparr>, zero_Process\<lparr>p_ID := ''b''\<rparr>}"
proof -
  let ?f = "\<lparr>f_States = [], f_Type = TypeOther '''', f_Worker = '''', f_Lock = '''',
      f_CreatedAfter = None, f_CreatedBefore = None, f_Limit = 1, f_Cursor = CursorNone\<rparr>"
  let ?db = "empty_db\<lparr>d_processes := [zero_Process\<lparr>p_ID := ''a''\<rparr>, zero_Process\<lparr>p_ID := ''b''\<rparr>]\<rparr>"
  have m: "filter_matches ?f p" for p by (simp add: filter_matches_def)
  have "store_inv ?db" by (simp add: store_inv_def empty_db_def)
  with pagination_complete [of ?db ?f]
  show ?thesis by (auto simp: m empty_db_def)
qed

section \<open>The dispatch batch\<close>

lemma per_worker_subset: "set (per_worker cap seen xs) \<subseteq> set xs"
proof (induction xs arbitrary: seen)
  case (Cons p ps)
  then show ?case using Cons [of "seen @ [p]"] by auto
qed simp

lemma per_worker_sorted:
  "sorted (map row_key xs) \<Longrightarrow> sorted (map row_key (per_worker cap seen xs))"
  using per_worker_subset by (induction xs arbitrary: seen) (auto, blast)

lemma per_worker_filter:
  "filter (\<lambda>q. p_Worker q = w) (per_worker cap seen xs) =
     take (cap - length (filter (\<lambda>q. p_Worker q = w) seen)) (filter (\<lambda>q. p_Worker q = w) xs)"
proof (induction xs arbitrary: seen)
  case (Cons p ps)
  show ?case
  proof (cases "p_Worker p = w \<and> length (filter (\<lambda>q. p_Worker q = w) seen) < cap")
    case True
    then show ?thesis using Cons [of "seen @ [p]"] by (cases "cap - length (filter (\<lambda>q. p_Worker q = w) seen)")
      (auto simp: diff_Suc)
  next
    case False
    then show ?thesis using Cons [of "seen @ [p]"] by auto
  qed
qed simp

lemma length_by_worker:
  assumes "finite W" and "p_Worker ` set xs \<subseteq> W"
  shows "length xs = (\<Sum>w\<in>W. length (filter (\<lambda>q. p_Worker q = w) xs))"
  using assms(2)
proof (induction xs)
  case (Cons p ps)
  have "(\<Sum>w\<in>W. length (filter (\<lambda>q. p_Worker q = w) (p # ps))) =
      (\<Sum>w\<in>W. (if w = p_Worker p then 1 else 0) + length (filter (\<lambda>q. p_Worker q = w) ps))"
    by (rule sum.cong) auto
  also have "\<dots> = 1 + length ps" using Cons assms(1) by (simp add: sum.distrib)
  finally show ?case by simp
qed simp

lemma filter_take_prefix: "\<exists>n. filter P (take k xs) = take n (filter P xs)"
proof -
  have "filter P xs = filter P (take k xs) @ filter P (drop k xs)" by (metis append_take_drop_id filter_append)
  then have "take (length (filter P (take k xs))) (filter P xs) = filter P (take k xs)" by simp
  then show ?thesis by metis
qed

definition queue_of :: "gtime \<Rightarrow> Db \<Rightarrow> string \<Rightarrow> Process list" where
  "queue_of now db w = filter (\<lambda>q. p_Worker q = w) (order_asc (filter (is_pending now) (d_processes db)))"

lemma set_order_asc [simp]: "set (order_asc xs) = set xs"
  by (simp add: order_asc_def)

lemma pending_rows_of_worker:
  "\<exists>n. n \<le> maxPendingPerWorker \<and> filter (\<lambda>q. p_Worker q = w) (pending_rows now db) = take n (queue_of now db w)"
proof -
  let ?all = "order_asc (filter (is_pending now) (d_processes db))"
  obtain n where "filter (\<lambda>q. p_Worker q = w) (pending_rows now db) =
      take n (filter (\<lambda>q. p_Worker q = w) (per_worker maxPendingPerWorker [] ?all))"
    using filter_take_prefix unfolding pending_rows_def by blast
  also have "\<dots> = take (min n maxPendingPerWorker) (queue_of now db w)"
    by (simp add: per_worker_filter queue_of_def)
  finally show ?thesis by (intro exI [of _ "min n maxPendingPerWorker"]) simp
qed

lemma pending_rows_few_workers:
  assumes "card (p_Worker ` {p \<in> set (d_processes db). is_pending now p}) \<le> 5"
  shows "filter (\<lambda>q. p_Worker q = w) (pending_rows now db) = take maxPendingPerWorker (queue_of now db w)"
proof -
  let ?all = "order_asc (filter (is_pending now) (d_processes db))"
  let ?cut = "per_worker maxPendingPerWorker [] ?all"
  let ?W = "p_Worker ` {p \<in> set (d_processes db). is_pending now p}"
  have "p_Worker ` set ?cut \<subseteq> ?W" using per_worker_subset [of _ "[]" ?all] by auto
  then have "length ?cut = (\<Sum>w\<in>?W. length (filter (\<lambda>q. p_Worker q = w) ?cut))"
    by (intro length_by_worker) auto
  also have "\<dots> \<le> (\<Sum>w\<in>?W. maxPendingPerWorker)"
    by (intro sum_mono) (simp add: per_worker_filter)
  also have "\<dots> \<le> maxPendingBatch" using assms by (simp add: maxPendingPerWorker_def maxPendingBatch_def)
  finally have "pending_rows now db = ?cut" by (simp add: pending_rows_def)
  then show ?thesis by (simp add: per_worker_filter queue_of_def)
qed

text \<open>
  The batch of the scheduler. Everything in it may start now; it is ordered oldest first and
  holds at most 500 executions, at most 100 of one worker; what it holds of a worker is the front
  of that worker's own queue. And while at most five workers have work waiting, no backlog hides
  another: each worker's oldest 100 executions are all in the batch.
\<close>

theorem pending_batch:
  assumes "PendingProcesses now db = (Inr ps, db')"
  shows "(\<forall>p \<in> set ps. p \<in> set (d_processes db) \<and> is_pending now p) \<and>
    sorted (map row_key ps) \<and> length ps \<le> 500 \<and>
    (\<forall>w. \<exists>n \<le> 100. filter (\<lambda>q. p_Worker q = w) ps = take n (queue_of now db w)) \<and>
    (card (p_Worker ` {p \<in> set (d_processes db). is_pending now p}) \<le> 5 \<longrightarrow>
      (\<forall>w. filter (\<lambda>q. p_Worker q = w) ps = take 100 (queue_of now db w)))"
proof -
  let ?all = "order_asc (filter (is_pending now) (d_processes db))"
  have ps: "ps = pending_rows now db" using assms by (auto simp: PendingProcesses_def split: if_splits)
  have "set ps \<subseteq> set ?all"
    using per_worker_subset [of maxPendingPerWorker "[]" ?all] set_take_subset
    unfolding ps pending_rows_def by fastforce
  then have 1: "\<forall>p \<in> set ps. p \<in> set (d_processes db) \<and> is_pending now p" by auto
  have "sorted (map row_key ?all)" by (simp add: order_asc_def)
  then have 2: "sorted (map row_key ps)"
    unfolding ps pending_rows_def take_map [symmetric] by (intro sorted_wrt_take per_worker_sorted)
  have 3: "length ps \<le> 500" unfolding ps pending_rows_def by (simp add: maxPendingBatch_def)
  have 4: "\<exists>n \<le> 100. filter (\<lambda>q. p_Worker q = w) ps = take n (queue_of now db w)" for w
    using pending_rows_of_worker [of w now db] unfolding ps by (auto simp: maxPendingPerWorker_def)
  have 5: "filter (\<lambda>q. p_Worker q = w) ps = take 100 (queue_of now db w)"
    if "card (p_Worker ` {p \<in> set (d_processes db). is_pending now p}) \<le> 5" for w
    using pending_rows_few_workers [OF that] unfolding ps by (simp add: maxPendingPerWorker_def)
  show ?thesis using 1 2 3 4 5 by simp
qed

definition queued :: "string \<Rightarrow> string \<Rightarrow> gtime \<Rightarrow> Process" where
  "queued pid w t = zero_Process\<lparr>p_ID := pid, p_Worker := w, p_State := StateQueued, p_CreatedAt := t\<rparr>"

theorem pending_batch_witness:
  "\<exists>ps. fst (PendingProcesses 10 (empty_db\<lparr>d_processes := [queued ''a'' ''w'' 2, queued ''b'' ''v'' 1]\<rparr>)) = Inr ps \<and>
     filter (\<lambda>q. p_Worker q = ''w'') ps = [queued ''a'' ''w'' 2]"
proof -
  let ?db = "empty_db\<lparr>d_processes := [queued ''a'' ''w'' 2, queued ''b'' ''v'' 1]\<rparr>"
  have p: "PendingProcesses 10 ?db = (Inr (pending_rows 10 ?db), ?db)"
    by (simp add: PendingProcesses_def empty_db_def)
  have s: "{p \<in> set (d_processes ?db). is_pending 10 p} = {queued ''a'' ''w'' 2, queued ''b'' ''v'' 1}"
    by (auto simp: is_pending_def queued_def)
  have c: "card (p_Worker ` {p \<in> set (d_processes ?db). is_pending 10 p}) \<le> 5"
    unfolding s by (simp add: queued_def card_insert_if)
  have q: "queue_of 10 ?db ''w'' = [queued ''a'' ''w'' 2]"
    by (simp add: queue_of_def is_pending_def order_asc_def row_key_def queued_def zero_Process_def)
  show ?thesis using pending_batch [OF p] c q p by simp
qed

section \<open>Retention\<close>

lemma delete_rows_simps [simp]:
  "d_processes (delete_rows gone db) = filter (\<lambda>p. \<not> gone p) (d_processes db)"
  "d_faults (delete_rows gone db) = d_faults db"
  by (simp_all add: delete_rows_def Let_def)

lemma delete_rows_lock:
  "d_locks db k = Some pid \<Longrightarrow> p \<in> set (d_processes db) \<Longrightarrow> p_ID p = pid \<Longrightarrow> \<not> gone p \<Longrightarrow>
     d_locks (delete_rows gone db) k = Some pid"
  by (auto simp: delete_rows_def Let_def)

text \<open>The rows after a purge, whatever statement of it failed.\<close>

lemma PurgeHistory_rows:
  assumes "PurgeHistory now before maxRows db = ((n, r), db')"
  defines "db1 \<equiv> delete_rows (purge_age before) (ticked db)"
  shows "(d_processes db' = d_processes db \<and> d_locks db' = d_locks db \<and> n = 0 \<and> r \<noteq> None) \<or>
    (d_processes db' = d_processes db1 \<and> d_locks db' = d_locks db1 \<and> (0 < maxRows \<longrightarrow> r \<noteq> None) \<and>
       n = int (length (d_processes db)) - int (length (d_processes db'))) \<or>
    (0 < maxRows \<and>
       d_processes db' = filter (\<lambda>p. p_ID p \<notin> beyond_count (nat maxRows) db1) (d_processes db1) \<and>
       d_locks db' = d_locks (delete_rows (\<lambda>p. p_ID p \<in> beyond_count (nat maxRows) db1) (ticked db1)) \<and>
       n = int (length (d_processes db)) - int (length (d_processes db')))"
proof -
  define db2 where "db2 = (if 0 < maxRows
    then delete_rows (\<lambda>p. p_ID p \<in> beyond_count (nat maxRows) db1) (ticked db1) else db1)"
  obtain e db3 where 3: "purgeIdempotency now before db2 = (e, db3)" by fastforce
  have f: "d_processes db3 = d_processes db2" "d_locks db3 = d_locks db2"
    using purgeIdempotency_frame [of now before db2] 3 by simp_all
  show ?thesis
    using assms(1) f
    unfolding PurgeHistory_def Let_def db1_def [symmetric] db2_def [symmetric] 3
    by (auto simp: db2_def split: if_splits option.splits)
qed

lemma beyond_count_terminal:
  "p_ID p \<in> beyond_count m db \<Longrightarrow> p \<in> set (d_processes db) \<Longrightarrow> distinct (map p_ID (d_processes db)) \<Longrightarrow>
     IsTerminal (p_State p)"
  by (auto simp: beyond_count_def distinct_map dest!: in_set_dropD dest: inj_onD)

lemma beyond_count_rest:
  "length (filter (\<lambda>p. IsTerminal (p_State p)) (filter (\<lambda>p. p_ID p \<notin> beyond_count m db) (d_processes db))) \<le> m"
proof -
  let ?T = "filter (\<lambda>p. IsTerminal (p_State p)) (d_processes db)"
  let ?S = "sort_key (\<lambda>p. - p_CreatedAt p) ?T"
  let ?P = "\<lambda>p. p_ID p \<notin> beyond_count m db"
  have "length (filter ?P ?T) = size (mset (filter ?P ?T))" by (rule size_mset [symmetric])
  also have "mset (filter ?P ?T) = mset (filter ?P ?S)" by (simp add: filter_filter_mset conj_commute)
  also have "size (mset (filter ?P ?S)) = length (filter ?P (take m ?S @ drop m ?S))"
    unfolding append_take_drop_id by (rule size_mset)
  also have "\<dots> = length (filter ?P (take m ?S)) + length (filter ?P (drop m ?S))"
    unfolding filter_append length_append ..
  also have "filter ?P (drop m ?S) = []" by (auto simp: beyond_count_def filter_empty_conv)
  also have "length (filter ?P (take m ?S)) + length ([] :: Process list) \<le> m"
    using length_filter_le [of ?P "take m ?S"] by simp
  finally have "length (filter ?P ?T) \<le> m" .
  then show ?thesis by (simp add: conj_commute)
qed

text \<open>What survives a purge, as the rest of the daemon relies on it.\<close>

lemma PurgeHistory_keeps:
  assumes "store_inv db" and "PurgeHistory now before maxRows db = ((n, r), db')"
  shows "p \<in> set (d_processes db) \<Longrightarrow> \<not> IsTerminal (p_State p) \<Longrightarrow> p \<in> set (d_processes db')"
    and "d_locks db k = Some pid \<Longrightarrow> pid \<in> row_ids db' \<Longrightarrow> d_locks db' k = Some pid"
proof -
  define db1 where "db1 = delete_rows (purge_age before) (ticked db)"
  let ?gone = "\<lambda>p. p_ID p \<in> beyond_count (nat maxRows) db1"
  have d: "distinct (map p_ID (d_processes db1))"
    using assms(1) by (auto simp: store_inv_def db1_def)
  have r1: "d_processes db1 = filter (\<lambda>p. \<not> purge_age before p) (d_processes db)" by (simp add: db1_def)
  have cases: "(d_processes db' = d_processes db \<and> d_locks db' = d_locks db) \<or>
      (d_processes db' = d_processes db1 \<and> d_locks db' = d_locks db1) \<or>
      (d_processes db' = filter (\<lambda>p. \<not> ?gone p) (d_processes db1) \<and> d_locks db' = d_locks (delete_rows ?gone (ticked db1)))"
    using PurgeHistory_rows [OF assms(2), folded db1_def] by blast
  show "p \<in> set (d_processes db')" if "p \<in> set (d_processes db)" "\<not> IsTerminal (p_State p)"
    using cases that beyond_count_terminal [of p "nat maxRows" db1] d by (auto simp: r1 purge_age_def)
  show "d_locks db' k = Some pid" if "d_locks db k = Some pid" "pid \<in> row_ids db'"
    using cases that by (auto simp: db1_def delete_rows_def Let_def row_ids_def)
qed

text \<open>
  What retention may delete, even when one of its statements fails half way: only executions in
  a terminal state go, no lock of a surviving execution goes, and the number reported is the
  number removed. When it reports no error, no terminal execution older than the cut-off is left
  and, with a row limit, at most that many terminal executions are.
\<close>

theorem purge_spec:
  assumes "store_inv db" and "PurgeHistory now before maxRows db = ((n, r), db')"
  shows "set (d_processes db') \<subseteq> set (d_processes db) \<and>
    (\<forall>p \<in> set (d_processes db). \<not> IsTerminal (p_State p) \<longrightarrow> p \<in> set (d_processes db')) \<and>
    n = int (length (d_processes db)) - int (length (d_processes db')) \<and>
    (\<forall>k pid. d_locks db k = Some pid \<and> pid \<in> row_ids db' \<longrightarrow> d_locks db' k = Some pid) \<and>
    (r = None \<longrightarrow> (\<forall>p \<in> set (d_processes db'). IsTerminal (p_State p) \<longrightarrow> before \<le> finished_or_created p) \<and>
      (0 < maxRows \<longrightarrow> int (length (filter (\<lambda>p. IsTerminal (p_State p)) (d_processes db'))) \<le> maxRows))"
proof -
  define db1 where "db1 = delete_rows (purge_age before) (ticked db)"
  have d: "distinct (map p_ID (d_processes db1))"
    using assms(1) by (auto simp: store_inv_def db1_def)
  have r1: "d_processes db1 = filter (\<lambda>p. \<not> purge_age before p) (d_processes db)" by (simp add: db1_def)
  let ?keep = "\<lambda>p. p_ID p \<notin> beyond_count (nat maxRows) db1"
  have count: "int (length (filter (\<lambda>p. IsTerminal (p_State p)) (filter ?keep (d_processes db1)))) \<le> maxRows"
    if "0 < maxRows" using beyond_count_rest [of "nat maxRows" db1] that by linarith
  note cases = PurgeHistory_rows [OF assms(2), folded db1_def]
  then consider (none) "d_processes db' = d_processes db" "d_locks db' = d_locks db" "n = 0" "r \<noteq> None"
    | (age) "d_processes db' = d_processes db1" "d_locks db' = d_locks db1" "0 < maxRows \<longrightarrow> r \<noteq> None"
        "n = int (length (d_processes db)) - int (length (d_processes db'))"
    | (count) "0 < maxRows" "d_processes db' = filter ?keep (d_processes db1)"
        "d_locks db' = d_locks (delete_rows (\<lambda>p. p_ID p \<in> beyond_count (nat maxRows) db1) (ticked db1))"
        "n = int (length (d_processes db)) - int (length (d_processes db'))"
    by blast
  then have "n = int (length (d_processes db)) - int (length (d_processes db')) \<and>
      set (d_processes db') \<subseteq> set (d_processes db) \<and>
      (r = None \<longrightarrow> (\<forall>p \<in> set (d_processes db'). IsTerminal (p_State p) \<longrightarrow> before \<le> finished_or_created p) \<and>
        (0 < maxRows \<longrightarrow> int (length (filter (\<lambda>p. IsTerminal (p_State p)) (d_processes db'))) \<le> maxRows))"
    using count by cases (auto simp: r1 purge_age_def)
  then show ?thesis using PurgeHistory_keeps [OF assms] by blast
qed

theorem purge_spec_witness:
  "d_processes (snd (PurgeHistory 100 50 0
     (empty_db\<lparr>d_processes := [queued ''a'' ''w'' 2, (queued ''b'' ''v'' 1)\<lparr>p_State := StateFailed\<rparr>]\<rparr>)))
   = [queued ''a'' ''w'' 2]"
proof -
  let ?db = "empty_db\<lparr>d_processes := [queued ''a'' ''w'' 2, (queued ''b'' ''v'' 1)\<lparr>p_State := StateFailed\<rparr>]\<rparr>"
  have inv: "store_inv ?db" by (simp add: store_inv_def empty_db_def queued_def)
  obtain n r db' where p: "PurgeHistory 100 50 0 ?db = ((n, r), db')" by (metis surj_pair)
  then have "length (d_processes db') = 1"
    by (auto simp: PurgeHistory_def purgeIdempotency_def empty_db_def exec_fails_def ticked_def
        delete_rows_def Let_def purge_age_def queued_def zero_Process_def finished_or_created_def)
  then obtain x where x: "d_processes db' = [x]" by (auto simp: length_Suc_conv)
  have "queued ''a'' ''w'' 2 \<in> set (d_processes db')"
    using purge_spec [OF inv p] by (simp add: empty_db_def queued_def)
  then show ?thesis using x p by simp
qed

end
