(* ===== verification/Slots.thy ===== *)
theory Slots
  imports Core
begin

text \<open>
  \<^verbatim>\<open>internal/queue/slots.go\<close>: the table of concurrency slots, with the node-wide ceiling and
  one ceiling per worker. A Go map of counters reads 0 for a missing key, so both counter maps
  are total functions; \<^verbatim>\<open>holders\<close> is a partial map. Each method runs under the table's mutex,
  so each is one atomic step.
\<close>

record Slots =
  globalMax :: int
  globalUsed :: int
  workerMax :: "string \<Rightarrow> int"
  workerUsed :: "string \<Rightarrow> int"
  holders :: "string \<rightharpoonup> string"

definition NewSlots :: "int \<Rightarrow> Slots" where
  "NewSlots gmax = \<lparr>globalMax = gmax, globalUsed = 0, workerMax = (\<lambda>_. 0),
     workerUsed = (\<lambda>_. 0), holders = Map.empty\<rparr>"

definition SetWorkerLimit :: "Slots \<Rightarrow> string \<Rightarrow> int \<Rightarrow> Slots" where
  "SetWorkerLimit s worker lim = s\<lparr>workerMax := (workerMax s)(worker := lim)\<rparr>"

definition TryAcquire :: "Slots \<Rightarrow> string \<Rightarrow> string \<Rightarrow> bool \<times> Slots" where
  "TryAcquire s processID worker =
     (if holders s processID \<noteq> None then (True, s)
      else if globalUsed s \<ge> globalMax s then (False, s)
      else if workerMax s worker > 0 \<and> workerUsed s worker \<ge> workerMax s worker then (False, s)
      else (True, s\<lparr>globalUsed := globalUsed s + 1,
                    workerUsed := (workerUsed s)(worker := workerUsed s worker + 1),
                    holders := (holders s)(processID \<mapsto> worker)\<rparr>))"

definition Release :: "Slots \<Rightarrow> string \<Rightarrow> Slots" where
  "Release s processID =
     (case holders s processID of
        None \<Rightarrow> s
      | Some worker \<Rightarrow>
          let s = s\<lparr>holders := (holders s)(processID := None)\<rparr>;
              s = (if globalUsed s > 0 then s\<lparr>globalUsed := globalUsed s - 1\<rparr> else s)
          in if workerUsed s worker > 0
             then s\<lparr>workerUsed := (workerUsed s)(worker := workerUsed s worker - 1)\<rparr>
             else s)"

definition Holds :: "Slots \<Rightarrow> string \<Rightarrow> bool" where
  "Holds s processID = (holders s processID \<noteq> None)"

definition Usage :: "Slots \<Rightarrow> int \<times> int" where
  "Usage s = (globalUsed s, globalMax s)"

section \<open>The contract of a slot table\<close>

text \<open>
  What the scheduler and the supervisor rely on: a set of executions that hold a slot, never
  larger than the ceiling, grown by a successful acquisition and shrunk by a release.
\<close>

locale slot_table =
  fixes acquire :: "'s \<Rightarrow> string \<Rightarrow> string \<Rightarrow> bool \<times> 's"
    and release :: "'s \<Rightarrow> string \<Rightarrow> 's"
    and holding :: "'s \<Rightarrow> string set"
    and cap :: "'s \<Rightarrow> int"
    and wf :: "'s \<Rightarrow> bool"
  assumes acquire_wf: "wf s \<Longrightarrow> wf (snd (acquire s i w))"
    and release_wf: "wf s \<Longrightarrow> wf (release s i)"
    and acquire_holding: "wf s \<Longrightarrow> holding (snd (acquire s i w)) =
      (if fst (acquire s i w) then insert i (holding s) else holding s)"
    and release_holding: "wf s \<Longrightarrow> holding (release s i) = holding s - {i}"
    and acquire_held: "wf s \<Longrightarrow> i \<in> holding s \<Longrightarrow> acquire s i w = (True, s)"
    and wf_bound: "wf s \<Longrightarrow> finite (holding s) \<and> int (card (holding s)) \<le> max 0 (cap s)"
    and acquire_cap: "cap (snd (acquire s i w)) = cap s"
    and release_cap: "cap (release s i) = cap s"
begin

lemma release_after_acquire:
  assumes "wf s" and "i \<notin> holding s"
  shows "holding (release (snd (acquire s i w)) i) = holding s"
  using assms by (auto simp: acquire_wf acquire_holding release_holding)

lemma acquire_twice:
  assumes "wf s" and "fst (acquire s i w)"
  shows "acquire (snd (acquire s i w)) i v = (True, snd (acquire s i w))"
  using assms by (simp add: acquire_held acquire_wf acquire_holding)

lemma release_twice: "wf s \<Longrightarrow> holding (release (release s i) i) = holding (release s i)"
  by (simp add: release_wf release_holding)

lemma other_untouched:
  assumes "wf s" and "i \<noteq> j"
  shows "j \<in> holding (snd (acquire s i w)) \<longleftrightarrow> j \<in> holding s"
    and "j \<in> holding (release s i) \<longleftrightarrow> j \<in> holding s"
  using assms by (auto simp: acquire_holding release_holding)

lemma acquire_mono: "wf s \<Longrightarrow> holding s \<subseteq> holding (snd (acquire s i w))"
  by (simp add: acquire_holding subset_insertI)

end

section \<open>Accounting\<close>

text \<open>
  The invariant of the table: the counters are the numbers of holders, node-wide and per
  worker, and the node-wide one is within its ceiling.
\<close>

definition holders_of :: "Slots \<Rightarrow> string \<Rightarrow> string set" where
  "holders_of s worker = {i. holders s i = Some worker}"

definition slots_inv :: "Slots \<Rightarrow> bool" where
  "slots_inv s \<longleftrightarrow> finite (dom (holders s)) \<and> globalUsed s = int (card (dom (holders s))) \<and>
     (\<forall>w. workerUsed s w = int (card (holders_of s w))) \<and>
     globalUsed s \<le> max 0 (globalMax s)"

lemma holders_of_subset: "holders_of s w \<subseteq> dom (holders s)"
  by (auto simp: holders_of_def)

lemma holders_of_finite: "finite (dom (holders s)) \<Longrightarrow> finite (holders_of s w)"
  by (rule finite_subset [OF holders_of_subset])

lemma slots_inv_NewSlots: "slots_inv (NewSlots n)"
  by (simp add: slots_inv_def NewSlots_def holders_of_def)

lemma slots_inv_SetWorkerLimit: "slots_inv s \<Longrightarrow> slots_inv (SetWorkerLimit s w n)"
  by (simp add: slots_inv_def SetWorkerLimit_def holders_of_def)

lemma slots_inv_add:
  assumes inv: "slots_inv s" and new: "holders s i = None" and room: "globalUsed s < globalMax s"
  shows "slots_inv (s\<lparr>globalUsed := globalUsed s + 1,
           workerUsed := (workerUsed s)(w := workerUsed s w + 1),
           holders := (holders s)(i \<mapsto> w)\<rparr>)" (is "slots_inv ?t")
proof -
  have fin: "finite (dom (holders s))" using inv by (simp add: slots_inv_def)
  have of_w: "holders_of ?t w = insert i (holders_of s w)"
    and of_other: "v \<noteq> w \<Longrightarrow> holders_of ?t v = holders_of s v" for v
    using new by (auto simp: holders_of_def)
  have "i \<notin> holders_of s w" using new by (simp add: holders_of_def)
  then have "card (holders_of ?t w) = Suc (card (holders_of s w))"
    unfolding of_w using holders_of_finite [OF fin] by simp
  moreover have "card (dom (holders ?t)) = Suc (card (dom (holders s)))"
    using new fin by (simp add: domIff)
  ultimately show ?thesis
    using inv room fin of_other by (auto simp: slots_inv_def)
qed

lemma slots_inv_TryAcquire: "slots_inv s \<Longrightarrow> slots_inv (snd (TryAcquire s i w))"
  by (auto simp: TryAcquire_def intro: slots_inv_add)

lemma slots_inv_held_positive:
  assumes "slots_inv s" and "holders s i = Some w"
  shows "globalUsed s > 0" and "workerUsed s w > 0"
proof -
  have fin: "finite (dom (holders s))" using assms by (simp add: slots_inv_def)
  have "i \<in> dom (holders s)" "i \<in> holders_of s w"
    using assms by (auto simp: holders_of_def)
  then have "card (dom (holders s)) > 0" "card (holders_of s w) > 0"
    using fin holders_of_finite [OF fin] by (auto simp: card_gt_0_iff)
  then show "globalUsed s > 0" "workerUsed s w > 0"
    using assms(1) by (auto simp: slots_inv_def)
qed

lemma Release_held:
  assumes "slots_inv s" and "holders s i = Some w"
  shows "Release s i = s\<lparr>globalUsed := globalUsed s - 1,
     workerUsed := (workerUsed s)(w := workerUsed s w - 1),
     holders := (holders s)(i := None)\<rparr>"
  using slots_inv_held_positive [OF assms] assms(2) by (simp add: Release_def)

lemma slots_inv_Release:
  assumes inv: "slots_inv s"
  shows "slots_inv (Release s i)"
proof (cases "holders s i")
  case None
  then show ?thesis using inv by (simp add: Release_def)
next
  case (Some w)
  let ?t = "Release s i"
  have fin: "finite (dom (holders s))" using inv by (simp add: slots_inv_def)
  note t = Release_held [OF inv Some]
  have of_w: "holders_of ?t w = holders_of s w - {i}"
    and of_other: "v \<noteq> w \<Longrightarrow> holders_of ?t v = holders_of s v" for v
    using Some by (auto simp: t holders_of_def)
  have "i \<in> holders_of s w" using Some by (simp add: holders_of_def)
  then have "int (card (holders_of ?t w)) = int (card (holders_of s w)) - 1"
    unfolding of_w using holders_of_finite [OF fin]
    by (metis One_nat_def Suc_pred card_Diff_singleton card_gt_0_iff empty_iff of_nat_1 of_nat_Suc
        add_diff_cancel_left')
  moreover have "dom (holders ?t) = dom (holders s) - {i}" by (auto simp: t)
  moreover from Some have "i \<in> dom (holders s)" by blast
  ultimately show ?thesis
    using inv fin of_other slots_inv_held_positive [OF inv Some]
    by (auto simp: slots_inv_def t card_Diff_singleton)
qed

lemma TryAcquire_holders:
  "dom (holders (snd (TryAcquire s i w))) =
     (if fst (TryAcquire s i w) then insert i (dom (holders s)) else dom (holders s))"
  by (auto simp: TryAcquire_def)

lemma Release_holders: "holders (Release s i) = (holders s)(i := None)"
  by (cases "holders s i") (auto simp: Release_def Let_def fun_upd_idem_iff)

lemma globalMax_frame [simp]:
  "globalMax (snd (TryAcquire s i w)) = globalMax s" "globalMax (Release s i) = globalMax s"
  "globalMax (SetWorkerLimit s v n) = globalMax s"
  by (auto simp: TryAcquire_def Release_def SetWorkerLimit_def Let_def split: option.splits)

interpretation slots: slot_table TryAcquire Release "\<lambda>s. dom (holders s)" globalMax slots_inv
proof unfold_locales
  fix s :: Slots and i w :: string
  show "slots_inv s \<Longrightarrow> i \<in> dom (holders s) \<Longrightarrow> TryAcquire s i w = (True, s)"
    by (auto simp: TryAcquire_def)
next
  fix s :: Slots
  show "slots_inv s \<Longrightarrow>
      finite (dom (holders s)) \<and> int (card (dom (holders s))) \<le> max 0 (globalMax s)"
    by (simp add: slots_inv_def)
qed (simp_all add: slots_inv_TryAcquire slots_inv_Release TryAcquire_holders Release_holders
       dom_fun_upd)

text \<open>Sequences of operations by any number of executions, in any order.\<close>

datatype slot_op = OpAcquire string string | OpRelease string | OpLimit string int

fun slot_step :: "Slots \<Rightarrow> slot_op \<Rightarrow> Slots" where
  "slot_step s (OpAcquire i w) = snd (TryAcquire s i w)"
| "slot_step s (OpRelease i) = Release s i"
| "slot_step s (OpLimit w n) = SetWorkerLimit s w n"

lemma slot_step_inv: "slots_inv s \<Longrightarrow> slots_inv (slot_step s e)"
  by (cases e) (auto simp: slots_inv_TryAcquire slots_inv_Release slots_inv_SetWorkerLimit)

lemma slot_run_inv: "slots_inv s \<Longrightarrow> slots_inv (foldl slot_step s es)"
  by (induction es arbitrary: s) (simp_all add: slot_step_inv)

lemma slot_run_globalMax: "globalMax (foldl slot_step s es) = globalMax s"
proof (induction es arbitrary: s)
  case (Cons e es)
  then show ?case by (cases e) simp_all
qed simp

text \<open>
  Whatever sequence of acquisitions, releases and limit changes the daemon performs on a
  fresh table, the counters equal the numbers of executions that hold a slot, and no more
  than \<^verbatim>\<open>max_processes\<close> executions hold one at the same time.
\<close>

theorem slots_accounting:
  "slots_inv (foldl slot_step (NewSlots n) es) \<and>
   int (card (dom (holders (foldl slot_step (NewSlots n) es)))) \<le> max 0 n"
proof
  show inv: "slots_inv (foldl slot_step (NewSlots n) es)"
    by (rule slot_run_inv [OF slots_inv_NewSlots])
  show "int (card (dom (holders (foldl slot_step (NewSlots n) es)))) \<le> max 0 n"
    using slots.wf_bound [OF inv] slot_run_globalMax [of "NewSlots n" es]
    by (simp add: NewSlots_def)
qed

text \<open>
  When \<^verbatim>\<open>TryAcquire\<close> succeeds and when it refuses, in terms of who holds slots: it succeeds
  for an execution that already holds one, and otherwise exactly when fewer than
  \<^verbatim>\<open>max_processes\<close> executions hold a slot and the worker, if it has a limit, has fewer than that
  many. A refusal changes nothing, and a repeated acquisition consumes nothing.
\<close>

theorem TryAcquire_spec:
  assumes inv: "slots_inv s"
  shows "(fst (TryAcquire s i w) \<longleftrightarrow>
           Holds s i \<or>
           (int (card (dom (holders s))) < globalMax s \<and>
            (0 < workerMax s w \<longrightarrow> int (card (holders_of s w)) < workerMax s w))) \<and>
         (Holds (snd (TryAcquire s i w)) i \<longleftrightarrow> fst (TryAcquire s i w)) \<and>
         (\<not> fst (TryAcquire s i w) \<or> Holds s i \<longrightarrow> snd (TryAcquire s i w) = s)"
proof -
  have used: "globalUsed s = int (card (dom (holders s)))"
    "workerUsed s w = int (card (holders_of s w))"
    using inv by (simp_all add: slots_inv_def)
  show ?thesis
    by (cases "holders s i") (simp_all add: TryAcquire_def Holds_def used not_le)
qed

theorem TryAcquire_spec_witness:
  "fst (TryAcquire (NewSlots 1) ''p'' ''w'') \<and>
   \<not> fst (TryAcquire (snd (TryAcquire (NewSlots 1) ''p'' ''w'')) ''q'' ''w'')"
proof -
  let ?s = "snd (TryAcquire (NewSlots 1) ''p'' ''w'')"
  have inv: "slots_inv (NewSlots 1)" "slots_inv ?s"
    by (simp_all add: slots_inv_NewSlots slots_inv_TryAcquire)
  have h: "holders ?s = [''p'' \<mapsto> ''w'']" "globalMax ?s = 1"
    by (simp_all add: TryAcquire_def NewSlots_def)
  show ?thesis
    using TryAcquire_spec [OF inv(1), of "''p''" "''w''"]
      TryAcquire_spec [OF inv(2), of "''q''" "''w''"] h
    by (simp add: Holds_def NewSlots_def)
qed

text \<open>
  \<^verbatim>\<open>Release\<close> gives back exactly what the execution held: afterwards it holds nothing,
  nobody else is affected, the freed slot is available again, and releasing twice (the start
  path and the supervisor both do) is the same as releasing once.
\<close>

theorem Release_spec:
  assumes inv: "slots_inv s"
  shows "\<not> Holds (Release s i) i \<and>
         (\<forall>j. j \<noteq> i \<longrightarrow> Holds (Release s i) j = Holds s j) \<and>
         globalUsed (Release s i) = globalUsed s - (if Holds s i then 1 else 0) \<and>
         Release (Release s i) i = Release s i"
proof -
  have "holders (Release s i) i = None" by (simp add: Release_holders)
  then have "Release (Release s i) i = Release s i" by (simp add: Release_def)
  moreover have "globalUsed (Release s i) = globalUsed s - (if Holds s i then 1 else 0)"
    by (cases "holders s i") (simp_all add: Holds_def Release_held [OF inv], simp add: Release_def)
  ultimately show ?thesis by (simp add: Holds_def Release_holders)
qed

theorem Release_spec_witness:
  "globalUsed (Release (snd (TryAcquire (NewSlots 1) ''p'' ''w'')) ''p'') = 0"
proof -
  let ?s = "snd (TryAcquire (NewSlots 1) ''p'' ''w'')"
  have "slots_inv ?s" by (simp add: slots_inv_NewSlots slots_inv_TryAcquire)
  moreover have "Holds ?s ''p''" "globalUsed ?s = 1"
    by (simp_all add: TryAcquire_def NewSlots_def Holds_def)
  ultimately show ?thesis using Release_spec [of ?s "''p''"] by simp
qed

end
