(* ===== verification/GoFloat.thy ===== *)
theory GoFloat
  imports Prelude Complex_Main
begin

text \<open>
  The \<^verbatim>\<open>float64\<close> of Go, as far as the retry delay uses it: IEEE 754 binary64 values, addition and
  multiplication rounded to nearest even, the comparisons, the conversions from and to \<^verbatim>\<open>int64\<close>,
  and \<^verbatim>\<open>math.Pow\<close> for a non-negative integer exponent, written as the standard library
  writes it. A finite value is the rational it denotes; the sign of a zero is dropped, because
  the code never divides by a float nor looks at a sign bit.
\<close>

datatype float64 = NaN | Inf bool | Num rat

section \<open>Rounding\<close>

text \<open>\<open>expo x\<close> is the binary exponent of a positive rational: \<open>2\<^sup>e \<le> x < 2\<^sup>e\<^sup>+\<^sup>1\<close>.\<close>

function ilog2 :: "int \<Rightarrow> int" where
  "ilog2 n = (if n \<le> 1 then 0 else 1 + ilog2 (n div 2))"
  by auto
termination by (relation "measure nat") auto

declare ilog2.simps [simp del]

definition expo :: "rat \<Rightarrow> int" where
  "expo x = (case quotient_of x of (a, b) \<Rightarrow>
     let k = ilog2 a - ilog2 b in if 2 powi k \<le> x then k else k - 1)"

definition round_even :: "rat \<Rightarrow> int" where
  "round_even x =
     (let f = \<lfloor>x\<rfloor>; d = x - of_int f
      in if d < 1 / 2 then f else if d > 1 / 2 then f + 1 else if even f then f else f + 1)"

text \<open>The grid of binary64 around a positive \<open>x\<close>: 53 bits of mantissa, and no step below 2^-1074.\<close>

definition ulp_exp :: "rat \<Rightarrow> int" where
  "ulp_exp x = max (expo x - 52) (- 1074)"

definition round_pos :: "rat \<Rightarrow> rat" where
  "round_pos x = of_int (round_even (x / 2 powi ulp_exp x)) * 2 powi ulp_exp x"

definition max_exp :: int where "max_exp = 1024"

definition rnd :: "rat \<Rightarrow> float64" where
  "rnd x =
     (if x = 0 then Num 0
      else let r = round_pos \<bar>x\<bar>
           in if 2 powi max_exp \<le> r then Inf (x < 0) else Num (sgn x * r))"

section \<open>Operations\<close>

fun f_neg :: "float64 \<Rightarrow> float64" where
  "f_neg NaN = NaN"
| "f_neg (Inf s) = Inf (\<not> s)"
| "f_neg (Num x) = Num (- x)"

fun f_add :: "float64 \<Rightarrow> float64 \<Rightarrow> float64" where
  "f_add (Num x) (Num y) = rnd (x + y)"
| "f_add (Inf s) (Inf t) = (if s = t then Inf s else NaN)"
| "f_add (Inf s) (Num y) = Inf s"
| "f_add (Num x) (Inf t) = Inf t"
| "f_add _ _ = NaN"

definition f_sub :: "float64 \<Rightarrow> float64 \<Rightarrow> float64" where
  "f_sub x y = f_add x (f_neg y)"

fun f_mul :: "float64 \<Rightarrow> float64 \<Rightarrow> float64" where
  "f_mul (Num x) (Num y) = rnd (x * y)"
| "f_mul (Inf s) (Inf t) = Inf (s \<noteq> t)"
| "f_mul (Inf s) (Num y) = (if y = 0 then NaN else Inf (s \<noteq> (y < 0)))"
| "f_mul (Num x) (Inf t) = (if x = 0 then NaN else Inf ((x < 0) \<noteq> t))"
| "f_mul _ _ = NaN"

text \<open>Comparisons: every one with a NaN is false.\<close>

fun f_le :: "float64 \<Rightarrow> float64 \<Rightarrow> bool" where
  "f_le (Num x) (Num y) \<longleftrightarrow> x \<le> y"
| "f_le (Inf s) (Inf t) \<longleftrightarrow> s \<or> \<not> t"
| "f_le (Inf s) (Num y) \<longleftrightarrow> s"
| "f_le (Num x) (Inf t) \<longleftrightarrow> \<not> t"
| "f_le _ _ \<longleftrightarrow> False"

fun f_lt :: "float64 \<Rightarrow> float64 \<Rightarrow> bool" where
  "f_lt (Num x) (Num y) \<longleftrightarrow> x < y"
| "f_lt (Inf s) (Inf t) \<longleftrightarrow> s \<and> \<not> t"
| "f_lt (Inf s) (Num y) \<longleftrightarrow> s"
| "f_lt (Num x) (Inf t) \<longleftrightarrow> \<not> t"
| "f_lt _ _ \<longleftrightarrow> False"

definition IsNaN :: "float64 \<Rightarrow> bool" where "IsNaN x = (x = NaN)"

definition MaxInt64 :: int where "MaxInt64 = 9223372036854775807"
definition MinInt64 :: int where "MinInt64 = - 9223372036854775808"

definition of_int64 :: "int \<Rightarrow> float64" where "of_int64 n = rnd (of_int n)"

text \<open>
  \<^verbatim>\<open>int64(f)\<close> truncates toward zero. Out of range the language leaves the result to the
  implementation; amd64 yields the smallest int64, and so does this definition.
\<close>

fun to_int64 :: "float64 \<Rightarrow> int" where
  "to_int64 (Num x) =
     (let n = (if 0 \<le> x then \<lfloor>x\<rfloor> else \<lceil>x\<rceil>) in if MinInt64 \<le> n \<and> n \<le> MaxInt64 then n else MinInt64)"
| "to_int64 _ = MinInt64"

section \<open>math.Pow\<close>

text \<open>
  \<^verbatim>\<open>Frexp\<close> of a finite non-zero value: a fraction in [1/2, 1) with the sign of the value, and an
  exponent; and \<^verbatim>\<open>Ldexp\<close>, which rounds once.
\<close>

definition Frexp :: "rat \<Rightarrow> rat \<times> int" where
  "Frexp x = (let e = expo \<bar>x\<bar> + 1 in (x / 2 powi e, e))"

fun Ldexp :: "float64 \<Rightarrow> int \<Rightarrow> float64" where
  "Ldexp (Num x) e = rnd (x * 2 powi e)"
| "Ldexp y e = y"

text \<open>The squaring loop over the bits of the exponent, with its guard against overflow.\<close>

function pow_loop :: "int \<Rightarrow> float64 \<Rightarrow> int \<Rightarrow> float64 \<Rightarrow> int \<Rightarrow> float64 \<times> int" where
  "pow_loop i x1 xe a1 ae =
     (if i \<le> 0 then (a1, ae)
      else if xe < - 4096 \<or> 4096 < xe then (a1, ae + xe)
      else let (a1, ae) = (if odd i then (f_mul a1 x1, ae + xe) else (a1, ae));
               x1 = f_mul x1 x1;
               xe = 2 * xe;
               (x1, xe) = (if f_lt x1 (Num (1 / 2)) then (f_add x1 x1, xe - 1) else (x1, xe))
           in pow_loop (i div 2) x1 xe a1 ae)"
  by auto
termination by (relation "measure (nat \<circ> fst)") auto

declare pow_loop.simps [simp del]

text \<open>
  \<open>Pow x n\<close> is \<^verbatim>\<open>math.Pow(x, float64(n))\<close> for an integer \<open>0 \<le> n < 2\<^sup>5\<^sup>3\<close>: the special cases in the
  order of the library, then the loop.
\<close>

definition Pow :: "float64 \<Rightarrow> int \<Rightarrow> float64" where
  "Pow x n =
     (if n = 0 \<or> x = Num 1 then Num 1
      else if n = 1 then x
      else case x of
        NaN \<Rightarrow> NaN
      | Inf s \<Rightarrow> Inf (s \<and> odd n)
      | Num r \<Rightarrow>
          if r = 0 then Num 0
          else let (x1, xe) = Frexp r; (a1, ae) = pow_loop n (Num x1) xe (Num 1) 0
               in Ldexp a1 ae)"

section \<open>What rounding promises\<close>

lemma ilog2_bounds: "1 \<le> n \<Longrightarrow> 0 \<le> ilog2 n \<and> 2 ^ nat (ilog2 n) \<le> n \<and> n < 2 ^ nat (ilog2 n + 1)"
proof (induction n rule: ilog2.induct)
  case (1 n)
  show ?case
  proof (cases "n = 1")
    case True
    then show ?thesis by (simp add: ilog2.simps)
  next
    case False
    with 1 have n: "1 < n" by simp
    then have ih: "0 \<le> ilog2 (n div 2)" "2 ^ nat (ilog2 (n div 2)) \<le> n div 2"
      "n div 2 < 2 ^ nat (ilog2 (n div 2) + 1)" using 1 by auto
    have eq: "ilog2 n = 1 + ilog2 (n div 2)" using n by (simp add: ilog2.simps)
    have "(2::int) ^ nat (1 + ilog2 (n div 2)) = 2 * 2 ^ nat (ilog2 (n div 2))"
      using ih(1) by (simp add: nat_add_distrib)
    moreover have "(2::int) ^ nat (1 + ilog2 (n div 2) + 1) = 2 * 2 ^ nat (ilog2 (n div 2) + 1)"
      using ih(1) by (simp add: nat_add_distrib)
    moreover have "2 * (n div 2) \<le> n" "n < 2 * (n div 2 + 1)" by auto
    ultimately show ?thesis unfolding eq using ih by linarith
  qed
qed

lemma powi_pos [simp]: "(0::rat) < 2 powi k"
  by simp

lemma powi_not_neg [simp]: "\<not> (2::rat) powi k < 0"
  using powi_pos [of k] by linarith

lemma powi_le_iff [simp]: "(2::rat) powi a \<le> 2 powi b \<longleftrightarrow> a \<le> b"
  by (meson linorder_not_le one_less_numeral_iff order_less_imp_le power_int_increasing
      power_int_strict_increasing semiring_norm(76))

lemma powi_less_iff [simp]: "(2::rat) powi a < 2 powi b \<longleftrightarrow> a < b"
  by (simp flip: linorder_not_le)

lemma powi_div: "(2::rat) powi a / 2 powi b = 2 powi (a - b)"
  by (simp add: power_int_diff)

lemma powi_mult: "(2::rat) powi a * 2 powi b = 2 powi (a + b)"
  by (simp add: power_int_add)

lemma powi_nonneg_int: "0 \<le> k \<Longrightarrow> (2::rat) powi k = of_int (2 ^ nat k)"
  by (simp add: power_int_def)

lemma expo_bounds:
  assumes "0 < x"
  shows "2 powi expo x \<le> x \<and> x < 2 powi (expo x + 1)"
proof -
  obtain a b where q: "quotient_of x = (a, b)" by fastforce
  have b: "0 < b" using quotient_of_denom_pos [OF q] .
  have x: "x = of_int a / of_int b" using quotient_of_div [OF q] .
  have a: "0 < a" using assms b unfolding x by (simp add: zero_less_divide_iff)
  note la = ilog2_bounds [of a] and lb = ilog2_bounds [of b]
  have a1: "(2::rat) powi ilog2 a \<le> of_int a" "of_int a < (2::rat) powi (ilog2 a + 1)"
    using la a powi_nonneg_int [of "ilog2 a"] powi_nonneg_int [of "ilog2 a + 1"]
    by (simp_all only: of_int_le_iff of_int_less_iff) linarith+
  have b1: "(2::rat) powi ilog2 b \<le> of_int b" "of_int b < (2::rat) powi (ilog2 b + 1)"
    using lb b powi_nonneg_int [of "ilog2 b"] powi_nonneg_int [of "ilog2 b + 1"]
    by (simp_all only: of_int_le_iff of_int_less_iff) linarith+
  have pb: "(0::rat) < of_int b" using b by simp
  have "2 powi (ilog2 a - ilog2 b - 1) * of_int b \<le> (2::rat) powi (ilog2 a - ilog2 b - 1) * 2 powi (ilog2 b + 1)"
    using b1 by (intro mult_left_mono) auto
  also have "\<dots> = 2 powi ilog2 a" by (simp add: powi_mult)
  finally have low: "2 powi (ilog2 a - ilog2 b - 1) \<le> x"
    using a1 pb unfolding x by (simp add: pos_le_divide_eq)
  have "(2::rat) powi (ilog2 a + 1) = 2 powi (ilog2 a - ilog2 b + 1) * 2 powi ilog2 b"
    by (simp add: powi_mult)
  also have "\<dots> \<le> 2 powi (ilog2 a - ilog2 b + 1) * of_int b"
    using b1 by (intro mult_left_mono) auto
  finally have high: "x < 2 powi (ilog2 a - ilog2 b + 1)"
    using a1 pb unfolding x by (simp add: pos_divide_less_eq)
  show ?thesis using low high by (auto simp: expo_def q Let_def)
qed

lemma expo_unique:
  assumes "2 powi e \<le> x" "x < 2 powi (e + 1)"
  shows "expo x = e"
proof -
  have "0 < x" using assms(1) powi_pos [of e] by linarith
  from expo_bounds [OF this] assms have "(2::rat) powi e < 2 powi (expo x + 1)"
    "(2::rat) powi expo x < 2 powi (e + 1)" by linarith+
  then show ?thesis by simp
qed

lemma expo_mono: "0 < x \<Longrightarrow> x \<le> y \<Longrightarrow> expo x \<le> expo y"
proof -
  assume "0 < x" "x \<le> y"
  with expo_bounds [of x] expo_bounds [of y] have "(2::rat) powi expo x < 2 powi (expo y + 1)"
    by linarith
  then show ?thesis by simp
qed

lemma round_even_int [simp]: "round_even (of_int n) = n"
  by (simp add: round_even_def)

lemma round_even_mono: "x \<le> y \<Longrightarrow> round_even x \<le> round_even y"
proof -
  assume le: "x \<le> y"
  then have f: "\<lfloor>x\<rfloor> \<le> \<lfloor>y\<rfloor>" by (rule floor_mono)
  consider "\<lfloor>x\<rfloor> = \<lfloor>y\<rfloor>" | "\<lfloor>x\<rfloor> + 1 \<le> \<lfloor>y\<rfloor>" using f by linarith
  then show ?thesis
  proof cases
    case 1
    then show ?thesis using le by (auto simp: round_even_def Let_def)
  next
    case 2
    then show ?thesis by (auto simp: round_even_def Let_def)
  qed
qed

lemma round_even_ge: "of_int m \<le> x \<Longrightarrow> m \<le> round_even x"
  using round_even_mono [of "of_int m" x] by simp

lemma round_even_le: "x \<le> of_int m \<Longrightarrow> round_even x \<le> m"
  using round_even_mono [of x "of_int m"] by simp

text \<open>A multiple of the step of the grid is a bound for rounding too.\<close>

lemma round_pos_ge:
  assumes "2 powi k \<le> x" and "ulp_exp x \<le> k"
  shows "2 powi k \<le> round_pos x"
proof -
  let ?u = "ulp_exp x"
  have "2 powi (k - ?u) \<le> x / 2 powi ?u"
    unfolding powi_div [symmetric] using assms(1) by (rule divide_right_mono) simp
  then have "of_int (2 ^ nat (k - ?u)) \<le> x / 2 powi ?u"
    using assms(2) powi_nonneg_int [of "k - ?u"] by simp
  then have "(of_int (2 ^ nat (k - ?u)) :: rat) \<le> of_int (round_even (x / 2 powi ?u))"
    unfolding of_int_le_iff by (rule round_even_ge)
  then have "(2::rat) powi (k - ?u) \<le> of_int (round_even (x / 2 powi ?u))"
    using assms powi_nonneg_int [of "k - ?u"] by simp
  then have "(2::rat) powi (k - ?u) * 2 powi ?u \<le> round_pos x"
    unfolding round_pos_def by (rule mult_right_mono) simp
  then show ?thesis by (simp add: powi_mult)
qed

lemma round_pos_le:
  assumes "x \<le> 2 powi k" and "ulp_exp x \<le> k"
  shows "round_pos x \<le> 2 powi k"
proof -
  let ?u = "ulp_exp x"
  have "x / 2 powi ?u \<le> 2 powi (k - ?u)"
    unfolding powi_div [symmetric] using assms(1) by (rule divide_right_mono) simp
  then have "x / 2 powi ?u \<le> of_int (2 ^ nat (k - ?u))"
    using assms(2) powi_nonneg_int [of "k - ?u"] by simp
  then have "(of_int (round_even (x / 2 powi ?u)) :: rat) \<le> of_int (2 ^ nat (k - ?u))"
    unfolding of_int_le_iff by (rule round_even_le)
  then have "of_int (round_even (x / 2 powi ?u)) \<le> (2::rat) powi (k - ?u)"
    using assms powi_nonneg_int [of "k - ?u"] by simp
  then have "round_pos x \<le> (2::rat) powi (k - ?u) * 2 powi ?u"
    unfolding round_pos_def by (rule mult_right_mono) simp
  then show ?thesis by (simp add: powi_mult)
qed

lemma round_pos_mono:
  assumes "0 < x" and "x \<le> y"
  shows "round_pos x \<le> round_pos y"
proof (cases "ulp_exp x = ulp_exp y")
  case True
  then show ?thesis
    using assms(2) unfolding round_pos_def
    by (auto intro!: mult_right_mono round_even_mono divide_right_mono)
next
  case False
  have "expo x \<le> expo y" using expo_mono [OF assms] .
  with False have lt: "expo x < expo y" and u: "ulp_exp y = expo y - 52"
    "ulp_exp x \<le> expo y" by (auto simp: ulp_exp_def)
  have "(2::rat) powi (expo x + 1) \<le> 2 powi expo y" using lt by simp
  then have "x \<le> 2 powi expo y" using expo_bounds [OF assms(1)] by linarith
  then have "round_pos x \<le> 2 powi expo y" by (rule round_pos_le) (rule u(2))
  also have "\<dots> \<le> round_pos y"
    using expo_bounds [of y] assms u(1) by (intro round_pos_ge) auto
  finally show ?thesis .
qed

lemma round_pos_fix: "x / 2 powi ulp_exp x = of_int n \<Longrightarrow> round_pos x = x"
  by (simp add: round_pos_def)
    (metis nonzero_divide_eq_eq powi_pos order_less_irrefl)

lemma round_pos_power: "- 1074 \<le> k \<Longrightarrow> round_pos (2 powi k) = 2 powi k"
proof -
  assume k: "- 1074 \<le> k"
  have "expo (2 powi k) = k" by (rule expo_unique) auto
  then have "ulp_exp (2 powi k) \<le> k" using k by (simp add: ulp_exp_def)
  then show ?thesis
    by (intro round_pos_fix [where n = "2 ^ nat (k - ulp_exp (2 powi k))"])
      (simp add: powi_div flip: powi_nonneg_int del: of_int_power)
qed

text \<open>What rounding yields is on the grid around itself, so rounding twice is rounding once.\<close>

lemma round_pos_idem:
  assumes "0 < x" and r: "0 < round_pos x"
  shows "round_pos (round_pos x) = round_pos x"
proof -
  let ?r = "round_pos x" and ?u = "ulp_exp x"
  define m where "m = round_even (x / 2 powi ?u)"
  have rm: "?r = of_int m * 2 powi ?u" by (simp add: round_pos_def m_def)
  then have "0 < (of_int m :: rat)" using r zero_less_mult_iff [of "of_int m" "2 powi ?u :: rat"] by auto
  then have m: "1 \<le> m" by simp
  show ?thesis
  proof (cases "expo ?r \<le> expo x")
    case True
    then have ur: "ulp_exp ?r \<le> ?u" by (auto simp: ulp_exp_def)
    have "?r / 2 powi ulp_exp ?r = of_int m * 2 powi (?u - ulp_exp ?r)"
      by (subst rm) (simp add: power_int_diff)
    also have "\<dots> = of_int (m * 2 ^ nat (?u - ulp_exp ?r))"
      using ur by (simp add: power_int_def)
    finally show ?thesis by (rule round_pos_fix)
  next
    case False
    have ux: "?u \<le> expo x + 1"
    proof (rule ccontr)
      assume "\<not> ?u \<le> expo x + 1"
      then have "(2::rat) powi (expo x + 1) \<le> 2 powi (?u - 1)" by simp
      then have "x < 2 powi (?u - 1)" using expo_bounds [OF assms(1)] by linarith
      then have "x / 2 powi ?u < 2 powi (?u - 1) / 2 powi ?u" by (simp add: divide_strict_right_mono)
      then have "x / 2 powi ?u < 1 / 2" by (simp add: powi_div power_int_minus)
      moreover have "0 < x / 2 powi ?u" using assms(1) by simp
      ultimately have "\<lfloor>x / 2 powi ?u\<rfloor> = 0" and "x / 2 powi ?u < 1 / 2"
        unfolding floor_eq_iff by linarith+
      then have "m = 0" by (simp add: m_def round_even_def)
      then show False using m by simp
    qed
    then have "?r \<le> 2 powi (expo x + 1)"
      using expo_bounds [OF assms(1)] by (intro round_pos_le) auto
    moreover have "2 powi (expo x + 1) \<le> ?r"
    proof -
      have "(2::rat) powi (expo x + 1) \<le> 2 powi expo ?r" using False by simp
      then show ?thesis using expo_bounds [OF r] by linarith
    qed
    ultimately have "?r = 2 powi (expo x + 1)" by linarith
    moreover have "- 1074 \<le> expo x + 1" using ux by (simp add: ulp_exp_def)
    ultimately show ?thesis by (simp add: round_pos_power)
  qed
qed

lemma round_pos_nonneg: "0 < x \<Longrightarrow> 0 \<le> round_pos x"
proof -
  assume "0 < x"
  then have "0 \<le> round_even (x / 2 powi ulp_exp x)" by (intro round_even_ge) auto
  then show ?thesis by (simp add: round_pos_def)
qed

lemma round_pos_0 [simp]: "round_pos 0 = 0"
  by (simp add: round_pos_def round_even_def)

text \<open>A value of \<^verbatim>\<open>float64\<close> is one that rounding leaves alone.\<close>

fun is_float :: "float64 \<Rightarrow> bool" where
  "is_float (Num x) \<longleftrightarrow> rnd x = Num x"
| "is_float y \<longleftrightarrow> True"

lemma rnd_is_float: "is_float (rnd x)"
proof (cases "x = 0 \<or> round_pos \<bar>x\<bar> = 0")
  case True
  then show ?thesis by (auto simp: rnd_def Let_def max_exp_def)
next
  case False
  then have r: "0 < round_pos \<bar>x\<bar>" using round_pos_nonneg [of "\<bar>x\<bar>"] by auto
  from False round_pos_idem [OF _ r] have i: "round_pos (round_pos \<bar>x\<bar>) = round_pos \<bar>x\<bar>" by simp
  have "\<bar>sgn x * round_pos \<bar>x\<bar>\<bar> = round_pos \<bar>x\<bar>"
    using False r by (simp add: abs_mult abs_sgn_eq)
  moreover have "sgn (sgn x * round_pos \<bar>x\<bar>) = sgn x" using r by (simp add: sgn_mult)
  ultimately show ?thesis using False r i by (auto simp: rnd_def Let_def)
qed

lemma rnd_0 [simp]: "rnd 0 = Num 0"
  by (simp add: rnd_def)

lemma rnd_nonneg: "0 \<le> x \<Longrightarrow> rnd x = (if 2 powi max_exp \<le> round_pos x then Inf False else Num (round_pos x))"
  by (auto simp: rnd_def Let_def max_exp_def)

lemma rnd_not_nan [simp]: "rnd x \<noteq> NaN"
  by (simp add: rnd_def Let_def)

lemma rnd_mono_nonneg: "0 \<le> x \<Longrightarrow> x \<le> y \<Longrightarrow> f_le (rnd x) (rnd y)"
proof -
  assume a: "0 \<le> x" "x \<le> y"
  have "round_pos x \<le> round_pos y"
    using a round_pos_mono [of x y] round_pos_nonneg [of y] by (cases "x = 0"; cases "y = 0") auto
  then show ?thesis using a by (auto simp: rnd_nonneg)
qed

lemma f_mul_is_float: "is_float (f_mul x y)"
  by (cases x; cases y) (auto simp: rnd_is_float)

lemma f_add_is_float: "is_float (f_add x y)"
  by (cases x; cases y) (auto simp: rnd_is_float)

lemma of_int64_is_float: "is_float (of_int64 n)"
  by (simp add: of_int64_def rnd_is_float)

text \<open>Integers of at most 53 bits are exact.\<close>

lemma round_pos_int:
  assumes "1 \<le> n" "n \<le> 2 ^ 53"
  shows "round_pos (of_int n) = of_int n"
proof (cases "n = 2 ^ 53")
  case True
  have "round_pos (2 powi 53) = 2 powi 53" by (rule round_pos_power) simp
  then show ?thesis using True by (simp add: power_int_def)
next
  case False
  have "(of_int n :: rat) < of_int (2 ^ 53)" using assms False by linarith
  then have "(of_int n :: rat) < 2 powi 53" by (simp add: power_int_def)
  moreover have "2 powi expo (of_int n) \<le> (of_int n :: rat)" "(1::rat) \<le> of_int n"
    using expo_bounds [of "of_int n"] assms by auto
  moreover have "of_int n < (2::rat) powi (expo (of_int n) + 1)"
    using expo_bounds [of "of_int n"] assms by auto
  ultimately have "(2::rat) powi expo (of_int n) < 2 powi 53" "(2::rat) powi 0 < 2 powi (expo (of_int n) + 1)"
    unfolding power_int_0_right by linarith+
  then have "expo (of_int n) < 53" "- 1 < expo (of_int n)" unfolding powi_less_iff by linarith+
  then have u: "ulp_exp (of_int n) \<le> 0" by (simp add: ulp_exp_def)
  have "(of_int n :: rat) / 2 powi ulp_exp (of_int n) = of_int n * 2 powi (- ulp_exp (of_int n))"
    unfolding power_int_minus divide_inverse ..
  also have "2 powi (- ulp_exp (of_int n)) = (of_int (2 ^ nat (- ulp_exp (of_int n))) :: rat)"
    by (rule powi_nonneg_int) (use u in simp)
  finally have "(of_int n :: rat) / 2 powi ulp_exp (of_int n) = of_int (n * 2 ^ nat (- ulp_exp (of_int n)))"
    unfolding of_int_mult .
  then show ?thesis by (rule round_pos_fix)
qed

lemma of_int64_exact: "0 \<le> n \<Longrightarrow> n \<le> 2 ^ 53 \<Longrightarrow> of_int64 n = Num (of_int n)"
proof (cases "n = 0")
  case False
  assume n: "0 \<le> n" "n \<le> 2 ^ 53"
  with False have r: "round_pos (of_int n) = of_int n" by (intro round_pos_int) auto
  have "(of_int n :: rat) \<le> of_int (2 ^ 53)" using n by linarith
  then have "(of_int n :: rat) \<le> 2 powi 53" by (simp add: power_int_def)
  then have "(of_int n :: rat) < 2 powi max_exp"
    by (rule le_less_trans) (simp only: powi_less_iff, simp add: max_exp_def)
  then show ?thesis using n r by (simp add: of_int64_def rnd_nonneg)
qed (simp add: of_int64_def)

lemma of_int64_le: "0 \<le> n \<Longrightarrow> n \<le> MaxInt64 \<Longrightarrow> \<exists>r. of_int64 n = Num r \<and> 0 \<le> r \<and> r \<le> 2 powi 63"
proof -
  assume n: "0 \<le> n" "n \<le> MaxInt64"
  have "(of_int n :: rat) \<le> of_int (2 ^ 63)" using n by (simp only: of_int_le_iff) (simp add: MaxInt64_def)
  then have le: "(of_int n :: rat) \<le> 2 powi 63" by (simp add: power_int_def)
  have "0 \<le> round_pos (of_int n)" using round_pos_nonneg [of "of_int n"] n by (cases "n = 0") auto
  moreover have "round_pos (of_int n) \<le> round_pos (2 powi 63)"
    using round_pos_mono [of "of_int n" "2 powi 63"] le n
      round_pos_nonneg [of "2 powi 63"] by (cases "n = 0") auto
  then have r: "round_pos (of_int n) \<le> 2 powi 63" using round_pos_power [of 63] by simp
  moreover have "round_pos (of_int n) < 2 powi max_exp"
    by (rule le_less_trans [OF r]) (simp only: powi_less_iff, simp add: max_exp_def)
  ultimately show ?thesis using n by (auto simp: of_int64_def rnd_nonneg)
qed

lemma rnd_neg: "rnd (- x) = f_neg (rnd x)"
  by (auto simp: rnd_def Let_def)

end
