(* ===== verification/WorkerTypes.thy ===== *)
theory WorkerTypes
  imports Core GoFloat Cron
begin

text \<open>
  The data of \<^verbatim>\<open>internal/config/workers.go\<close>: the definition of a worker with its retry, schedule
  and notification policies, the small predicates the rest of the daemon asks of it, and the
  registry of the workers that are loaded.

  A Go string type with named constants is a datatype with one constructor per constant and one
  for every other text; the empty text, which is an absent key, is \<open>\<dots>Other ''''\<close>.
\<close>

datatype LockConflict = LockConflictQueue | LockConflictReject | LockConflictOther string

datatype BackoffType = BackoffExponential | BackoffLinear | BackoffFixed | BackoffOther string

datatype RetryTrigger =
    RetryOnNonZeroExit
  | RetryOnSignal
  | RetryOnStartError
  | RetryOnTimeout
  | RetryOnExit
  | RetryOnOther string

definition retryTriggers :: "RetryTrigger list" where
  "retryTriggers =
     [RetryOnNonZeroExit, RetryOnSignal, RetryOnStartError, RetryOnTimeout, RetryOnExit]"

datatype Overridable = OverridableEnv | OverridableTimeout | OverridableLock | OverridableOther string

text \<open>\<open>NotifyNone\<close> is the empty event: an outcome nobody asked to hear about.\<close>

datatype NotifyEvent =
    NotifyNone
  | NotifyOnFailed
  | NotifyOnCrashed
  | NotifyOnRetriesExhausted
  | NotifyOnTimeout
  | NotifyOther string

definition notifyEvents :: "NotifyEvent list" where
  "notifyEvents = [NotifyOnFailed, NotifyOnCrashed, NotifyOnRetriesExhausted, NotifyOnTimeout]"

record NotifyWebhook =
  h_URL :: string
  h_Method :: string
  h_Headers :: "(string \<times> string) list"
  h_Timeout :: duration
  h_Retry :: int
  h_IncludeLogTail :: int

record NotifyExec =
  x_Worker :: string

record Notify =
  n_On :: "NotifyEvent list"
  n_Webhook :: "NotifyWebhook option"
  n_Exec :: "NotifyExec option"

definition NotifyParams :: "string list" where
  "NotifyParams = [''event'', ''process_id'', ''worker'', ''state'', ''reason'', ''attempt'',
     ''exit_code'', ''signal'', ''node'']"

definition Notify_IsSet :: "Notify \<Rightarrow> bool" where
  "Notify_IsSet n \<longleftrightarrow> n_On n \<noteq> [] \<or> n_Webhook n \<noteq> None \<or> n_Exec n \<noteq> None"

definition Notifies :: "Notify \<Rightarrow> NotifyEvent \<Rightarrow> bool" where
  "Notifies n event \<longleftrightarrow> event \<in> set (n_On n)"

record WorkerSchedule =
  sd_Cron :: string
  sd_Timezone :: string
  sd_CatchUp :: bool
  sd_Jitter :: duration
  sd_compiled :: "Schedule option"

definition Schedule_IsSet :: "WorkerSchedule \<Rightarrow> bool" where
  "Schedule_IsSet s \<longleftrightarrow> sd_Cron s \<noteq> ''''"

text \<open>A declared param. Its compiled pattern is a cache of \<open>pm_Pattern\<close> and is not a field here.\<close>

record Param =
  pm_Required :: bool
  pm_Pattern :: string
  pm_Enum :: "string list"
  pm_Default :: string

record Backoff =
  bo_Type :: BackoffType
  bo_Initial :: duration
  bo_Max :: duration
  bo_Multiplier :: float64
  bo_Jitter :: float64

definition AttemptsUnlimited :: int where "AttemptsUnlimited = - 1"

text \<open>\<open>r_Enabled\<close> is a pointer in the code: \<open>None\<close> when the file says nothing.\<close>

record Retry =
  r_Enabled :: "bool option"
  r_MaxAttempts :: int
  r_RetryOn :: "RetryTrigger list"
  r_SuccessExitCodes :: "int list"
  r_NoRetryExitCodes :: "int list"
  r_ResetAfter :: duration
  r_OnShutdown :: bool
  r_Backoff :: Backoff

record WorkerLogs =
  l_MaxBytesPerStream :: int
  l_MaxFiles :: int

record Worker =
  w_Name :: string
  w_Enabled :: "bool option"
  w_Type :: Type
  w_Command :: string
  w_Args :: "string list"
  w_Params :: "(string \<times> Param) list"
  w_Cwd :: string
  w_User :: string
  w_Group :: string
  w_Env :: "(string \<times> string) list"
  w_EnvPassthrough :: "string list"
  w_Timeout :: duration
  w_KillGrace :: duration
  w_MaxProcesses :: int
  w_Lock :: string
  w_LockConflict :: LockConflict
  w_Overridable :: "Overridable list"
  w_Retry :: Retry
  w_Logs :: WorkerLogs
  w_Schedule :: WorkerSchedule
  w_Notify :: Notify

text \<open>The zero values of the Go structs.\<close>

definition zero_Backoff :: Backoff where
  "zero_Backoff = \<lparr>bo_Type = BackoffOther '''', bo_Initial = 0, bo_Max = 0,
     bo_Multiplier = Num 0, bo_Jitter = Num 0\<rparr>"

definition zero_Retry :: Retry where
  "zero_Retry = \<lparr>r_Enabled = None, r_MaxAttempts = 0, r_RetryOn = [], r_SuccessExitCodes = [],
     r_NoRetryExitCodes = [], r_ResetAfter = 0, r_OnShutdown = False, r_Backoff = zero_Backoff\<rparr>"

definition zero_Notify :: Notify where
  "zero_Notify = \<lparr>n_On = [], n_Webhook = None, n_Exec = None\<rparr>"

definition zero_Worker :: Worker where
  "zero_Worker = \<lparr>w_Name = '''', w_Enabled = None, w_Type = TypeOther '''', w_Command = '''',
     w_Args = [], w_Params = [], w_Cwd = '''', w_User = '''', w_Group = '''', w_Env = [],
     w_EnvPassthrough = [], w_Timeout = 0, w_KillGrace = 0, w_MaxProcesses = 0, w_Lock = '''',
     w_LockConflict = LockConflictOther '''', w_Overridable = [], w_Retry = zero_Retry,
     w_Logs = \<lparr>l_MaxBytesPerStream = 0, l_MaxFiles = 0\<rparr>,
     w_Schedule = \<lparr>sd_Cron = '''', sd_Timezone = '''', sd_CatchUp = False, sd_Jitter = 0,
       sd_compiled = None\<rparr>,
     w_Notify = zero_Notify\<rparr>"

lemmas zero_values = zero_Backoff_def zero_Retry_def zero_Notify_def zero_Worker_def

definition Worker_IsEnabled :: "Worker \<Rightarrow> bool" where
  "Worker_IsEnabled w \<longleftrightarrow> (case w_Enabled w of None \<Rightarrow> True | Some b \<Rightarrow> b)"

definition Retry_IsEnabled :: "Retry \<Rightarrow> bool" where
  "Retry_IsEnabled r \<longleftrightarrow> r_Enabled r = Some True"

definition Allows :: "Worker \<Rightarrow> Overridable \<Rightarrow> bool" where
  "Allows w field \<longleftrightarrow> field \<in> set (w_Overridable w)"

definition EffectiveAttempts :: "Retry \<Rightarrow> int" where
  "EffectiveAttempts r =
     (if \<not> Retry_IsEnabled r then 1
      else if r_MaxAttempts r = AttemptsUnlimited then AttemptsUnlimited
      else max (r_MaxAttempts r) 1)"

text \<open>
  \<^verbatim>\<open>r.Backoff != (Backoff{})\<close> compares two floats with \<^verbatim>\<open>!=\<close>: a NaN differs from everything, so a
  backoff holding one differs from the zero value whatever the rest; \<open>zero_Backoff\<close> holds none.
\<close>

definition declaresPolicy :: "Retry \<Rightarrow> bool" where
  "declaresPolicy r \<longleftrightarrow>
     r_MaxAttempts r \<noteq> 0 \<or> r_RetryOn r \<noteq> [] \<or> r_ResetAfter r \<noteq> 0 \<or> r_OnShutdown r \<or>
     r_Backoff r \<noteq> zero_Backoff"

definition RetriesOn :: "Worker \<Rightarrow> RetryTrigger \<Rightarrow> bool" where
  "RetriesOn w trigger \<longleftrightarrow> Retry_IsEnabled (w_Retry w) \<and> trigger \<in> set (r_RetryOn (w_Retry w))"

section \<open>The registry\<close>

text \<open>The loaded workers by name; \<^verbatim>\<open>All\<close> sorts them, so the order of the Go map never shows.\<close>

type_synonym Registry = "(string \<times> Worker) list"

definition Registry_Get :: "Registry \<Rightarrow> string \<Rightarrow> error + Worker" where
  "Registry_Get reg name =
     (case map_of reg name of None \<Rightarrow> Inl ErrWorkerNotFound | Some w \<Rightarrow> Inr w)"

definition Registry_Len :: "Registry \<Rightarrow> nat" where
  "Registry_Len reg = length reg"

end
