(* ===== verification/Config.thy ===== *)
theory Config
  imports WorkerTypes
begin

text \<open>
  The data of \<^verbatim>\<open>internal/config/config.go\<close>: the daemon configuration, its defaults and the token
  check. Validation is in the theory \<open>Workers\<close>.
\<close>

datatype ExecutionMode = ExecutionModeWorkers | ExecutionModeRaw | ExecutionModeOther string

datatype OrphanPolicy = OrphanPolicyKill | OrphanPolicyLeave | OrphanPolicyOther string

record FleetNode =
  fn_Name :: string
  fn_URL :: string
  fn_TokenFile :: string

record Fleet =
  fl_Nodes :: "FleetNode list"
  fl_PollInterval :: duration
  fl_Timeout :: duration

record Queue =
  q_MaxDepth :: int
  q_ItemTTL :: duration

record History =
  hi_Retention :: duration
  hi_MaxRows :: int

record Logs =
  lg_MaxBytesPerStream :: int
  lg_Retention :: duration

record Token =
  t_Name :: string
  t_Hash :: string
  t_Workers :: "string list"
  t_ReadOnly :: bool

record Config =
  c_Listen :: string
  c_DataDir :: string
  c_LogDir :: string
  c_WorkersDir :: string
  c_MaxProcesses :: int
  c_ShutdownGrace :: duration
  c_OrphanPolicy :: OrphanPolicy
  c_ExecutionMode :: ExecutionMode
  c_AllowedCommands :: "string list"
  c_AllowRootProcesses :: bool
  c_Notify :: Notify
  c_Fleet :: Fleet
  c_Queue :: Queue
  c_History :: History
  c_Logs :: Logs
  c_UIEnabled :: bool
  c_Tokens :: "Token list"

definition Fleet_IsSet :: "Fleet \<Rightarrow> bool" where
  "Fleet_IsSet f \<longleftrightarrow> fl_Nodes f \<noteq> []"

text \<open>An empty list of workers grants every worker.\<close>

definition AllowsWorker :: "Token \<Rightarrow> string \<Rightarrow> bool" where
  "AllowsWorker t name \<longleftrightarrow> t_Workers t = [] \<or> name \<in> set (t_Workers t)"

definition Default :: Config where
  "Default = \<lparr>
     c_Listen = ''127.0.0.1:7373'',
     c_DataDir = ''/var/lib/processd'',
     c_LogDir = ''/var/log/processd'',
     c_WorkersDir = ''/etc/processd/workers.d'',
     c_MaxProcesses = 50,
     c_ShutdownGrace = 30 * second,
     c_OrphanPolicy = OrphanPolicyKill,
     c_ExecutionMode = ExecutionModeWorkers,
     c_AllowedCommands = [],
     c_AllowRootProcesses = False,
     c_Notify = zero_Notify,
     c_Fleet = \<lparr>fl_Nodes = [], fl_PollInterval = 0, fl_Timeout = 0\<rparr>,
     c_Queue = \<lparr>q_MaxDepth = 1000, q_ItemTTL = hour\<rparr>,
     c_History = \<lparr>hi_Retention = 30 * 24 * hour, hi_MaxRows = 500000\<rparr>,
     c_Logs = \<lparr>lg_MaxBytesPerStream = 33554432, lg_Retention = 14 * 24 * hour\<rparr>,
     c_UIEnabled = True,
     c_Tokens = []\<rparr>"

definition applyFleetDefaults :: "Fleet \<Rightarrow> Fleet" where
  "applyFleetDefaults f =
     (if \<not> Fleet_IsSet f then f
      else f\<lparr>fl_PollInterval := (if fl_PollInterval f = 0 then 10 * second else fl_PollInterval f),
             fl_Timeout := (if fl_Timeout f = 0 then 5 * second else fl_Timeout f)\<rparr>)"

end
