(* ===== verification/Retry.thy ===== *)
theory Retry
  imports WorkerTypes
begin

text \<open>
  \<^verbatim>\<open>internal/retry/backoff.go\<close>: when a failed attempt is retried and how long the daemon waits
  first. The delay is computed in \<^verbatim>\<open>float64\<close>; the random number of \<^verbatim>\<open>applyJitter\<close> is an argument, a
  float in [0, 1).
\<close>

definition clamp :: "float64 \<Rightarrow> duration \<Rightarrow> duration" where
  "clamp x cap =
     (if IsNaN x \<or> f_le x (Num 0) then 0
      else let limit = (if cap > 0 then cap else MaxInt64)
           in if f_le (of_int64 limit) x then limit else to_int64 x)"

definition applyJitter :: "duration \<Rightarrow> float64 \<Rightarrow> float64 \<Rightarrow> duration" where
  "applyJitter delay jitter random =
     (if f_le jitter (Num 0) \<or> delay \<le> 0 then delay
      else let factor = f_add (Num 1) (f_mul jitter (f_sub (f_mul (Num 2) random) (Num 1)))
           in clamp (f_mul (of_int64 delay) factor) 0)"

definition grown :: "Backoff \<Rightarrow> int \<Rightarrow> float64" where
  "grown b attempt =
     (case bo_Type b of
        BackoffFixed \<Rightarrow> of_int64 (bo_Initial b)
      | BackoffLinear \<Rightarrow> f_mul (of_int64 attempt) (of_int64 (bo_Initial b))
      | _ \<Rightarrow>
          let multiplier = (if f_le (bo_Multiplier b) (Num 0) then Num 2 else bo_Multiplier b)
          in f_mul (of_int64 (bo_Initial b)) (Pow multiplier (attempt - 1)))"

definition Delay :: "Backoff \<Rightarrow> int \<Rightarrow> float64 \<Rightarrow> duration" where
  "Delay b attempt random =
     (let attempt = (if attempt < 1 then 1 else attempt)
      in applyJitter (clamp (grown b attempt) (bo_Max b)) (bo_Jitter b) random)"

definition Attempts :: "Retry \<Rightarrow> int" where
  "Attempts r = EffectiveAttempts r"

definition Allowed :: "Retry \<Rightarrow> RetryTrigger \<Rightarrow> int \<Rightarrow> bool" where
  "Allowed r trigger attempt \<longleftrightarrow>
     Retry_IsEnabled r \<and> trigger \<in> set (r_RetryOn r) \<and>
     (let cap = Attempts r in cap = AttemptsUnlimited \<or> attempt < cap)"

definition CounterReset :: "Retry \<Rightarrow> duration \<Rightarrow> bool" where
  "CounterReset r elapsed \<longleftrightarrow> 0 < r_ResetAfter r \<and> r_ResetAfter r \<le> elapsed"

definition Succeeded :: "Retry \<Rightarrow> int \<Rightarrow> bool" where
  "Succeeded r exitCode \<longleftrightarrow>
     exitCode \<in> set (if r_SuccessExitCodes r = [] then [0] else r_SuccessExitCodes r)"

definition Fatal :: "Retry \<Rightarrow> int \<Rightarrow> bool" where
  "Fatal r exitCode \<longleftrightarrow> exitCode \<in> set (r_NoRetryExitCodes r)"


section \<open>Bounds of the delay\<close>

lemma clamp_bounds:
  assumes x: "is_float x" and cap: "cap \<le> MaxInt64"
  shows "0 \<le> clamp x cap \<and> clamp x cap \<le> (if cap > 0 then cap else MaxInt64)"
proof -
  define limit where "limit = (if cap > 0 then cap else MaxInt64)"
  have lim: "0 < limit" "limit \<le> MaxInt64" using cap by (auto simp: limit_def MaxInt64_def)
  obtain l where l: "of_int64 limit = Num l" "0 \<le> l"
    using of_int64_le [of limit] lim by auto
  show ?thesis
  proof (cases "IsNaN x \<or> f_le x (Num 0) \<or> f_le (of_int64 limit) x")
    case True
    then show ?thesis using lim by (auto simp: clamp_def Let_def simp flip: limit_def)
  next
    case False
    then obtain q where q: "x = Num q" "0 < q" "q < l"
      using l by (cases x) (auto simp: IsNaN_def)
    have "\<lfloor>q\<rfloor> \<le> limit"
    proof (rule ccontr)
      assume "\<not> \<lfloor>q\<rfloor> \<le> limit"
      then have "of_int limit \<le> q" by linarith
      then have "f_le (rnd (of_int limit)) (rnd q)" using lim by (intro rnd_mono_nonneg) auto
      then show False using x q l by (simp add: of_int64_def)
    qed
    moreover have "0 \<le> \<lfloor>q\<rfloor>" using q by simp
    ultimately have "to_int64 x = \<lfloor>q\<rfloor>" using q lim by (simp add: MinInt64_def)
    then show ?thesis
      using False lim \<open>0 \<le> \<lfloor>q\<rfloor>\<close> \<open>\<lfloor>q\<rfloor> \<le> limit\<close>
      by (simp add: clamp_def Let_def flip: limit_def)
  qed
qed

lemma Pow_is_float: "is_float x \<Longrightarrow> is_float (Pow x n)"
proof -
  assume x: "is_float x"
  have ld: "is_float (Ldexp y e)" if "is_float y" for y e
    using that by (cases y) (auto simp: rnd_is_float)
  have lp: "is_float a1 \<Longrightarrow> is_float (fst (pow_loop i x1 xe a1 ae))" for i x1 xe a1 ae
  proof (induction i x1 xe a1 ae rule: pow_loop.induct)
    case (1 i x1 xe a1 ae)
    show ?case
      by (subst pow_loop.simps) (auto simp: Let_def f_mul_is_float intro!: 1 split: prod.splits)
  qed
  have one: "is_float (Num 1)" using of_int64_is_float [of 1] of_int64_exact [of 1] by simp
  then show ?thesis
    using x lp [of "Num 1"] by (auto simp: Pow_def Let_def split: float64.splits prod.splits intro!: ld)
      (metis fst_conv one)
qed

lemma grown_is_float: "is_float (grown b attempt)"
  by (auto simp: grown_def Let_def of_int64_is_float f_mul_is_float split: BackoffType.splits)

lemma applyJitter_none: "f_le j (Num 0) \<Longrightarrow> applyJitter d j r = d"
  by (simp add: applyJitter_def)

lemma applyJitter_bounds:
  assumes "0 \<le> d" "d \<le> MaxInt64"
  shows "0 \<le> applyJitter d j r \<and> applyJitter d j r \<le> MaxInt64"
  using assms clamp_bounds [OF f_mul_is_float, of 0] by (auto simp: applyJitter_def Let_def MaxInt64_def)

section \<open>Doubling is exact\<close>

lemma rnd_power: "- 1074 \<le> k \<Longrightarrow> rnd (2 powi k) = (if 1024 \<le> k then Inf False else Num (2 powi k))"
  using round_pos_power [of k]
  by (simp add: rnd_nonneg max_exp_def del: power_int_numeral)

lemma half_powi: "(1 / 2 :: rat) = 2 powi (- 1)"
  by simp

lemma pow_loop_step:
  assumes "0 < i" "\<not> (xe < - 4096 \<or> 4096 < xe)"
    and "f_mul x x = q" "f_lt q (Num (1 / 2))" "f_add q q = x'" "f_mul a x = b"
  shows "pow_loop i x xe a ae =
    pow_loop (i div 2) x' (2 * xe - 1) (if odd i then b else a) (if odd i then ae + xe else ae)"
  using assms by (subst pow_loop.simps) (simp add: Let_def)

text \<open>
  The squaring loop on the fraction 1/2: it carries a power of two throughout, and either
  computes the exponent exactly or leaves with one that is out of range.
\<close>

lemma pow_loop_half:
  assumes "0 \<le> i" "j \<le> 12" "k \<le> int j" "0 \<le> k" "k \<le> ae"
  shows "\<exists>a e. pow_loop i (Num (2 powi (- 1))) (2 ^ j + 1) (Num (2 powi (- k))) ae = (Num (2 powi a), e) \<and>
    (a + e = ae - k + i * 2 ^ j \<or> 4096 \<le> a + e \<and> 4096 \<le> ae - k + i * 2 ^ j)"
  using assms
proof (induction "nat i" arbitrary: i j k ae rule: less_induct)
  case less
  let ?h = "Num (2 powi (- 1))"
  show ?case
  proof (cases "i = 0")
    case True
    then have "pow_loop i ?h (2 ^ j + 1) (Num (2 powi (- k))) ae = (Num (2 powi (- k)), ae)"
      by (subst pow_loop.simps) simp
    then show ?thesis using True by (intro exI conjI) auto
  next
    case False
    with less.prems have i: "1 \<le> i" by simp
    show ?thesis
    proof (cases "j = 12")
      case True
      have "pow_loop i ?h (2 ^ j + 1) (Num (2 powi (- k))) ae = (Num (2 powi (- k)), ae + (2 ^ j + 1))"
        using i True by (subst pow_loop.simps) simp
      moreover have "4096 \<le> i * 2 ^ j" using i True by simp
      ultimately show ?thesis using less.prems True by (intro exI conjI) auto
    next
      case False
      with less.prems have j: "j < 12" by simp
      then have "(2::int) ^ j \<le> 2 ^ 11" by (intro power_increasing) auto
      then have xe: "\<not> (2 ^ j + 1 < (- 4096::int) \<or> 4096 < (2 ^ j + 1 :: int))" using zero_le_power [of "2::int" j] by (simp del: zero_le_power)
      have sq: "f_mul ?h ?h = Num (2 powi (- 2))"
        using rnd_power [of "- 2"] by (simp add: power_int_def power2_eq_square)
      have lt: "f_lt (Num (2 powi (- 2))) (Num (1 / 2))" by (simp add: power_int_def power2_eq_square)
      have dbl: "f_add (Num (2 powi (- 2))) (Num (2 powi (- 2))) = ?h"
        using rnd_power [of "- 1"] by (simp add: power_int_def power2_eq_square)
      have mul: "f_mul (Num (2 powi (- k))) ?h = Num (2 powi (- (k + 1)))"
        using rnd_power [of "- (k + 1)"] less.prems j
        by (simp add: powi_mult del: power_int_minus1_right)
      define k' where "k' = (if odd i then k + 1 else k)"
      define ae' where "ae' = (if odd i then ae + (2 ^ j + 1) else ae)"
      have step: "pow_loop i ?h (2 ^ j + 1) (Num (2 powi (- k))) ae =
          pow_loop (i div 2) ?h (2 ^ Suc j + 1) (Num (2 powi (- k'))) ae'"
        using pow_loop_step [OF _ xe sq lt dbl mul, of i ae] i by (simp add: k'_def ae'_def add.commute)
      have ge: "(0::int) \<le> 2 ^ j" "int (Suc j) = int j + 1" by simp_all
      have "k' \<le> int (Suc j)" "0 \<le> k'" "k' \<le> ae'"
        using less.prems ge by (auto simp: k'_def ae'_def intro!: add_increasing2)
      moreover have "i div 2 < i" using i by arith
      ultimately obtain a e where ae: "pow_loop (i div 2) ?h (2 ^ Suc j + 1) (Num (2 powi (- k'))) ae' = (Num (2 powi a), e)"
        "a + e = ae' - k' + (i div 2) * 2 ^ Suc j \<or> 4096 \<le> a + e \<and> 4096 \<le> ae' - k' + (i div 2) * 2 ^ Suc j"
        using less.hyps [of "i div 2" "Suc j" k' ae'] i j by auto
      have "ae' - k' + (i div 2) * 2 ^ Suc j = ae - k + i * 2 ^ j"
      proof (cases "odd i")
        case True
        then have "i * 2 ^ j = (2 * (i div 2) + 1) * 2 ^ j" by simp
        then show ?thesis using True by (simp add: k'_def ae'_def algebra_simps)
      next
        case False
        then have "i * 2 ^ j = (2 * (i div 2)) * 2 ^ j" by simp
        then show ?thesis using False by (simp add: k'_def ae'_def algebra_simps)
      qed
      then show ?thesis using ae unfolding step by metis
    qed
  qed
qed

lemma Pow_two:
  assumes "0 \<le> n"
  shows "Pow (Num 2) n = (if 1024 \<le> n then Inf False else Num (2 powi n))"
proof -
  consider "n = 0" | "n = 1" | "2 \<le> n" using assms by linarith
  then show ?thesis
  proof cases
    case 3
    have e: "expo 2 = 1" by (rule expo_unique) auto
    obtain a e where ae: "pow_loop n (Num (2 powi (- 1))) (2 ^ 0 + 1) (Num (2 powi (- 0))) 0 = (Num (2 powi a), e)"
      "a + e = n \<or> 4096 \<le> a + e \<and> 4096 \<le> n"
      using pow_loop_half [of n 0 0 0] assms by auto
    have "Pow (Num 2) n = rnd (2 powi a * 2 powi e)"
      using 3 ae(1) by (simp add: Pow_def Frexp_def e Let_def)
    also have "\<dots> = rnd (2 powi (a + e))" by (simp add: powi_mult)
    finally show ?thesis using ae(2) 3 by (auto simp: rnd_power)
  qed (auto simp: Pow_def)
qed

lemma f_mul_exact_power:
  assumes "1 \<le> m" "m \<le> 2 ^ 53" "0 \<le> n" "n < 1024"
  shows "f_mul (Num (of_int m)) (Num (2 powi n)) =
    (if 2 powi 1024 \<le> of_int m * (2::rat) powi n then Inf False else Num (of_int m * 2 powi n))"
proof -
  let ?x = "of_int m * (2::rat) powi n"
  have x: "0 < ?x" using assms by simp
  have m: "(1::rat) \<le> of_int m" using assms by simp
  have eq: "expo ?x = expo (of_int m) + n"
    using expo_bounds [of "of_int m"] m
    by (intro expo_unique) (auto simp: power_int_add mult.commute mult.left_commute)
  have low: "0 \<le> expo (of_int m :: rat)"
  proof -
    have "(2::rat) powi 0 < 2 powi (expo (of_int m) + 1)"
      using expo_bounds [of "of_int m"] m unfolding power_int_0_right by linarith
    then show ?thesis unfolding powi_less_iff by linarith
  qed
  have "round_pos ?x = ?x"
  proof (cases "ulp_exp ?x \<le> n")
    case True
    have "?x / 2 powi ulp_exp ?x = of_int m * 2 powi (n - ulp_exp ?x)"
      by (simp add: power_int_diff)
    also have "\<dots> = of_int (m * 2 ^ nat (n - ulp_exp ?x))"
      using True powi_nonneg_int [of "n - ulp_exp ?x"] by simp
    finally show ?thesis by (rule round_pos_fix)
  next
    case False
    then have u: "ulp_exp ?x = expo (of_int m) + n - 52" "0 < expo (of_int m :: rat) - 52"
      using assms(3) low by (auto simp: ulp_exp_def eq)
    have "m = 2 ^ 53"
    proof (rule ccontr)
      assume "m \<noteq> 2 ^ 53"
      then have "(of_int m :: rat) < of_int (2 ^ 53)" using assms(2) by linarith
      then have "(of_int m :: rat) < 2 powi 53" by (simp add: power_int_def)
      then have "(2::rat) powi expo (of_int m) < 2 powi 53"
        using expo_bounds [of "of_int m"] m by linarith
      then show False using u(2) unfolding powi_less_iff by linarith
    qed
    then have "?x = 2 powi 53 * 2 powi n" by (simp add: power_int_def)
    then have "?x = 2 powi (53 + n)" by (simp only: powi_mult)
    then show ?thesis using round_pos_power [of "53 + n"] assms(3) by simp
  qed
  then show ?thesis using x by (simp add: rnd_nonneg max_exp_def del: power_int_numeral)
qed

lemma clamp_exact:
  assumes "1 \<le> cap" "cap \<le> 2 ^ 53" "0 < q"
  shows "clamp (Num q) cap = (if of_int cap \<le> q then cap else \<lfloor>q\<rfloor>)"
proof -
  have "of_int64 cap = Num (of_int cap)" using assms by (intro of_int64_exact) auto
  moreover have "MinInt64 \<le> \<lfloor>q\<rfloor> \<and> \<lfloor>q\<rfloor> \<le> MaxInt64" if "\<not> of_int cap \<le> q"
  proof -
    have "\<lfloor>q\<rfloor> < cap" using that by linarith
    moreover have "0 \<le> \<lfloor>q\<rfloor>" using assms(3) by simp
    moreover have "cap \<le> 9007199254740992" using assms(2) by simp
    ultimately show ?thesis unfolding MinInt64_def MaxInt64_def by linarith
  qed
  ultimately show ?thesis using assms by (auto simp: clamp_def Let_def IsNaN_def)
qed

lemma clamp_inf: "1 \<le> cap \<Longrightarrow> cap \<le> 2 ^ 53 \<Longrightarrow> clamp (Inf False) cap = cap"
  using of_int64_exact [of cap] by (simp add: clamp_def IsNaN_def)

lemma grown_doubling:
  assumes "bo_Type b = BackoffExponential" "bo_Multiplier b = Num 2"
    and "1 \<le> bo_Initial b" "bo_Initial b \<le> 2 ^ 53" "1 \<le> bo_Max b" "bo_Max b \<le> 2 ^ 53" "1 \<le> a"
  shows "clamp (grown b a) (bo_Max b) = min (bo_Max b) (bo_Initial b * 2 ^ nat (a - 1))"
proof -
  define n where "n = a - 1"
  have n: "0 \<le> n" using assms(7) by (simp add: n_def)
  have g: "grown b a = f_mul (Num (of_int (bo_Initial b))) (Pow (Num 2) n)"
    using assms by (simp add: grown_def of_int64_exact n_def)
  define p where "p = bo_Initial b * 2 ^ nat n"
  have pp: "of_int p = of_int (bo_Initial b) * (2::rat) powi n"
    using n by (simp add: p_def powi_nonneg_int)
  have big: "bo_Max b \<le> p" if "(2::rat) powi 1024 \<le> of_int p"
  proof -
    have "(of_int (2 ^ 53) :: rat) = 2 powi 53" by (simp add: power_int_def)
    also have "\<dots> \<le> 2 powi 1024" by (subst powi_le_iff) simp
    finally have "(of_int (2 ^ 53) :: rat) \<le> of_int p" using that by (rule order_trans)
    then show ?thesis using assms(6) by linarith
  qed
  have "clamp (grown b a) (bo_Max b) = min (bo_Max b) p"
  proof (cases "n < 1024")
    case True
    note ex = f_mul_exact_power [OF assms(3,4) n True]
    show ?thesis
    proof (cases "2 powi 1024 \<le> (of_int p :: rat)")
      case big': True
      then show ?thesis
        using True n ex big assms(5,6) unfolding g pp [symmetric] by (simp add: Pow_two clamp_inf del: power_int_numeral)
    next
      case small: False
      have "0 < p" using assms(3) by (simp add: p_def)
      then show ?thesis
        using True n ex assms(5,6) small clamp_exact [of "bo_Max b" "of_int p"]
        unfolding g pp [symmetric] by (auto simp: Pow_two min_def simp del: power_int_numeral)
    qed
  next
    case False
    have "(2::rat) powi 1024 \<le> 2 powi n" using False by (subst powi_le_iff) simp
    also have "\<dots> = 1 * 2 powi n" by simp
    also have "\<dots> \<le> of_int p" unfolding pp using assms(3) by (intro mult_right_mono) auto
    finally have "bo_Max b \<le> p" by (rule big)
    moreover have "grown b a = Inf False" using False n assms(3) by (simp add: g Pow_two)
    ultimately show ?thesis using assms(5,6) by (simp add: clamp_inf)
  qed
  then show ?thesis by (simp add: p_def n_def)
qed

section \<open>The spread of the jitter\<close>

lemma f_le_neg: "f_le (f_neg x) (f_neg y) \<longleftrightarrow> f_le y x"
  by (cases x; cases y) auto

lemma rnd_ge_0: "0 \<le> x \<Longrightarrow> f_le (Num 0) (rnd x)"
  using rnd_mono_nonneg [of 0 x] by simp

lemma f_le_trans: "f_le x y \<Longrightarrow> f_le y z \<Longrightarrow> f_le x z"
  by (cases x; cases y; cases z) auto

lemma rnd_mono: "x \<le> y \<Longrightarrow> f_le (rnd x) (rnd y)"
proof -
  assume le: "x \<le> y"
  consider "0 \<le> x" | "x < 0" "0 \<le> y" | "y < 0" using le by linarith
  then show ?thesis
  proof cases
    case 1
    then show ?thesis using le by (rule rnd_mono_nonneg)
  next
    case 2
    have "f_le (rnd x) (Num 0)"
      using rnd_ge_0 [of "- x"] 2 f_le_neg [of "Num 0" "rnd x"] by (simp add: rnd_neg)
    then show ?thesis using rnd_ge_0 [of y] 2 by (blast intro: f_le_trans)
  next
    case 3
    then have "f_le (rnd (- y)) (rnd (- x))" using le by (intro rnd_mono_nonneg) auto
    then show ?thesis by (simp add: rnd_neg f_le_neg)
  qed
qed

lemma rnd_small:
  assumes "x \<le> of_int n" "- of_int n \<le> x" "0 \<le> n" "n \<le> 2 ^ 53"
  shows "\<exists>q. rnd x = Num q \<and> q \<le> of_int n \<and> - of_int n \<le> q"
proof -
  have n: "rnd (of_int n) = Num (of_int n)" using of_int64_exact [of n] assms by (simp add: of_int64_def)
  then have "rnd (- of_int n) = Num (- of_int n)" by (simp add: rnd_neg)
  then have "f_le (Num (- of_int n)) (rnd x)" "f_le (rnd x) (Num (of_int n))"
    using rnd_mono [of "- of_int n" x] rnd_mono [of x "of_int n"] assms n by auto
  then show ?thesis by (cases "rnd x") auto
qed

text \<open>The factor of the jitter lies in [0, 2].\<close>

lemma jitter_factor:
  assumes "0 \<le> q" "q \<le> 1" "0 \<le> p" "p \<le> 1"
  shows "\<exists>f. f_add (Num 1) (f_mul (Num q) (f_sub (f_mul (Num 2) (Num p)) (Num 1))) = Num f \<and> 0 \<le> f \<and> f \<le> 2"
proof -
  obtain a where a: "rnd (2 * p) = Num a" "a \<le> 2" using rnd_small [of "2 * p" 2] assms by auto
  have "f_le (Num 0) (rnd (2 * p))" using assms by (intro rnd_ge_0) auto
  with a have a0: "0 \<le> a" by simp
  obtain z where z: "rnd (a - 1) = Num z" "z \<le> 1" "- 1 \<le> z" using rnd_small [of "a - 1" 1] a a0 by auto
  have "\<bar>q * z\<bar> \<le> 1 * 1" unfolding abs_mult using assms z by (intro mult_mono) auto
  then have "q * z \<le> 1" "- 1 \<le> q * z" by linarith+
  then obtain y where y: "rnd (q * z) = Num y" "y \<le> 1" "- 1 \<le> y" using rnd_small [of "q * z" 1] by auto
  obtain f where f: "rnd (1 + y) = Num f" "f \<le> 2" using rnd_small [of "1 + y" 2] y by auto
  have "f_le (Num 0) (rnd (1 + y))" using y by (intro rnd_ge_0) auto
  then show ?thesis using a z y f by (simp add: f_sub_def)
qed

lemma applyJitter_window:
  assumes "0 \<le> d" "d \<le> 2 ^ 52" "0 \<le> q" "q \<le> 1" "0 \<le> p" "p \<le> 1"
  shows "applyJitter d (Num q) (Num p) \<le> 2 * d"
proof (cases "q \<le> 0 \<or> d \<le> 0")
  case True
  then show ?thesis using assms by (simp add: applyJitter_def)
next
  case False
  obtain f where f: "f_add (Num 1) (f_mul (Num q) (f_sub (f_mul (Num 2) (Num p)) (Num 1))) = Num f"
    "0 \<le> f" "f \<le> 2" using jitter_factor [OF assms(3-6)] by blast
  have d: "of_int64 d = Num (of_int d)" using assms(1,2) by (intro of_int64_exact) auto
  have "of_int d * f \<le> of_int d * 2" using f assms(1) by (intro mult_left_mono) auto
  moreover have "0 \<le> of_int d * f" using f assms(1) by simp
  ultimately have "of_int d * f \<le> of_int (2 * d)" "- of_int (2 * d) \<le> of_int d * f"
    unfolding of_int_mult using assms(1) by auto
  then obtain y where y: "rnd (of_int d * f) = Num y" "y \<le> of_int (2 * d)"
    using rnd_small [of "of_int d * f" "2 * d"] assms(1,2) by auto
  have d52: "d \<le> 4503599627370496" using assms(2) by simp
  have fl: "\<lfloor>y\<rfloor> \<le> 2 * d \<and> MinInt64 \<le> \<lfloor>y\<rfloor> \<and> \<lfloor>y\<rfloor> \<le> MaxInt64" if "0 < y"
  proof -
    have "0 \<le> \<lfloor>y\<rfloor>" using that by simp
    moreover have "\<lfloor>y\<rfloor> \<le> 2 * d" using y(2) by linarith
    ultimately show ?thesis using d52 unfolding MinInt64_def MaxInt64_def by linarith
  qed
  have "f_le (rnd (2 powi 53)) (rnd (of_int MaxInt64))"
    by (rule rnd_mono) (simp add: MaxInt64_def power_int_def)
  then have "f_le (Num (2 powi 53)) (of_int64 MaxInt64)"
    using rnd_power [of 53] unfolding of_int64_def by simp
  moreover have "y < 2 powi 53 \<or> y = 2 powi 53"
  proof -
    have "(of_int (2 * d) :: rat) \<le> of_int (2 ^ 53)" using assms(2) by (simp only: of_int_le_iff, simp)
    then have "y \<le> of_int (2 ^ 53)" using y(2) by (rule order_trans [rotated])
    then show ?thesis by (auto simp: power_int_def)
  qed
  ultimately have "f_le (of_int64 MaxInt64) (Num y) \<Longrightarrow> y = 2 powi 53 \<and> of_int64 MaxInt64 = Num (2 powi 53)"
    by (cases "of_int64 MaxInt64") auto
  moreover have "of_int64 MaxInt64 \<noteq> Num (2 powi 53)"
  proof
    assume eq: "of_int64 MaxInt64 = Num (2 powi 53)"
    have "f_le (rnd (2 powi 62)) (rnd (of_int MaxInt64))"
      by (rule rnd_mono) (simp add: MaxInt64_def power_int_def)
    then have "f_le (Num (2 powi 62)) (Num (2 powi 53))"
      using rnd_power [of 62] eq unfolding of_int64_def by simp
    then show False by simp
  qed
  ultimately have "\<not> f_le (of_int64 MaxInt64) (Num y)" by blast
  then show ?thesis
    using False fl f d y(1) assms(1) by (auto simp: applyJitter_def clamp_def Let_def IsNaN_def)
qed

section \<open>The delay\<close>

text \<open>
  Whatever the policy and the attempt number, even where the exponential curve overflows the
  float range, the delay is never negative and fits a duration. Without jitter it never exceeds
  \<^verbatim>\<open>max\<close>, and with a jitter between 0 and 1 it never exceeds twice \<^verbatim>\<open>max\<close>.
\<close>

theorem Delay_bounds:
  assumes "bo_Max b \<le> MaxInt64"
  shows "0 \<le> Delay b attempt random \<and> Delay b attempt random \<le> MaxInt64 \<and>
    (0 < bo_Max b \<and> f_le (bo_Jitter b) (Num 0) \<longrightarrow> Delay b attempt random \<le> bo_Max b) \<and>
    (0 < bo_Max b \<and> bo_Max b \<le> 2 ^ 52 \<and>
       (\<exists>q p. bo_Jitter b = Num q \<and> 0 \<le> q \<and> q \<le> 1 \<and> random = Num p \<and> 0 \<le> p \<and> p < 1) \<longrightarrow>
       Delay b attempt random \<le> 2 * bo_Max b)"
proof -
  define d where "d = clamp (grown b (if attempt < 1 then 1 else attempt)) (bo_Max b)"
  have d: "0 \<le> d" "d \<le> (if bo_Max b > 0 then bo_Max b else MaxInt64)"
    using clamp_bounds [OF grown_is_float assms] unfolding d_def by auto
  have eq: "Delay b attempt random = applyJitter d (bo_Jitter b) random"
    by (simp add: Delay_def d_def Let_def)
  show ?thesis
    unfolding eq using applyJitter_bounds [OF d(1)] d assms applyJitter_window [of d]
    by (force simp: applyJitter_none split: if_splits)
qed

text \<open>The policy \<^verbatim>\<open>applyRetryDefaults\<close> fills in: 5 s, doubling, capped at 5 min, no jitter.\<close>

definition default_backoff :: Backoff where
  "default_backoff = \<lparr>bo_Type = BackoffExponential, bo_Initial = 5 * second,
     bo_Max = 5 * minute, bo_Multiplier = Num 2, bo_Jitter = Num 0\<rparr>"

theorem Delay_bounds_witness:
  "0 \<le> Delay default_backoff 5000 (Num 0) \<and> Delay default_backoff 5000 (Num 0) \<le> 5 * minute"
  using Delay_bounds [of default_backoff 5000 "Num 0"]
  by (simp add: default_backoff_def time_units MaxInt64_def)

text \<open>
  C23. The exponential curve with the default multiplier is exact, float arithmetic
  notwithstanding: attempt \<^verbatim>\<open>n\<close> waits \<^verbatim>\<open>initial * 2^(n-1)\<close> nanoseconds or \<^verbatim>\<open>max\<close>, whichever is smaller,
  for every \<^verbatim>\<open>n\<close>, including those whose power of two is no longer a finite float.
\<close>

theorem Delay_doubling:
  assumes "bo_Type b = BackoffExponential" and "bo_Multiplier b = Num 2"
    and "f_le (bo_Jitter b) (Num 0)"
    and "1 \<le> bo_Initial b" and "bo_Initial b \<le> 2 ^ 53"
    and "1 \<le> bo_Max b" and "bo_Max b \<le> 2 ^ 53" and "1 \<le> attempt"
  shows "Delay b attempt random = min (bo_Max b) (bo_Initial b * 2 ^ nat (attempt - 1))"
  using grown_doubling [of b attempt] assms by (simp add: Delay_def applyJitter_none Let_def)

theorem Delay_doubling_witness:
  "Delay default_backoff 3 (Num 0) = 20 * second \<and> Delay default_backoff 1100 (Num 0) = 5 * minute"
  using Delay_doubling [of default_backoff 3 "Num 0"] Delay_doubling [of default_backoff 1100 "Num 0"]
  by (simp add: default_backoff_def time_units nat_numeral min_def)

text \<open>
  The fixed and the linear curve, for every attempt: \<^verbatim>\<open>initial\<close>, and \<^verbatim>\<open>n * initial\<close>, each
  capped at \<^verbatim>\<open>max\<close>, as long as the product is an exact float.
\<close>

theorem Delay_fixed_linear:
  assumes "f_le (bo_Jitter b) (Num 0)" and "1 \<le> attempt"
    and "1 \<le> bo_Initial b" and "attempt * bo_Initial b \<le> 2 ^ 53"
    and "1 \<le> bo_Max b" and "bo_Max b \<le> 2 ^ 53"
  shows "(bo_Type b = BackoffFixed \<longrightarrow> Delay b attempt random = min (bo_Max b) (bo_Initial b)) \<and>
    (bo_Type b = BackoffLinear \<longrightarrow> Delay b attempt random = min (bo_Max b) (attempt * bo_Initial b))"
proof -
  have m: "bo_Initial b \<le> attempt * bo_Initial b" "attempt \<le> attempt * bo_Initial b"
    using assms(2,3) mult_right_mono [of 1 attempt "bo_Initial b"] mult_left_mono [of 1 "bo_Initial b" attempt]
    by auto
  have ex: "of_int64 n = Num (of_int n)" if "0 \<le> n" "n \<le> attempt * bo_Initial b" for n
    using that assms(4) by (intro of_int64_exact) auto
  have ex: "of_int64 (bo_Initial b) = Num (of_int (bo_Initial b))" "of_int64 attempt = Num (of_int attempt)"
    "rnd (of_int (attempt * bo_Initial b)) = Num (of_int (attempt * bo_Initial b))"
    using m assms(2,3) ex [of "bo_Initial b"] ex [of attempt] ex [of "attempt * bo_Initial b"]
    by (simp_all add: of_int64_def)
  have c: "clamp (Num (of_int n)) (bo_Max b) = min (bo_Max b) n" if "1 \<le> n" for n
    using clamp_exact [OF assms(5,6), of "of_int n"] that by (auto simp: min_def)
  have "1 \<le> attempt * bo_Initial b" using m assms(3) by linarith
  then show ?thesis
    using assms(1,2,3) ex c c [of "attempt * bo_Initial b"] by (auto simp: Delay_def applyJitter_none grown_def Let_def)
qed

theorem Delay_fixed_linear_witness:
  "Delay (default_backoff\<lparr>bo_Type := BackoffLinear\<rparr>) 4 (Num 0) = 20 * second"
  using Delay_fixed_linear [of "default_backoff\<lparr>bo_Type := BackoffLinear\<rparr>" 4 "Num 0"]
  by (simp add: default_backoff_def time_units)

text \<open>A jitter that is not a number makes every delay of the policy zero.\<close>

lemma f_mul_nan [simp]: "f_mul x NaN = NaN"
  by (cases x) auto

lemma Delay_nan_jitter: "bo_Jitter b = NaN \<Longrightarrow> 0 \<le> clamp (grown b (if attempt < 1 then 1 else attempt)) (bo_Max b) \<Longrightarrow>
    Delay b attempt random = 0"
  by (auto simp: Delay_def applyJitter_def Let_def clamp_def IsNaN_def)

end
