(* ===== verification/World.thy ===== *)
theory World
  imports StoreProps Slots Config Retry
begin

text \<open>
  The state the supervisor and the scheduler share inside one daemon: the database, the slot
  table, the table of attempts under supervision, the drain flags, the loaded workers, and what
  was reported or asked of the outside (notifications raised, groups asked to stop, the pending
  wake-up of the dispatch loop).

  A handler of the daemon is one function on this state; where the code runs it in a goroutine of
  its own, the goroutine's body is a function of its own.
\<close>

text \<open>An attempt under supervision (\<^verbatim>\<open>execution\<close>); the empty intent is \<open>ReasonNone\<close>.\<close>

record Execution =
  e_process :: Process
  e_worker :: "Worker option"
  e_grace :: duration
  e_intent :: Reason

record World =
  s_db :: Db
  s_slots :: Slots
  s_running :: "string \<rightharpoonup> Execution"
  s_sup_draining :: bool
  s_draining :: bool
  s_registry :: Registry
  s_cfg :: Config
  s_woken :: bool
  s_notified :: "(NotifyEvent \<times> Process) list"
  s_stopped :: "(int \<times> duration) list"

text \<open>Runs a database operation on the state.\<close>

definition on_db :: "(Db \<Rightarrow> 'r \<times> Db) \<Rightarrow> World \<Rightarrow> 'r \<times> World" where
  "on_db f w = (case f (s_db w) of (r, db) \<Rightarrow> (r, w\<lparr>s_db := db\<rparr>))"

lemma on_db_simps [simp]:
  "fst (on_db f w) = fst (f (s_db w))" "snd (on_db f w) = w\<lparr>s_db := snd (f (s_db w))\<rparr>"
  by (simp_all add: on_db_def split: prod.splits)

lemma on_db_eq: "on_db f w = (fst (f (s_db w)), w\<lparr>s_db := snd (f (s_db w))\<rparr>)"
  by (simp add: on_db_def split: prod.splits)

section \<open>Rows only move along the state machine\<close>

text \<open>
  \<open>advances db db'\<close>: every execution recorded in \<open>db\<close> is still recorded in \<open>db'\<close>, in a state that
  the transition table reaches from the one it was in.
\<close>

definition advances :: "Db \<Rightarrow> Db \<Rightarrow> bool" where
  "advances db db' \<longleftrightarrow>
     (\<forall>pid q. lookup db pid = Some q \<longrightarrow>
        (\<exists>q'. lookup db' pid = Some q' \<and> path (p_State q) (p_State q')))"

lemma advances_refl [simp]: "advances db db"
  by (auto simp: advances_def)

lemma advances_trans [trans]: "advances a b \<Longrightarrow> advances b c \<Longrightarrow> advances a c"
  unfolding advances_def by (meson rtranclp_trans)

lemma lookup_cong: "d_processes db' = d_processes db \<Longrightarrow> lookup db' = lookup db"
  by (simp add: lookup_def fun_eq_iff)

lemma advances_same: "d_processes db' = d_processes db \<Longrightarrow> advances db db'"
  using lookup_cong [of db' db] by (simp add: advances_def)

lemma advances_UpdateProcess:
  assumes "\<And>q. lookup db (p_ID p) = Some q \<Longrightarrow> path (p_State q) (p_State p)"
  shows "advances db (snd (UpdateProcess p db))"
proof (cases "UpdateProcess p db")
  case (Pair r db')
  show ?thesis
  proof (cases r)
    case None
    note u = lookup_UpdateProcess [of p db db', OF Pair [unfolded None]]
    show ?thesis using assms by (auto simp: advances_def Pair u)
  next
    case (Some e)
    then show ?thesis using Pair UpdateProcess_err [of p db e db'] by (simp add: advances_same)
  qed
qed

lemma advances_CreateProcess: "advances db (snd (CreateProcess p db))"
proof (cases "CreateProcess p db")
  case (Pair r db')
  show ?thesis
  proof (cases r)
    case None
    note c = lookup_CreateProcess [of p db db', OF Pair [unfolded None]]
    have "lookup db (p_ID p) = None"
      using CreateProcess_ok [of p db db', OF Pair [unfolded None]] by (simp add: lookup_None_iff)
    then show ?thesis by (auto simp: advances_def Pair c)
  next
    case (Some e)
    then show ?thesis using Pair CreateProcess_err [of p db e db'] by (simp add: advances_same)
  qed
qed

lemma lock_ops_processes [simp]:
  "d_processes (snd (AcquireLock k pid db)) = d_processes db"
  "d_processes (snd (ReleaseLock k pid db)) = d_processes db"
  by (auto simp: AcquireLock_def ReleaseLock_def Let_def split: option.splits)

lemma lock_ops_lookup [simp]:
  "lookup (snd (AcquireLock k pid db)) = lookup db" "lookup (snd (ReleaseLock k pid db)) = lookup db"
  by (auto intro: lookup_cong)

lemma advances_locks [simp]:
  "advances db (snd (AcquireLock k pid db))" "advances db (snd (ReleaseLock k pid db))"
  by (auto intro: advances_same)

lemma reads_processes [simp]:
  "snd (GetProcess pid db) = ticked db" "snd (PendingProcesses now db) = ticked db"
  "snd (UnfinishedProcesses db) = ticked db" "snd (PendingCount db) = ticked db"
  by (simp_all add: GetProcess_def PendingProcesses_def UnfinishedProcesses_def PendingCount_def)

lemma advances_ticked [simp]: "advances db (ticked db)"
  by (rule advances_same) simp

text \<open>What a write of another execution leaves alone.\<close>

lemma lookup_UpdateProcess_other:
  "pid \<noteq> p_ID p \<Longrightarrow> lookup (snd (UpdateProcess p db)) pid = lookup db pid"
proof (cases "UpdateProcess p db")
  case (Pair r db')
  assume "pid \<noteq> p_ID p"
  then show ?thesis
    using Pair lookup_UpdateProcess [of p db db'] UpdateProcess_err [of p db _ db'] by (cases r) auto
qed

lemma lookup_CreateProcess_other:
  "pid \<noteq> p_ID p \<Longrightarrow> lookup (snd (CreateProcess p db)) pid = lookup db pid"
proof (cases "CreateProcess p db")
  case (Pair r db')
  assume "pid \<noteq> p_ID p"
  then show ?thesis
    using Pair lookup_CreateProcess [of p db db'] CreateProcess_err [of p db _ db'] by (cases r) auto
qed

end
