(* ===== verification/Supervisor.thy ===== *)
theory Supervisor
  imports World
begin

text \<open>
  \<^verbatim>\<open>internal/supervisor\<close>: the life of one attempt, from the start of its process to the meaning of its
  outcome, and what happens to attempts on a stop request, at shutdown and after a daemon restart.

  The callback \<^verbatim>\<open>onSettle\<close> is a parameter, \<open>on_settle\<close>: the scheduler provides it. What the operating
  system, the clock and the random source answer during one handler is a record of inputs. Log
  lines and metrics are not part of the state.
\<close>

definition defaultKillGrace :: duration where "defaultKillGrace = 15 * second"

text \<open>
  The inputs of one handler: whether the log files could be created, what \<^verbatim>\<open>runner.Start\<close>
  answered (the pid and its start time, or an error), the clock where the handler reads it, and
  the number the retry delay draws.
\<close>

record Inputs =
  in_LogsOk :: bool
  in_Spawn :: "(int \<times> nat) option"
  in_StartedAt :: gtime
  in_FinishedAt :: gtime
  in_Now :: gtime
  in_Random :: float64

record Result =
  rs_ExitCode :: int
  rs_Signal :: string

definition retryPolicy :: "Worker option \<Rightarrow> Retry" where
  "retryPolicy worker = (case worker of None \<Rightarrow> zero_Retry | Some w \<Rightarrow> w_Retry w)"

definition killGrace :: "Worker option \<Rightarrow> duration" where
  "killGrace worker =
     (case worker of
        None \<Rightarrow> defaultKillGrace
      | Some w \<Rightarrow> if w_KillGrace w = 0 then defaultKillGrace else w_KillGrace w)"

text \<open>Resolving a worker tolerates one that a reload removed.\<close>

definition worker_of :: "Registry \<Rightarrow> string \<Rightarrow> Worker option" where
  "worker_of reg name =
     (if name = '''' then None
      else case Registry_Get reg name of Inl _ \<Rightarrow> None | Inr w \<Rightarrow> Some w)"

text \<open>An invalid transition is logged and changes nothing.\<close>

definition transition :: "Process \<Rightarrow> State \<Rightarrow> Reason \<Rightarrow> Process" where
  "transition p to' reason = (case TransitionTo p to' reason of Inl _ \<Rightarrow> p | Inr q \<Rightarrow> q)"

definition releaseLock :: "Process \<Rightarrow> Db \<Rightarrow> Db" where
  "releaseLock p db = (if p_Lock p = '''' then db else snd (ReleaseLock (p_Lock p) (p_ID p) db))"

definition exitTrigger :: "Type \<Rightarrow> Result \<Rightarrow> RetryTrigger" where
  "exitTrigger kind result =
     (if rs_Signal result \<noteq> '''' then RetryOnSignal
      else if kind = TypeService then RetryOnExit
      else RetryOnNonZeroExit)"

definition finalEvent :: "Retry \<Rightarrow> RetryTrigger \<Rightarrow> NotifyEvent" where
  "finalEvent policy trigger =
     (if trigger = RetryOnTimeout then NotifyOnTimeout
      else if Retry_IsEnabled policy then NotifyOnRetriesExhausted
      else NotifyOnFailed)"

text \<open>\<^verbatim>\<open>settle\<close>: a CRASHED execution becomes a retry, which keeps its lock, or a failure, which frees it.\<close>

definition settle ::
  "Inputs \<Rightarrow> Process \<Rightarrow> Worker option \<Rightarrow> RetryTrigger \<Rightarrow> Reason \<Rightarrow> Db \<Rightarrow> NotifyEvent \<times> Process \<times> Db" where
  "settle i p worker trigger failureReason db =
     (let policy = retryPolicy worker;
          p = (case (p_StartedAt p, p_FinishedAt p) of
                 (Some started, Some finished) \<Rightarrow>
                   if CounterReset policy (finished - started) then p\<lparr>p_Attempt := 0\<rparr> else p
               | _ \<Rightarrow> p)
      in if \<not> Allowed policy trigger (p_Attempt p)
         then let p = transition p StateFailed failureReason
              in (finalEvent policy trigger, p, releaseLock p db)
         else let p = p\<lparr>p_RetryAt := Some (in_Now i + Delay (r_Backoff policy) (p_Attempt p) (in_Random i))\<rparr>;
                  p = transition p StateRetrying ReasonNone;
                  p = (if p_Type p = TypeService then p\<lparr>p_Restarts := p_Restarts p + 1\<rparr> else p)
              in (NotifyOnCrashed, p, db))"

definition classifyShutdown :: "Inputs \<Rightarrow> Process \<Rightarrow> Retry \<Rightarrow> Db \<Rightarrow> Process \<times> Db" where
  "classifyShutdown i p policy db =
     (if Retry_IsEnabled policy \<and> r_OnShutdown policy
      then ((transition p StateQueued ReasonShutdown)\<lparr>p_QueuedAt := Some (in_Now i)\<rparr>, db)
      else let p = transition p StateCanceled ReasonShutdown in (p, releaseLock p db))"

definition classify ::
  "Inputs \<Rightarrow> Process \<Rightarrow> Worker option \<Rightarrow> Reason \<Rightarrow> Result \<Rightarrow> Db \<Rightarrow> NotifyEvent \<times> Process \<times> Db" where
  "classify i p worker intent result db =
     (let policy = retryPolicy worker;
          p = (if intent \<noteq> ReasonNone \<and> p_State p = StateRunning
               then transition p StateStopping intent else p)
      in if intent = ReasonUserRequest then
           let p = transition p StateCanceled ReasonUserRequest in (NotifyNone, p, releaseLock p db)
         else if intent = ReasonShutdown then
           let (p, db) = classifyShutdown i p policy db in (NotifyNone, p, db)
         else if intent = ReasonTimeout then
           (if Allowed policy RetryOnTimeout (p_Attempt p)
            then settle i (transition p StateCrashed ReasonTimeout) worker RetryOnTimeout ReasonTimeout db
            else let p = transition p StateFailed ReasonTimeout
                 in (NotifyOnTimeout, p, releaseLock p db))
         else if p_Type p \<noteq> TypeService \<and> rs_Signal result = '''' \<and> Succeeded policy (rs_ExitCode result) then
           let p = transition p StateCompleted ReasonNone in (NotifyNone, p, releaseLock p db)
         else if Fatal policy (rs_ExitCode result) then
           let p = transition (transition p StateCrashed ReasonNone) StateFailed ReasonNoRetryExit
           in (NotifyOnFailed, p, releaseLock p db)
         else settle i (transition p StateCrashed ReasonNone) worker
                (exitTrigger (p_Type p) result) ReasonMaxAttempts db)"

section \<open>Starting an attempt\<close>

text \<open>\<^verbatim>\<open>startFailed\<close> records an attempt that never became a process.\<close>

definition startFailed ::
  "(Process \<Rightarrow> World \<Rightarrow> World) \<Rightarrow> Inputs \<Rightarrow> Process \<Rightarrow> Worker option \<Rightarrow> World \<Rightarrow> (error, World) outcome" where
  "startFailed on_settle i p worker w =
     (case TransitionTo (p\<lparr>p_FinishedAt := Some (in_FinishedAt i)\<rparr>) StateCrashed ReasonStartError of
        Inl e \<Rightarrow> (Some e, w)
      | Inr p \<Rightarrow>
          let (event, p, db) = settle i p worker RetryOnStartError ReasonStartError (s_db w)
          in on_ok (on_db (UpdateProcess p) (w\<lparr>s_db := db\<rparr>))
               (\<lambda>w. (None, on_settle p (w\<lparr>s_notified := s_notified w @ [(event, p)]\<rparr>))))"

text \<open>
  \<^verbatim>\<open>abandonStart\<close>: the process runs but could not be recorded, so its group is stopped and reaped, and
  the attempt is reported as one that never started.
\<close>

definition abandonStart ::
  "(Process \<Rightarrow> World \<Rightarrow> World) \<Rightarrow> Inputs \<Rightarrow> Process \<Rightarrow> Worker option \<Rightarrow> World \<Rightarrow> (error, World) outcome" where
  "abandonStart on_settle i p worker w =
     (let w = w\<lparr>s_stopped := s_stopped w @ [(p_PID p, killGrace worker)]\<rparr>
      in startFailed on_settle i (p\<lparr>p_PID := 0, p_PIDStartTime := 0, p_StartedAt := None\<rparr>) worker w)"

definition Start ::
  "(Process \<Rightarrow> World \<Rightarrow> World) \<Rightarrow> Inputs \<Rightarrow> Process \<Rightarrow> World \<Rightarrow> (error, World) outcome" where
  "Start on_settle i caller w =
     (if s_sup_draining w then (Some ErrShuttingDown, w)
      else
        let p = caller; worker = worker_of (s_registry w) (p_Worker p)
        in if \<not> in_LogsOk i then startFailed on_settle i p worker w
           else case in_Spawn i of
                  None \<Rightarrow> startFailed on_settle i p worker w
                | Some (pid, startTime) \<Rightarrow>
                    let p = p\<lparr>p_PID := pid, p_PIDStartTime := startTime, p_StartedAt := Some (in_StartedAt i)\<rparr>
                    in case TransitionTo p StateRunning ReasonNone of
                         Inl _ \<Rightarrow> abandonStart on_settle i p worker w
                       | Inr p \<Rightarrow>
                           (case on_db (UpdateProcess p) w of
                              (Some _, w) \<Rightarrow> abandonStart on_settle i p worker w
                            | (None, w) \<Rightarrow>
                                (None, w\<lparr>s_running := (s_running w)(p_ID p \<mapsto>
                                   \<lparr>e_process = p, e_worker = worker, e_grace = killGrace worker,
                                    e_intent = ReasonNone\<rparr>)\<rparr>)))"

section \<open>The end of an attempt\<close>

text \<open>\<^verbatim>\<open>finish\<close>: the outcome is recorded even when its write fails, and the execution handed back.\<close>

definition finish ::
  "(Process \<Rightarrow> World \<Rightarrow> World) \<Rightarrow> Inputs \<Rightarrow> Execution \<Rightarrow> Result \<Rightarrow> bool \<Rightarrow> World \<Rightarrow> World" where
  "finish on_settle i exec result truncated w =
     (let p = (e_process exec)\<lparr>p_FinishedAt := Some (in_FinishedAt i), p_ExitCode := Some (rs_ExitCode result),
                p_Signal := rs_Signal result, p_LogTruncated := truncated\<rparr>;
          (event, p, db) = classify i p (e_worker exec) (e_intent exec) result (s_db w);
          w = snd (on_db (UpdateProcess p) (w\<lparr>s_db := db\<rparr>));
          w = (if event \<noteq> NotifyNone then w\<lparr>s_notified := s_notified w @ [(event, p)]\<rparr> else w)
      in on_settle p w)"

text \<open>\<^verbatim>\<open>supervise\<close> from the moment the process ended: out of the table first, then the outcome.\<close>

definition supervise ::
  "(Process \<Rightarrow> World \<Rightarrow> World) \<Rightarrow> Inputs \<Rightarrow> string \<Rightarrow> Result \<Rightarrow> bool \<Rightarrow> World \<Rightarrow> World" where
  "supervise on_settle i pid result truncated w =
     (case s_running w pid of
        None \<Rightarrow> w
      | Some exec \<Rightarrow>
          finish on_settle i exec result truncated (w\<lparr>s_running := (s_running w)(pid := None)\<rparr>))"

section \<open>Stop requests\<close>

definition setIntent :: "Reason \<Rightarrow> Execution \<Rightarrow> bool \<times> Execution" where
  "setIntent reason exec =
     (if e_intent exec \<noteq> ReasonNone then (False, exec) else (True, exec\<lparr>e_intent := reason\<rparr>))"

text \<open>
  \<^verbatim>\<open>beginStop\<close>: the execution as it stands when the goroutine gets its turn, whether or not it is
  still under supervision, moves to STOPPING and is persisted; then the group is asked to end.
\<close>

definition beginStop :: "Reason \<Rightarrow> duration \<Rightarrow> Execution \<Rightarrow> World \<Rightarrow> Execution \<times> World" where
  "beginStop reason grace exec w =
     (let p = e_process exec;
          p = (if p_State p = StateRunning then transition p StateStopping reason else p);
          w = snd (on_db (UpdateProcess p) w)
      in (exec\<lparr>e_process := p\<rparr>, w\<lparr>s_stopped := s_stopped w @ [(p_PID p, grace)]\<rparr>))"

text \<open>Intent and \<^verbatim>\<open>beginStop\<close> of an execution under supervision, one after the other.\<close>

definition stop_running :: "Reason \<Rightarrow> duration \<Rightarrow> string \<Rightarrow> World \<Rightarrow> World" where
  "stop_running reason grace pid w =
     (case s_running w pid of
        None \<Rightarrow> w
      | Some exec \<Rightarrow>
          (case setIntent reason exec of
             (False, _) \<Rightarrow> w
           | (True, exec) \<Rightarrow>
               let (exec, w) = beginStop reason grace exec w
               in w\<lparr>s_running := (s_running w)(pid \<mapsto> exec)\<rparr>))"

text \<open>\<^verbatim>\<open>armTimeout\<close>: the timer of an attempt fires; none is armed without a timeout.\<close>

definition timeout_fires :: "string \<Rightarrow> World \<Rightarrow> World" where
  "timeout_fires pid w =
     (case s_running w pid of
        None \<Rightarrow> w
      | Some exec \<Rightarrow>
          if p_Timeout (e_process exec) \<le> 0 then w
          else stop_running ReasonTimeout (e_grace exec) pid w)"

definition cancelPending :: "(Process \<Rightarrow> World \<Rightarrow> World) \<Rightarrow> string \<Rightarrow> World \<Rightarrow> (error, World) outcome" where
  "cancelPending on_settle pid w =
     (case on_db (GetProcess pid) w of
        (Inl e, w) \<Rightarrow> (Some e, w)
      | (Inr p, w) \<Rightarrow>
          if p_State p \<notin> {StateCreated, StateQueued, StateRetrying} then (Some ErrNotRunning, w)
          else case TransitionTo p StateCanceled ReasonUserRequest of
                 Inl e \<Rightarrow> (Some e, w)
               | Inr p \<Rightarrow>
                   on_ok (on_db (UpdateProcess p) (w\<lparr>s_db := releaseLock p (s_db w)\<rparr>))
                     (\<lambda>w. (None, on_settle p w)))"

definition Stop :: "(Process \<Rightarrow> World \<Rightarrow> World) \<Rightarrow> string \<Rightarrow> duration \<Rightarrow> World \<Rightarrow> (error, World) outcome" where
  "Stop on_settle pid grace w =
     (case s_running w pid of
        Some exec \<Rightarrow>
          (None, stop_running ReasonUserRequest (if grace \<le> 0 then e_grace exec else grace) pid w)
      | None \<Rightarrow> cancelPending on_settle pid w)"

text \<open>\<^verbatim>\<open>Signal\<close>: to the group of a running execution; \<open>deliver\<close> is what the runner answers.\<close>

definition Signal :: "(int \<Rightarrow> string \<Rightarrow> error option) \<Rightarrow> string \<Rightarrow> string \<Rightarrow> World \<Rightarrow> (error, World) outcome" where
  "Signal deliver pid sig w =
     (case s_running w pid of
        Some exec \<Rightarrow> (deliver (p_PID (e_process exec)) sig, w)
      | None \<Rightarrow>
          (case on_db (GetProcess pid) w of
             (Inl e, w) \<Rightarrow> (Some e, w)
           | (Inr _, w) \<Rightarrow> (Some ErrNotRunning, w)))"

text \<open>
  \<^verbatim>\<open>Shutdown\<close>: no attempt starts any more, and every supervised one is asked to stop. \<open>ids\<close> lists the
  table in the order the Go map was ranged over. The wait for the outcomes changes no state.
\<close>

definition Shutdown :: "string list \<Rightarrow> duration \<Rightarrow> World \<Rightarrow> World" where
  "Shutdown ids grace w =
     fold (stop_running ReasonShutdown grace) ids (w\<lparr>s_sup_draining := True\<rparr>)"

section \<open>After a daemon restart\<close>

text \<open>
  \<open>alive\<close> says whether a (pid, start time) pair is still the process that was fingerprinted,
  \<open>adopted\<close> whether \<^verbatim>\<open>Adopt\<close> found its group, and \<open>stop_ok\<close> whether the group could be signalled.
\<close>

record Probe =
  pr_alive :: "int \<Rightarrow> nat \<Rightarrow> bool"
  pr_adopted :: "int \<Rightarrow> bool"
  pr_stop_ok :: "int \<Rightarrow> bool"

definition SameProcess :: "Probe \<Rightarrow> Process \<Rightarrow> bool" where
  "SameProcess pr p \<longleftrightarrow> 0 < p_PID p \<and> p_PIDStartTime p \<noteq> 0 \<and> pr_alive pr (p_PID p) (p_PIDStartTime p)"

definition handleOrphan :: "Probe \<Rightarrow> Inputs \<Rightarrow> Process \<Rightarrow> World \<Rightarrow> error option \<times> Process \<times> World" where
  "handleOrphan pr i p w =
     (if c_OrphanPolicy (s_cfg w) = OrphanPolicyLeave
      then case TransitionTo (p\<lparr>p_FinishedAt := Some (in_FinishedAt i)\<rparr>) StateCrashed ReasonDaemonRestart of
             Inl e \<Rightarrow> (Some e, p, w)
           | Inr q \<Rightarrow>
               (case TransitionTo q StateFailed ReasonOrphaned of
                  Inl e \<Rightarrow> (Some e, q, w)
                | Inr q \<Rightarrow> (None, q, w\<lparr>s_db := releaseLock q (s_db w)\<rparr>))
      else if \<not> pr_adopted pr (p_PID p) then (None, p, w)
      else let w = w\<lparr>s_stopped := s_stopped w @
                 [(p_PID p, killGrace (worker_of (s_registry w) (p_Worker p)))]\<rparr>
           in if pr_stop_ok pr (p_PID p) then (None, p, w) else (Some ErrIO, p, w))"

definition recoverInterrupted :: "Probe \<Rightarrow> Inputs \<Rightarrow> Process \<Rightarrow> World \<Rightarrow> (error, World) outcome" where
  "recoverInterrupted pr i p w =
     (let worker = worker_of (s_registry w) (p_Worker p);
          (e, p, w) = (if SameProcess pr p then handleOrphan pr i p w else (None, p, w))
      in case e of
           Some e \<Rightarrow> (Some e, w)
         | None \<Rightarrow>
             if IsTerminal (p_State p) then on_db (UpdateProcess p) w
             else case TransitionTo (p\<lparr>p_FinishedAt := Some (in_FinishedAt i)\<rparr>) StateCrashed ReasonDaemonRestart of
                    Inl e \<Rightarrow> (Some e, w)
                  | Inr p \<Rightarrow>
                      let (event, p, db) = settle i p worker
                            (exitTrigger (p_Type p) \<lparr>rs_ExitCode = 0, rs_Signal = ''''\<rparr>) ReasonDaemonRestart (s_db w)
                      in on_db (UpdateProcess p) (w\<lparr>s_db := db\<rparr>))"

definition reconcileOne :: "Probe \<Rightarrow> Inputs \<Rightarrow> Process \<Rightarrow> World \<Rightarrow> (error, World) outcome" where
  "reconcileOne pr i p w =
     (if p_State p = StateCreated then
        (case TransitionTo p StateQueued ReasonNone of
           Inl e \<Rightarrow> (Some e, w)
         | Inr p \<Rightarrow> on_db (UpdateProcess (p\<lparr>p_QueuedAt := Some (in_Now i)\<rparr>)) w)
      else if p_State p \<in> {StateQueued, StateRetrying} then (None, w)
      else if p_State p \<in> {StateStarting, StateRunning, StateStopping} then recoverInterrupted pr i p w
      else (None, w))"

text \<open>\<^verbatim>\<open>Reconcile\<close>: an execution that cannot be reconciled is logged and skipped.\<close>

definition Reconcile :: "Probe \<Rightarrow> (string \<Rightarrow> Inputs) \<Rightarrow> World \<Rightarrow> (error, World) outcome" where
  "Reconcile pr i w =
     (case on_db UnfinishedProcesses w of
        (Inl e, w) \<Rightarrow> (Some e, w)
      | (Inr ps, w) \<Rightarrow> (None, fold (\<lambda>p w. snd (reconcileOne pr (i (p_ID p)) p w)) ps w))"

section \<open>Observation\<close>

definition Running :: "World \<Rightarrow> nat" where
  "Running w = card (dom (s_running w))"

record Sample =
  sm_ProcessID :: string
  sm_Worker :: string
  sm_Attempt :: int
  sm_PID :: int
  sm_PIDStartTime :: nat

definition Snapshot :: "string list \<Rightarrow> World \<Rightarrow> Sample list" where
  "Snapshot ids w =
     map (\<lambda>exec. let p = e_process exec in
            \<lparr>sm_ProcessID = p_ID p, sm_Worker = p_Worker p, sm_Attempt = p_Attempt p,
             sm_PID = p_PID p, sm_PIDStartTime = p_PIDStartTime p\<rparr>)
       (List.map_filter (s_running w) ids)"

definition RunningAttempt :: "string \<Rightarrow> World \<Rightarrow> int option" where
  "RunningAttempt pid w = map_option (\<lambda>exec. p_Attempt (e_process exec)) (s_running w pid)"

end
