(* ===== verification/Runtime.thy ===== *)
theory Runtime
  imports World
begin

text \<open>
  The invariant of the running daemon, and what it means that a handler acts for one execution
  only. Every handler of the supervisor and the scheduler is shown to be such an action, so that
  what it does to the others needs no argument of its own.
\<close>

section \<open>Attempts under supervision\<close>

text \<open>
  An attempt in the table belongs to the execution it is filed under, which holds a slot, holds
  its lock, and is recorded as running or stopping.
\<close>

definition attempt_ok :: "World \<Rightarrow> string \<Rightarrow> Execution \<Rightarrow> bool" where
  "attempt_ok w pid e \<longleftrightarrow>
     p_ID (e_process e) = pid \<and>
     Holds (s_slots w) pid \<and>
     (p_Lock (e_process e) \<noteq> '''' \<longrightarrow> d_locks (s_db w) (p_Lock (e_process e)) = Some pid) \<and>
     (\<exists>q. lookup (s_db w) pid = Some q \<and> p_State q \<in> {StateRunning, StateStopping} \<and>
          path (p_State q) (p_State (e_process e))) \<and>
     (p_State (e_process e) = StateRunning \<or> p_State (e_process e) = StateStopping)"

definition runtime_inv :: "World \<Rightarrow> bool" where
  "runtime_inv w \<longleftrightarrow>
     store_inv (s_db w) \<and> slots_inv (s_slots w) \<and>
     globalMax (s_slots w) = c_MaxProcesses (s_cfg w) \<and>
     (\<forall>pid e. s_running w pid = Some e \<longrightarrow> attempt_ok w pid e)"

section \<open>Acting for one execution\<close>

definition act :: "string \<Rightarrow> World \<Rightarrow> World \<Rightarrow> bool" where
  "act pid w w' \<longleftrightarrow>
     s_cfg w' = s_cfg w \<and> s_registry w' = s_registry w \<and>
     (store_inv (s_db w) \<longrightarrow> store_inv (s_db w')) \<and>
     (slots_inv (s_slots w) \<longrightarrow> slots_inv (s_slots w')) \<and>
     globalMax (s_slots w') = globalMax (s_slots w) \<and>
     (\<forall>q. q \<noteq> pid \<longrightarrow>
        s_running w' q = s_running w q \<and>
        holders (s_slots w') q = holders (s_slots w) q \<and>
        lookup (s_db w') q = lookup (s_db w) q \<and>
        (\<forall>k. d_locks (s_db w) k = Some q \<longrightarrow> d_locks (s_db w') k = Some q)) \<and>
     advances (s_db w) (s_db w')"

lemma act_refl [simp]: "act pid w w"
  by (simp add: act_def)

lemma act_trans [trans]:
  assumes "act pid a b" and "act pid b c"
  shows "act pid a c"
  using assms advances_trans [of "s_db a" "s_db b" "s_db c"] by (auto simp: act_def)

lemma act_advances: "act pid w w' \<Longrightarrow> advances (s_db w) (s_db w')"
  by (simp add: act_def)

lemma act_other:
  assumes "act pid w w'" and "q \<noteq> pid"
  shows "s_running w' q = s_running w q" and "lookup (s_db w') q = lookup (s_db w) q"
  using assms by (auto simp: act_def)

lemma act_cfg: "act pid w w' \<Longrightarrow> s_cfg w' = s_cfg w \<and> s_registry w' = s_registry w"
  by (simp add: act_def)

text \<open>The others keep their attempts; the invariant is then a matter of the acting execution.\<close>

lemma act_attempt:
  assumes "act pid w w'" and "q \<noteq> pid"
  shows "attempt_ok w q e \<Longrightarrow> attempt_ok w' q e"
  using assms by (auto simp: act_def attempt_ok_def Holds_def)

lemma act_runtime_inv:
  assumes a: "act pid w w'" and inv: "runtime_inv w"
    and own: "\<And>e. s_running w' pid = Some e \<Longrightarrow> attempt_ok w' pid e"
  shows "runtime_inv w'"
proof -
  have "attempt_ok w' q e" if "s_running w' q = Some e" for q e
  proof (cases "q = pid")
    case True
    then show ?thesis using own that by simp
  next
    case False
    then have "attempt_ok w q e" using a inv that by (auto simp: act_other runtime_inv_def)
    then show ?thesis using act_attempt [OF a False] by simp
  qed
  then show ?thesis using a inv by (auto simp: act_def runtime_inv_def)
qed

section \<open>The elementary actions\<close>

lemma act_UpdateProcess:
  assumes "p_ID p = pid" and "\<And>q. lookup (s_db w) pid = Some q \<Longrightarrow> path (p_State q) (p_State p)"
  shows "act pid w (w\<lparr>s_db := snd (UpdateProcess p (s_db w))\<rparr>)"
  using assms UpdateProcess_inv [of "s_db w" p]
  by (auto simp: act_def lookup_UpdateProcess_other intro: advances_UpdateProcess)

lemma act_CreateProcess:
  "p_ID p = pid \<Longrightarrow> act pid w (w\<lparr>s_db := snd (CreateProcess p (s_db w))\<rparr>)"
  using CreateProcess_inv [of "s_db w" p]
  by (auto simp: act_def lookup_CreateProcess_other advances_CreateProcess frame)

lemma act_AcquireLock: "act pid w (w\<lparr>s_db := snd (AcquireLock k pid (s_db w))\<rparr>)"
proof -
  obtain r db' where a: "AcquireLock k pid (s_db w) = (r, db')" by fastforce
  show ?thesis
    using locks.acquire_holds [OF a] AcquireLock_inv [of "s_db w" k pid]
      lock_ops_lookup(1) [of k pid "s_db w"] advances_locks(1) [of "s_db w" k pid] a by (auto simp: act_def)
qed

lemma act_ReleaseLock: "act pid w (w\<lparr>s_db := snd (ReleaseLock k pid (s_db w))\<rparr>)"
proof -
  obtain r db' where a: "ReleaseLock k pid (s_db w) = (r, db')" by fastforce
  show ?thesis
    using locks.release_holds [OF a] ReleaseLock_inv [of "s_db w" k pid]
      lock_ops_lookup(2) [of k pid "s_db w"] advances_locks(2) [of "s_db w" k pid] a by (auto simp: act_def)
qed

lemma act_ticked: "act pid w (w\<lparr>s_db := ticked (s_db w)\<rparr>)"
  by (simp add: act_def)

lemma act_TryAcquire: "act pid w (w\<lparr>s_slots := snd (TryAcquire (s_slots w) pid v)\<rparr>)"
  using slots.acquire_wf [of "s_slots w" pid v] by (auto simp: act_def TryAcquire_def)

lemma act_Release: "act pid w (w\<lparr>s_slots := Release (s_slots w) pid\<rparr>)"
  using slots.release_wf [of "s_slots w" pid] by (auto simp: act_def Release_holders)

lemma act_running: "act pid w (w\<lparr>s_running := (s_running w)(pid := e)\<rparr>)"
  by (simp add: act_def)

lemma act_outputs [simp]:
  "act pid w (w\<lparr>s_notified := n\<rparr>)" "act pid w (w\<lparr>s_stopped := x\<rparr>)" "act pid w (w\<lparr>s_woken := b\<rparr>)"
  by (simp_all add: act_def)

lemmas elementary_acts =
  act_UpdateProcess act_CreateProcess act_AcquireLock act_ReleaseLock act_ticked act_TryAcquire
  act_Release act_running

section \<open>Progress of the whole daemon\<close>

text \<open>What a handler does to the world at large: rows advance, the configuration stays.\<close>

definition moves :: "World \<Rightarrow> World \<Rightarrow> bool" where
  "moves w w' \<longleftrightarrow> advances (s_db w) (s_db w') \<and> s_cfg w' = s_cfg w"

lemma moves_refl [simp]: "moves w w"
  by (simp add: moves_def)

lemma moves_trans [trans]: "moves a b \<Longrightarrow> moves b c \<Longrightarrow> moves a c"
  using advances_trans by (auto simp: moves_def)

lemma act_moves: "act pid w w' \<Longrightarrow> moves w w'"
  by (simp add: act_def moves_def)

lemma moves_ticked [simp]: "moves w (w\<lparr>s_db := ticked (s_db w)\<rparr>)"
  by (simp add: moves_def)

end
