(* ===== verification/SupervisorProps.thy ===== *)
theory SupervisorProps
  imports Supervisor Runtime
begin

text \<open>
  The supervisor: the meaning of every outcome, the retry decision, and that each handler acts for
  its own execution and leaves the table of attempts consistent, whatever the scheduler does when
  it is called back (within its contract, the locale \<open>settle_callback\<close>) and whichever database
  statement fails.
\<close>

section \<open>Transitions inside the supervisor\<close>

lemma transition_frame [simp]:
  "p_ID (transition p t r) = p_ID p" "p_Lock (transition p t r) = p_Lock p"
  "p_Type (transition p t r) = p_Type p" "p_Attempt (transition p t r) = p_Attempt p"
  "p_Worker (transition p t r) = p_Worker p" "p_StartedAt (transition p t r) = p_StartedAt p"
  "p_FinishedAt (transition p t r) = p_FinishedAt p" "p_Restarts (transition p t r) = p_Restarts p"
  "p_RetryAt (transition p t r) = p_RetryAt p" "p_PID (transition p t r) = p_PID p"
  by (simp_all add: transition_def TransitionTo_def Let_def)

lemma transition_path: "path (p_State p) (p_State (transition p t r))"
  by (auto simp: transition_def TransitionTo_def Let_def)

lemma transition_trans: "path s (p_State p) \<Longrightarrow> path s (p_State (transition p t r))"
  using transition_path rtranclp_trans by metis

lemma transition_ok [simp]: "CanTransition (p_State p) t \<Longrightarrow> p_State (transition p t r) = t"
  by (simp add: transition_def TransitionTo_def Let_def)

lemma transition_reason: "CanTransition (p_State p) t \<Longrightarrow>
    p_Reason (transition p t r) = (if r = ReasonNone then p_Reason p else r)"
  by (simp add: transition_def TransitionTo_def Let_def)

lemma TransitionTo_facts:
  "TransitionTo p t r = Inr q \<Longrightarrow>
     p_ID q = p_ID p \<and> p_Lock q = p_Lock p \<and> p_State q = t \<and> CanTransition (p_State p) t \<and>
     p_Type q = p_Type p \<and> p_Worker q = p_Worker p \<and> p_PID q = p_PID p \<and> p_Attempt q = p_Attempt p"
  by (auto simp: TransitionTo_Inr_iff)

lemma TransitionTo_path:
  "TransitionTo p t r = Inr q \<Longrightarrow> path s (p_State p) \<Longrightarrow> path s (p_State q)"
  by (metis TransitionTo_facts path_step rtranclp_trans)

text \<open>What \<^verbatim>\<open>settle\<close> and \<^verbatim>\<open>classify\<close> may do to an execution and to the locks.\<close>

definition moved :: "Process \<Rightarrow> Db \<Rightarrow> Process \<Rightarrow> Db \<Rightarrow> bool" where
  "moved p db p' db' \<longleftrightarrow>
     p_ID p' = p_ID p \<and> p_Lock p' = p_Lock p \<and> p_Type p' = p_Type p \<and>
     path (p_State p) (p_State p') \<and>
     (db' = db \<or> (p_Lock p \<noteq> '''' \<and> db' = snd (ReleaseLock (p_Lock p) (p_ID p) db)))"

lemma releaseLock_cases:
  "releaseLock p db = db \<or> (p_Lock p \<noteq> '''' \<and> releaseLock p db = snd (ReleaseLock (p_Lock p) (p_ID p) db))"
  by (simp add: releaseLock_def)

lemma moved_settle:
  "settle i p worker trigger r db = (ev, p', db') \<Longrightarrow> moved p db p' db'"
  unfolding settle_def Let_def moved_def releaseLock_def
  by (auto split: if_splits option.splits intro!: transition_trans)

lemma moved_via:
  assumes "moved q db p' db'"
    and "p_ID q = p_ID p" "p_Lock q = p_Lock p" "p_Type q = p_Type p" "path (p_State p) (p_State q)"
  shows "moved p db p' db'"
proof -
  have "path (p_State p) (p_State p')"
    using assms(1,5) unfolding moved_def by (metis rtranclp_trans)
  then show ?thesis using assms by (simp add: moved_def)
qed

lemma moved_release:
  "path (p_State p) (p_State q) \<Longrightarrow> p_ID q = p_ID p \<Longrightarrow> p_Lock q = p_Lock p \<Longrightarrow> p_Type q = p_Type p \<Longrightarrow>
   moved p db q (releaseLock q db)"
  by (simp add: moved_def releaseLock_def)

lemma moved_keep:
  "path (p_State p) (p_State q) \<Longrightarrow> p_ID q = p_ID p \<Longrightarrow> p_Lock q = p_Lock p \<Longrightarrow> p_Type q = p_Type p \<Longrightarrow>
   moved p db q db"
  by (simp add: moved_def)

lemma moved_classify:
  assumes "classify i p worker intent result db = (ev, p', db')"
  shows "moved p db p' db'"
proof -
  define q where "q = (if intent \<noteq> ReasonNone \<and> p_State p = StateRunning
    then transition p StateStopping intent else p)"
  have q: "p_ID q = p_ID p" "p_Lock q = p_Lock p" "p_Type q = p_Type p" "path (p_State p) (p_State q)"
    by (auto simp: q_def intro: transition_path)
  note rel = moved_release [OF _ _ _ _, of p]
  show ?thesis
    using assms unfolding classify_def Let_def q_def [symmetric] classifyShutdown_def
    by (auto simp: q split: if_splits prod.splits
        intro!: rel moved_keep transition_trans q(4)
        dest!: moved_settle intro: moved_via)
qed

section \<open>The meaning of an outcome\<close>

text \<open>
  C3. What an ended attempt becomes, for an execution that is RUNNING, or STOPPING because somebody
  asked it to stop. A user's request cancels it; a shutdown queues it again if the worker opted
  in and cancels it otherwise; a timeout retries it or fails it with that reason. When nobody
  asked, a task that exits with a success code without a signal is COMPLETED, a service never is;
  an exit code listed as fatal fails it at once; anything else is retried while the policy allows
  and fails with "max_attempts" when it does not. The lock is kept exactly when the execution
  will run again.
\<close>

theorem classify_outcome:
  assumes "p_State p = StateRunning \<or> (p_State p = StateStopping \<and> intent \<noteq> ReasonNone)"
    and "intent \<in> {ReasonNone, ReasonUserRequest, ReasonShutdown, ReasonTimeout}"
    and "classify i p worker intent result db = (event, p', db')"
    and "policy = retryPolicy worker"
    and "attempt = (case (p_StartedAt p, p_FinishedAt p) of
           (Some a, Some b) \<Rightarrow> if CounterReset policy (b - a) then 0 else p_Attempt p | _ \<Rightarrow> p_Attempt p)"
    and "success \<longleftrightarrow> p_Type p \<noteq> TypeService \<and> rs_Signal result = '''' \<and> Succeeded policy (rs_ExitCode result)"
  shows "p_State p' =
      (if intent = ReasonUserRequest then StateCanceled
       else if intent = ReasonShutdown then
         (if Retry_IsEnabled policy \<and> r_OnShutdown policy then StateQueued else StateCanceled)
       else if intent = ReasonTimeout then
         (if Allowed policy RetryOnTimeout (p_Attempt p) \<and> Allowed policy RetryOnTimeout attempt
          then StateRetrying else StateFailed)
       else if success then StateCompleted
       else if Fatal policy (rs_ExitCode result) then StateFailed
       else if Allowed policy (exitTrigger (p_Type p) result) attempt then StateRetrying
       else StateFailed) \<and>
    (p_State p' = StateFailed \<longrightarrow> p_Reason p' =
      (if intent = ReasonTimeout then ReasonTimeout
       else if Fatal policy (rs_ExitCode result) then ReasonNoRetryExit else ReasonMaxAttempts)) \<and>
    db' = (if p_State p' \<in> {StateQueued, StateRetrying} then db else releaseLock p' db)"
proof -
  have settle: "settle i q worker trigger r db = (ev, q', db2) \<Longrightarrow> p_State q = StateCrashed \<Longrightarrow>
      r \<noteq> ReasonNone \<Longrightarrow> p_StartedAt q = p_StartedAt p \<Longrightarrow> p_FinishedAt q = p_FinishedAt p \<Longrightarrow>
      p_Attempt q = p_Attempt p \<Longrightarrow>
      p_State q' = (if Allowed policy trigger attempt then StateRetrying else StateFailed) \<and>
      (p_State q' = StateFailed \<longrightarrow> p_Reason q' = r) \<and>
      db2 = (if p_State q' = StateRetrying then db else releaseLock q' db)" for q trigger r ev q' db2
    unfolding settle_def Let_def assms(4,5) [symmetric]
    by (auto simp: assms(5) transition_reason split: option.splits if_splits)
  define q where "q = (if intent \<noteq> ReasonNone \<and> p_State p = StateRunning
    then transition p StateStopping intent else p)"
  have q: "p_StartedAt q = p_StartedAt p" "p_FinishedAt q = p_FinishedAt p" "p_Attempt q = p_Attempt p"
    "p_Type q = p_Type p" by (simp_all add: q_def)
  have stop: "p_State q = StateStopping" if "intent \<noteq> ReasonNone" using assms(1) that by (auto simp: q_def)
  have run: "p_State q = StateRunning" if "intent = ReasonNone" using assms(1) that by (auto simp: q_def)
  note c = assms(3) [unfolded classify_def Let_def, folded q_def [unfolded Let_def], folded assms(4)]
  show ?thesis
  proof (cases "intent = ReasonNone")
    case False
    note st = stop [OF False]
    from False assms(2) consider "intent = ReasonUserRequest" | "intent = ReasonShutdown" | "intent = ReasonTimeout"
      by auto
    then show ?thesis
    proof cases
      case 1
      then show ?thesis using c st by auto
    next
      case 2
      then show ?thesis using c st by (auto simp: classifyShutdown_def Let_def split: if_splits)
    next
      case 3
      then show ?thesis
        using c st settle [of "transition q StateCrashed ReasonTimeout" RetryOnTimeout ReasonTimeout event p' db'] q
        by (auto simp: transition_reason split: if_splits)
    qed
  next
    case True
    note st = run [OF True]
    show ?thesis
    proof (cases "success \<or> Fatal policy (rs_ExitCode result)")
      case True
      then show ?thesis using c st \<open>intent = ReasonNone\<close> assms(6) q by (auto simp: transition_reason split: if_splits)
    next
      case False
      then show ?thesis
        using c st \<open>intent = ReasonNone\<close> assms(6) q
          settle [of "transition q StateCrashed ReasonNone" "exitTrigger (p_Type p) result" ReasonMaxAttempts event p' db']
        by (auto split: if_splits)
    qed
  qed
qed

definition quiet :: Inputs where
  "quiet = \<lparr>in_LogsOk = True, in_Spawn = Some (1, 1), in_StartedAt = 0, in_FinishedAt = 0, in_Now = 0,
     in_Random = Num 0\<rparr>"

theorem classify_outcome_witness:
  "\<exists>ev p db. classify quiet (zero_Process\<lparr>p_State := StateRunning, p_Type := TypeTask\<rparr>) None ReasonNone
     \<lparr>rs_ExitCode = 1, rs_Signal = ''''\<rparr> empty_db = (ev, p, db) \<and> p_State p = StateFailed"
proof -
  obtain ev p db where c: "classify quiet (zero_Process\<lparr>p_State := StateRunning, p_Type := TypeTask\<rparr>) None
      ReasonNone \<lparr>rs_ExitCode = 1, rs_Signal = ''''\<rparr> empty_db = (ev, p, db)" by (metis prod_cases3)
  have "p_State p = StateFailed"
    using classify_outcome [OF _ _ c refl refl refl]
    by (simp add: retryPolicy_def zero_values Allowed_def Retry_IsEnabled_def Fatal_def Succeeded_def)
  then show ?thesis using c by blast
qed

section \<open>Acting on behalf of one execution\<close>

lemma act_releaseLock:
  "p_ID p = pid \<Longrightarrow> act pid w (w\<lparr>s_db := releaseLock p (s_db w)\<rparr>)"
  using act_ReleaseLock [of pid w "p_Lock p"] by (simp add: releaseLock_def)

lemma act_moved:
  assumes "moved p (s_db w) p' db'" and "p_ID p = pid"
  shows "act pid w (w\<lparr>s_db := db'\<rparr>)"
  using assms act_ReleaseLock [of pid w "p_Lock p"] by (auto simp: moved_def)

lemma moved_lookup: "moved p db p' db' \<Longrightarrow> lookup db' = lookup db"
  by (auto simp: moved_def)

section \<open>Stop requests\<close>

lemma setIntent_frame: "setIntent r e = (b, e') \<Longrightarrow> e_process e' = e_process e"
  by (auto simp: setIntent_def split: if_splits)

lemma stop_running_acts:
  assumes "\<And>e. s_running w pid = Some e \<Longrightarrow> attempt_ok w pid e"
  shows "act pid w (stop_running reason grace pid w) \<and>
    (\<forall>e. s_running (stop_running reason grace pid w) pid = Some e \<longrightarrow>
       attempt_ok (stop_running reason grace pid w) pid e)"
proof (cases "\<exists>e e'. s_running w pid = Some e \<and> setIntent reason e = (True, e')")
  case False
  then have "stop_running reason grace pid w = w"
    by (auto simp: stop_running_def split: option.splits prod.splits bool.splits)
  then show ?thesis using assms by simp
next
  case True
  then obtain e e' where r: "s_running w pid = Some e" and si: "setIntent reason e = (True, e')" by blast
  define p where "p = (if p_State (e_process e) = StateRunning
    then transition (e_process e) StateStopping reason else e_process e)"
  have ok: "attempt_ok w pid e" using assms r by simp
  have pid: "p_ID p = pid" and lock: "p_Lock p = p_Lock (e_process e)"
    using ok by (auto simp: p_def attempt_ok_def)
  have pst: "p_State p = StateStopping" using ok by (auto simp: p_def attempt_ok_def)
  have pth: "path (p_State (e_process e)) (p_State p)" by (auto simp: p_def intro: transition_path)
  obtain res db1 where u: "UpdateProcess p (s_db w) = (res, db1)" by fastforce
  let ?w1 = "w\<lparr>s_db := db1\<rparr>"
  let ?w2 = "?w1\<lparr>s_stopped := s_stopped ?w1 @ [(p_PID p, grace)]\<rparr>"
  let ?e2 = "e'\<lparr>e_process := p\<rparr>"
  let ?w3 = "?w2\<lparr>s_running := (s_running ?w2)(pid \<mapsto> ?e2)\<rparr>"
  have bs: "beginStop reason grace e' w = (?e2, ?w2)"
    using u unfolding beginStop_def Let_def setIntent_frame [OF si] p_def [symmetric]
    by (simp add: on_db_def)
  have eq: "stop_running reason grace pid w = ?w3"
    using r si bs by (simp add: stop_running_def)
  have row: "path (p_State q) (p_State p)" if "lookup (s_db w) pid = Some q" for q
    using ok pth that rtranclp_trans by (fastforce simp: attempt_ok_def)
  have "act pid w (w\<lparr>s_db := snd (UpdateProcess p (s_db w))\<rparr>)"
    by (rule act_UpdateProcess [OF pid]) (rule row)
  then have 1: "act pid w ?w1" using u by simp
  have "act pid ?w2 ?w3" by (rule act_running)
  then have a: "act pid w ?w3" using act_trans [OF act_trans [OF 1, of ?w2]] by simp
  have "attempt_ok ?w3 pid ?e2"
  proof -
    have "\<exists>q. lookup db1 pid = Some q \<and> p_State q \<in> {StateRunning, StateStopping} \<and> path (p_State q) (p_State p)"
      using ok u row pid pst lookup_UpdateProcess [of p "s_db w" db1 pid] UpdateProcess_err [of p "s_db w" _ db1]
      by (cases res) (auto simp: attempt_ok_def)
    moreover have "d_locks db1 = d_locks (s_db w)" using UpdateProcess_locks [of p "s_db w"] u by simp
    ultimately show ?thesis using ok pid lock pst by (simp add: attempt_ok_def)
  qed
  then show ?thesis using a by (simp add: eq)
qed

lemma stop_running_inv:
  assumes "runtime_inv w"
  shows "runtime_inv (stop_running reason grace pid w) \<and>
    moves w (stop_running reason grace pid w)"
proof -
  have *: "act pid w (stop_running reason grace pid w) \<and>
    (\<forall>e. s_running (stop_running reason grace pid w) pid = Some e \<longrightarrow>
       attempt_ok (stop_running reason grace pid w) pid e)"
    by (rule stop_running_acts) (use assms in \<open>simp add: runtime_inv_def\<close>)
  then show ?thesis using act_runtime_inv [OF _ assms] act_moves by blast
qed

lemma timeout_inv:
  assumes "runtime_inv w"
  shows "runtime_inv (timeout_fires pid w) \<and> moves w (timeout_fires pid w)"
  using assms stop_running_inv [OF assms] by (auto simp: timeout_fires_def split: option.splits)

lemma Shutdown_inv:
  assumes "runtime_inv w"
  shows "runtime_inv (Shutdown ids grace w) \<and> moves w (Shutdown ids grace w)"
proof -
  have *: "runtime_inv w \<Longrightarrow> runtime_inv (fold (stop_running ReasonShutdown grace) ids w) \<and>
      moves w (fold (stop_running ReasonShutdown grace) ids w)" for w
  proof (induction ids arbitrary: w)
    case (Cons x ids)
    let ?w = "stop_running ReasonShutdown grace x w"
    have 1: "runtime_inv ?w" "moves w ?w" using stop_running_inv [OF Cons.prems] by auto
    then show ?case using Cons.IH [OF 1(1)] moves_trans [OF 1(2)] by simp
  qed simp
  have 1: "runtime_inv (w\<lparr>s_sup_draining := True\<rparr>)"
    using assms by (simp add: runtime_inv_def attempt_ok_def)
  show ?thesis using * [OF 1] by (simp add: Shutdown_def moves_def)
qed

text \<open>
  The contract of the callback: it may act for the execution it is given and writes neither the
  database nor the table of attempts.
\<close>

locale settle_callback =
  fixes on_settle :: "Process \<Rightarrow> World \<Rightarrow> World"
  assumes settle_acts: "act (p_ID p) w (on_settle p w)"
    and settle_db: "s_db (on_settle p w) = s_db w"
    and settle_running: "s_running (on_settle p w) = s_running w"
begin

lemma settle_acts': "p_ID p = pid \<Longrightarrow> act pid w (on_settle p w)"
  using settle_acts [of p w] by simp

lemma startFailed_acts:
  assumes "p_ID p = pid" and "\<And>q. lookup (s_db w) pid = Some q \<Longrightarrow> path (p_State q) (p_State p)"
  shows "act pid w (snd (startFailed on_settle i p worker w)) \<and>
    s_running (snd (startFailed on_settle i p worker w)) = s_running w"
proof (cases "TransitionTo (p\<lparr>p_FinishedAt := Some (in_FinishedAt i)\<rparr>) StateCrashed ReasonStartError")
  case (Inl e)
  then show ?thesis by (simp add: startFailed_def)
next
  case (Inr p1)
  note f = TransitionTo_facts [OF Inr]
  obtain ev p2 db2 where s: "settle i p1 worker RetryOnStartError ReasonStartError (s_db w) = (ev, p2, db2)"
    by (metis prod_cases3)
  note m = moved_settle [OF s]
  let ?w1 = "w\<lparr>s_db := db2\<rparr>"
  have id2: "p_ID p2 = pid" using m f assms(1) by (simp add: moved_def)
  have 1: "act pid w ?w1" using act_moved [OF m] f assms(1) by simp
  have pth: "path (p_State q) (p_State p2)" if "lookup (s_db ?w1) pid = Some q" for q
  proof -
    have "path (p_State q) (p_State p)" using assms(2) that moved_lookup [OF m] by simp
    then have "path (p_State q) (p_State p1)" using TransitionTo_path [OF Inr, of "p_State q"] by simp
    then show ?thesis using m unfolding moved_def by (metis rtranclp_trans)
  qed
  let ?w2 = "?w1\<lparr>s_db := snd (UpdateProcess p2 (s_db ?w1))\<rparr>"
  have 2: "act pid ?w1 ?w2" by (rule act_UpdateProcess [OF id2 pth])
  let ?w3 = "?w2\<lparr>s_notified := s_notified ?w2 @ [(ev, p2)]\<rparr>"
  have 3: "act pid ?w2 ?w3" by simp
  have 4: "act pid ?w3 (on_settle p2 ?w3)" by (rule settle_acts' [OF id2])
  have act2: "act pid w ?w2" using 1 2 by (rule act_trans)
  have act4: "act pid w (on_settle p2 ?w3)" using act_trans [OF act_trans [OF act2 3] 4] .
  have e: "startFailed on_settle i p worker w =
      (case UpdateProcess p2 db2 of (Some e, db) \<Rightarrow> (Some e, w\<lparr>s_db := db\<rparr>)
       | (None, db) \<Rightarrow> (None, on_settle p2 (w\<lparr>s_db := db, s_notified := s_notified w @ [(ev, p2)]\<rparr>)))"
    by (simp add: startFailed_def Inr s on_db_def split: prod.splits option.splits)
  show ?thesis
    using act2 act4 by (auto simp: e settle_running split: prod.splits option.splits)
qed

lemma abandonStart_acts:
  assumes "p_ID p = pid" and "\<And>q. lookup (s_db w) pid = Some q \<Longrightarrow> path (p_State q) (p_State p)"
  shows "act pid w (snd (abandonStart on_settle i p worker w)) \<and>
    s_running (snd (abandonStart on_settle i p worker w)) = s_running w"
proof -
  let ?w = "w\<lparr>s_stopped := s_stopped w @ [(p_PID p, killGrace worker)]\<rparr>"
  let ?p = "p\<lparr>p_PID := 0, p_PIDStartTime := 0, p_StartedAt := None\<rparr>"
  have 0: "act pid w ?w" by simp
  have "act pid ?w (snd (startFailed on_settle i ?p worker ?w)) \<and>
      s_running (snd (startFailed on_settle i ?p worker ?w)) = s_running ?w"
    using assms by (intro startFailed_acts) auto
  then show ?thesis using act_trans [OF 0] by (simp add: abandonStart_def)
qed

text \<open>
  Starting an attempt of an execution that is recorded, holds its slot and its lock: it acts for
  that execution only, and what enters the table is a consistent attempt.
\<close>

lemma Start_cases:
  assumes "p_ID p = pid"
    and "\<And>q. lookup (s_db w) pid = Some q \<Longrightarrow> path (p_State q) (p_State p)"
  obtains (not_started) "act pid w (snd (Start on_settle i p w))"
      "s_running (snd (Start on_settle i p w)) = s_running w"
    | (started) p1 e db1 where "p_ID p1 = pid" "p_State p1 = StateRunning" "p_Lock p1 = p_Lock p"
      "UpdateProcess p1 (s_db w) = (None, db1)" "e_process e = p1"
      "\<And>q. lookup (s_db w) pid = Some q \<Longrightarrow> path (p_State q) StateRunning"
      "Start on_settle i p w = (None, w\<lparr>s_db := db1, s_running := (s_running w)(pid \<mapsto> e)\<rparr>)"
proof -
  let ?worker = "worker_of (s_registry w) (p_Worker p)"
  have failed: "act pid w (snd (startFailed on_settle i p ?worker w)) \<and>
      s_running (snd (startFailed on_settle i p ?worker w)) = s_running w"
    by (rule startFailed_acts) (use assms in auto)
  show thesis
  proof (cases "s_sup_draining w \<or> \<not> in_LogsOk i \<or> in_Spawn i = None")
    case True
    then show thesis
      using failed by (intro not_started) (auto simp: Start_def Let_def split: option.splits)
  next
    case False
    then obtain ospid st where sp: "in_Spawn i = Some (ospid, st)" by auto
    let ?p = "p\<lparr>p_PID := ospid, p_PIDStartTime := st, p_StartedAt := Some (in_StartedAt i)\<rparr>"
    show thesis
    proof (cases "TransitionTo ?p StateRunning ReasonNone")
      case (Inl e)
      have "act pid w (snd (abandonStart on_settle i ?p ?worker w)) \<and>
          s_running (snd (abandonStart on_settle i ?p ?worker w)) = s_running w"
        by (rule abandonStart_acts) (use assms in auto)
      then show thesis
        using False sp Inl by (intro not_started) (simp_all add: Start_def Let_def)
    next
      case (Inr p1)
      note f = TransitionTo_facts [OF Inr]
      have id1: "p_ID p1 = pid" using f assms(1) by simp
      have pth: "path (p_State q) (p_State p1)" if "lookup (s_db w) pid = Some q" for q
        using assms(2) [OF that] TransitionTo_path [OF Inr, of "p_State q"] by simp
      obtain r db1 where u: "UpdateProcess p1 (s_db w) = (r, db1)" by fastforce
      let ?w1 = "w\<lparr>s_db := db1\<rparr>"
      have "act pid w (w\<lparr>s_db := snd (UpdateProcess p1 (s_db w))\<rparr>)"
        by (rule act_UpdateProcess) (use id1 pth in auto)
      then have 1: "act pid w ?w1" using u by simp
      show thesis
      proof (cases r)
        case None
        then show thesis
          using False sp Inr f id1 u pth
          by (intro started [of p1 db1 "\<lparr>e_process = p1, e_worker = ?worker, e_grace = killGrace ?worker,
              e_intent = ReasonNone\<rparr>"]) (auto simp: Start_def Let_def on_db_def)
      next
        case (Some e)
        have "db1 = ticked (s_db w)" using UpdateProcess_err u Some by blast
        then have ab: "act pid ?w1 (snd (abandonStart on_settle i p1 ?worker ?w1)) \<and>
            s_running (snd (abandonStart on_settle i p1 ?worker ?w1)) = s_running ?w1"
          using pth by (intro abandonStart_acts [OF id1]) simp
        have "Start on_settle i p w = abandonStart on_settle i p1 ?worker ?w1"
          using False sp Inr u Some by (simp add: Start_def Let_def on_db_def)
        then show thesis using ab act_trans [OF 1] by (intro not_started) simp_all
      qed
    qed
  qed
qed


text \<open>The end of an attempt.\<close>

lemma supervise_acts:
  assumes "s_running w pid = Some exec" and "attempt_ok w pid exec"
  shows "act pid w (supervise on_settle i pid result truncated w) \<and>
    s_running (supervise on_settle i pid result truncated w) pid = None"
proof -
  let ?w0 = "w\<lparr>s_running := (s_running w)(pid := None)\<rparr>"
  let ?p = "(e_process exec)\<lparr>p_FinishedAt := Some (in_FinishedAt i), p_ExitCode := Some (rs_ExitCode result),
                p_Signal := rs_Signal result, p_LogTruncated := truncated\<rparr>"
  obtain ev p1 db1 where c: "classify i ?p (e_worker exec) (e_intent exec) result (s_db w) = (ev, p1, db1)"
    by (metis prod_cases3)
  note m = moved_classify [OF c]
  have id0: "p_ID ?p = pid" using assms(2) by (simp add: attempt_ok_def)
  have id1: "p_ID p1 = pid" using m id0 by (simp add: moved_def)
  have 0: "act pid w ?w0" by (rule act_running)
  let ?w1 = "?w0\<lparr>s_db := db1\<rparr>"
  have 1: "act pid ?w0 ?w1" by (rule act_moved [OF _ id0]) (use m in simp)
  let ?w2 = "?w1\<lparr>s_db := snd (UpdateProcess p1 (s_db ?w1))\<rparr>"
  have 2: "act pid ?w1 ?w2"
  proof (rule act_UpdateProcess [OF id1])
    fix q assume "lookup (s_db ?w1) pid = Some q"
    then have "path (p_State q) (p_State ?p)"
      using assms(2) moved_lookup [OF m] by (auto simp: attempt_ok_def)
    then show "path (p_State q) (p_State p1)" using m unfolding moved_def by (metis rtranclp_trans)
  qed
  let ?w3 = "if ev \<noteq> NotifyNone then ?w2\<lparr>s_notified := s_notified ?w2 @ [(ev, p1)]\<rparr> else ?w2"
  have 3: "act pid ?w2 ?w3" by simp
  have 4: "act pid ?w3 (on_settle p1 ?w3)" by (rule settle_acts' [OF id1])
  have eq: "supervise on_settle i pid result truncated w = on_settle p1 ?w3"
    using assms(1) c by (simp add: supervise_def finish_def Let_def)
  have "act pid w (on_settle p1 ?w3)"
    using act_trans [OF act_trans [OF act_trans [OF act_trans [OF 0 1] 2] 3] 4] .
  moreover have "s_running (on_settle p1 ?w3) pid = None" by (simp add: settle_running)
  ultimately show ?thesis unfolding eq by simp
qed

lemma supervise_inv:
  assumes "runtime_inv w"
  shows "runtime_inv (supervise on_settle i pid result truncated w)"
proof (cases "s_running w pid")
  case None
  then show ?thesis using assms by (simp add: supervise_def)
next
  case (Some exec)
  have "attempt_ok w pid exec" using assms Some by (simp add: runtime_inv_def)
  from supervise_acts [OF Some this, of i result truncated]
  have a: "act pid w (supervise on_settle i pid result truncated w)"
    and n: "s_running (supervise on_settle i pid result truncated w) pid = None" by auto
  show ?thesis by (rule act_runtime_inv [OF a assms]) (simp add: n)
qed

text \<open>Cancelling work that has not started.\<close>

lemma cancelPending_acts:
  "act pid w (snd (cancelPending on_settle pid w)) \<and>
   s_running (snd (cancelPending on_settle pid w)) = s_running w"
proof (cases "GetProcess pid (s_db w)")
  case (Pair r db0)
  then have db0: "db0 = ticked (s_db w)" using reads_processes(1) [of pid "s_db w"] by simp
  let ?w0 = "w\<lparr>s_db := db0\<rparr>"
  have 0: "act pid w ?w0" unfolding db0 by (rule act_ticked)
  show ?thesis
  proof (cases r)
    case (Inl e)
    then show ?thesis using Pair 0 by (simp add: cancelPending_def on_db_def)
  next
    case (Inr p)
    have row: "lookup (s_db w) pid = Some p"
      using Pair Inr by (auto simp: GetProcess_def split: if_splits option.splits)
    then have pid: "p_ID p = pid" using lookup_SomeD by blast
    show ?thesis
    proof (cases "TransitionTo p StateCanceled ReasonUserRequest")
      case (Inl e)
      then show ?thesis using Pair \<open>r = Inr p\<close> 0 by (simp add: cancelPending_def on_db_def)
    next
      case t: (Inr p1)
      note f = TransitionTo_facts [OF t]
      have id1: "p_ID p1 = pid" using f pid by simp
      let ?w1 = "?w0\<lparr>s_db := releaseLock p1 (s_db ?w0)\<rparr>"
      have 1: "act pid ?w0 ?w1" by (rule act_releaseLock [OF id1])
      let ?w2 = "?w1\<lparr>s_db := snd (UpdateProcess p1 (s_db ?w1))\<rparr>"
      have 2: "act pid ?w1 ?w2"
      proof (rule act_UpdateProcess [OF id1])
        fix q assume "lookup (s_db ?w1) pid = Some q"
        then have "q = p" using row by (simp add: releaseLock_def db0 split: if_splits)
        then show "path (p_State q) (p_State p1)" using f path_step by simp
      qed
      have 3: "act pid ?w2 (on_settle p1 ?w2)" by (rule settle_acts' [OF id1])
      have 02: "act pid w ?w2" using act_trans [OF act_trans [OF 0 1] 2] .
      have 03: "act pid w (on_settle p1 ?w2)" using act_trans [OF 02 3] .
      have "cancelPending on_settle pid w = (Some ErrNotRunning, ?w0) \<or>
          (\<exists>e. cancelPending on_settle pid w = (Some e, ?w2)) \<or>
          cancelPending on_settle pid w = (None, on_settle p1 ?w2)"
        using Pair \<open>r = Inr p\<close> t
        by (cases "UpdateProcess p1 (releaseLock p1 db0)"; cases "fst (UpdateProcess p1 (releaseLock p1 db0))")
          (auto simp: cancelPending_def on_db_def)
      then show ?thesis using 0 02 03 by (elim disjE exE) (simp_all add: settle_running)
    qed
  qed
qed

text \<open>A stop request.\<close>

lemma Stop_inv:
  assumes "runtime_inv w"
  shows "runtime_inv (snd (Stop on_settle pid grace w)) \<and>
    moves w (snd (Stop on_settle pid grace w))"
proof (cases "s_running w pid")
  case None
  have a: "act pid w (snd (cancelPending on_settle pid w))" and
    r: "s_running (snd (cancelPending on_settle pid w)) = s_running w"
    using cancelPending_acts [of pid w] by auto
  have "runtime_inv (snd (cancelPending on_settle pid w))"
    by (rule act_runtime_inv [OF a assms]) (simp add: r None)
  then show ?thesis using act_moves [OF a] None by (simp add: Stop_def)
next
  case (Some exec)
  then show ?thesis using stop_running_inv [OF assms] by (simp add: Stop_def)
qed

end

section \<open>Reconciliation\<close>

lemma handleOrphan_acts:
  assumes "p_ID p = pid" and "handleOrphan pr i p w = (e, p', w')"
  shows "act pid w w' \<and> s_running w' = s_running w \<and> lookup (s_db w') = lookup (s_db w) \<and>
    p_ID p' = p_ID p \<and> p_Lock p' = p_Lock p \<and> p_Type p' = p_Type p \<and> path (p_State p) (p_State p') \<and>
    s_registry w' = s_registry w"
proof -
  have rel: "act pid w (w\<lparr>s_db := releaseLock q (s_db w)\<rparr>) \<and>
      lookup (releaseLock q (s_db w)) = lookup (s_db w)" if "p_ID q = pid" for q
    using act_releaseLock [OF that] by (simp add: releaseLock_def)
  show ?thesis
    using assms rel
    by (auto simp: handleOrphan_def Let_def TransitionTo_Inr_iff split: if_splits sum.splits
        intro: path_two)
qed

lemma reconcileOne_acts:
  assumes "p_ID p = pid" and "\<And>q. lookup (s_db w) pid = Some q \<Longrightarrow> p_State q = p_State p"
  shows "act pid w (snd (reconcileOne pr i p w)) \<and> s_running (snd (reconcileOne pr i p w)) = s_running w"
proof -
  have upd: "act pid w (snd (on_db (UpdateProcess q) w))"
    if "p_ID q = pid" "path (p_State p) (p_State q)" for q
    using that assms act_UpdateProcess [of q pid w] by simp
  have rec: "act pid w (snd (recoverInterrupted pr i p w)) \<and> s_running (snd (recoverInterrupted pr i p w)) = s_running w"
  proof -
    obtain e p1 w1 where h: "(if SameProcess pr p then handleOrphan pr i p w else (None, p, w)) = (e, p1, w1)"
      by (metis prod_cases3)
    have f: "act pid w w1" "s_running w1 = s_running w" "lookup (s_db w1) = lookup (s_db w)"
      "p_ID p1 = pid" "path (p_State p) (p_State p1)"
      using h handleOrphan_acts [OF assms(1), of pr i w e p1 w1] assms(1) by (auto split: if_splits)
    have upd1: "act pid w1 (snd (on_db (UpdateProcess q) w1))"
      if "p_ID q = pid" "path (p_State p1) (p_State q)" for q
    proof -
      have "path (p_State x) (p_State q)" if x: "lookup (s_db w1) pid = Some x" for x
        using x f(3,5) assms(2) \<open>path (p_State p1) (p_State q)\<close> by (metis rtranclp_trans)
      then show ?thesis using that(1) act_UpdateProcess [of q pid w1] by simp
    qed
    let ?worker = "worker_of (s_registry w) (p_Worker p)"
    let ?p1 = "p1\<lparr>p_FinishedAt := Some (in_FinishedAt i)\<rparr>"
    let ?none = "\<lparr>rs_ExitCode = 0, rs_Signal = ''''\<rparr>"
    show ?thesis
    proof (cases "TransitionTo ?p1 StateCrashed ReasonDaemonRestart")
      case (Inl err)
      then show ?thesis
        using f upd1 [of p1] act_trans [OF f(1)]
        by (auto simp: recoverInterrupted_def h Let_def split: option.splits)
    next
      case (Inr p2)
      note g = TransitionTo_facts [OF Inr]
      obtain ev p3 db3 where s: "settle i p2 ?worker (exitTrigger (p_Type p2) ?none) ReasonDaemonRestart (s_db w1) = (ev, p3, db3)"
        by (metis prod_cases3)
      note m = moved_settle [OF s]
      have id3: "p_ID p3 = pid" using m g f by (simp add: moved_def)
      let ?w2 = "w1\<lparr>s_db := db3\<rparr>"
      have 2: "act pid w1 ?w2" using act_moved [OF m] g f by simp
      have 3: "act pid ?w2 (?w2\<lparr>s_db := snd (UpdateProcess p3 (s_db ?w2))\<rparr>)"
      proof (rule act_UpdateProcess [OF id3])
        fix x assume "lookup (s_db ?w2) pid = Some x"
        then have "p_State x = p_State p" using moved_lookup [OF m] f(3) assms(2) by simp
        moreover have "path (p_State p) (p_State p2)" using TransitionTo_path [OF Inr] f(5) by simp
        ultimately show "path (p_State x) (p_State p3)" using m unfolding moved_def by (metis rtranclp_trans)
      qed
      have "act pid w (?w2\<lparr>s_db := snd (UpdateProcess p3 (s_db ?w2))\<rparr>)"
        using act_trans [OF act_trans [OF f(1) 2] 3] .
      then show ?thesis
        using f upd1 [of p1] act_trans [OF f(1)] Inr s g
        by (auto simp: recoverInterrupted_def h Let_def split: option.splits)
    qed
  qed
  show ?thesis
    using rec upd [of "p\<lparr>p_State := StateQueued, p_QueuedAt := Some (in_Now i)\<rparr>"] assms(1)
      path_step [of StateCreated StateQueued]
    by (auto simp: reconcileOne_def TransitionTo_Inr_iff split: sum.splits)
qed

end
