(* ===== verification/Scheduler.thy ===== *)
theory Scheduler
  imports World
begin

text \<open>
  \<^verbatim>\<open>internal/queue/scheduler.go\<close>: admission, the queue and the dispatch pass. The starter of the code
  (\<^verbatim>\<open>Starter\<close>, which the supervisor implements) is the parameter \<open>start\<close> of the handlers.
\<close>

type_synonym starter = "Process \<Rightarrow> World \<Rightarrow> (error, World) outcome"

text \<open>Resolving a worker; the empty name and a name that is not loaded give none.\<close>

definition sched_worker :: "World \<Rightarrow> string \<Rightarrow> Worker option" where
  "sched_worker w name =
     (if name = '''' then None
      else case Registry_Get (s_registry w) name of Inl _ \<Rightarrow> None | Inr x \<Rightarrow> Some x)"

definition lockConflict :: "Worker option \<Rightarrow> LockConflict" where
  "lockConflict worker =
     (case worker of
        None \<Rightarrow> LockConflictQueue
      | Some x \<Rightarrow> if w_LockConflict x = LockConflictOther '''' then LockConflictQueue else w_LockConflict x)"

text \<open>\<^verbatim>\<open>SetRegistry\<close>: the limits of the workers in the new registry; a removed worker keeps its limit.\<close>

definition SetRegistry :: "Registry \<Rightarrow> World \<Rightarrow> World" where
  "SetRegistry reg w =
     w\<lparr>s_registry := reg,
       s_slots := fold (\<lambda>(_, x) s. SetWorkerLimit s (w_Name x) (w_MaxProcesses x)) reg (s_slots w)\<rparr>"

definition new_world :: "Config \<Rightarrow> Registry \<Rightarrow> Db \<Rightarrow> World" where
  "new_world cfg reg db = SetRegistry reg
     \<lparr>s_db = db, s_slots = NewSlots (c_MaxProcesses cfg), s_running = Map.empty,
      s_sup_draining = False, s_draining = False, s_registry = [], s_cfg = cfg, s_woken = False,
      s_notified = [], s_stopped = []\<rparr>"

definition Notify_wake :: "World \<Rightarrow> World" where
  "Notify_wake w = w\<lparr>s_woken := True\<rparr>"

text \<open>A lock is released best-effort: a failure is logged.\<close>

definition sched_releaseLock :: "Process \<Rightarrow> World \<Rightarrow> World" where
  "sched_releaseLock p w = snd (on_db (ReleaseLock (p_Lock p) (p_ID p)) w)"

definition releaseAll :: "Process \<Rightarrow> World \<Rightarrow> World" where
  "releaseAll p w = sched_releaseLock p (w\<lparr>s_slots := Release (s_slots w) (p_ID p)\<rparr>)"

definition OnExecutionSettled :: "Process \<Rightarrow> World \<Rightarrow> World" where
  "OnExecutionSettled p w =
     (if p_Type p = TypeService \<and> p_State p = StateRetrying then Notify_wake w
      else Notify_wake (w\<lparr>s_slots := Release (s_slots w) (p_ID p)\<rparr>))"

text \<open>\<^verbatim>\<open>launch\<close>: the next attempt of an execution that holds its slot and its lock.\<close>

definition launch :: "starter \<Rightarrow> Process \<Rightarrow> World \<Rightarrow> (error, World) outcome" where
  "launch start p w =
     (let p = (ClearAttempt (p\<lparr>p_Attempt := p_Attempt p + 1\<rparr>))\<lparr>p_RetryAt := None\<rparr>
      in case TransitionTo p StateStarting ReasonNone of
           Inl e \<Rightarrow> (Some e, releaseAll p w)
         | Inr p \<Rightarrow>
             (case on_db (UpdateProcess p) w of
                (Some e, w) \<Rightarrow> (Some e, releaseAll p w)
              | (None, w) \<Rightarrow>
                  (case start p w of
                     (Some e, w) \<Rightarrow> (Some e, releaseAll p w)
                   | (None, w) \<Rightarrow> (None, w))))"

text \<open>Refusals keep the row: \<^verbatim>\<open>reject\<close> and \<^verbatim>\<open>rejectLocked\<close> differ in the reason they record.\<close>

definition refuse :: "Reason \<Rightarrow> error \<Rightarrow> Process \<Rightarrow> World \<Rightarrow> (error, World) outcome" where
  "refuse reason cause p w =
     (case TransitionTo p StateCanceled reason of
        Inl e \<Rightarrow> (Some e, w)
      | Inr p \<Rightarrow> on_ok (on_db (UpdateProcess p) w) (\<lambda>w. (Some cause, w)))"

definition reject :: "error \<Rightarrow> Process \<Rightarrow> World \<Rightarrow> (error, World) outcome" where
  "reject cause p w = refuse ReasonNoCapacity cause p w"

definition rejectLocked :: "error \<Rightarrow> Process \<Rightarrow> World \<Rightarrow> (error, World) outcome" where
  "rejectLocked cause p w = refuse ReasonLockConflict cause p w"

definition enqueue :: "gtime \<Rightarrow> Process \<Rightarrow> World \<Rightarrow> (error, World) outcome" where
  "enqueue now p w =
     (case TransitionTo p StateQueued ReasonNone of
        Inl e \<Rightarrow> (Some e, w)
      | Inr p \<Rightarrow> on_db (UpdateProcess (p\<lparr>p_QueuedAt := Some now\<rparr>)) w)"

definition park :: "gtime \<Rightarrow> Process \<Rightarrow> error \<Rightarrow> World \<Rightarrow> (error, World) outcome" where
  "park now p refusal w =
     (if p_Type p = TypeService then reject refusal p w else enqueue now p w)"

text \<open>The part of \<^verbatim>\<open>admit\<close> after the early claim of the lock.\<close>

definition admit_claimed :: "starter \<Rightarrow> gtime \<Rightarrow> bool \<Rightarrow> Process \<Rightarrow> World \<Rightarrow> (error, World) outcome" where
  "admit_claimed start now claimed p w =
     (let (got, slots) = TryAcquire (s_slots w) (p_ID p) (p_Worker p); w = w\<lparr>s_slots := slots\<rparr>
      in if \<not> got
         then park now p ErrNoCapacity (if claimed then sched_releaseLock p w else w)
         else case on_db (AcquireLock (p_Lock p) (p_ID p)) w of
                (Some e, w) \<Rightarrow>
                  let w = w\<lparr>s_slots := Release (s_slots w) (p_ID p)\<rparr>
                  in if e = ErrLockHeld then park now p ErrNoCapacity w else (Some e, w)
              | (None, w) \<Rightarrow> launch start p w)"

definition admit :: "starter \<Rightarrow> gtime \<Rightarrow> Process \<Rightarrow> World \<Rightarrow> (error, World) outcome" where
  "admit start now p w =
     (if p_Lock p \<noteq> '''' \<and> lockConflict (sched_worker w (p_Worker p)) = LockConflictReject
      then case on_db (AcquireLock (p_Lock p) (p_ID p)) w of
             (Some e, w) \<Rightarrow> if e = ErrLockHeld then rejectLocked e p w else (Some e, w)
           | (None, w) \<Rightarrow> admit_claimed start now True p w
      else admit_claimed start now False p w)"

definition queueDepth :: "World \<Rightarrow> (error + int) \<times> World" where
  "queueDepth w = on_db PendingCount w"

definition Submit :: "starter \<Rightarrow> gtime \<Rightarrow> Process \<Rightarrow> World \<Rightarrow> (error, World) outcome" where
  "Submit start now p w =
     (if s_draining w then (Some ErrShuttingDown, w)
      else
        let (refused, w) =
          (if p_Type p \<noteq> TypeService
           then case queueDepth w of
                  (Inl e, w) \<Rightarrow> (Some e, w)
                | (Inr depth, w) \<Rightarrow>
                    (if depth \<ge> q_MaxDepth (c_Queue (s_cfg w)) then Some ErrQueueFull else None, w)
           else (None, w))
        in case refused of
             Some e \<Rightarrow> (Some e, w)
           | None \<Rightarrow> on_ok (on_db (CreateProcess p) w) (\<lambda>w. admit start now p w))"

text \<open>\<^verbatim>\<open>expire\<close>: whether the execution was failed for having waited too long.\<close>

definition expire :: "gtime \<Rightarrow> Process \<Rightarrow> World \<Rightarrow> bool \<times> World" where
  "expire now p w =
     (let ttl = q_ItemTTL (c_Queue (s_cfg w));
          waiting = (case p_QueuedAt p of None \<Rightarrow> p_CreatedAt p | Some t \<Rightarrow> t)
      in if ttl \<le> 0 \<or> p_State p \<noteq> StateQueued then (False, w)
         else if p_Type p = TypeService then (False, w)
         else if now - waiting \<le> ttl then (False, w)
         else case TransitionTo p StateFailed ReasonQueueTimeout of
                Inl _ \<Rightarrow> (False, w)
              | Inr p \<Rightarrow> (True, snd (on_db (UpdateProcess p) (sched_releaseLock p w))))"

text \<open>One item of the dispatch pass, and the pass over the batch.\<close>

definition dispatch_item :: "starter \<Rightarrow> gtime \<Rightarrow> Process \<Rightarrow> World \<Rightarrow> World" where
  "dispatch_item start now p w =
     (case expire now p w of
        (True, w) \<Rightarrow> w
      | (False, w) \<Rightarrow>
          let (got, slots) = TryAcquire (s_slots w) (p_ID p) (p_Worker p); w = w\<lparr>s_slots := slots\<rparr>
          in if \<not> got then w
             else case on_db (AcquireLock (p_Lock p) (p_ID p)) w of
                    (Some _, w) \<Rightarrow> w\<lparr>s_slots := Release (s_slots w) (p_ID p)\<rparr>
                  | (None, w) \<Rightarrow> snd (launch start p w))"

definition dispatch :: "(string \<Rightarrow> starter) \<Rightarrow> gtime \<Rightarrow> World \<Rightarrow> World" where
  "dispatch start now w =
     (if s_draining w then w
      else case on_db (PendingProcesses now) w of
             (Inl _, w) \<Rightarrow> w
           | (Inr pending, w) \<Rightarrow> fold (\<lambda>p. dispatch_item (start (p_ID p)) now p) pending w)"

definition Drain :: "World \<Rightarrow> World" where
  "Drain w = w\<lparr>s_draining := True\<rparr>"

end
