(* ===== verification/SchedulerProps.thy ===== *)
theory SchedulerProps
  imports Scheduler Runtime
begin

text \<open>
  The scheduler: every handler acts for one execution, and starts an attempt only when it holds
  both its slot and its lock. What the scheduler needs of the supervisor is the locale \<open>starter\<close>.
\<close>

section \<open>The contract of the starter\<close>

definition good_attempt :: "string \<Rightarrow> World \<Rightarrow> bool" where
  "good_attempt pid w \<longleftrightarrow> (\<forall>e. s_running w pid = Some e \<longrightarrow> attempt_ok w pid e)"

definition ready :: "Process \<Rightarrow> World \<Rightarrow> bool" where
  "ready p w \<longleftrightarrow>
     s_running w (p_ID p) = None \<and>
     (\<exists>q. lookup (s_db w) (p_ID p) = Some q \<and> path (p_State q) (p_State p))"

definition reserved :: "Process \<Rightarrow> World \<Rightarrow> bool" where
  "reserved p w \<longleftrightarrow>
     Holds (s_slots w) (p_ID p) \<and> (p_Lock p \<noteq> '''' \<longrightarrow> d_locks (s_db w) (p_Lock p) = Some (p_ID p))"

locale starter =
  fixes start :: starter
  assumes start_acts: "ready p w \<Longrightarrow> act (p_ID p) w (snd (start p w))"
    and start_attempt: "ready p w \<Longrightarrow> reserved p w \<Longrightarrow> good_attempt (p_ID p) (snd (start p w))"
    and start_error: "ready p w \<Longrightarrow> start p w = (Some e, w') \<Longrightarrow> s_running w' (p_ID p) = None"

section \<open>Elementary handlers\<close>

lemma sched_releaseLock_eq:
  "sched_releaseLock p w = w\<lparr>s_db := snd (ReleaseLock (p_Lock p) (p_ID p) (s_db w))\<rparr>"
  by (simp add: sched_releaseLock_def)

lemma sched_releaseLock_acts: "p_ID p = pid \<Longrightarrow> act pid w (sched_releaseLock p w)"
  using act_ReleaseLock [of pid w "p_Lock p"] by (simp add: sched_releaseLock_eq)

lemma sched_releaseLock_frame [simp]:
  "s_running (sched_releaseLock p w) = s_running w" "lookup (s_db (sched_releaseLock p w)) = lookup (s_db w)"
  "s_slots (sched_releaseLock p w) = s_slots w"
  by (simp_all add: sched_releaseLock_eq)

lemma releaseAll_acts: "p_ID p = pid \<Longrightarrow> act pid w (releaseAll p w)"
  using act_trans [OF act_Release [of pid w] sched_releaseLock_acts [of p pid]]
  by (simp add: releaseAll_def)

lemma releaseAll_running [simp]: "s_running (releaseAll p w) = s_running w"
  by (simp add: releaseAll_def)

lemma OnExecutionSettled_acts: "act (p_ID p) w (OnExecutionSettled p w)"
  using act_trans [OF act_Release [of "p_ID p" w]]
  by (simp add: OnExecutionSettled_def Notify_wake_def)

lemma OnExecutionSettled_frame [simp]:
  "s_db (OnExecutionSettled p w) = s_db w" "s_running (OnExecutionSettled p w) = s_running w"
  by (simp_all add: OnExecutionSettled_def Notify_wake_def)

text \<open>A write of an execution that is ready leaves it ready for every later state.\<close>

lemma ready_path: "ready p w \<Longrightarrow> lookup (s_db w) (p_ID p) = Some q \<Longrightarrow> path (p_State q) (p_State p)"
  by (auto simp: ready_def)

lemma ready_step:
  "ready p w \<Longrightarrow> TransitionTo p t r = Inr p' \<Longrightarrow> ready p' w"
  unfolding ready_def TransitionTo_Inr_iff by (auto intro: rtranclp.rtrancl_into_rtrancl)

lemma ready_cong:
  "ready p w \<Longrightarrow> p_ID p' = p_ID p \<Longrightarrow> p_State p' = p_State p \<Longrightarrow>
   s_running w' (p_ID p) = s_running w (p_ID p) \<Longrightarrow> lookup (s_db w') (p_ID p) = lookup (s_db w) (p_ID p) \<Longrightarrow> ready p' w'"
  by (simp add: ready_def)

lemma ready_update:
  assumes "ready p w" and "UpdateProcess p (s_db w) = (r, db)"
  shows "ready p (w\<lparr>s_db := db\<rparr>)" and "act (p_ID p) w (w\<lparr>s_db := db\<rparr>)"
proof -
  show "ready p (w\<lparr>s_db := db\<rparr>)"
    using assms lookup_UpdateProcess [of p "s_db w" db "p_ID p"] UpdateProcess_err [of p "s_db w" _ db]
    by (cases r) (auto simp: ready_def)
  show "act (p_ID p) w (w\<lparr>s_db := db\<rparr>)"
    using act_UpdateProcess [of p "p_ID p" w] ready_path [OF assms(1)] assms(2) by simp
qed

lemma good_attempt_None: "s_running w pid = None \<Longrightarrow> good_attempt pid w"
  by (simp add: good_attempt_def)

lemma ready_good: "ready p w \<Longrightarrow> good_attempt (p_ID p) w"
  by (simp add: ready_def good_attempt_def)

section \<open>Refusing, queueing, expiring\<close>

text \<open>The result of a handler that only writes the row: it acts for it and starts nothing.\<close>

definition parked :: "Process \<Rightarrow> World \<Rightarrow> World \<Rightarrow> bool" where
  "parked p w w' \<longleftrightarrow> act (p_ID p) w w' \<and> s_running w' = s_running w"

lemma parked_good: "ready p w \<Longrightarrow> parked p w w' \<Longrightarrow> act (p_ID p) w w' \<and> good_attempt (p_ID p) w'"
  by (simp add: parked_def ready_def good_attempt_def)

lemma parked_trans:
  "act (p_ID p) w w1 \<Longrightarrow> s_running w1 = s_running w \<Longrightarrow> parked p w1 w2 \<Longrightarrow> parked p w w2"
  using act_trans by (auto simp: parked_def)

lemma refuse_parked: "ready p w \<Longrightarrow> parked p w (snd (refuse reason cause p w))"
proof (cases "TransitionTo p StateCanceled reason")
  case (Inr p1)
  assume "ready p w"
  note r = ready_step [OF this Inr]
  obtain res db where u: "UpdateProcess p1 (s_db w) = (res, db)" by fastforce
  have "p_ID p1 = p_ID p" using Inr by (auto simp: TransitionTo_Inr_iff)
  then show ?thesis
    using ready_update(2) [OF r u] Inr u
    by (cases res) (simp_all add: refuse_def parked_def on_db_def)
qed (simp add: refuse_def parked_def)

lemma enqueue_parked: "ready p w \<Longrightarrow> parked p w (snd (enqueue now p w))"
proof (cases "TransitionTo p StateQueued ReasonNone")
  case (Inr p1)
  assume "ready p w"
  then have r: "ready (p1\<lparr>p_QueuedAt := Some now\<rparr>) w"
    using ready_step [OF _ Inr] by (auto simp: ready_def)
  obtain res db where u: "UpdateProcess (p1\<lparr>p_QueuedAt := Some now\<rparr>) (s_db w) = (res, db)" by fastforce
  have "p_ID p1 = p_ID p" using Inr by (auto simp: TransitionTo_Inr_iff)
  then show ?thesis
    using ready_update(2) [OF r u] Inr u by (simp add: enqueue_def parked_def on_db_def)
qed (simp add: enqueue_def parked_def)

lemma park_parked: "ready p w \<Longrightarrow> parked p w (snd (park now p cause w))"
  using refuse_parked enqueue_parked by (simp add: park_def reject_def)

lemma expire_parked:
  assumes "ready p w" and "expire now p w = (b, w')"
  shows "parked p w w' \<and> (\<not> b \<longrightarrow> w' = w)"
proof (cases "b")
  case False
  then show ?thesis using assms(2) by (auto simp: expire_def Let_def parked_def split: if_splits sum.splits)
next
  case True
  then obtain p1 where t: "TransitionTo p StateFailed ReasonQueueTimeout = Inr p1"
    and w': "w' = snd (on_db (UpdateProcess p1) (sched_releaseLock p1 w))"
    using assms(2) by (auto simp: expire_def Let_def split: if_splits sum.splits)
  have id1: "p_ID p1 = p_ID p" using t by (auto simp: TransitionTo_Inr_iff)
  let ?w1 = "sched_releaseLock p1 w"
  have r: "ready p1 ?w1" using ready_step [OF assms(1) t] by (simp add: ready_def)
  obtain res db where u: "UpdateProcess p1 (s_db ?w1) = (res, db)" by fastforce
  have "act (p_ID p) w ?w1" by (rule sched_releaseLock_acts [OF id1])
  moreover have "act (p_ID p) ?w1 (?w1\<lparr>s_db := db\<rparr>)" using ready_update(2) [OF r u] id1 by simp
  ultimately have "act (p_ID p) w (?w1\<lparr>s_db := db\<rparr>)" by (rule act_trans)
  then show ?thesis using True w' u by (simp add: parked_def on_db_def)
qed

section \<open>Launching\<close>

context starter
begin

lemma launch_acts:
  assumes "ready p w" and "reserved p w"
  shows "act (p_ID p) w (snd (launch start p w)) \<and> good_attempt (p_ID p) (snd (launch start p w))"
proof -
  let ?p = "(ClearAttempt (p\<lparr>p_Attempt := p_Attempt p + 1\<rparr>))\<lparr>p_RetryAt := None\<rparr>"
  have r0: "ready ?p w" "reserved ?p w" using assms by (auto simp: ready_def reserved_def)
  have all: "act (p_ID p) w' (releaseAll q w')" if "p_ID q = p_ID p" for q w'
    by (rule releaseAll_acts [OF that])
  show ?thesis
  proof (cases "TransitionTo ?p StateStarting ReasonNone")
    case (Inl e)
    then have "launch start p w = (Some e, releaseAll ?p w)" by (simp add: launch_def)
    then show ?thesis using all [of ?p w] assms(1) by (simp add: good_attempt_def ready_def)
  next
    case (Inr p1)
    have id1: "p_ID p1 = p_ID p" and lock1: "p_Lock p1 = p_Lock p"
      using Inr by (auto simp: TransitionTo_Inr_iff)
    note r1 = ready_step [OF r0(1) Inr]
    obtain res db where u: "UpdateProcess p1 (s_db w) = (res, db)" by fastforce
    let ?w1 = "w\<lparr>s_db := db\<rparr>"
    have a1: "act (p_ID p) w ?w1" and r2: "ready p1 ?w1" using ready_update [OF r1 u] id1 by auto
    have res1: "reserved p1 ?w1"
      using assms(2) id1 lock1 UpdateProcess_locks [of p1 "s_db w"] u by (simp add: reserved_def)
    show ?thesis
    proof (cases res)
      case (Some e)
      then have "launch start p w = (Some e, releaseAll p1 ?w1)"
        using Inr u by (simp add: launch_def on_db_def)
      then show ?thesis
        using act_trans [OF a1 all [OF id1]] assms(1) by (simp add: good_attempt_def ready_def)
    next
      case None
      obtain err w2 where s: "start p1 ?w1 = (err, w2)" by fastforce
      have a2: "act (p_ID p) ?w1 w2" using start_acts [OF r2] s id1 by simp
      have g2: "good_attempt (p_ID p) w2" using start_attempt [OF r2 res1] s id1 by simp
      show ?thesis
      proof (cases err)
        case (Some e)
        then have "launch start p w = (Some e, releaseAll p1 w2)"
          using Inr u None s by (simp add: launch_def on_db_def)
        moreover have "s_running w2 (p_ID p) = None" using start_error [OF r2] s Some id1 by simp
        ultimately show ?thesis
          using act_trans [OF act_trans [OF a1 a2] all [OF id1]] by (simp add: good_attempt_def)
      next
        case none: None
        then have "launch start p w = (None, w2)"
          using Inr u None s by (simp add: launch_def on_db_def)
        then show ?thesis using act_trans [OF a1 a2] g2 by simp
      qed
    qed
  qed
qed

text \<open>The common tail of admission and dispatch: the slot, then the lock, then the launch.\<close>

lemma reserve_then_launch:
  assumes "ready p w" and "TryAcquire (s_slots w) (p_ID p) v = (True, sl)"
    and "AcquireLock (p_Lock p) (p_ID p) (s_db w) = (r, db)"
  defines "w1 \<equiv> w\<lparr>s_slots := sl, s_db := db\<rparr>"
  shows "act (p_ID p) w w1" and "ready p w1" and "r = None \<Longrightarrow> reserved p w1"
proof -
  have "act (p_ID p) w (w\<lparr>s_slots := sl\<rparr>)"
    using act_TryAcquire [of "p_ID p" w v] assms(2) by simp
  moreover have "act (p_ID p) (w\<lparr>s_slots := sl\<rparr>) w1"
    using act_AcquireLock [of "p_ID p" "w\<lparr>s_slots := sl\<rparr>" "p_Lock p"] assms(3) by (simp add: w1_def)
  ultimately show "act (p_ID p) w w1" by (rule act_trans)
  show "ready p w1"
    using assms(1) lock_ops_lookup(1) [of "p_Lock p" "p_ID p" "s_db w"] assms(3) by (simp add: ready_def w1_def)
  assume "r = None"
  moreover have "Holds sl (p_ID p)"
    using assms(2) TryAcquire_holders [of "s_slots w" "p_ID p" v] by (auto simp: Holds_def)
  ultimately show "reserved p w1"
    using locks.acquire_ok [of "p_Lock p" "p_ID p" "s_db w" db] assms(3) by (auto simp: reserved_def w1_def)
qed

lemma dispatch_item_acts:
  assumes "ready p w"
  shows "act (p_ID p) w (dispatch_item start now p w) \<and> good_attempt (p_ID p) (dispatch_item start now p w)"
proof -
  obtain b w0 where e: "expire now p w = (b, w0)" by fastforce
  note ex = expire_parked [OF assms e]
  obtain got sl where t: "TryAcquire (s_slots w) (p_ID p) (p_Worker p) = (got, sl)" by fastforce
  show ?thesis
  proof (cases "b \<or> \<not> got")
    case True
    have "act (p_ID p) w (w\<lparr>s_slots := sl\<rparr>)" using act_TryAcquire [of "p_ID p" w "p_Worker p"] t by simp
    then show ?thesis
      using True e t ex parked_good [OF assms] assms
      by (cases b) (simp_all add: dispatch_item_def ready_def good_attempt_def)
  next
    case False
    then have w0: "w0 = w" and "\<not> b" "got" using ex by auto
    obtain r db where l: "AcquireLock (p_Lock p) (p_ID p) (s_db w) = (r, db)" by fastforce
    let ?w1 = "w\<lparr>s_slots := sl, s_db := db\<rparr>"
    note rl = reserve_then_launch [OF assms t [unfolded \<open>got\<close> [THEN eqTrueI]] l]
    show ?thesis
    proof (cases r)
      case None
      then have "dispatch_item start now p w = snd (launch start p ?w1)"
        using e w0 \<open>\<not> b\<close> \<open>got\<close> t l by (simp add: dispatch_item_def on_db_def)
      then show ?thesis using launch_acts [OF rl(2) rl(3) [OF None]] act_trans [OF rl(1)] by simp
    next
      case (Some err)
      then have "dispatch_item start now p w = ?w1\<lparr>s_slots := Release (s_slots ?w1) (p_ID p)\<rparr>"
        using e w0 \<open>\<not> b\<close> \<open>got\<close> t l by (simp add: dispatch_item_def on_db_def)
      then show ?thesis
        using act_trans [OF rl(1) act_Release] assms by (simp add: ready_def good_attempt_def)
    qed
  qed
qed

lemma admit_claimed_acts:
  assumes "ready p w"
  shows "act (p_ID p) w (snd (admit_claimed start now c p w)) \<and>
    good_attempt (p_ID p) (snd (admit_claimed start now c p w))"
proof -
  obtain got sl where t: "TryAcquire (s_slots w) (p_ID p) (p_Worker p) = (got, sl)" by fastforce
  show ?thesis
  proof (cases got)
    case False
    let ?w0 = "w\<lparr>s_slots := sl\<rparr>"
    let ?w1 = "if c then sched_releaseLock p ?w0 else ?w0"
    have "act (p_ID p) w ?w0" using act_TryAcquire [of "p_ID p" w "p_Worker p"] t by simp
    moreover have "act (p_ID p) ?w0 ?w1" using sched_releaseLock_acts by simp
    ultimately have a: "act (p_ID p) w ?w1" by (rule act_trans)
    have r: "ready p ?w1" using assms by (simp add: ready_def)
    have "parked p w (snd (park now p ErrNoCapacity ?w1))"
      by (rule parked_trans [OF a _ park_parked [OF r]]) simp
    moreover have "admit_claimed start now c p w = park now p ErrNoCapacity ?w1"
      using t False by (simp add: admit_claimed_def)
    ultimately show ?thesis using parked_good [OF assms] by simp
  next
    case True
    obtain r db where l: "AcquireLock (p_Lock p) (p_ID p) (s_db w) = (r, db)" by fastforce
    let ?w1 = "w\<lparr>s_slots := sl, s_db := db\<rparr>"
    note rl = reserve_then_launch [OF assms t [unfolded True [THEN eqTrueI]] l]
    show ?thesis
    proof (cases r)
      case None
      then have "admit_claimed start now c p w = launch start p ?w1"
        using True t l by (simp add: admit_claimed_def on_db_def)
      then show ?thesis using launch_acts [OF rl(2) rl(3) [OF None]] act_trans [OF rl(1)] by simp
    next
      case (Some err)
      let ?w2 = "?w1\<lparr>s_slots := Release (s_slots ?w1) (p_ID p)\<rparr>"
      have a: "act (p_ID p) w ?w2" by (rule act_trans [OF rl(1) act_Release])
      have rd: "ready p ?w2" using rl(2) by (simp add: ready_def)
      have "admit_claimed start now c p w = (if err = ErrLockHeld then park now p ErrNoCapacity ?w2 else (Some err, ?w2))"
        using True t l Some by (simp add: admit_claimed_def on_db_def Let_def)
      moreover have "parked p w (snd (park now p ErrNoCapacity ?w2))"
        by (rule parked_trans [OF a _ park_parked [OF rd]]) simp
      ultimately show ?thesis
        using parked_good [OF assms] a assms by (simp add: good_attempt_def ready_def)
    qed
  qed
qed

lemma admit_acts:
  assumes "ready p w"
  shows "act (p_ID p) w (snd (admit start now p w)) \<and> good_attempt (p_ID p) (snd (admit start now p w))"
proof -
  obtain r db where l: "AcquireLock (p_Lock p) (p_ID p) (s_db w) = (r, db)" by fastforce
  let ?w1 = "w\<lparr>s_db := db\<rparr>"
  have a: "act (p_ID p) w ?w1" using act_AcquireLock [of "p_ID p" w "p_Lock p"] l by simp
  have rd: "ready p ?w1"
    using assms lock_ops_lookup(1) [of "p_Lock p" "p_ID p" "s_db w"] l by (simp add: ready_def)
  have "parked p w (snd (rejectLocked e p ?w1))" for e
    unfolding rejectLocked_def by (rule parked_trans [OF a _ refuse_parked [OF rd]]) simp
  note lost = parked_good [OF assms this]
  note won = admit_claimed_acts [OF rd, of now True]
  show ?thesis
    using lost won act_trans [OF a] admit_claimed_acts [OF assms] a assms l
    by (cases r) (auto simp: admit_def on_db_def good_attempt_def ready_def)
qed

lemma Submit_acts:
  assumes inv: "runtime_inv w"
  shows "runtime_inv (snd (Submit start now p w)) \<and> moves w (snd (Submit start now p w))"
proof -
  let ?tick = "w\<lparr>s_db := ticked (s_db w)\<rparr>"
  have t: "act (p_ID p) w ?tick" by (rule act_ticked)
  have fail: "runtime_inv w' \<and> moves w w'"
    if "act (p_ID p) w w'" "good_attempt (p_ID p) w'" for w'
    using act_runtime_inv [OF that(1) inv] act_moves [OF that(1)] that(2) by (simp add: good_attempt_def)
  have g0: "good_attempt (p_ID p) w" using inv by (simp add: good_attempt_def runtime_inv_def)
  have gt: "good_attempt (p_ID p) ?tick" using g0 by (simp add: good_attempt_def attempt_ok_def)
  have body: "runtime_inv (snd (on_ok (on_db (CreateProcess p) w1) (admit start now p))) \<and>
      moves w (snd (on_ok (on_db (CreateProcess p) w1) (admit start now p)))"
    if w1: "w1 = w \<or> w1 = ?tick" for w1
  proof -
    have a1: "act (p_ID p) w w1" and g1: "good_attempt (p_ID p) w1" using w1 t g0 gt by auto
    obtain r db where c: "CreateProcess p (s_db w1) = (r, db)" by fastforce
    let ?w2 = "w1\<lparr>s_db := db\<rparr>"
    have a2: "act (p_ID p) w ?w2"
      using act_trans [OF a1 act_CreateProcess [of p "p_ID p" w1]] c by simp
    show ?thesis
    proof (cases r)
      case None
      note ok = CreateProcess_ok [of p "s_db w1" db, OF c [unfolded None]]
      have "lookup (s_db w1) (p_ID p) = None" using ok by (simp add: lookup_None_iff)
      then have "s_running w1 (p_ID p) = None"
        using g1 by (cases "s_running w1 (p_ID p)") (auto simp: good_attempt_def attempt_ok_def)
      moreover have "lookup db (p_ID p) = Some p" using lookup_CreateProcess c None by auto
      ultimately have "ready p ?w2" by (simp add: ready_def)
      from admit_acts [OF this, of now] show ?thesis
        using fail act_trans [OF a2] c None by (simp add: on_db_def)
    next
      case (Some e)
      have "db = ticked (s_db w1)" using CreateProcess_err c Some by blast
      then have "good_attempt (p_ID p) ?w2" using g1 by (simp add: good_attempt_def attempt_ok_def)
      then show ?thesis using fail [OF a2] c Some by (simp add: on_db_def)
    qed
  qed
  have stop: "runtime_inv w \<and> moves w w" "runtime_inv ?tick \<and> moves w ?tick"
    using inv fail [OF t gt] by simp_all
  obtain r where q: "queueDepth w = (r, ?tick)" by (metis queueDepth_def on_db_simps(2) reads_processes(4) prod.collapse)
  consider "s_draining w" | "\<not> s_draining w" "p_Type p = TypeService" | "\<not> s_draining w" "p_Type p \<noteq> TypeService"
    by blast
  then show ?thesis
  proof cases
    case 1
    show ?thesis unfolding Submit_def if_P [OF 1] snd_conv by (rule stop(1))
  next
    case 2
    have "Submit start now p w = on_ok (on_db (CreateProcess p) w) (admit start now p)"
      using 2 by (simp add: Submit_def)
    then show ?thesis using body [of w] by argo
  next
    case 3
    then have eq: "Submit start now p w =
        (case r of Inl e \<Rightarrow> (Some e, ?tick)
         | Inr depth \<Rightarrow> if depth \<ge> q_MaxDepth (c_Queue (s_cfg w)) then (Some ErrQueueFull, ?tick)
             else on_ok (on_db (CreateProcess p) ?tick) (admit start now p))"
      by (simp add: Submit_def q split: sum.split)
    show ?thesis
    proof (cases "\<exists>depth. r = Inr depth \<and> \<not> depth \<ge> q_MaxDepth (c_Queue (s_cfg w))")
      case True
      then have "Submit start now p w = on_ok (on_db (CreateProcess p) ?tick) (admit start now p)"
        using eq by auto
      then show ?thesis using body [of ?tick] by argo
    next
      case False
      then have "snd (Submit start now p w) = ?tick" using eq by (cases r) auto
      then show ?thesis using stop(2) by argo
    qed
  qed
qed

end

end
