(* ===== verification/System.thy ===== *)
theory System
  imports SupervisorProps SchedulerProps
begin

text \<open>
  The daemon as a whole: the supervisor wired to the scheduler the way \<^verbatim>\<open>internal/daemon\<close> wires
  them, a step relation with one rule per event, and the properties that hold in every state it
  can reach, whatever the order of the events and whichever database statements fail.

  A handler is one step: a stop request runs \<^verbatim>\<open>beginStop\<close> before anything else happens, and a
  dispatch pass is not interleaved with other requests. What the code does when they are is the
  last section.
\<close>

section \<open>Wiring\<close>

interpretation settled: settle_callback OnExecutionSettled
  by unfold_locales (simp_all add: OnExecutionSettled_acts)

definition supervisor_start :: "Inputs \<Rightarrow> Process \<Rightarrow> World \<Rightarrow> (error, World) outcome" where
  "supervisor_start i p w = Start OnExecutionSettled i p w"

lemma supervisor_start_cases:
  assumes "ready p w"
  obtains (not_started) "act (p_ID p) w (snd (supervisor_start i p w))"
      "s_running (snd (supervisor_start i p w)) = s_running w"
    | (started) p1 e db1 where "p_ID p1 = p_ID p" "p_State p1 = StateRunning" "p_Lock p1 = p_Lock p"
      "UpdateProcess p1 (s_db w) = (None, db1)" "e_process e = p1"
      "\<And>q. lookup (s_db w) (p_ID p) = Some q \<Longrightarrow> path (p_State q) StateRunning"
      "supervisor_start i p w = (None, w\<lparr>s_db := db1, s_running := (s_running w)(p_ID p \<mapsto> e)\<rparr>)"
proof (rule settled.Start_cases [where p = p and pid = "p_ID p" and w = w and i = i])
  show "p_ID p = p_ID p" ..
  show "path (p_State q) (p_State p)" if "lookup (s_db w) (p_ID p) = Some q" for q
    using assms that by (auto simp: ready_def)
qed (use that in \<open>simp_all add: supervisor_start_def\<close>)

interpretation sup: starter "supervisor_start i" for i
proof
  fix p w e w'
  assume r: "ready p w"
  then have none: "s_running w (p_ID p) = None"
    and row: "\<exists>q. lookup (s_db w) (p_ID p) = Some q"
    by (auto simp: ready_def)
  show "act (p_ID p) w (snd (supervisor_start i p w))"
  proof (cases rule: supervisor_start_cases [OF r, of i])
    case (2 p1 e db1)
    have "act (p_ID p) w (w\<lparr>s_db := snd (UpdateProcess p1 (s_db w))\<rparr>)"
      by (rule act_UpdateProcess) (use 2 in auto)
    then have "act (p_ID p) w (w\<lparr>s_db := db1\<rparr>)" using 2 by simp
    from act_trans [OF this act_running [of "p_ID p" "w\<lparr>s_db := db1\<rparr>" "Some e"]]
    show ?thesis using 2 by simp
  qed simp
  show "good_attempt (p_ID p) (snd (supervisor_start i p w))" if res: "reserved p w"
  proof (cases rule: supervisor_start_cases [OF r, of i])
    case 1
    then show ?thesis using none by (simp add: good_attempt_def)
  next
    case (2 p1 e db1)
    have "d_locks db1 = d_locks (s_db w)" using UpdateProcess_locks [of p1 "s_db w"] 2 by simp
    moreover have "\<exists>q. lookup db1 (p_ID p) = Some q \<and> p_State q = StateRunning"
      using row 2 lookup_UpdateProcess [of p1 "s_db w" db1 "p_ID p"] by auto
    ultimately show ?thesis
      using 2 res by (auto simp: good_attempt_def attempt_ok_def reserved_def)
  qed
  assume "supervisor_start i p w = (Some e, w')"
  then show "s_running w' (p_ID p) = None"
    using none by (cases rule: supervisor_start_cases [OF r, of i]) auto
qed

section \<open>The dispatch pass and the reconciliation pass\<close>

text \<open>A pass over distinct rows, each handled by an action for its own execution.\<close>

lemma fold_acts:
  fixes ps :: "Process list"
  assumes "\<And>p w. p \<in> set ps \<Longrightarrow> runtime_inv w \<Longrightarrow> good p w \<Longrightarrow> act (p_ID p) w (f p w) \<and> good_attempt (p_ID p) (f p w)"
    and "\<And>(p :: Process) (q :: Process) w w'. act (p_ID p) w w' \<Longrightarrow> p_ID q \<noteq> p_ID p \<Longrightarrow> good q w \<Longrightarrow> good q w'"
    and "distinct (map p_ID ps)" and "runtime_inv w" and "\<forall>p \<in> set ps. good p w"
  shows "runtime_inv (fold f ps w) \<and> moves w (fold f ps w)"
  using assms
proof (induction ps arbitrary: w)
  case (Cons p ps)
  have a: "act (p_ID p) w (f p w)" and g: "good_attempt (p_ID p) (f p w)" using Cons.prems by auto
  have inv: "runtime_inv (f p w)"
    by (rule act_runtime_inv [OF a Cons.prems(4)]) (use g in \<open>simp add: good_attempt_def\<close>)
  have rest: "\<forall>q \<in> set ps. good q (f p w)"
  proof
    fix q assume q: "q \<in> set ps"
    then have "p_ID q \<noteq> p_ID p" using Cons.prems(3) by (metis distinct.simps(2) image_eqI list.simps(9) list.set_map)
    then show "good q (f p w)" using Cons.prems(2) [OF a] Cons.prems(5) q by simp
  qed
  have "runtime_inv (fold f ps (f p w)) \<and> moves (f p w) (fold f ps (f p w))"
    by (rule Cons.IH [OF _ Cons.prems(2) _ inv rest]) (use Cons.prems in auto)
  then show ?case using moves_trans [OF act_moves [OF a]] by simp
qed simp

lemma act_ready: "act (p_ID p) w w' \<Longrightarrow> p_ID q \<noteq> p_ID p \<Longrightarrow> ready q w \<Longrightarrow> ready q w'"
  by (simp add: ready_def act_other)

lemma per_worker_distinct: "distinct (map p_ID xs) \<Longrightarrow> distinct (map p_ID (per_worker n seen xs))"
proof (induction xs arbitrary: seen)
  case (Cons p ps)
  then show ?case using per_worker_subset [of n "seen @ [p]" ps] by auto
qed simp

lemma distinct_ids_sort: "distinct (map p_ID xs) \<Longrightarrow> distinct (map p_ID (sort_key f xs))"
  by (simp add: distinct_map)

lemma pending_rows_distinct:
  "distinct (map p_ID (d_processes db)) \<Longrightarrow> distinct (map p_ID (pending_rows now db))"
  unfolding pending_rows_def order_asc_def take_map [symmetric]
  by (intro distinct_take per_worker_distinct distinct_ids_sort) auto

lemma pending_rows_rows: "p \<in> set (pending_rows now db) \<Longrightarrow> p \<in> set (d_processes db) \<and> is_pending now p"
  using per_worker_subset [of maxPendingPerWorker "[]" "order_asc (filter (is_pending now) (d_processes db))"]
  by (auto simp: pending_rows_def dest!: in_set_takeD)

lemma lookup_row:
  "distinct (map p_ID (d_processes db)) \<Longrightarrow> p \<in> set (d_processes db) \<Longrightarrow> lookup db (p_ID p) = Some p"
  unfolding lookup_def by (subst find_Some_iff_distinct) auto

lemma tick_inv: "runtime_inv w \<Longrightarrow> runtime_inv (w\<lparr>s_db := ticked (s_db w)\<rparr>)"
  by (simp add: runtime_inv_def attempt_ok_def)

lemma dispatch_inv:
  assumes inv: "runtime_inv w"
  shows "runtime_inv (dispatch (\<lambda>pid. supervisor_start (i pid)) now w) \<and>
    moves w (dispatch (\<lambda>pid. supervisor_start (i pid)) now w)"
proof (cases "s_draining w \<or> exec_fails (s_db w)")
  case True
  then show ?thesis using inv tick_inv [OF inv] by (auto simp: dispatch_def PendingProcesses_def on_db_def)
next
  case False
  let ?w = "w\<lparr>s_db := ticked (s_db w)\<rparr>"
  let ?ps = "pending_rows now (s_db w)"
  let ?f = "\<lambda>p. dispatch_item (supervisor_start (i (p_ID p))) now p"
  have d: "distinct (map p_ID (d_processes (s_db w)))" using inv by (simp add: runtime_inv_def store_inv_def)
  have good: "\<forall>p \<in> set ?ps. ready p ?w"
  proof
    fix p assume "p \<in> set ?ps"
    then have p: "p \<in> set (d_processes (s_db w))" "is_pending now p" using pending_rows_rows by blast+
    note row = lookup_row [OF d p(1)]
    have "s_running w (p_ID p) = None"
    proof (cases "s_running w (p_ID p)")
      case (Some e)
      then have "attempt_ok w (p_ID p) e" using inv by (simp add: runtime_inv_def)
      then show ?thesis using row p(2) by (auto simp: attempt_ok_def is_pending_def)
    qed simp
    then show "ready p ?w" using row by (simp add: ready_def)
  qed
  have run: "runtime_inv (fold ?f ?ps ?w) \<and> moves ?w (fold ?f ?ps ?w)"
    by (rule fold_acts [where good = ready, OF _ act_ready pending_rows_distinct [OF d] tick_inv [OF inv] good])
      (rule sup.dispatch_item_acts)
  have eq: "dispatch (\<lambda>pid. supervisor_start (i pid)) now w = fold ?f ?ps ?w"
    using False by (simp add: dispatch_def PendingProcesses_def on_db_def)
  have tick: "moves w ?w" by simp
  show ?thesis
    unfolding eq using run moves_trans [OF tick, of "fold ?f ?ps ?w"] by blast
qed

lemma Reconcile_inv:
  assumes inv: "runtime_inv w" and idle: "s_running w = Map.empty"
  shows "runtime_inv (snd (Reconcile pr i w)) \<and> moves w (snd (Reconcile pr i w))"
proof (cases "exec_fails (s_db w)")
  case True
  then show ?thesis using tick_inv [OF inv] by (simp add: Reconcile_def UnfinishedProcesses_def on_db_def)
next
  case False
  let ?w = "w\<lparr>s_db := ticked (s_db w)\<rparr>"
  let ?ps = "sort_key p_CreatedAt (filter (\<lambda>p. \<not> IsTerminal (p_State p)) (d_processes (s_db w)))"
  let ?f = "\<lambda>p w. snd (reconcileOne pr (i (p_ID p)) p w)"
  let ?good = "\<lambda>p w. s_running w (p_ID p) = None \<and> (\<forall>q. lookup (s_db w) (p_ID p) = Some q \<longrightarrow> p_State q = p_State p)"
  have d: "distinct (map p_ID (d_processes (s_db w)))" using inv by (simp add: runtime_inv_def store_inv_def)
  have good: "\<forall>p \<in> set ?ps. ?good p ?w" using lookup_row [OF d] idle by auto
  have each: "act (p_ID p) w (?f p w) \<and> good_attempt (p_ID p) (?f p w)" if "?good p w" for p w
    using reconcileOne_acts [of p "p_ID p" w pr "i (p_ID p)"] that by (simp add: good_attempt_def)
  have "distinct (map p_ID ?ps)" using d by (intro distinct_ids_sort) auto
  then have run: "runtime_inv (fold ?f ?ps ?w) \<and> moves ?w (fold ?f ?ps ?w)"
    by (intro fold_acts [where good = ?good, OF _ _ _ tick_inv [OF inv] good]) (use each in \<open>auto simp: act_other\<close>)
  have eq: "snd (Reconcile pr i w) = fold ?f ?ps ?w"
    using False by (simp add: Reconcile_def UnfinishedProcesses_def on_db_def)
  have tick: "moves w ?w" by simp
  show ?thesis
    unfolding eq using run moves_trans [OF tick, of "fold ?f ?ps ?w"] by blast
qed

section \<open>The daemon as a step relation\<close>

text \<open>
  One rule per event. The inputs of a handler (clock, operating system, random source) are
  arbitrary; so is the schedule of database faults, which is part of the initial database.
\<close>

inductive step :: "World \<Rightarrow> World \<Rightarrow> bool" where
  submit: "step w (snd (Submit (supervisor_start i) now p w))"
| dispatch: "step w (dispatch (\<lambda>pid. supervisor_start (i pid)) now w)"
| attempt_ends: "step w (supervise OnExecutionSettled i pid result truncated w)"
| timeout: "step w (timeout_fires pid w)"
| stop: "step w (snd (Stop OnExecutionSettled pid grace w))"
| signal: "step w (snd (Signal deliver pid sig w))"
| shutdown: "step w (Shutdown ids grace w)"
| drain: "step w (Drain w)"
| reload: "step w (SetRegistry reg w)"

text \<open>Retention is a step of its own kind: it is the only one that removes rows.\<close>

definition purge :: "gtime \<Rightarrow> gtime \<Rightarrow> int \<Rightarrow> World \<Rightarrow> World" where
  "purge now before n w = snd (on_db (PurgeHistory now before n) w)"

inductive reachable :: "Config \<Rightarrow> World \<Rightarrow> bool" for cfg :: Config where
  boot: "store_inv db \<Longrightarrow> reachable cfg (snd (Reconcile pr i (new_world cfg reg db)))"
| step: "reachable cfg w \<Longrightarrow> step w w' \<Longrightarrow> reachable cfg w'"
| purge: "reachable cfg w \<Longrightarrow> reachable cfg (purge now before n w)"

inductive_cases step_cases: "step w w'"

lemma SetRegistry_frame [simp]:
  "s_db (SetRegistry reg w) = s_db w" "s_running (SetRegistry reg w) = s_running w"
  "s_cfg (SetRegistry reg w) = s_cfg w"
  by (simp_all add: SetRegistry_def)

lemma SetRegistry_slots:
  "slots_inv (s_slots w) \<Longrightarrow> slots_inv (s_slots (SetRegistry reg w)) \<and>
     globalMax (s_slots (SetRegistry reg w)) = globalMax (s_slots w) \<and>
     holders (s_slots (SetRegistry reg w)) = holders (s_slots w)"
proof -
  have "slots_inv s \<Longrightarrow> slots_inv (fold (\<lambda>(_, x) s. SetWorkerLimit s (w_Name x) (w_MaxProcesses x)) reg s) \<and>
     globalMax (fold (\<lambda>(_, x) s. SetWorkerLimit s (w_Name x) (w_MaxProcesses x)) reg s) = globalMax s \<and>
     holders (fold (\<lambda>(_, x) s. SetWorkerLimit s (w_Name x) (w_MaxProcesses x)) reg s) = holders s" for s
  proof (induction reg arbitrary: s)
    case (Cons x reg)
    obtain n y where x: "x = (n, y)" by fastforce
    have "slots_inv (SetWorkerLimit s (w_Name y) (w_MaxProcesses y))"
      using Cons.prems by (rule slots_inv_SetWorkerLimit)
    from Cons.IH [OF this] show ?case by (simp add: x) (simp add: SetWorkerLimit_def)
  qed simp
  then show "slots_inv (s_slots w) \<Longrightarrow> ?thesis" by (simp add: SetRegistry_def)
qed

lemma SetRegistry_inv: "runtime_inv w \<Longrightarrow> runtime_inv (SetRegistry reg w)"
  using SetRegistry_slots [of w reg] by (simp add: runtime_inv_def attempt_ok_def Holds_def)

lemma new_world_inv: "store_inv db \<Longrightarrow> runtime_inv (new_world cfg reg db)"
  unfolding new_world_def
  by (rule SetRegistry_inv) (simp add: runtime_inv_def slots_inv_NewSlots, simp add: NewSlots_def)

lemma new_world_idle: "s_running (new_world cfg reg db) = Map.empty"
  by (simp add: new_world_def)

lemma Signal_inv:
  "runtime_inv w \<Longrightarrow> runtime_inv (snd (Signal deliver pid sig w)) \<and>
     moves w (snd (Signal deliver pid sig w))"
  using tick_inv [of w]
  by (auto simp: Signal_def on_db_eq split: option.splits sum.splits)

lemma Drain_inv: "runtime_inv w \<Longrightarrow> runtime_inv (Drain w) \<and> moves w (Drain w)"
  by (simp add: Drain_def runtime_inv_def attempt_ok_def moves_def)

lemma step_preserves:
  assumes "step w w'" and inv: "runtime_inv w"
  shows "runtime_inv w' \<and> moves w w'"
  using assms(1)
proof cases
  case (submit i now p)
  then show ?thesis using sup.Submit_acts [OF inv] by simp
next
  case (dispatch i now)
  then show ?thesis using dispatch_inv [OF inv] by simp
next
  case (attempt_ends i pid result truncated)
  have "moves w (supervise OnExecutionSettled i pid result truncated w)"
  proof (cases "s_running w pid")
    case None
    then show ?thesis by (simp add: supervise_def)
  next
    case (Some e)
    then have "attempt_ok w pid e" using inv by (simp add: runtime_inv_def)
    then show ?thesis using settled.supervise_acts [OF Some] act_moves by blast
  qed
  then show ?thesis using attempt_ends settled.supervise_inv [OF inv] by simp
next
  case (timeout pid)
  then show ?thesis using timeout_inv [OF inv] by simp
next
  case (stop pid grace)
  then show ?thesis using settled.Stop_inv [OF inv] by simp
next
  case (signal deliver pid sig)
  then show ?thesis using Signal_inv [OF inv] by simp
next
  case (shutdown ids grace)
  then show ?thesis using Shutdown_inv [OF inv] by simp
next
  case drain
  then show ?thesis using Drain_inv [OF inv] by simp
next
  case (reload reg)
  then show ?thesis using SetRegistry_inv [OF inv] by (simp add: moves_def)
qed

section \<open>Retention\<close>

text \<open>A purge keeps the row and the lock of every execution that is running.\<close>

lemma purge_inv:
  assumes inv: "runtime_inv w"
  shows "runtime_inv (purge now before n w)"
proof -
  obtain m r db where p: "PurgeHistory now before n (s_db w) = ((m, r), db)" by (metis surj_pair)
  have w': "purge now before n w = w\<lparr>s_db := db\<rparr>" using p by (simp add: purge_def on_db_def)
  have sinv: "store_inv (s_db w)" using inv by (simp add: runtime_inv_def)
  have sinv': "store_inv db" using PurgeHistory_inv [OF sinv, of now before n] p by simp
  note keeps = PurgeHistory_keeps [OF sinv p]
  have "attempt_ok (w\<lparr>s_db := db\<rparr>) pid e" if "s_running w pid = Some e" for pid e
  proof -
    have ok: "attempt_ok w pid e" using inv that by (simp add: runtime_inv_def)
    then obtain q where q: "lookup (s_db w) pid = Some q" "p_State q \<in> {StateRunning, StateStopping}"
      "path (p_State q) (p_State (e_process e))" by (auto simp: attempt_ok_def)
    have "q \<in> set (d_processes (s_db w))" "p_ID q = pid" using lookup_SomeD [OF q(1)] by auto
    moreover have "\<not> IsTerminal (p_State q)" using q(2) by auto
    ultimately have "q \<in> set (d_processes db)" using keeps(1) by blast
    moreover have "distinct (map p_ID (d_processes db))" using sinv' by (simp add: store_inv_def)
    ultimately have l: "lookup db pid = Some q" using lookup_row \<open>p_ID q = pid\<close> by blast
    then have "pid \<in> row_ids db" by (rule lookup_in_ids)
    then show ?thesis using ok q l keeps(2) by (auto simp: attempt_ok_def)
  qed
  then show ?thesis using inv sinv' by (simp add: w' runtime_inv_def)
qed

section \<open>What holds in every reachable state\<close>

lemma reachable_inv: "reachable cfg w \<Longrightarrow> runtime_inv w \<and> s_cfg w = cfg"
proof (induction rule: reachable.induct)
  case (boot db pr i reg)
  have "runtime_inv (snd (Reconcile pr i (new_world cfg reg db)))"
    using Reconcile_inv [OF new_world_inv [OF boot] new_world_idle] by simp
  moreover have "moves (new_world cfg reg db) (snd (Reconcile pr i (new_world cfg reg db)))"
    using Reconcile_inv [OF new_world_inv [OF boot] new_world_idle] by simp
  ultimately show ?case by (simp add: moves_def new_world_def)
next
  case (step w w')
  then have "runtime_inv w' \<and> moves w w'" using step_preserves by blast
  then show ?case using step.IH by (simp add: moves_def)
next
  case (purge w now before n)
  then show ?case using purge_inv [of w now before n] by (simp add: purge_def)
qed

end
