(* ===== verification/SystemProps.thy ===== *)
theory SystemProps
  imports System
begin

text \<open>
  What holds of the daemon in every state it can reach: the ceiling on concurrent attempts, mutual
  exclusion by lock, agreement of the table of attempts with the database, progress of the rows
  along the state machine, and what a restart leaves behind. The last section follows two
  interleavings inside handlers that break the progress of a row.
\<close>

section \<open>A concrete run\<close>

text \<open>An empty node accepts one execution that holds the lock \<^verbatim>\<open>nightly\<close> and starts it.\<close>

definition nightly :: Process where
  "nightly = zero_Process\<lparr>p_ID := ''a'', p_Type := TypeTask, p_State := StateCreated, p_Lock := ''nightly''\<rparr>"

definition no_probe :: Probe where
  "no_probe = \<lparr>pr_alive = \<lambda>_ _. False, pr_adopted = \<lambda>_. False, pr_stop_ok = \<lambda>_. True\<rparr>"

definition booted :: World where
  "booted = snd (Reconcile no_probe (\<lambda>_. quiet) (new_world Default [] empty_db))"

definition one_running :: World where
  "one_running = snd (Submit (supervisor_start quiet) 0 nightly booted)"

lemma reachable_one_running: "reachable Default one_running"
  unfolding one_running_def booted_def
  by (rule reachable.step [OF reachable.boot [OF store_inv_empty] step.submit])

lemma booted_eq: "booted = new_world Default [] empty_db"
  by (simp add: booted_def Reconcile_def UnfinishedProcesses_def on_db_def new_world_def SetRegistry_def
      empty_db_def)

lemma one_running_facts:
  "map_option (p_Lock \<circ> e_process) (s_running one_running ''a'') = Some ''nightly''"
  "d_locks (s_db one_running) ''nightly'' = Some ''a''"
  "map_option p_State (lookup (s_db one_running) ''a'') = Some StateRunning"
  unfolding one_running_def booted_eq
  by (simp_all add: Submit_def supervisor_start_def Start_def admit_def admit_claimed_def launch_def
      nightly_def zero_Process_def new_world_def SetRegistry_def queueDepth_def PendingCount_def
      on_db_def empty_db_def CreateProcess_def Let_def Default_def TryAcquire_def NewSlots_def
      AcquireLock_def row_ids_def lookup_def exec_fails_def ticked_def TransitionTo_def ClearAttempt_def
      UpdateProcess_def upsertAttempt_def replace_row_def worker_of_def sched_worker_def lockConflict_def
      quiet_def killGrace_def)

section \<open>Every reachable state\<close>

text \<open>
  C2. Concurrency is bounded, when the handlers run one after the other. Whatever the requests, their order, the outcomes of the attempts and
  the failures of the database, no more than \<^verbatim>\<open>max_processes\<close> attempts run at the same time, and each
  of them holds a slot.
\<close>

theorem capacity:
  assumes "reachable cfg w"
  shows "finite (dom (s_running w)) \<and> int (Running w) \<le> max 0 (c_MaxProcesses cfg) \<and>
    (\<forall>pid \<in> dom (s_running w). Holds (s_slots w) pid)"
proof -
  have inv: "runtime_inv w" and cfg: "s_cfg w = cfg" using reachable_inv [OF assms] by auto
  have sub: "dom (s_running w) \<subseteq> dom (holders (s_slots w))"
    using inv by (auto simp: runtime_inv_def attempt_ok_def Holds_def)
  have b: "finite (dom (holders (s_slots w)))"
    "int (card (dom (holders (s_slots w)))) \<le> max 0 (globalMax (s_slots w))"
    using slots.wf_bound [of "s_slots w"] inv by (simp_all add: runtime_inv_def)
  have "card (dom (s_running w)) \<le> card (dom (holders (s_slots w)))" by (rule card_mono [OF b(1) sub])
  then show ?thesis
    using b sub finite_subset [OF sub b(1)] inv cfg
    by (auto simp: Running_def runtime_inv_def Holds_def)
qed

theorem capacity_witness: "int (Running one_running) \<le> max 0 (c_MaxProcesses Default)"
  using capacity [OF reachable_one_running] by simp

text \<open>
  C1. Mutual exclusion of the running attempts, when the handlers run one after the other. While an attempt with a lock runs, its execution is
  the recorded holder of the lock, no attempt of another execution with the same lock runs, and an
  acquisition of the lock for another execution is refused.
\<close>

theorem mutual_exclusion:
  assumes "reachable cfg w" and "s_running w pid = Some e" and "p_Lock (e_process e) \<noteq> ''''"
  shows "d_locks (s_db w) (p_Lock (e_process e)) = Some pid \<and>
    (\<forall>pid' e'. s_running w pid' = Some e' \<and> p_Lock (e_process e') = p_Lock (e_process e) \<longrightarrow> pid' = pid) \<and>
    (\<forall>pid'. pid' \<noteq> pid \<longrightarrow> fst (AcquireLock (p_Lock (e_process e)) pid' (s_db w)) \<noteq> None)"
proof -
  have inv: "runtime_inv w" using reachable_inv [OF assms(1)] by simp
  have own: "d_locks (s_db w) (p_Lock (e_process e')) = Some q"
    if "s_running w q = Some e'" "p_Lock (e_process e') \<noteq> ''''" for q e'
    using inv that by (auto simp: runtime_inv_def attempt_ok_def)
  note mine = own [OF assms(2,3)]
  have "pid' = pid" if "s_running w pid' = Some e'" "p_Lock (e_process e') = p_Lock (e_process e)" for pid' e'
    using own [OF that(1)] that(2) assms(3) mine by simp
  moreover have "fst (AcquireLock (p_Lock (e_process e)) pid' (s_db w)) \<noteq> None" if "pid' \<noteq> pid" for pid'
    using mine that assms(3) by (simp add: AcquireLock_def Let_def)
  ultimately show ?thesis using mine by blast
qed

theorem mutual_exclusion_witness:
  "fst (AcquireLock ''nightly'' ''b'' (s_db one_running)) \<noteq> None"
proof -
  obtain e where e: "s_running one_running ''a'' = Some e" "p_Lock (e_process e) = ''nightly''"
    using one_running_facts(1) by auto
  then show ?thesis using mutual_exclusion [OF reachable_one_running e(1)] by simp
qed

text \<open>
  C5. The table of attempts and the database agree, when the handlers run one after the other: a running attempt has a row, the row is RUNNING
  or STOPPING, and its own view of the execution is not behind the row. So an execution recorded
  as waiting or finished has no attempt under supervision.
\<close>

theorem running_recorded:
  assumes "reachable cfg w" and "s_running w pid = Some e"
  shows "p_ID (e_process e) = pid \<and>
    (\<exists>q. lookup (s_db w) pid = Some q \<and> p_State q \<in> {StateRunning, StateStopping} \<and>
       path (p_State q) (p_State (e_process e)) \<and> p_State (e_process e) \<in> {StateRunning, StateStopping})"
  using reachable_inv [OF assms(1)] assms(2) by (auto simp: runtime_inv_def attempt_ok_def)

theorem running_recorded_witness: "\<exists>q. lookup (s_db one_running) ''a'' = Some q \<and> \<not> IsTerminal (p_State q)"
proof -
  obtain e where e: "s_running one_running ''a'' = Some e" using one_running_facts(1) by auto
  then show ?thesis using running_recorded [OF reachable_one_running e] by auto
qed

text \<open>
  C4. Rows only move along the transition table. In one step of the daemon no row disappears, each
  ends in a state the table reaches from the one it was in, and one that was COMPLETED, FAILED or
  CANCELED keeps that state.
\<close>

theorem row_progress:
  assumes "reachable cfg w" and "step w w'" and "lookup (s_db w) pid = Some q"
  shows "\<exists>q'. lookup (s_db w') pid = Some q' \<and> path (p_State q) (p_State q') \<and>
    (IsTerminal (p_State q) \<longrightarrow> p_State q' = p_State q)"
proof -
  have "moves w w'" using step_preserves [OF assms(2)] reachable_inv [OF assms(1)] by simp
  then obtain q' where q': "lookup (s_db w') pid = Some q'" "path (p_State q) (p_State q')"
    using assms(3) by (auto simp: moves_def advances_def)
  then show ?thesis using path_from_terminal [of "p_State q" "p_State q'"] by blast
qed

theorem row_progress_witness:
  "\<exists>q q'. lookup (s_db one_running) ''a'' = Some q \<and>
     lookup (s_db (snd (Stop OnExecutionSettled ''a'' 0 one_running))) ''a'' = Some q' \<and>
     path (p_State q) (p_State q')"
proof -
  obtain q where q: "lookup (s_db one_running) ''a'' = Some q" using one_running_facts(3) by auto
  then show ?thesis using row_progress [OF reachable_one_running step.stop q] by blast
qed

section \<open>After a restart\<close>






text \<open>Without database faults a write of a recorded execution succeeds.\<close>

lemma UpdateProcess_no_faults:
  assumes "d_faults db = []" and "lookup db (p_ID p) = Some q"
  shows "d_faults (snd (UpdateProcess p db)) = [] \<and>
    lookup (snd (UpdateProcess p db)) (p_ID p) = Some (p\<lparr>p_CreatedAt := p_CreatedAt q\<rparr>)"
proof -
  obtain db' where u: "UpdateProcess p db = (None, db')" and f: "d_faults db' = []"
    using assms by (simp add: UpdateProcess_def Let_def)
  show ?thesis using u f lookup_UpdateProcess [OF u, of "p_ID p"] assms(2) by simp
qed

lemma releaseLock_faults [simp]: "d_faults db = [] \<Longrightarrow> d_faults (releaseLock p db) = []"
  by (simp add: releaseLock_def ReleaseLock_def)

lemma releaseLock_lookup [simp]: "lookup (releaseLock p db) = lookup db"
  by (simp add: releaseLock_def)












section \<open>Admission\<close>

lemma UpdateProcess_succeeds:
  assumes "d_faults db = []" and "lookup db (p_ID p) = Some q"
  obtains db' where "UpdateProcess p db = (None, db')" "d_faults db' = []" "d_locks db' = d_locks db"
    "lookup db' (p_ID p) = Some (p\<lparr>p_CreatedAt := p_CreatedAt q\<rparr>)"
proof -
  obtain db' where u: "UpdateProcess p db = (None, db')"
    using assms by (simp add: UpdateProcess_def Let_def)
  then show ?thesis using that UpdateProcess_no_faults [OF assms] UpdateProcess_locks [of p db] by simp
qed

lemma acquire_free:
  "d_faults db = [] \<Longrightarrow> pid \<in> row_ids db \<Longrightarrow> key = '''' \<or> d_locks db key = None \<Longrightarrow>
     AcquireLock key pid db = (None, if key = '''' then db else db\<lparr>d_locks := (d_locks db)(key \<mapsto> pid)\<rparr>)"
  by (auto simp: AcquireLock_def Let_def)

lemma acquire_held:
  "d_faults db = [] \<Longrightarrow> key \<noteq> '''' \<Longrightarrow> d_locks db key = Some h \<Longrightarrow> h \<noteq> pid \<Longrightarrow>
     AcquireLock key pid db = (Some ErrLockHeld, db)"
  by (simp add: AcquireLock_def Let_def)

text \<open>What a refusal leaves of the execution: no attempt, no slot, no lock.\<close>

definition holds_nothing :: "string \<Rightarrow> World \<Rightarrow> bool" where
  "holds_nothing pid w \<longleftrightarrow>
     s_running w pid = None \<and> \<not> Holds (s_slots w) pid \<and> pid \<notin> ran (d_locks (s_db w))"

definition same_holdings :: "World \<Rightarrow> World \<Rightarrow> bool" where
  "same_holdings w w' \<longleftrightarrow>
     s_running w' = s_running w \<and> s_slots w' = s_slots w \<and> d_locks (s_db w') = d_locks (s_db w)"

lemma same_holds_nothing: "same_holdings w w' \<Longrightarrow> holds_nothing pid w' = holds_nothing pid w"
  by (simp add: same_holdings_def holds_nothing_def)

lemma released_holds_nothing:
  assumes "s_running w (p_ID p) = None" and "d_faults (s_db w) = []" and "\<forall>k. d_locks (s_db w) k = Some (p_ID p) \<longrightarrow> k = p_Lock p"
    and "'''' \<notin> dom (d_locks (s_db w))"
  shows "holds_nothing (p_ID p) (releaseAll p w)"
proof -
  let ?w = "w\<lparr>s_slots := Release (s_slots w) (p_ID p)\<rparr>"
  have slot: "\<not> Holds (Release (s_slots w) (p_ID p)) (p_ID p)" by (simp add: Holds_def Release_holders)
  have locks: "d_locks (snd (ReleaseLock (p_Lock p) (p_ID p) (s_db w))) k \<noteq> Some (p_ID p)" for k
  proof
    assume k: "d_locks (snd (ReleaseLock (p_Lock p) (p_ID p) (s_db w))) k = Some (p_ID p)"
    then have "d_locks (s_db w) k = Some (p_ID p)" using assms(2) by (simp add: ReleaseLock_def split: if_splits)
    then have "k = p_Lock p" "k \<noteq> ''''" using assms(3,4) by (blast, auto)
    then show False using k assms(2) \<open>d_locks (s_db w) k = Some (p_ID p)\<close> by (simp add: ReleaseLock_def)
  qed
  show ?thesis
    unfolding holds_nothing_def using slot locks assms(1) by (simp add: releaseAll_def sched_releaseLock_eq ran_def)
qed

lemma launch_begins:
  assumes f: "d_faults (s_db w) = []" and row: "lookup (s_db w) (p_ID p) = Some q0"
    and can: "CanTransition (p_State p) StateStarting"
  obtains p1 db1 where "p_ID p1 = p_ID p" "p_State p1 = StateStarting" "p_Attempt p1 = p_Attempt p + 1" "p_Lock p1 = p_Lock p"
    "p_Worker p1 = p_Worker p" "p_Type p1 = p_Type p" "p_StartedAt p1 = None"
    "d_faults db1 = []" "d_locks db1 = d_locks (s_db w)" "lookup db1 (p_ID p) = Some (p1\<lparr>p_CreatedAt := p_CreatedAt q0\<rparr>)"
    "launch start p w = (case start p1 (w\<lparr>s_db := db1\<rparr>) of (Some e, w) \<Rightarrow> (Some e, releaseAll p1 w) | (None, w) \<Rightarrow> (None, w))"
proof -
  define p1 where "p1 = (ClearAttempt (p\<lparr>p_Attempt := p_Attempt p + 1\<rparr>))\<lparr>p_RetryAt := None, p_State := StateStarting\<rparr>"
  have id: "p_ID p1 = p_ID p" "p_State p1 = StateStarting" "p_Attempt p1 = p_Attempt p + 1" "p_Lock p1 = p_Lock p"
    "p_Worker p1 = p_Worker p" "p_Type p1 = p_Type p" "p_StartedAt p1 = None"
    by (simp_all add: p1_def ClearAttempt_def)
  obtain db1 where 1: "UpdateProcess p1 (s_db w) = (None, db1)" "d_faults db1 = []" "d_locks db1 = d_locks (s_db w)"
    "lookup db1 (p_ID p) = Some (p1\<lparr>p_CreatedAt := p_CreatedAt q0\<rparr>)"
    using UpdateProcess_succeeds [OF f, of p1] row id by auto
  have t1: "TransitionTo ((ClearAttempt (p\<lparr>p_Attempt := p_Attempt p + 1\<rparr>))\<lparr>p_RetryAt := None\<rparr>) StateStarting ReasonNone = Inr p1"
    using can by (simp add: TransitionTo_Inr_iff p1_def)
  have "launch start p w = (case start p1 (w\<lparr>s_db := db1\<rparr>) of (Some e, w) \<Rightarrow> (Some e, releaseAll p1 w) | (None, w) \<Rightarrow> (None, w))"
    by (simp add: launch_def t1 on_db_def 1(1))
  then show ?thesis using that [OF id 1(2-4)] by blast
qed

lemma start_succeeds:
  assumes f: "d_faults (s_db w) = []" and row: "lookup (s_db w) (p_ID p) = Some q0" and st: "p_State p = StateStarting"
    and i: "in_LogsOk i" "in_Spawn i = Some (child, start)" and open': "\<not> s_sup_draining w"
  shows "\<exists>w' q e. supervisor_start i p w = (None, w') \<and> lookup (s_db w') (p_ID p) = Some q \<and> p_State q = StateRunning \<and>
    p_Attempt q = p_Attempt p \<and> s_running w' (p_ID p) = Some e \<and> s_slots w' = s_slots w \<and> d_locks (s_db w') = d_locks (s_db w)"
proof -
  define p2 where "p2 = p\<lparr>p_PID := child, p_PIDStartTime := start, p_StartedAt := Some (in_StartedAt i), p_State := StateRunning\<rparr>"
  have id: "p_ID p2 = p_ID p" "p_State p2 = StateRunning" "p_Attempt p2 = p_Attempt p" by (simp_all add: p2_def)
  obtain db2 where 2: "UpdateProcess p2 (s_db w) = (None, db2)" "d_locks db2 = d_locks (s_db w)"
    "lookup db2 (p_ID p) = Some (p2\<lparr>p_CreatedAt := p_CreatedAt q0\<rparr>)"
    using UpdateProcess_succeeds [OF f, of p2] row id by auto
  have t2: "TransitionTo (p\<lparr>p_PID := child, p_PIDStartTime := start, p_StartedAt := Some (in_StartedAt i)\<rparr>)
      StateRunning ReasonNone = Inr p2"
    by (simp add: TransitionTo_Inr_iff p2_def st)
  show ?thesis
    using i open' 2 t2 id by (simp add: on_db_def supervisor_start_def Start_def Let_def)
qed

lemma start_fails:
  assumes f: "d_faults (s_db w) = []" and row: "lookup (s_db w) (p_ID p) = Some q0" and st: "p_State p = StateStarting"
    and i: "\<not> (in_LogsOk i \<and> in_Spawn i \<noteq> None)" and open': "\<not> s_sup_draining w" and new: "p_StartedAt p = None"
    and policy: "policy = retryPolicy (worker_of (s_registry w) (p_Worker p))"
  shows "\<exists>w' q. supervisor_start i p w = (None, w') \<and> lookup (s_db w') (p_ID p) = Some q \<and> s_running w' = s_running w \<and>
    (if Allowed policy RetryOnStartError (p_Attempt p)
     then p_State q = StateRetrying \<and> d_locks (s_db w') = d_locks (s_db w) \<and>
       s_slots w' = (if p_Type p = TypeService then s_slots w else Release (s_slots w) (p_ID p))
     else p_State q = StateFailed \<and> p_Reason q = ReasonStartError \<and> s_slots w' = Release (s_slots w) (p_ID p) \<and>
       d_locks (s_db w') = (if d_locks (s_db w) (p_Lock p) = Some (p_ID p) \<and> p_Lock p \<noteq> ''''
         then (d_locks (s_db w))(p_Lock p := None) else d_locks (s_db w)))"
proof -
  let ?worker = "worker_of (s_registry w) (p_Worker p)"
  obtain p1 where t: "TransitionTo (p\<lparr>p_FinishedAt := Some (in_FinishedAt i)\<rparr>) StateCrashed ReasonStartError = Inr p1"
    using st by (simp add: TransitionTo_def Let_def)
  have p1: "p_ID p1 = p_ID p" "p_State p1 = StateCrashed" "p_StartedAt p1 = None" "p_Attempt p1 = p_Attempt p"
    "p_Lock p1 = p_Lock p" "p_Type p1 = p_Type p"
    using t new by (auto simp: TransitionTo_Inr_iff)
  have same: "releaseLock (transition p1 StateFailed ReasonStartError) (s_db w) = releaseLock p1 (s_db w)"
    by (simp add: releaseLock_def)
  obtain ev p2 db2 where s: "settle i p1 ?worker RetryOnStartError ReasonStartError (s_db w) = (ev, p2, db2)"
    by (metis prod_cases3)
  have p2: "p_ID p2 = p_ID p" "p_Type p2 = p_Type p" "d_faults db2 = []" "lookup db2 = lookup (s_db w)"
    "if Allowed policy RetryOnStartError (p_Attempt p) then p_State p2 = StateRetrying \<and> db2 = s_db w
     else p_State p2 = StateFailed \<and> p_Reason p2 = ReasonStartError \<and> db2 = releaseLock p1 (s_db w)"
    using s p1 f unfolding settle_def Let_def policy [symmetric]
    by (auto simp: transition_reason same split: if_splits)
  obtain db3 where 3: "UpdateProcess p2 db2 = (None, db3)" "d_locks db3 = d_locks db2"
    "lookup db3 (p_ID p) = Some (p2\<lparr>p_CreatedAt := p_CreatedAt q0\<rparr>)"
    using UpdateProcess_succeeds [OF p2(3), of p2] row p2(1,4) by auto
  have "supervisor_start i p w = startFailed OnExecutionSettled i p ?worker w"
    using i open' by (auto simp: supervisor_start_def Start_def Let_def split: option.splits)
  also have "\<dots> = (None, OnExecutionSettled p2 (w\<lparr>s_db := db3, s_notified := s_notified w @ [(ev, p2)]\<rparr>))"
    by (simp add: startFailed_def t s on_db_def 3(1))
  finally have e: "supervisor_start i p w = (None, OnExecutionSettled p2 (w\<lparr>s_db := db3, s_notified := s_notified w @ [(ev, p2)]\<rparr>))" .
  have locks: "d_locks (releaseLock p1 (s_db w)) = (if d_locks (s_db w) (p_Lock p) = Some (p_ID p) \<and> p_Lock p \<noteq> ''''
      then (d_locks (s_db w))(p_Lock p := None) else d_locks (s_db w))"
    using f p1 by (auto simp: releaseLock_def ReleaseLock_def)
  show ?thesis
    using e 3 p2 locks by (auto simp: OnExecutionSettled_def Notify_wake_def split: if_splits)
qed

lemma refused_row:
  assumes f: "d_faults (s_db w) = []" and row: "lookup (s_db w) (p_ID p) = Some q0"
    and can: "CanTransition (p_State p) StateCanceled" and r: "reason \<noteq> ReasonNone"
  shows "\<exists>w' q. refuse reason cause p w = (Some cause, w') \<and> lookup (s_db w') (p_ID p) = Some q \<and>
    p_State q = StateCanceled \<and> p_Reason q = reason \<and> same_holdings w w'"
proof -
  let ?p = "p\<lparr>p_State := StateCanceled, p_Reason := reason\<rparr>"
  obtain db1 where "UpdateProcess ?p (s_db w) = (None, db1)" "lookup db1 (p_ID p) = Some (?p\<lparr>p_CreatedAt := p_CreatedAt q0\<rparr>)"
    "d_locks db1 = d_locks (s_db w)"
    using UpdateProcess_succeeds [OF f, of ?p] row by auto
  then show ?thesis using can r by (simp add: refuse_def TransitionTo_def Let_def on_db_def same_holdings_def)
qed

lemma enqueued_row:
  assumes f: "d_faults (s_db w) = []" and row: "lookup (s_db w) (p_ID p) = Some q0"
    and can: "CanTransition (p_State p) StateQueued"
  shows "\<exists>w' q. enqueue now p w = (None, w') \<and> lookup (s_db w') (p_ID p) = Some q \<and> p_State q = StateQueued \<and> same_holdings w w'"
proof -
  let ?p = "p\<lparr>p_State := StateQueued, p_QueuedAt := Some now\<rparr>"
  obtain db1 where "UpdateProcess ?p (s_db w) = (None, db1)" "lookup db1 (p_ID p) = Some (?p\<lparr>p_CreatedAt := p_CreatedAt q0\<rparr>)"
    "d_locks db1 = d_locks (s_db w)"
    using UpdateProcess_succeeds [OF f, of ?p] row by auto
  then show ?thesis using can by (simp add: enqueue_def TransitionTo_def Let_def on_db_def same_holdings_def)
qed

text \<open>The outcome of a submission that is neither refused for draining nor for a full queue.\<close>

definition parked_outcome :: "Process \<Rightarrow> error option \<Rightarrow> Process \<Rightarrow> bool" where
  "parked_outcome p answer q \<longleftrightarrow>
     (if p_Type p = TypeService
      then answer = Some ErrNoCapacity \<and> p_State q = StateCanceled \<and> p_Reason q = ReasonNoCapacity
      else answer = None \<and> p_State q = StateQueued)"

lemma park_outcome:
  assumes "d_faults (s_db w) = []" and "lookup (s_db w) (p_ID p) = Some q0" and "p_State p = StateCreated"
  shows "\<exists>answer w' q. park now p ErrNoCapacity w = (answer, w') \<and> lookup (s_db w') (p_ID p) = Some q \<and>
    parked_outcome p answer q \<and> same_holdings w w'"
  using refused_row [OF assms(1,2), of ReasonNoCapacity ErrNoCapacity] enqueued_row [OF assms(1,2), of now] assms(3)
  by (auto simp: park_def reject_def parked_outcome_def)

definition launched_outcome :: "Inputs \<Rightarrow> Retry \<Rightarrow> bool \<Rightarrow> Process \<Rightarrow> error option \<Rightarrow> Process \<Rightarrow> World \<Rightarrow> bool" where
  "launched_outcome i policy stopping p answer q w' \<longleftrightarrow>
     (if stopping then answer = Some ErrShuttingDown \<and> p_State q = StateStarting \<and> holds_nothing (p_ID p) w'
      else answer = None \<and>
        (if in_LogsOk i \<and> in_Spawn i \<noteq> None
         then p_State q = StateRunning \<and> p_Attempt q = p_Attempt p + 1 \<and> s_running w' (p_ID p) \<noteq> None \<and>
           Holds (s_slots w') (p_ID p) \<and> (p_Lock p \<noteq> '''' \<longrightarrow> d_locks (s_db w') (p_Lock p) = Some (p_ID p))
         else if Allowed policy RetryOnStartError (p_Attempt p + 1)
         then p_State q = StateRetrying \<and> s_running w' (p_ID p) = None \<and>
           (Holds (s_slots w') (p_ID p) \<longleftrightarrow> p_Type p = TypeService) \<and>
           (p_Lock p \<noteq> '''' \<longrightarrow> d_locks (s_db w') (p_Lock p) = Some (p_ID p))
         else p_State q = StateFailed \<and> p_Reason q = ReasonStartError \<and> holds_nothing (p_ID p) w'))"

lemma launch_outcome:
  assumes f: "d_faults (s_db w) = []" and row: "lookup (s_db w) (p_ID p) = Some q0" and st: "p_State p = StateCreated"
    and slot: "Holds (s_slots w) (p_ID p)" and idle: "s_running w (p_ID p) = None"
    and own: "\<forall>k. d_locks (s_db w) k = Some (p_ID p) \<longleftrightarrow> k = p_Lock p \<and> k \<noteq> ''''" and empty: "'''' \<notin> dom (d_locks (s_db w))"
    and policy: "policy = retryPolicy (worker_of (s_registry w) (p_Worker p))"
  shows "\<exists>answer w' q. launch (supervisor_start i) p w = (answer, w') \<and> lookup (s_db w') (p_ID p) = Some q \<and>
    launched_outcome i policy (s_sup_draining w) p answer q w'"
proof -
  obtain p1 db1 where p1: "p_ID p1 = p_ID p" "p_State p1 = StateStarting" "p_Attempt p1 = p_Attempt p + 1" "p_Lock p1 = p_Lock p"
    "p_Worker p1 = p_Worker p" "p_Type p1 = p_Type p" "p_StartedAt p1 = None"
    and db1: "d_faults db1 = []" "d_locks db1 = d_locks (s_db w)" "lookup db1 (p_ID p) = Some (p1\<lparr>p_CreatedAt := p_CreatedAt q0\<rparr>)"
    and l: "launch (supervisor_start i) p w =
      (case supervisor_start i p1 (w\<lparr>s_db := db1\<rparr>) of (Some e, w) \<Rightarrow> (Some e, releaseAll p1 w) | (None, w) \<Rightarrow> (None, w))"
    by (rule launch_begins [OF f row, of "supervisor_start i"]) (use st in simp)
  let ?w = "w\<lparr>s_db := db1\<rparr>"
  have row1: "d_faults (s_db ?w) = []" "lookup (s_db ?w) (p_ID p1) = Some (p1\<lparr>p_CreatedAt := p_CreatedAt q0\<rparr>)"
    using db1 p1 by simp_all
  show ?thesis
  proof (cases "s_sup_draining w")
    case True
    then have "launch (supervisor_start i) p w = (Some ErrShuttingDown, releaseAll p1 ?w)"
      by (simp add: l supervisor_start_def Start_def)
    moreover have "holds_nothing (p_ID p) (releaseAll p1 ?w)"
      using released_holds_nothing [of ?w p1] idle db1 own empty p1 by simp
    ultimately show ?thesis using True db1 p1 by (simp add: launched_outcome_def releaseAll_def)
  next
    case False
    then have run: "\<not> s_sup_draining ?w" by simp
    show ?thesis
    proof (cases "in_LogsOk i \<and> in_Spawn i \<noteq> None")
      case True
      then obtain child start where "in_LogsOk i" "in_Spawn i = Some (child, start)" by auto
      from start_succeeds [OF row1 p1(2) this run] show ?thesis
        using l False True p1 slot own db1 by (auto simp: launched_outcome_def)
    next
      case no: False
      from start_fails [OF row1 p1(2) no run p1(7), of policy] obtain w' q where
        w': "supervisor_start i p1 ?w = (None, w')" "lookup (s_db w') (p_ID p) = Some q" "s_running w' = s_running w"
        "if Allowed policy RetryOnStartError (p_Attempt p1)
         then p_State q = StateRetrying \<and> d_locks (s_db w') = d_locks (s_db w) \<and>
           s_slots w' = (if p_Type p = TypeService then s_slots w else Release (s_slots w) (p_ID p))
         else p_State q = StateFailed \<and> p_Reason q = ReasonStartError \<and> s_slots w' = Release (s_slots w) (p_ID p) \<and>
           d_locks (s_db w') = (if d_locks (s_db w) (p_Lock p) = Some (p_ID p) \<and> p_Lock p \<noteq> ''''
             then (d_locks (s_db w))(p_Lock p := None) else d_locks (s_db w))"
        using policy p1 db1 by auto
      show ?thesis
      proof (cases "Allowed policy RetryOnStartError (p_Attempt p1)")
        case True
        then show ?thesis
          using l False no w' p1 slot own idle by (auto simp: launched_outcome_def Holds_def Release_holders)
      next
        case denied: False
        then have "holds_nothing (p_ID p) w'"
          using w'(3,4) idle own by (auto simp: holds_nothing_def Holds_def Release_holders ran_def split: if_splits)
        then show ?thesis using l False no w' p1 denied by (auto simp: launched_outcome_def)
      qed
    qed
  qed
qed

text \<open>
  C8. What \<^verbatim>\<open>Submit\<close> answers and does, branch by branch, for a new execution on a database that answers. A
  draining scheduler refuses it without a trace, and so does a queue of \<^verbatim>\<open>max_depth\<close> executions, a task.
  Otherwise it is recorded. If its lock is held, a worker that rejects makes it CANCELED with "lock_conflict".
  If its lock is held or there is no slot, a task is QUEUED and a service CANCELED with "no_capacity". In
  these cases it keeps neither slot nor lock. Otherwise it is started: it is RUNNING under supervision with its
  slot and its lock; if the process cannot be started it is retried or has failed as the policy says, keeping
  the lock, and of a service the slot, only for a retry; if the supervisor is shutting down the caller
  is told and everything is given back.
\<close>

theorem Submit_outcome:
  assumes "store_inv (s_db w)" and "d_faults (s_db w) = []" and "lookup (s_db w) (p_ID p) = None"
    and "holds_nothing (p_ID p) w" and "p_State p = StateCreated"
    and "Submit (supervisor_start i) now p w = (answer, w')"
    and "full \<longleftrightarrow> q_MaxDepth (c_Queue (s_cfg w)) \<le> int (length (filter in_line (d_processes (s_db w))))"
    and "held \<longleftrightarrow> p_Lock p \<noteq> '''' \<and> d_locks (s_db w) (p_Lock p) \<noteq> None"
    and "rejects \<longleftrightarrow> lockConflict (sched_worker w (p_Worker p)) = LockConflictReject"
    and "policy = retryPolicy (worker_of (s_registry w) (p_Worker p))"
  shows "if s_draining w then answer = Some ErrShuttingDown \<and> w' = w
    else if p_Type p \<noteq> TypeService \<and> full then answer = Some ErrQueueFull \<and> w' = w
    else \<exists>q. lookup (s_db w') (p_ID p) = Some q \<and>
      (if held \<and> rejects
       then answer = Some ErrLockHeld \<and> p_State q = StateCanceled \<and> p_Reason q = ReasonLockConflict \<and> holds_nothing (p_ID p) w'
       else if held \<or> \<not> fst (TryAcquire (s_slots w) (p_ID p) (p_Worker p))
       then parked_outcome p answer q \<and> holds_nothing (p_ID p) w'
       else launched_outcome i policy (s_sup_draining w) p answer q w')"
proof -
  let ?pid = "p_ID p" and ?k = "p_Lock p"
  define db1 where "db1 = (s_db w)\<lparr>d_processes := d_processes (s_db w) @ [p]\<rparr>"
  define w1 where "w1 = w\<lparr>s_db := db1\<rparr>"
  have created: "CreateProcess p (s_db w) = (None, db1)"
    using assms(2,3) by (simp add: CreateProcess_def db1_def Let_def)
  have create: "on_db (CreateProcess p) w = (None, w1)"
    by (simp add: on_db_def created w1_def)
  have depth: "queueDepth w = (Inr (int (length (filter in_line (d_processes (s_db w))))), w)"
    using assms(2) by (simp add: queueDepth_def PendingCount_def on_db_def)
  have sub: "(answer, w') = (if s_draining w then (Some ErrShuttingDown, w)
      else if p_Type p \<noteq> TypeService \<and> full then (Some ErrQueueFull, w) else admit (supervisor_start i) now p w1)"
    unfolding assms(6) [symmetric] by (simp add: Submit_def depth create assms(7))
  have db: "d_faults db1 = []" "lookup db1 ?pid = Some p" "?pid \<in> row_ids db1" "d_locks db1 = d_locks (s_db w)"
    using assms(2) lookup_CreateProcess [OF created, of ?pid] by (simp_all add: db1_def row_ids_def)
  have none: "s_running w ?pid = None" "\<not> Holds (s_slots w) ?pid" "\<And>k. d_locks (s_db w) k \<noteq> Some ?pid"
    using assms(4) by (auto simp: holds_nothing_def ran_def)
  have empty: "'''' \<notin> dom (d_locks (s_db w))" using assms(1) by (simp add: store_inv_def)
  obtain got slots where tr: "TryAcquire (s_slots w) ?pid (p_Worker p) = (got, slots)" by fastforce
  have slots: "\<not> got \<Longrightarrow> slots = s_slots w" "got \<Longrightarrow> Holds slots ?pid" "Release slots ?pid = Release (snd (got, slots)) ?pid"
    using tr none(2) TryAcquire_holders [of "s_slots w" ?pid "p_Worker p"]
    by (auto simp: TryAcquire_def Holds_def split: if_splits)
  define db2 where "db2 = (if ?k = '''' then db1 else db1\<lparr>d_locks := (d_locks db1)(?k \<mapsto> ?pid)\<rparr>)"
  have db2: "d_faults db2 = []" "lookup db2 = lookup db1" "row_ids db2 = row_ids db1"
    using db by (auto simp: db2_def row_ids_def intro!: lookup_cong)
  have lost: "AcquireLock ?k ?pid db1 = (Some ErrLockHeld, db1)" if held
    using that assms(8) acquire_held [OF db(1), of ?k _ ?pid] none(3) by (auto simp: db(4))
  have won: "AcquireLock ?k ?pid db1 = (None, db2)" if "\<not> held"
    using that assms(8) acquire_free [OF db(1,3), of ?k] by (auto simp: db(4) db2_def)
  have again: "AcquireLock ?k ?pid db2 = (None, db2)" if "\<not> held"
    using that assms(8) db2(1) db(3) by (auto simp: db2_def AcquireLock_def Let_def)
  have reg: "sched_worker (w\<lparr>s_db := d\<rparr>) = sched_worker w" "sched_worker w1 = sched_worker w" for d
    by (simp_all add: w1_def sched_worker_def fun_eq_iff)
  have parked: ?thesis if "\<not> s_draining w" "\<not> (p_Type p \<noteq> TypeService \<and> full)" "\<not> (held \<and> rejects)" "held \<or> \<not> got"
    "admit (supervisor_start i) now p w1 = park now p ErrNoCapacity w2" "s_db w2 = db1" "holds_nothing ?pid w2" for w2
  proof -
    note prem = that
    obtain a w3 q where p: "park now p ErrNoCapacity w2 = (a, w3)" "lookup (s_db w3) ?pid = Some q"
      "parked_outcome p a q" "same_holdings w2 w3"
      using park_outcome [of w2 p p now] prem(6) db(1,2) assms(5) by auto
    have e: "answer = a" "w' = w3" using sub prem(1,2,5) p(1) by auto
    have "holds_nothing ?pid w'" using same_holds_nothing [OF p(4)] prem(7) e(2) by simp
    then show ?thesis using prem(1-4) p(2,3) e tr by auto
  qed
  have unheld: "holds_nothing ?pid (w1\<lparr>s_slots := sl\<rparr>)" if "\<not> Holds sl ?pid" for sl
    using that none by (auto simp: holds_nothing_def w1_def db(4) ran_def)
  have unlocked: "sched_releaseLock p (w\<lparr>s_db := db2, s_slots := slots\<rparr>) = w1\<lparr>s_slots := slots\<rparr>" if "\<not> held"
    using that assms(8) db(1) none(3)
    by (auto simp: sched_releaseLock_eq ReleaseLock_def db2_def w1_def db(4) fun_upd_idem_iff)
  have launched: ?thesis if "\<not> s_draining w" "\<not> (p_Type p \<noteq> TypeService \<and> full)" "\<not> held" "got"
    "admit (supervisor_start i) now p w1 = launch (supervisor_start i) p (w1\<lparr>s_slots := slots, s_db := db2\<rparr>)"
  proof -
    let ?w2 = "w1\<lparr>s_slots := slots, s_db := db2\<rparr>"
    have "\<forall>k. d_locks db2 k = Some ?pid \<longleftrightarrow> k = ?k \<and> k \<noteq> ''''" "'''' \<notin> dom (d_locks db2)"
      using none(3) empty by (auto simp: db2_def db(4))
    then have "\<exists>answer w' q. launch (supervisor_start i) p ?w2 = (answer, w') \<and> lookup (s_db w') ?pid = Some q \<and>
        launched_outcome i policy (s_sup_draining ?w2) p answer q w'"
      by (intro launch_outcome) (use db2 db that slots none assms(5,10) in \<open>simp_all add: w1_def\<close>)
    then show ?thesis using that sub tr by (auto simp: w1_def)
  qed
  show ?thesis
  proof (cases "s_draining w \<or> (p_Type p \<noteq> TypeService \<and> full)")
    case True
    then show ?thesis using sub by auto
  next
    case False
    then have open': "\<not> s_draining w" "\<not> (p_Type p \<noteq> TypeService \<and> full)" by auto
    show ?thesis
    proof (cases "held \<and> rejects")
      case True
      have "admit (supervisor_start i) now p w1 = refuse ReasonLockConflict ErrLockHeld p w1"
        using True lost assms(8,9) by (simp add: admit_def reg on_db_def rejectLocked_def w1_def)
      moreover have "\<exists>w' q. refuse ReasonLockConflict ErrLockHeld p w1 = (Some ErrLockHeld, w') \<and> lookup (s_db w') ?pid = Some q \<and>
          p_State q = StateCanceled \<and> p_Reason q = ReasonLockConflict \<and> same_holdings w1 w'"
        by (rule refused_row) (use db assms(5) in \<open>simp_all add: w1_def\<close>)
      moreover have "holds_nothing ?pid w1" using unheld [OF none(2)] by (simp add: w1_def)
      ultimately show ?thesis using sub open' True same_holds_nothing by auto
    next
      case no: False
      show ?thesis
      proof (cases got)
        case False
        have "admit (supervisor_start i) now p w1 = park now p ErrNoCapacity (w1\<lparr>s_slots := slots\<rparr>)"
        proof (cases "?k \<noteq> '''' \<and> rejects")
          case True
          then have "\<not> held" using no by simp
          then show ?thesis
            using True False won tr unlocked assms(9)
            by (simp add: admit_def admit_claimed_def reg on_db_def w1_def)
        next
          case plain: False
          then show ?thesis
            using False tr assms(9) by (auto simp: admit_def admit_claimed_def reg on_db_def w1_def)
        qed
        then show ?thesis
          using parked [OF open' no] False unheld [of slots] slots none(2) by (simp add: w1_def)
      next
        case got: True
        show ?thesis
        proof (cases held)
          case True
          then have "admit (supervisor_start i) now p w1 = park now p ErrNoCapacity (w1\<lparr>s_slots := Release slots ?pid\<rparr>)"
            using no lost got tr assms(9) by (auto simp: admit_def admit_claimed_def reg on_db_def w1_def Let_def)
          from parked [OF open' no _ this] show ?thesis
            using True unheld [of "Release slots ?pid"] by (simp add: w1_def Holds_def Release_holders)
        next
          case free: False
          have "admit (supervisor_start i) now p w1 = launch (supervisor_start i) p (w1\<lparr>s_slots := slots, s_db := db2\<rparr>)"
            using free won again got tr by (auto simp: admit_def admit_claimed_def reg on_db_def w1_def)
          then show ?thesis using launched [OF open' free got] by simp
        qed
      qed
    qed
  qed
qed

theorem Submit_outcome_witness:
  "\<exists>q. lookup (s_db (snd (Submit (supervisor_start quiet) 0 nightly booted))) ''a'' = Some q \<and>
     p_State q = StateRunning"
proof -
  obtain answer w' where s: "Submit (supervisor_start quiet) 0 nightly booted = (answer, w')"
    by fastforce
  have inv: "store_inv (s_db booted)" "holds_nothing (p_ID nightly) booted"
    by (simp_all add: booted_eq new_world_def SetRegistry_def store_inv_empty holds_nothing_def Holds_def NewSlots_def,
        simp_all add: empty_db_def)
  show ?thesis
    using Submit_outcome [OF inv(1) _ _ inv(2) _ s refl refl refl refl] s
    by (simp add: booted_eq new_world_def SetRegistry_def empty_db_def lookup_def nightly_def zero_Process_def
        quiet_def Default_def TryAcquire_def NewSlots_def launched_outcome_def) auto
qed

section \<open>An interleaving the handlers do not exclude\<close>

definition queued_node :: World where
  "queued_node = new_world Default []
     (empty_db\<lparr>d_processes := [nightly\<lparr>p_State := StateQueued, p_Lock := ''''\<rparr>]\<rparr>)"

text \<open>
  A cancellation answered while a dispatch pass is under way can be lost. The pass works on the
  rows it has read; if a waiting execution is cancelled (the caller gets no error and the row is
  CANCELED) before the pass reaches it, the pass still starts it from its own copy, and the row goes
  from CANCELED to RUNNING, an edge the transition table forbids.
\<close>

theorem cancellation_lost_to_a_dispatch_pass:
  "let pending = pending_rows 0 (s_db queued_node);
       (answer, cancelled) = Stop OnExecutionSettled ''a'' 0 queued_node;
       after = fold (\<lambda>p. dispatch_item (supervisor_start quiet) 0 p) pending cancelled
   in answer = None \<and> map_option p_State (lookup (s_db cancelled) ''a'') = Some StateCanceled \<and>
      map_option p_State (lookup (s_db after) ''a'') = Some StateRunning \<and> Running after = 1"
  by (simp add: Stop_def cancelPending_def queued_node_def pending_rows_def
      order_asc_def is_pending_def dispatch_item_def expire_def supervisor_start_def Start_def launch_def
      nightly_def zero_Process_def new_world_def SetRegistry_def on_db_def empty_db_def Let_def Default_def
      TryAcquire_def NewSlots_def AcquireLock_def lookup_def exec_fails_def ticked_def TransitionTo_def
      ClearAttempt_def UpdateProcess_def upsertAttempt_def replace_row_def worker_of_def GetProcess_def
      quiet_def killGrace_def releaseLock_def OnExecutionSettled_def Notify_wake_def Release_def Running_def
      maxPendingPerWorker_def maxPendingBatch_def)

end
