(* ===== verification/Render.thy ===== *)
theory Render
  imports WorkerTypes
begin

text \<open>
  \<^verbatim>\<open>internal/config/render.go\<close> and \<^verbatim>\<open>Instantiate\<close>: request params are validated against the declaration
  of a worker and substituted into its arguments and its lock.

  The regular expression engine is a parameter, \<open>compile\<close>: a pattern either does not compile
  (\<open>None\<close>) or is a predicate on texts. The fixed pattern of a placeholder is not; it is the function
  \<open>match_at\<close>. A params map is an association list in the order in which it is ranged over.
\<close>

section \<open>Placeholders\<close>

definition is_ident :: "char \<Rightarrow> bool" where
  "is_ident c \<longleftrightarrow>
     (let n = (of_char c :: nat) in 97 \<le> n \<and> n \<le> 122 \<or> 65 \<le> n \<and> n \<le> 90 \<or> 48 \<le> n \<and> n \<le> 57 \<or> n = 95)"

text \<open>
  A match of \<^verbatim>\<open>\{\{([a-zA-Z_][a-zA-Z0-9_]*)\}\}\<close> at the front of a text: the name and what follows. No
  byte of a name is a brace, so the longest run of name bytes is the only candidate.
\<close>

definition match_at :: "string \<Rightarrow> (string \<times> string) option" where
  "match_at s =
     (let name = takeWhile is_ident (drop 2 s); rest = dropWhile is_ident (drop 2 s)
      in if HasPrefix s ''{{'' \<and> name \<noteq> [] \<and> \<not> is_digit (hd name) \<and> HasPrefix rest ''}}''
         then Some (name, drop 2 rest) else None)"

lemma match_at_shorter: "match_at s = Some (n, rest) \<Longrightarrow> length rest < length s"
proof -
  assume m: "match_at s = Some (n, rest)"
  then have "s \<noteq> []" by (auto simp: match_at_def HasPrefix_def)
  moreover have "rest = drop 2 (dropWhile is_ident (drop 2 s))"
    using m by (auto simp: match_at_def Let_def split: if_splits)
  moreover have "length (dropWhile is_ident (drop 2 s)) \<le> length (drop 2 s)" by (rule length_dropWhile_le)
  moreover have "2 \<le> length (dropWhile is_ident (drop 2 s))"
    using m by (auto simp: match_at_def Let_def HasPrefix_def split: if_splits)
      (metis length_Cons length_take list.size(3) min.absorb_iff2 min_def numeral_2_eq_2)
  ultimately show ?thesis by simp
qed

text \<open>The successive matches of the pattern from left to right, and the bytes between them.\<close>

datatype piece = Lit char | Hole string

function pieces :: "string \<Rightarrow> piece list" where
  "pieces [] = []"
| "pieces (c # cs) =
     (case match_at (c # cs) of
        Some (name, rest) \<Rightarrow> Hole name # pieces rest
      | None \<Rightarrow> Lit c # pieces cs)"
  by pat_completeness auto
termination by (relation "measure length") (auto dest: match_at_shorter)

declare pieces.simps [simp del]

definition placeholderNames :: "string \<Rightarrow> string list" where
  "placeholderNames s = List.map_filter (\<lambda>p. case p of Hole n \<Rightarrow> Some n | Lit _ \<Rightarrow> None) (pieces s)"

text \<open>An absent value is the zero value of a Go map: the empty text.\<close>

definition substitute :: "string \<Rightarrow> (string \<rightharpoonup> string) \<Rightarrow> string" where
  "substitute template values =
     (if template = [] then []
      else concat (map (\<lambda>p. case p of Lit c \<Rightarrow> [c]
                                  | Hole n \<Rightarrow> (case values n of None \<Rightarrow> [] | Some v \<Rightarrow> v))
             (pieces template)))"

definition placeholder :: "string \<Rightarrow> string" where
  "placeholder name = ''{{'' @ name @ ''}}''"

section \<open>Params\<close>

fun join :: "string \<Rightarrow> string list \<Rightarrow> string" where
  "join sep [] = []"
| "join sep [x] = x"
| "join sep (x # y # ys) = x @ sep @ join sep (y # ys)"

definition Param_validate :: "(string \<Rightarrow> (string \<Rightarrow> bool) option) \<Rightarrow> Param \<Rightarrow> string \<Rightarrow> string \<Rightarrow> error option" where
  "Param_validate compile p name v =
     (if pm_Enum p \<noteq> [] \<and> v \<notin> set (pm_Enum p)
      then Some (ParamError name (''must be one of '' @ join '', '' (pm_Enum p)))
      else if pm_Pattern p = '''' then None
      else case compile (pm_Pattern p) of
             None \<Rightarrow> Some ErrIO
           | Some matches \<Rightarrow>
               if matches v then None else Some (ParamError name ''does not match the declared pattern''))"

text \<open>The loop over the declared params; \<open>values\<close> grows with each param that has a value.\<close>

fun resolve_declared ::
  "(string \<Rightarrow> (string \<Rightarrow> bool) option) \<Rightarrow> (string \<rightharpoonup> string) \<Rightarrow> (string \<times> Param) list \<Rightarrow> (string \<rightharpoonup> string) \<Rightarrow>
     error + (string \<rightharpoonup> string)" where
  "resolve_declared compile given [] values = Inr values"
| "resolve_declared compile given ((name, p) # ps) values =
     (let take_value = (\<lambda>v. case Param_validate compile p name v of
                              Some e \<Rightarrow> Inl e
                            | None \<Rightarrow> resolve_declared compile given ps (values(name \<mapsto> v)))
      in case given name of
           Some v \<Rightarrow> take_value v
         | None \<Rightarrow>
             if pm_Required p then Inl (ParamError name ''is required'')
             else if pm_Default p \<noteq> '''' then take_value (pm_Default p)
             else resolve_declared compile given ps values)"

definition resolveParams ::
  "(string \<Rightarrow> (string \<Rightarrow> bool) option) \<Rightarrow> Worker \<Rightarrow> (string \<times> string) list \<Rightarrow> error + (string \<rightharpoonup> string)" where
  "resolveParams compile w params =
     (case find (\<lambda>(name, _). map_of (w_Params w) name = None) params of
        Some (name, _) \<Rightarrow> Inl (ParamError name ''is not declared by this worker'')
      | None \<Rightarrow> resolve_declared compile (map_of params) (w_Params w) Map.empty)"

record Resolved =
  rv_Args :: "string list"
  rv_Lock :: string

text \<open>One argument of the template: none when it is nothing but an absent placeholder.\<close>

definition resolve_arg :: "(string \<rightharpoonup> string) \<Rightarrow> string \<Rightarrow> string option" where
  "resolve_arg values arg =
     (case placeholderNames arg of
        [name] \<Rightarrow> if arg = placeholder name then values name else Some (substitute arg values)
      | _ \<Rightarrow> Some (substitute arg values))"

definition Resolve ::
  "(string \<Rightarrow> (string \<Rightarrow> bool) option) \<Rightarrow> Worker \<Rightarrow> (string \<times> string) list \<Rightarrow> error + Resolved" where
  "Resolve compile w params =
     (case resolveParams compile w params of
        Inl e \<Rightarrow> Inl e
      | Inr values \<Rightarrow>
          Inr \<lparr>rv_Args = List.map_filter (resolve_arg values) (w_Args w),
               rv_Lock = substitute (w_Lock w) values\<rparr>)"

text \<open>\<^verbatim>\<open>Instantiate\<close>: the fresh id and the clock are inputs.\<close>

definition Instantiate ::
  "(string \<Rightarrow> (string \<Rightarrow> bool) option) \<Rightarrow> string \<Rightarrow> gtime \<Rightarrow> Worker \<Rightarrow> (string \<times> string) list \<Rightarrow> error + Process" where
  "Instantiate compile new_id now w params =
     (case Resolve compile w params of
        Inl e \<Rightarrow> Inl e
      | Inr resolved \<Rightarrow>
          Inr (zero_Process\<lparr>p_ID := new_id, p_Worker := w_Name w, p_Type := w_Type w,
            p_State := StateCreated, p_Command := w_Command w, p_Args := rv_Args resolved,
            p_Env := w_Env w, p_Cwd := w_Cwd w, p_User := w_User w, p_Group := w_Group w,
            p_Lock := rv_Lock resolved, p_Timeout := w_Timeout w,
            p_MaxAttempts := EffectiveAttempts (w_Retry w), p_CreatedAt := now\<rparr>))"

section \<open>Substitution is verbatim\<close>

definition ident :: "string \<Rightarrow> bool" where
  "ident n \<longleftrightarrow> n \<noteq> [] \<and> list_all is_ident n \<and> \<not> is_digit (hd n)"

lemma brace_not_ident [simp]: "\<not> is_ident CHR ''{''" "\<not> is_ident CHR ''}''"
  by (simp_all add: is_ident_def)

lemma HasPrefix_two: "HasPrefix s [a, b] \<longleftrightarrow> (\<exists>t. s = a # b # t)"
  by (cases s; cases "tl s") (auto simp: HasPrefix_def)

lemma match_at_iff:
  "match_at s = Some (n, r) \<longleftrightarrow> ident n \<and> s = placeholder n @ r"
proof
  assume m: "match_at s = Some (n, r)"
  define t where "t = drop 2 s"
  have pre: "HasPrefix s ''{{''" and n: "n = takeWhile is_ident t" "n \<noteq> []" "\<not> is_digit (hd n)"
    and post: "HasPrefix (dropWhile is_ident t) ''}}''" and r: "r = drop 2 (dropWhile is_ident t)"
    using m by (simp_all add: match_at_def Let_def t_def split: if_splits)
  have s: "s = ''{{'' @ t" using pre by (auto simp: HasPrefix_two t_def)
  have "dropWhile is_ident t = ''}}'' @ r" using post r by (auto simp: HasPrefix_two)
  then have t: "t = n @ ''}}'' @ r" unfolding n(1) by (metis takeWhile_dropWhile_id)
  have "list_all is_ident n" unfolding n(1) by (metis Ball_set set_takeWhileD)
  then show "ident n \<and> s = placeholder n @ r" unfolding ident_def placeholder_def using n(2,3) s t by simp
next
  assume "ident n \<and> s = placeholder n @ r"
  then have n: "list_all is_ident n" "n \<noteq> []" "\<not> is_digit (hd n)" and s: "s = ''{{'' @ n @ ''}}'' @ r"
    by (auto simp: ident_def placeholder_def)
  have "takeWhile is_ident (n @ ''}}'' @ r) = n" "dropWhile is_ident (n @ ''}}'' @ r) = ''}}'' @ r"
    using n(1) by (simp_all add: takeWhile_append dropWhile_append list_all_iff)
  then show "match_at s = Some (n, r)" using n by (simp add: s match_at_def HasPrefix_two)
qed

lemma pieces_placeholder: "ident n \<Longrightarrow> pieces (placeholder n @ t) = Hole n # pieces t"
  using match_at_iff [of "placeholder n @ t" n t] by (simp add: placeholder_def pieces.simps)

text \<open>A match that begins in \<open>s\<close> ends in \<open>s\<close>: the next placeholder starts with a brace.\<close>

lemma ident_split:
  assumes "ident n" and "ident m" and "placeholder n @ r = s @ placeholder m @ t" and "s \<noteq> []"
  shows "\<exists>r'. s = placeholder n @ r' \<and> r = r' @ placeholder m @ t"
proof -
  have "length (placeholder n) \<le> length s"
  proof (rule ccontr)
    assume short: "\<not> length (placeholder n) \<le> length s"
    define k where "k = length s"
    have k: "0 < k" "k < length n + 4" using short assms(4) by (auto simp: k_def placeholder_def)
    have eq: "(placeholder n @ r) ! i = (s @ placeholder m @ t) ! i" for i using assms(3) by simp
    have open': "(placeholder n @ r) ! k = CHR ''{''" "(placeholder n @ r) ! Suc k = CHR ''{''"
      unfolding eq by (simp_all add: k_def placeholder_def nth_append)
    have nth: "(placeholder n @ r) ! i =
        (if i < 2 then CHR ''{'' else if i < length n + 2 then n ! (i - 2) else CHR ''}'')"
      if "i < length n + 4" for i
      using that by (auto simp: placeholder_def nth_append nth_Cons' numeral_2_eq_2)
    have name: "n ! j \<noteq> CHR ''{''" if "j < length n" for j
      using assms(1) that by (metis brace_not_ident(1) ident_def list_all_length)
    have "k < 2"
    proof (rule ccontr)
      assume "\<not> k < 2"
      then have "k < length n + 2 \<Longrightarrow> k - 2 < length n" by linarith
      then show False using open'(1) k nth [of k] name [of "k - 2"] \<open>\<not> k < 2\<close> by (auto split: if_splits)
    qed
    then have "k = 1" using k(1) by simp
    moreover have "(placeholder n @ r) ! 2 \<noteq> CHR ''{''"
      using nth [of 2] name [of 0] by auto
    ultimately show False using open'(2) by (simp add: numeral_2_eq_2)
  qed
  then show ?thesis using assms(3) by (auto simp: append_eq_append_conv2)
qed

lemma pieces_append: "ident n \<Longrightarrow> pieces (s @ placeholder n @ t) = pieces s @ Hole n # pieces t"
proof (induction s rule: pieces.induct)
  case 1
  then show ?case by (simp add: pieces_placeholder pieces.simps)
next
  case (2 c cs)
  show ?case
  proof (cases "match_at (c # cs)")
    case (Some mr)
    obtain m r where mr: "mr = (m, r)" by fastforce
    then have m: "ident m" "c # cs = placeholder m @ r" using Some by (auto simp: match_at_iff)
    then have "pieces (c # cs @ placeholder n @ t) = Hole m # pieces (r @ placeholder n @ t)"
      using pieces_placeholder [OF m(1)] by (metis append_Cons append_assoc)
    then show ?thesis using 2 Some mr by (simp add: pieces.simps)
  next
    case None
    have "match_at (c # cs @ placeholder n @ t) = None"
    proof (rule ccontr)
      assume "match_at (c # cs @ placeholder n @ t) \<noteq> None"
      then obtain m r where m: "ident m" "c # cs @ placeholder n @ t = placeholder m @ r"
        by (auto simp: match_at_iff)
      then obtain r' where "c # cs = placeholder m @ r'"
        using ident_split [OF m(1) 2(3), of r "c # cs" t] by auto
      then show False using None m(1) match_at_iff by (metis option.distinct(1))
    qed
    then show ?thesis using 2 None by (simp add: pieces.simps)
  qed
qed

lemma pieces_nil [simp]: "pieces [] = []"
  by (simp add: pieces.simps)

lemma substitute_eq:
  "substitute s values = concat (map (\<lambda>p. case p of Lit c \<Rightarrow> [c]
     | Hole n \<Rightarrow> (case values n of None \<Rightarrow> [] | Some v \<Rightarrow> v)) (pieces s))"
  by (simp add: substitute_def)

text \<open>
  Substitution is verbatim. Wherever a placeholder stands in a template it is replaced by the
  value, byte for byte: the value is not scanned again, so a value that looks like a placeholder
  stays text, and the text on either side is substituted as if the placeholder were not there.
\<close>

theorem substitute_verbatim:
  assumes "ident n"
  shows "substitute (s @ placeholder n @ t) values =
    substitute s values @ (case values n of None \<Rightarrow> [] | Some v \<Rightarrow> v) @ substitute t values"
  by (simp add: substitute_eq pieces_append [OF assms])

theorem substitute_verbatim_witness:
  "substitute (''--id='' @ placeholder ''id'' @ '' x'') [''id'' \<mapsto> ''{{other}}'', ''other'' \<mapsto> ''secret''] =
     ''--id={{other}} x''"
proof -
  let ?v = "[''id'' \<mapsto> ''{{other}}'', ''other'' \<mapsto> ''secret'']"
  have "ident ''id''" by (simp add: ident_def is_ident_def is_digit_def)
  moreover have "substitute ''--id='' ?v = ''--id=''" "substitute '' x'' ?v = '' x''"
    by (simp_all add: substitute_eq pieces.simps match_at_def HasPrefix_def)
  ultimately show ?thesis by (simp only: substitute_verbatim [of "''id''" "''--id=''" "'' x''" ?v]) simp
qed

section \<open>What a request can reach\<close>

definition effective :: "(string \<rightharpoonup> string) \<Rightarrow> string \<Rightarrow> Param \<Rightarrow> string option" where
  "effective given name p =
     (case given name of
        Some v \<Rightarrow> Some v
      | None \<Rightarrow> if pm_Default p \<noteq> '''' then Some (pm_Default p) else None)"

definition acceptable ::
  "(string \<Rightarrow> (string \<Rightarrow> bool) option) \<Rightarrow> (string \<rightharpoonup> string) \<Rightarrow> string \<Rightarrow> Param \<Rightarrow> bool" where
  "acceptable compile given name p \<longleftrightarrow>
     (pm_Required p \<longrightarrow> given name \<noteq> None) \<and>
     (case effective given name p of None \<Rightarrow> True | Some v \<Rightarrow> Param_validate compile p name v = None)"

lemma resolve_declared_iff:
  "distinct (map fst ps) \<Longrightarrow>
   resolve_declared compile given ps vals = Inr vals' \<longleftrightarrow>
     (\<forall>(name, p) \<in> set ps. acceptable compile given name p) \<and>
     vals' = (\<lambda>name. case map_of ps name of
        None \<Rightarrow> vals name
      | Some p \<Rightarrow> (case effective given name p of None \<Rightarrow> vals name | Some v \<Rightarrow> Some v))"
proof (induction ps arbitrary: vals)
  case Nil
  then show ?case by auto
next
  case (Cons np ps)
  obtain name p where np: "np = (name, p)" by fastforce
  have new: "map_of ps name = None" using Cons.prems np by (auto simp: map_of_eq_None_iff)
  have d: "distinct (map fst ps)" using Cons.prems by simp
  show ?case
  proof (cases "effective given name p")
    case None
    then have "given name = None \<and> pm_Default p = ''''"
      by (auto simp: effective_def split: option.splits if_splits)
    then have "resolve_declared compile given (np # ps) vals =
        (if pm_Required p then Inl (ParamError name ''is required'') else resolve_declared compile given ps vals)"
      by (simp add: np Let_def)
    moreover have "(\<lambda>n. case map_of ps n of None \<Rightarrow> vals n
        | Some q \<Rightarrow> (case effective given n q of None \<Rightarrow> vals n | Some u \<Rightarrow> Some u)) =
      (\<lambda>n. case map_of (np # ps) n of None \<Rightarrow> vals n
        | Some q \<Rightarrow> (case effective given n q of None \<Rightarrow> vals n | Some u \<Rightarrow> Some u))"
      using new None by (auto simp: np fun_eq_iff split: option.splits)
    moreover have "acceptable compile given name p \<longleftrightarrow> \<not> pm_Required p"
      using None \<open>given name = None \<and> pm_Default p = ''''\<close> by (simp add: acceptable_def)
    ultimately show ?thesis using Cons.IH [OF d, of vals] by (simp add: np)
  next
    case (Some v)
    have step: "resolve_declared compile given (np # ps) vals =
        (if pm_Required p \<and> given name = None then Inl (ParamError name ''is required'')
         else case Param_validate compile p name v of
           Some e \<Rightarrow> Inl e | None \<Rightarrow> resolve_declared compile given ps (vals(name \<mapsto> v)))"
      using Some by (auto simp: np effective_def Let_def split: option.splits if_splits)
    have eq: "(\<lambda>n. case map_of ps n of None \<Rightarrow> (vals(name \<mapsto> v)) n
        | Some q \<Rightarrow> (case effective given n q of None \<Rightarrow> (vals(name \<mapsto> v)) n | Some u \<Rightarrow> Some u)) =
      (\<lambda>n. case map_of (np # ps) n of None \<Rightarrow> vals n
        | Some q \<Rightarrow> (case effective given n q of None \<Rightarrow> vals n | Some u \<Rightarrow> Some u))"
      using new Some by (auto simp: np fun_eq_iff split: option.splits)
    note ih = Cons.IH [OF d, of "vals(name \<mapsto> v)", unfolded eq]
    have acc: "acceptable compile given name p \<longleftrightarrow>
        \<not> (pm_Required p \<and> given name = None) \<and> Param_validate compile p name v = None"
      using Some by (simp add: acceptable_def)
    then have all: "(\<forall>(n, q) \<in> set (np # ps). acceptable compile given n q) \<longleftrightarrow>
        \<not> (pm_Required p \<and> given name = None) \<and> Param_validate compile p name v = None \<and>
        (\<forall>(n, q) \<in> set ps. acceptable compile given n q)"
      by (simp add: np)
    show ?thesis
      unfolding step all
      by (cases "Param_validate compile p name v"; cases "pm_Required p \<and> given name = None")
        (simp_all only: ih if_True if_False option.case simp_thms, simp_all)
  qed
qed

lemma Resolve_iff:
  assumes "distinct (map fst (w_Params w))"
    and "values = (\<lambda>name. case map_of (w_Params w) name of
           None \<Rightarrow> None | Some p \<Rightarrow> effective (map_of params) name p)"
  shows "Resolve compile w params = Inr rv \<longleftrightarrow>
    set (map fst params) \<subseteq> set (map fst (w_Params w)) \<and>
    (\<forall>(name, p) \<in> set (w_Params w). acceptable compile (map_of params) name p) \<and>
    rv = \<lparr>rv_Args = List.map_filter (resolve_arg values) (w_Args w), rv_Lock = substitute (w_Lock w) values\<rparr>"
proof -
  have "(\<lambda>name. case map_of (w_Params w) name of None \<Rightarrow> None
      | Some p \<Rightarrow> (case effective (map_of params) name p of None \<Rightarrow> None | Some v \<Rightarrow> Some v)) = values"
    unfolding assms(2) by (auto simp: fun_eq_iff split: option.splits)
  then have dec: "resolve_declared compile (map_of params) (w_Params w) Map.empty = Inr vs \<longleftrightarrow>
      (\<forall>(name, p) \<in> set (w_Params w). acceptable compile (map_of params) name p) \<and> vs = values" for vs
    using resolve_declared_iff [OF assms(1), of compile "map_of params" Map.empty vs] by auto
  have und: "find (\<lambda>(name, _). map_of (w_Params w) name = None) params = None \<longleftrightarrow>
      set (map fst params) \<subseteq> set (map fst (w_Params w))"
    by (simp add: find_None_iff map_of_eq_None_iff subset_iff) force
  show ?thesis
  proof (cases "resolve_declared compile (map_of params) (w_Params w) Map.empty")
    case (Inl e)
    then have "\<not> (\<forall>(name, p) \<in> set (w_Params w). acceptable compile (map_of params) name p)"
      using dec [of "values"] by auto
    then show ?thesis using Inl by (auto simp: Resolve_def resolveParams_def split: option.splits)
  next
    case (Inr vs)
    then show ?thesis
      using dec [of vs] und by (auto simp: Resolve_def resolveParams_def split: option.splits)
  qed
qed

text \<open>
  C19. What a request can reach. \<^verbatim>\<open>Resolve\<close> succeeds exactly when every name in the request is declared,
  every required param is given, and every value, given or default, has the declared shape. Then each
  argument of the template yields one argument of the process, or none when it is just a placeholder
  without a value: no value adds, splits or merges arguments.
\<close>

theorem Resolve_spec:
  assumes "distinct (map fst (w_Params w))"
    and "values = (\<lambda>name. case map_of (w_Params w) name of
           None \<Rightarrow> None | Some p \<Rightarrow> effective (map_of params) name p)"
  shows "Resolve compile w params = Inr rv \<longleftrightarrow>
    set (map fst params) \<subseteq> set (map fst (w_Params w)) \<and>
    (\<forall>(name, p) \<in> set (w_Params w). acceptable compile (map_of params) name p) \<and>
    rv = \<lparr>rv_Args = List.map_filter (resolve_arg values) (w_Args w), rv_Lock = substitute (w_Lock w) values\<rparr>"
  by (rule Resolve_iff [OF assms])

definition greeter :: Worker where
  "greeter = zero_Worker\<lparr>w_Args := [''-n'', ''{{name}}''],
     w_Params := [(''name'', \<lparr>pm_Required = True, pm_Pattern = '''', pm_Enum = [], pm_Default = ''''\<rparr>)]\<rparr>"

theorem Resolve_spec_witness:
  "\<exists>rv. Resolve (\<lambda>_. None) greeter [(''name'', ''a b; rm -rf /'')] = Inr rv"
  using Resolve_spec [of greeter _ "[(''name'', ''a b; rm -rf /'')]" "\<lambda>_. None", OF _ refl]
  by (simp add: greeter_def acceptable_def effective_def Param_validate_def)

end
