(* ===== verification/Workers.thy ===== *)
theory Workers
  imports Render Config "HOL-Library.List_Lexorder" "HOL-Library.Char_ord"
begin

text \<open>
  The rest of \<^verbatim>\<open>internal/config/workers.go\<close>: the defaults and the validation of a worker, and the loading
  of \<^verbatim>\<open>workers.d\<close>; and the validation of the daemon configuration. An error is the constructor of the
  message the code reports; \<^verbatim>\<open>errors.Join\<close> of a list is the list.

  Three library services are parameters: the regular expression compiler, the time zone database
  and the URL parser (of which only the scheme and the host are used).
\<close>

record Libs =
  lib_compile :: "string \<Rightarrow> (string \<Rightarrow> bool) option"
  lib_location :: "string \<Rightarrow> Location option"
  lib_url :: "string \<Rightarrow> (string \<times> string) option"

definition IsAbs :: "string \<Rightarrow> bool" where
  "IsAbs p = HasPrefix p ''/''"

section \<open>Defaults\<close>

definition applyNotifyDefaults :: "Notify \<Rightarrow> Notify" where
  "applyNotifyDefaults n =
     (case n_Webhook n of
        None \<Rightarrow> n
      | Some h \<Rightarrow> n\<lparr>n_Webhook := Some (h\<lparr>
          h_Method := (if h_Method h = '''' then ''POST'' else h_Method h),
          h_Timeout := (if h_Timeout h = 0 then 5 * second else h_Timeout h)\<rparr>)\<rparr>)"

definition applyRetryDefaults :: "Retry \<Rightarrow> Type \<Rightarrow> Retry" where
  "applyRetryDefaults r kind =
     (let service = (kind = TypeService); b = r_Backoff r in
      r\<lparr>r_MaxAttempts := (if r_MaxAttempts r = 0 then (if service then AttemptsUnlimited else 1) else r_MaxAttempts r),
        r_RetryOn := (if r_RetryOn r = []
          then [RetryOnNonZeroExit, RetryOnSignal, RetryOnStartError] @ (if service then [RetryOnExit] else [])
          else r_RetryOn r),
        r_SuccessExitCodes := (if r_SuccessExitCodes r = [] \<and> \<not> service then [0] else r_SuccessExitCodes r),
        r_Backoff := b\<lparr>
          bo_Type := (if bo_Type b = BackoffOther '''' then BackoffExponential else bo_Type b),
          bo_Initial := (if bo_Initial b = 0 then 5 * second else bo_Initial b),
          bo_Max := (if bo_Max b = 0 then 5 * minute else bo_Max b),
          bo_Multiplier := (if bo_Multiplier b = Num 0 then Num 2 else bo_Multiplier b)\<rparr>\<rparr>)"

definition applyWorkerDefaults :: "Worker \<Rightarrow> Worker" where
  "applyWorkerDefaults w =
     (let kind = (if w_Type w = TypeOther '''' then TypeTask else w_Type w);
          r = (if kind = TypeService \<and> r_Enabled (w_Retry w) = None
               then (w_Retry w)\<lparr>r_Enabled := Some True\<rparr> else w_Retry w)
      in w\<lparr>w_Type := kind,
           w_Cwd := (if w_Cwd w = '''' then ''/'' else w_Cwd w),
           w_LockConflict := (if w_LockConflict w = LockConflictOther '''' then LockConflictQueue else w_LockConflict w),
           w_KillGrace := (if w_KillGrace w = 0 then 15 * second else w_KillGrace w),
           w_Retry := (if Retry_IsEnabled r then applyRetryDefaults r kind else r),
           w_Notify := applyNotifyDefaults (w_Notify w)\<rparr>)"

section \<open>Validation\<close>

datatype worker_err =
    NameEmpty
  | TypeUnsupported
  | CommandNotAbsolute
  | CwdNotAbsolute
  | MaxProcessesNegative
  | LockConflictUnknown
  | ParamPattern string
  | ArgPlaceholder string
  | LockPlaceholder string
  | PolicyWithoutRetry
  | MaxAttemptsTooSmall
  | JitterOutOfRange
  | MultiplierNegative
  | InitialNegative
  | MaxNegative
  | BackoffTypeUnknown
  | RetryOnUnknown
  | MaxFilesNegative
  | ScheduleWithoutCron
  | ScheduleOfService
  | ScheduleJitterNegative
  | ScheduleTimezone
  | ScheduleCron cron_error
  | ScheduleRequiresParam string
  | NotifyOnEmpty
  | NotifyOnUnknown
  | NotifyNoTarget
  | NotifyExecUnnamed
  | WebhookURL
  | WebhookScheme
  | WebhookHost
  | WebhookTimeout
  | WebhookRetry
  | WebhookLogTail
  | RetryOnExitOfTask
  | UnlimitedTask
  | ServiceRetryDisabled
  | ServiceTimeout
  | ServiceSuccessCodes
  | ServiceMaxFiles
  | FileUnreadable
  | DeclaredTwice string
  | Invalid string "worker_err list"
  | NotifyTargetMissing string
  | NotifyTargetNotifies string
  | NotifyTargetService string
  | NotifyTargetRequires string string

definition err_if :: "bool \<Rightarrow> 'e \<Rightarrow> 'e list" where
  "err_if b e = (if b then [e] else [])"

lemma err_if_simps [simp]: "err_if b e = [] \<longleftrightarrow> \<not> b" "err_if True e = [e]" "err_if False e = []"
  by (simp_all add: err_if_def)

definition validateParams :: "Libs \<Rightarrow> Worker \<Rightarrow> worker_err list" where
  "validateParams lib w =
     concat (map (\<lambda>(name, p). err_if (pm_Pattern p \<noteq> '''' \<and> lib_compile lib (pm_Pattern p) = None) (ParamPattern name))
       (w_Params w)) @
     concat (map (\<lambda>name. err_if (map_of (w_Params w) name = None) (ArgPlaceholder name))
       (concat (map placeholderNames (w_Args w)))) @
     concat (map (\<lambda>name. err_if (map_of (w_Params w) name = None) (LockPlaceholder name))
       (placeholderNames (w_Lock w)))"

definition validateRetry :: "Worker \<Rightarrow> worker_err list" where
  "validateRetry w =
     (let r = w_Retry w; b = r_Backoff r in
      if \<not> Retry_IsEnabled r then err_if (declaresPolicy r) PolicyWithoutRetry
      else err_if (r_MaxAttempts r < 1 \<and> r_MaxAttempts r \<noteq> AttemptsUnlimited) MaxAttemptsTooSmall @
           err_if (f_lt (bo_Jitter b) (Num 0) \<or> f_lt (Num 1) (bo_Jitter b)) JitterOutOfRange @
           err_if (f_lt (bo_Multiplier b) (Num 0)) MultiplierNegative @
           err_if (bo_Initial b < 0) InitialNegative @
           err_if (bo_Max b < 0) MaxNegative @
           err_if (bo_Type b \<notin> {BackoffExponential, BackoffLinear, BackoffFixed}) BackoffTypeUnknown @
           concat (map (\<lambda>t. err_if (t \<notin> set retryTriggers) RetryOnUnknown) (r_RetryOn r)))"

definition validateLogs :: "Worker \<Rightarrow> worker_err list" where
  "validateLogs w = err_if (l_MaxFiles (w_Logs w) < 0) MaxFilesNegative"

text \<open>The compiled expression is stored on the worker, also when another check fails.\<close>

definition validateSchedule :: "Libs \<Rightarrow> Worker \<Rightarrow> worker_err list \<times> Worker" where
  "validateSchedule lib w =
     (let s = w_Schedule w in
      if \<not> Schedule_IsSet s
      then (err_if (sd_Timezone s \<noteq> '''' \<or> sd_CatchUp s \<or> sd_Jitter s \<noteq> 0) ScheduleWithoutCron, w)
      else
        let zone = (if sd_Timezone s = '''' then Some UTC else lib_location lib (sd_Timezone s));
            location = (case zone of None \<Rightarrow> UTC | Some l \<Rightarrow> l);
            compiled = Parse (sd_Cron s) (Some location)
        in (err_if (w_Type w = TypeService) ScheduleOfService @
            err_if (sd_Jitter s < 0) ScheduleJitterNegative @
            err_if (zone = None) ScheduleTimezone @
            (case compiled of Inl e \<Rightarrow> [ScheduleCron e] | Inr _ \<Rightarrow> []) @
            concat (map (\<lambda>(name, p). err_if (pm_Required p) (ScheduleRequiresParam name)) (w_Params w)),
            case compiled of Inl _ \<Rightarrow> w | Inr c \<Rightarrow> w\<lparr>w_Schedule := s\<lparr>sd_compiled := Some c\<rparr>\<rparr>))"

text \<open>\<^verbatim>\<open>url.Parse\<close> then scheme and host, as every configured URL is checked.\<close>

definition url_errors :: "Libs \<Rightarrow> string \<Rightarrow> 'e \<Rightarrow> 'e \<Rightarrow> 'e \<Rightarrow> 'e list" where
  "url_errors lib u bad scheme host =
     (case lib_url lib u of
        None \<Rightarrow> [bad]
      | Some (s, h) \<Rightarrow>
          if s \<noteq> ''http'' \<and> s \<noteq> ''https'' then [scheme] else if h = '''' then [host] else [])"

definition Webhook_validate :: "Libs \<Rightarrow> NotifyWebhook \<Rightarrow> worker_err list" where
  "Webhook_validate lib h =
     url_errors lib (h_URL h) WebhookURL WebhookScheme WebhookHost @
     err_if (h_Timeout h \<le> 0) WebhookTimeout @
     err_if (h_Retry h < 0) WebhookRetry @
     err_if (h_IncludeLogTail h < 0) WebhookLogTail"

definition Notify_validate :: "Libs \<Rightarrow> Notify \<Rightarrow> worker_err list" where
  "Notify_validate lib n =
     (if \<not> Notify_IsSet n then []
      else err_if (n_On n = []) NotifyOnEmpty @
           concat (map (\<lambda>e. err_if (e \<notin> set notifyEvents) NotifyOnUnknown) (n_On n)) @
           err_if (n_Webhook n = None \<and> n_Exec n = None) NotifyNoTarget @
           (case n_Webhook n of None \<Rightarrow> [] | Some h \<Rightarrow> Webhook_validate lib h) @
           (case n_Exec n of None \<Rightarrow> [] | Some x \<Rightarrow> err_if (x_Worker x = '''') NotifyExecUnnamed))"

definition validateService :: "Worker \<Rightarrow> worker_err list" where
  "validateService w =
     err_if (r_Enabled (w_Retry w) = Some False) ServiceRetryDisabled @
     err_if (w_Timeout w \<noteq> 0) ServiceTimeout @
     err_if (r_SuccessExitCodes (w_Retry w) \<noteq> []) ServiceSuccessCodes @
     err_if (l_MaxFiles (w_Logs w) < 1) ServiceMaxFiles"

definition validateType :: "Worker \<Rightarrow> worker_err list" where
  "validateType w =
     (if w_Type w = TypeService then validateService w
      else err_if (RetryOnExit \<in> set (r_RetryOn (w_Retry w))) RetryOnExitOfTask @
           err_if (r_MaxAttempts (w_Retry w) = AttemptsUnlimited) UnlimitedTask)"

definition Worker_Validate :: "Libs \<Rightarrow> Worker \<Rightarrow> worker_err list \<times> Worker" where
  "Worker_Validate lib w =
     (let (schedule_errs, w') = validateSchedule lib w in
      (err_if (w_Name w = '''') NameEmpty @
       err_if (w_Type w \<notin> {TypeTask, TypeService}) TypeUnsupported @
       err_if (\<not> IsAbs (w_Command w)) CommandNotAbsolute @
       err_if (\<not> IsAbs (w_Cwd w)) CwdNotAbsolute @
       err_if (w_MaxProcesses w < 0) MaxProcessesNegative @
       err_if (w_LockConflict w \<notin> {LockConflictQueue, LockConflictReject}) LockConflictUnknown @
       validateParams lib w @ validateRetry w @ validateLogs w @ schedule_errs @
       Notify_validate lib (w_Notify w) @ validateType w, w'))"

section \<open>Loading\<close>

definition Registry_All :: "Registry \<Rightarrow> Worker list" where
  "Registry_All reg = sort_key w_Name (map snd reg)"

definition notify_target_errors :: "Registry \<Rightarrow> Worker \<Rightarrow> worker_err list" where
  "notify_target_errors reg w =
     (case n_Exec (w_Notify w) of
        None \<Rightarrow> []
      | Some x \<Rightarrow>
          (case map_of reg (x_Worker x) of
             None \<Rightarrow> [NotifyTargetMissing (w_Name w)]
           | Some target \<Rightarrow>
               err_if (Notify_IsSet (w_Notify target)) (NotifyTargetNotifies (w_Name w)) @
               err_if (w_Type target = TypeService) (NotifyTargetService (w_Name w)) @
               concat (map (\<lambda>(param, declared).
                   err_if (pm_Required declared \<and> param \<notin> set NotifyParams) (NotifyTargetRequires (w_Name w) param))
                 (w_Params target))))"

definition validateNotifyTargets :: "Registry \<Rightarrow> worker_err list" where
  "validateNotifyTargets reg = concat (map (notify_target_errors reg) (Registry_All reg))"

text \<open>
  One entry of the workers of a file. A null entry decodes to a nil pointer, whose name is read
  before anything else: \<open>None\<close> is that panic.
\<close>

definition load_worker :: "Libs \<Rightarrow> Worker option \<Rightarrow> worker_err list \<times> Registry \<Rightarrow> (worker_err list \<times> Registry) option" where
  "load_worker lib entry = (\<lambda>(errs, reg).
     case entry of
       None \<Rightarrow> None
     | Some w \<Rightarrow> Some
         (if map_of reg (w_Name w) \<noteq> None then (errs @ [DeclaredTwice (w_Name w)], reg)
          else case Worker_Validate lib (applyWorkerDefaults w) of
                 ([], w) \<Rightarrow> (errs, reg @ [(w_Name w, w)])
               | (es, _) \<Rightarrow> (errs @ [Invalid (w_Name w) es], reg)))"

fun load_all :: "Libs \<Rightarrow> Worker option list \<Rightarrow> worker_err list \<times> Registry \<Rightarrow> (worker_err list \<times> Registry) option" where
  "load_all lib [] acc = Some acc"
| "load_all lib (e # es) acc = Option.bind (load_worker lib e acc) (load_all lib es)"

text \<open>The files of the directory in order: \<open>None\<close> for one that cannot be opened or parsed.\<close>

fun load_files :: "Libs \<Rightarrow> Worker option list option list \<Rightarrow> worker_err list \<times> Registry \<Rightarrow> (worker_err list \<times> Registry) option" where
  "load_files lib [] acc = Some acc"
| "load_files lib (None # fs) (errs, reg) = load_files lib fs (errs @ [FileUnreadable], reg)"
| "load_files lib (Some ws # fs) acc = Option.bind (load_all lib ws acc) (load_files lib fs)"

definition LoadWorkers :: "Libs \<Rightarrow> Worker option list option list \<Rightarrow> (worker_err list + Registry) option" where
  "LoadWorkers lib files =
     map_option (\<lambda>(errs, reg).
         let errs = errs @ validateNotifyTargets reg in if errs \<noteq> [] then Inl errs else Inr reg)
       (load_files lib files ([], []))"

section \<open>The daemon configuration\<close>

datatype config_err =
    ListenEmpty
  | MaxProcessesNotPositive
  | MaxDepthNotPositive
  | MaxBytesNotPositive
  | OrphanPolicyUnknown
  | RawWithoutCommands
  | ExecutionModeUnknown
  | AllowedCommandNotAbsolute string
  | ConfigNotify worker_err
  | FleetWithoutNodes
  | PollIntervalNotPositive
  | FleetTimeoutNotPositive
  | NodeUnnamed nat
  | NodeTwice nat
  | NodeURL nat
  | NodeScheme nat
  | NodeHost nat
  | NodeTokenFile nat
  | TokenIncomplete nat

definition validateExecution :: "Config \<Rightarrow> config_err list" where
  "validateExecution c =
     (case c_ExecutionMode c of
        ExecutionModeWorkers \<Rightarrow> []
      | ExecutionModeRaw \<Rightarrow> err_if (c_AllowedCommands c = []) RawWithoutCommands
      | ExecutionModeOther _ \<Rightarrow> [ExecutionModeUnknown]) @
     concat (map (\<lambda>cmd. err_if (\<not> IsAbs cmd) (AllowedCommandNotAbsolute cmd)) (c_AllowedCommands c))"

definition FleetNode_validate :: "Libs \<Rightarrow> nat \<Rightarrow> FleetNode \<Rightarrow> string set \<Rightarrow> config_err list \<times> string set" where
  "FleetNode_validate lib index n seen =
     (let (name_errs, seen) =
        (if fn_Name n = '''' then ([NodeUnnamed index], seen)
         else if fn_Name n \<in> seen then ([NodeTwice index], seen)
         else ([], insert (fn_Name n) seen))
      in (name_errs @ url_errors lib (fn_URL n) (NodeURL index) (NodeScheme index) (NodeHost index) @
          err_if (\<not> IsAbs (fn_TokenFile n)) (NodeTokenFile index), seen))"

fun validate_nodes :: "Libs \<Rightarrow> nat \<Rightarrow> FleetNode list \<Rightarrow> string set \<Rightarrow> config_err list" where
  "validate_nodes lib i [] seen = []"
| "validate_nodes lib i (n # ns) seen =
     (case FleetNode_validate lib i n seen of (errs, seen) \<Rightarrow> errs @ validate_nodes lib (Suc i) ns seen)"

definition Fleet_validate :: "Libs \<Rightarrow> Fleet \<Rightarrow> config_err list" where
  "Fleet_validate lib f =
     (if \<not> Fleet_IsSet f then err_if (fl_PollInterval f \<noteq> 0 \<or> fl_Timeout f \<noteq> 0) FleetWithoutNodes
      else validate_nodes lib 0 (fl_Nodes f) {} @
           err_if (fl_PollInterval f \<le> 0) PollIntervalNotPositive @
           err_if (fl_Timeout f \<le> 0) FleetTimeoutNotPositive)"

definition Config_Validate :: "Libs \<Rightarrow> Config \<Rightarrow> config_err list" where
  "Config_Validate lib c =
     err_if (c_Listen c = '''') ListenEmpty @
     err_if (c_MaxProcesses c \<le> 0) MaxProcessesNotPositive @
     err_if (q_MaxDepth (c_Queue c) \<le> 0) MaxDepthNotPositive @
     err_if (lg_MaxBytesPerStream (c_Logs c) \<le> 0) MaxBytesNotPositive @
     err_if (c_OrphanPolicy c \<notin> {OrphanPolicyKill, OrphanPolicyLeave}) OrphanPolicyUnknown @
     validateExecution c @ map ConfigNotify (Notify_validate lib (c_Notify c)) @
     Fleet_validate lib (c_Fleet c) @
     concat (map (\<lambda>(i, t). err_if (t_Name t = '''' \<or> t_Hash t = '''') (TokenIncomplete i))
       (enumerate 0 (c_Tokens c)))"

text \<open>
  \<^verbatim>\<open>Load\<close>: a missing file gives the defaults; \<open>decode\<close> is what decoding the file over the defaults
  answers.
\<close>

definition Load :: "Libs \<Rightarrow> (Config \<Rightarrow> Config option) option \<Rightarrow> (config_err list + Config) option" where
  "Load lib file =
     (let checked = (\<lambda>c. case Config_Validate lib c of [] \<Rightarrow> Inr c | errs \<Rightarrow> Inl errs)
      in case file of
           None \<Rightarrow> Some (checked Default)
         | Some decode \<Rightarrow>
             map_option (\<lambda>c. checked (c\<lparr>c_Notify := applyNotifyDefaults (c_Notify c),
                                        c_Fleet := applyFleetDefaults (c_Fleet c)\<rparr>)) (decode Default))"

end
