(* ===== verification/WorkersProps.thy ===== *)
theory WorkersProps
  imports Workers Retry
begin

text \<open>
  What a loaded registry guarantees to the rest of the daemon, the defaults of the two execution
  types, and what validation lets through.
\<close>

section \<open>Validation keeps a worker\<close>

lemma validateSchedule_frame:
  "validateSchedule lib w = (errs, w') \<Longrightarrow> w' = w\<lparr>w_Schedule := w_Schedule w'\<rparr> \<and>
     (errs = [] \<longrightarrow> Schedule_IsSet (w_Schedule w) \<longrightarrow>
        (\<exists>l c. Parse (sd_Cron (w_Schedule w)) (Some l) = Inr c \<and> w_Schedule w' = (w_Schedule w)\<lparr>sd_compiled := Some c\<rparr> \<and>
           (if sd_Timezone (w_Schedule w) = '''' then l = UTC else lib_location lib (sd_Timezone (w_Schedule w)) = Some l)))"
  by (auto simp: validateSchedule_def Let_def split: if_splits sum.splits option.splits)

lemma Validate_frame:
  assumes "Worker_Validate lib w = (errs, w')"
  shows "w' = w\<lparr>w_Schedule := w_Schedule w'\<rparr>"
  using assms validateSchedule_frame [of lib w _ w']
  by (cases "validateSchedule lib w") (auto simp: Worker_Validate_def)

definition accepted :: "Libs \<Rightarrow> Worker \<Rightarrow> bool" where
  "accepted lib w \<longleftrightarrow> (\<exists>raw. Worker_Validate lib (applyWorkerDefaults raw) = ([], w))"

section \<open>What the defaults settle\<close>

lemma applyWorkerDefaults_fields:
  "w_Name (applyWorkerDefaults w) = w_Name w"
  "w_Type (applyWorkerDefaults w) = (if w_Type w = TypeOther '''' then TypeTask else w_Type w)"
  "w_Params (applyWorkerDefaults w) = w_Params w" "w_Args (applyWorkerDefaults w) = w_Args w"
  "w_Lock (applyWorkerDefaults w) = w_Lock w" "w_Schedule (applyWorkerDefaults w) = w_Schedule w"
  "w_KillGrace (applyWorkerDefaults w) = (if w_KillGrace w = 0 then 15 * second else w_KillGrace w)"
  "w_Retry (applyWorkerDefaults w) =
     (let kind = w_Type (applyWorkerDefaults w);
          r = (if kind = TypeService \<and> r_Enabled (w_Retry w) = None
               then (w_Retry w)\<lparr>r_Enabled := Some True\<rparr> else w_Retry w)
      in if Retry_IsEnabled r then applyRetryDefaults r kind else r)"
  by (simp_all add: applyWorkerDefaults_def Let_def)

lemma applyRetryDefaults_fields [simp]:
  "r_Enabled (applyRetryDefaults r k) = r_Enabled r"
  "r_ResetAfter (applyRetryDefaults r k) = r_ResetAfter r"
  "r_NoRetryExitCodes (applyRetryDefaults r k) = r_NoRetryExitCodes r"
  "r_OnShutdown (applyRetryDefaults r k) = r_OnShutdown r"
  by (simp_all add: applyRetryDefaults_def Let_def)

section \<open>Loading\<close>

definition registry_ok :: "Libs \<Rightarrow> Registry \<Rightarrow> bool" where
  "registry_ok lib reg \<longleftrightarrow> distinct (map fst reg) \<and> (\<forall>(n, w) \<in> set reg. n = w_Name w \<and> accepted lib w)"

lemma load_worker_ok:
  assumes "load_worker lib entry (errs, reg) = Some (errs', reg')" and "registry_ok lib reg"
  shows "registry_ok lib reg'"
proof -
  obtain w where w: "entry = Some w" using assms(1) by (auto simp: load_worker_def split: option.splits)
  show ?thesis
  proof (cases "map_of reg (w_Name w) = None")
    case False
    then show ?thesis using assms w by (auto simp: load_worker_def)
  next
    case True
    obtain es v where v: "Worker_Validate lib (applyWorkerDefaults w) = (es, v)" by fastforce
    have name: "w_Name v = w_Name w"
      using arg_cong [OF Validate_frame [OF v], of w_Name] applyWorkerDefaults_fields(1) [of w] by simp
    show ?thesis
      using assms True v w name
      by (cases es) (auto simp: load_worker_def registry_ok_def accepted_def map_of_eq_None_iff)
  qed
qed

lemma load_all_ok:
  "load_all lib es acc = Some (errs, reg) \<Longrightarrow> registry_ok lib (snd acc) \<Longrightarrow> registry_ok lib reg"
proof (induction es arbitrary: acc)
  case (Cons e es)
  obtain errs0 reg0 where "acc = (errs0, reg0)" by fastforce
  then show ?case using Cons load_worker_ok [of lib e errs0 reg0] by (auto simp: bind_eq_Some_conv)
qed auto

lemma load_files_ok:
  "load_files lib fs acc = Some (errs, reg) \<Longrightarrow> registry_ok lib (snd acc) \<Longrightarrow> registry_ok lib reg"
proof (induction lib fs acc rule: load_files.induct)
  case (3 lib ws fs acc)
  then obtain acc' where a: "load_all lib ws acc = Some acc'" "load_files lib fs acc' = Some (errs, reg)"
    by (auto simp: bind_eq_Some_conv)
  then have "registry_ok lib (snd acc')" using load_all_ok [of lib ws acc] 3(3) by (cases acc') auto
  then show ?case using 3(1) a by auto
qed auto

lemma LoadWorkers_ok:
  assumes "LoadWorkers lib files = Some (Inr reg)"
  shows "registry_ok lib reg \<and> validateNotifyTargets reg = []"
  using assms load_files_ok [of lib files "([], [])"]
  by (auto simp: LoadWorkers_def Let_def registry_ok_def split: if_splits)

section \<open>What an accepted worker is\<close>

lemma concat_Nil: "concat (map f xs) = [] \<longleftrightarrow> (\<forall>x \<in> set xs. f x = [])"
  by simp

lemma validate_other [simp]:
  "validateParams lib (w\<lparr>w_Schedule := s\<rparr>) = validateParams lib w"
  "validateRetry (w\<lparr>w_Schedule := s\<rparr>) = validateRetry w"
  "validateType (w\<lparr>w_Schedule := s\<rparr>) = validateType w"
  by (simp_all add: validateParams_def validateRetry_def validateType_def validateService_def)

lemma accepted_cases:
  assumes "accepted lib w"
  obtains raw v where "v = applyWorkerDefaults raw" "w = v\<lparr>w_Schedule := w_Schedule w\<rparr>"
    "fst (validateSchedule lib v) = []" "snd (validateSchedule lib v) = w"
    "w_Name w \<noteq> ''''" "w_Type w \<in> {TypeTask, TypeService}" "IsAbs (w_Command w)" "IsAbs (w_Cwd w)"
    "0 \<le> w_MaxProcesses w" "w_LockConflict w \<in> {LockConflictQueue, LockConflictReject}"
    "validateParams lib w = []" "validateRetry w = []" "Notify_validate lib (w_Notify w) = []" "validateType w = []"
proof -
  obtain raw where v: "Worker_Validate lib (applyWorkerDefaults raw) = ([], w)"
    using assms by (auto simp: accepted_def)
  define v where "v = applyWorkerDefaults raw"
  obtain es w' where s: "validateSchedule lib v = (es, w')" by fastforce
  note fr = Validate_frame [OF v, folded v_def]
  have w': "w' = w" and errs: "es = []" "w_Name v \<noteq> ''''" "w_Type v \<in> {TypeTask, TypeService}" "IsAbs (w_Command v)"
    "IsAbs (w_Cwd v)" "0 \<le> w_MaxProcesses v" "w_LockConflict v \<in> {LockConflictQueue, LockConflictReject}"
    "validateParams lib v = []" "validateRetry v = []" "Notify_validate lib (w_Notify v) = []" "validateType v = []"
    using v [folded v_def] s by (auto simp: Worker_Validate_def)
  define sc where "sc = w_Schedule w"
  have w: "w = v\<lparr>w_Schedule := sc\<rparr>" unfolding sc_def by (rule fr)
  show ?thesis
    using errs s w'
    by (intro that [OF v_def fr])
      (simp_all add: w)
qed

lemma retry_defaults:
  assumes "Retry_IsEnabled (w_Retry (applyWorkerDefaults raw))"
  obtains r where "w_Retry (applyWorkerDefaults raw) = applyRetryDefaults r (w_Type (applyWorkerDefaults raw))"
  using assms unfolding applyWorkerDefaults_fields(8) [of raw]
  by (auto simp: Let_def Retry_IsEnabled_def split: if_splits)

text \<open>An enabled policy is complete and its numbers are in range.\<close>

lemma accepted_policy:
  assumes "accepted lib w" and "Retry_IsEnabled (w_Retry w)"
  shows "(1 \<le> EffectiveAttempts (w_Retry w) \<or> EffectiveAttempts (w_Retry w) = AttemptsUnlimited \<and> w_Type w = TypeService) \<and>
    r_RetryOn (w_Retry w) \<noteq> [] \<and> set (r_RetryOn (w_Retry w)) \<subseteq> set retryTriggers \<and>
    (RetryOnExit \<in> set (r_RetryOn (w_Retry w)) \<longrightarrow> w_Type w = TypeService) \<and>
    0 < bo_Initial (r_Backoff (w_Retry w)) \<and> 0 < bo_Max (r_Backoff (w_Retry w)) \<and>
    \<not> f_lt (bo_Jitter (r_Backoff (w_Retry w))) (Num 0) \<and> \<not> f_lt (Num 1) (bo_Jitter (r_Backoff (w_Retry w)))"
  using assms(1)
proof (cases rule: accepted_cases)
  case (1 raw v)
  have wv: "w_Retry w = w_Retry v" "w_Type w = w_Type v" using arg_cong [OF 1(2), of w_Retry] arg_cong [OF 1(2), of w_Type] by simp_all
  obtain r where r: "w_Retry w = applyRetryDefaults r (w_Type w)"
    using retry_defaults [of raw] assms(2) wv 1(1) by metis
  note vr = 1(12) [unfolded validateRetry_def Let_def if_not_P [OF iffD2 [OF not_not assms(2)]]]
  have kind: "w_Type w \<noteq> TypeService \<Longrightarrow> RetryOnExit \<notin> set (r_RetryOn (w_Retry w)) \<and> r_MaxAttempts (w_Retry w) \<noteq> AttemptsUnlimited"
    using 1(14) by (auto simp: validateType_def)
  have full: "r_RetryOn (w_Retry w) \<noteq> []" "bo_Initial (r_Backoff (w_Retry w)) \<noteq> 0" "bo_Max (r_Backoff (w_Retry w)) \<noteq> 0"
    unfolding r by (auto simp: applyRetryDefaults_def Let_def time_units)
  show ?thesis
    using vr kind full assms(2) by (auto simp: EffectiveAttempts_def)
qed

lemma accepted_service:
  assumes "accepted lib w" and "w_Type w = TypeService"
  shows "Retry_IsEnabled (w_Retry w) \<and> w_Timeout w = 0 \<and> \<not> Schedule_IsSet (w_Schedule w) \<and> 1 \<le> l_MaxFiles (w_Logs w)"
  using assms(1)
proof (cases rule: accepted_cases)
  case (1 raw v)
  have wv: "w_Retry w = w_Retry v" "w_Type w = w_Type v" using arg_cong [OF 1(2), of w_Retry] arg_cong [OF 1(2), of w_Type] by simp_all
  have "r_Enabled (w_Retry w) \<noteq> Some False" "w_Timeout w = 0" "1 \<le> l_MaxFiles (w_Logs w)"
    using 1(14) assms(2) by (auto simp: validateType_def validateService_def)
  moreover have "r_Enabled (w_Retry w) \<noteq> None"
    unfolding wv(1) 1(1) applyWorkerDefaults_fields(8) using assms(2) wv 1(1) by (auto simp: Let_def)
  moreover have "\<not> Schedule_IsSet (w_Schedule v)"
    using 1(3) assms(2) wv by (auto simp: validateSchedule_def Let_def split: if_splits)
  then have "\<not> Schedule_IsSet (w_Schedule w)"
    using 1(4) by (auto simp: validateSchedule_def Let_def split: if_splits)
  ultimately show ?thesis by (auto simp: Retry_IsEnabled_def)
qed

lemma accepted_schedule:
  assumes "accepted lib w" and "Schedule_IsSet (w_Schedule w)"
  shows "w_Type w = TypeTask \<and> 0 \<le> sd_Jitter (w_Schedule w) \<and> (\<forall>(name, p) \<in> set (w_Params w). \<not> pm_Required p) \<and>
    (\<exists>l c. Parse (sd_Cron (w_Schedule w)) (Some l) = Inr c \<and> sd_compiled (w_Schedule w) = Some c)"
  using assms(1)
proof (cases rule: accepted_cases)
  case (1 raw v)
  have wv: "w_Type w = w_Type v" "w_Params w = w_Params v"
    using arg_cong [OF 1(2), of w_Type] arg_cong [OF 1(2), of w_Params] by simp_all
  have set: "Schedule_IsSet (w_Schedule v)"
    using 1(4) assms(2) by (auto simp: validateSchedule_def Let_def Schedule_IsSet_def split: if_splits sum.splits)
  have "validateSchedule lib v = ([], w)" using 1(3,4) by (metis prod.collapse)
  from validateSchedule_frame [OF this] set obtain l c where
    "Parse (sd_Cron (w_Schedule v)) (Some l) = Inr c" "w_Schedule w = (w_Schedule v)\<lparr>sd_compiled := Some c\<rparr>"
    by auto
  moreover have "w_Type v \<noteq> TypeService" "0 \<le> sd_Jitter (w_Schedule v)" "\<forall>(name, p) \<in> set (w_Params v). \<not> pm_Required p"
    using 1(3) set by (auto simp: validateSchedule_def Let_def)
  ultimately show ?thesis using 1(6) wv by auto
qed

lemma accepted_placeholders:
  assumes "accepted lib w"
  shows "(\<forall>arg \<in> set (w_Args w). set (placeholderNames arg) \<subseteq> fst ` set (w_Params w)) \<and>
    set (placeholderNames (w_Lock w)) \<subseteq> fst ` set (w_Params w)"
  using assms
proof (cases rule: accepted_cases)
  case (1 raw v)
  from 1(11) show ?thesis unfolding validateParams_def append_is_Nil_conv concat_Nil
    by (auto simp: map_of_eq_None_iff)
qed

lemma registry_get: "registry_ok lib reg \<Longrightarrow> (n, w) \<in> set reg \<Longrightarrow> accepted lib w"
  by (auto simp: registry_ok_def)

text \<open>
  C18. What a loaded registry guarantees, whatever the files hold. Names are unique. Every worker is a
  task or a service with absolute paths and declared placeholders; a service is restarted, has no
  timeout and no schedule; an enabled policy is complete, its budget is at least one attempt and only a
  service may be unbounded; a scheduled worker is a task, has its expression compiled and needs no
  param from a request; and a notification runs a loaded task that notifies nobody itself and needs
  nothing a notification does not carry.
\<close>

theorem LoadWorkers_sound:
  assumes "LoadWorkers lib files = Some (Inr reg)"
  shows "distinct (map fst reg) \<and> (\<forall>(n, w) \<in> set reg.
    n = w_Name w \<and> w_Name w \<noteq> '''' \<and> w_Type w \<in> {TypeTask, TypeService} \<and>
    IsAbs (w_Command w) \<and> IsAbs (w_Cwd w) \<and>
    (\<forall>arg \<in> set (w_Args w). set (placeholderNames arg) \<subseteq> fst ` set (w_Params w)) \<and>
    (w_Type w = TypeService \<longrightarrow> Retry_IsEnabled (w_Retry w) \<and> w_Timeout w = 0 \<and> \<not> Schedule_IsSet (w_Schedule w)) \<and>
    (Retry_IsEnabled (w_Retry w) \<longrightarrow>
       (1 \<le> EffectiveAttempts (w_Retry w) \<or>
          EffectiveAttempts (w_Retry w) = AttemptsUnlimited \<and> w_Type w = TypeService) \<and>
       r_RetryOn (w_Retry w) \<noteq> [] \<and>
       0 < bo_Initial (r_Backoff (w_Retry w)) \<and> 0 < bo_Max (r_Backoff (w_Retry w))) \<and>
    (Schedule_IsSet (w_Schedule w) \<longrightarrow> w_Type w = TypeTask \<and> sd_compiled (w_Schedule w) \<noteq> None \<and>
       (\<forall>(name, p) \<in> set (w_Params w). \<not> pm_Required p)) \<and>
    (\<forall>x. n_Exec (w_Notify w) = Some x \<longrightarrow> (\<exists>target. (x_Worker x, target) \<in> set reg \<and>
       \<not> Notify_IsSet (w_Notify target) \<and> w_Type target = TypeTask \<and>
       (\<forall>(name, p) \<in> set (w_Params target). pm_Required p \<longrightarrow> name \<in> set NotifyParams))))"
    (is "_ \<and> (\<forall>(n, w) \<in> set reg. ?P n w)")
proof -
  have ok: "registry_ok lib reg" and targets: "validateNotifyTargets reg = []"
    using LoadWorkers_ok [OF assms] by auto
  have typed: "w_Type w \<in> {TypeTask, TypeService} \<and> w_Name w \<noteq> '''' \<and> IsAbs (w_Command w) \<and> IsAbs (w_Cwd w)"
    if "accepted lib w" for w
    using that by (cases rule: accepted_cases) auto
  have notify: "\<exists>target. (x_Worker x, target) \<in> set reg \<and> \<not> Notify_IsSet (w_Notify target) \<and>
      w_Type target = TypeTask \<and> (\<forall>(name, p) \<in> set (w_Params target). pm_Required p \<longrightarrow> name \<in> set NotifyParams)"
    if "(n, w) \<in> set reg" "n_Exec (w_Notify w) = Some x" for n w x
  proof -
    note exec = that(2)
    have "w \<in> set (Registry_All reg)" using that(1) by (force simp: Registry_All_def)
    then have e: "notify_target_errors reg w = []" using targets by (simp add: validateNotifyTargets_def)
    then obtain target where t: "map_of reg (x_Worker x) = Some target"
      using exec by (auto simp: notify_target_errors_def split: option.splits)
    then have m: "(x_Worker x, target) \<in> set reg" by (rule map_of_SomeD)
    then show ?thesis
      using e exec t typed [OF registry_get [OF ok m]]
      by (intro exI [of _ target]) (auto simp: notify_target_errors_def)
  qed
  show ?thesis
  proof (intro conjI ballI)
    show "distinct (map fst reg)" using ok by (simp add: registry_ok_def)
  next
    fix nw
    assume nw: "nw \<in> set reg"
    obtain n w where eq: "nw = (n, w)" by fastforce
    have m: "(n, w) \<in> set reg" using nw eq by simp
    note acc = registry_get [OF ok m]
    have n: "n = w_Name w" using ok m by (auto simp: registry_ok_def)
    have service: "w_Type w = TypeService \<longrightarrow>
        Retry_IsEnabled (w_Retry w) \<and> w_Timeout w = 0 \<and> \<not> Schedule_IsSet (w_Schedule w)"
      using accepted_service [OF acc] by blast
    have policy: "Retry_IsEnabled (w_Retry w) \<longrightarrow>
       (1 \<le> EffectiveAttempts (w_Retry w) \<or>
          EffectiveAttempts (w_Retry w) = AttemptsUnlimited \<and> w_Type w = TypeService) \<and>
       r_RetryOn (w_Retry w) \<noteq> [] \<and>
       0 < bo_Initial (r_Backoff (w_Retry w)) \<and> 0 < bo_Max (r_Backoff (w_Retry w))"
      using accepted_policy [OF acc] by blast
    have schedule: "Schedule_IsSet (w_Schedule w) \<longrightarrow> w_Type w = TypeTask \<and> sd_compiled (w_Schedule w) \<noteq> None \<and>
       (\<forall>(name, p) \<in> set (w_Params w). \<not> pm_Required p)"
      using accepted_schedule [OF acc] by blast
    have target: "\<forall>x. n_Exec (w_Notify w) = Some x \<longrightarrow> (\<exists>target. (x_Worker x, target) \<in> set reg \<and>
       \<not> Notify_IsSet (w_Notify target) \<and> w_Type target = TypeTask \<and>
       (\<forall>(name, p) \<in> set (w_Params target). pm_Required p \<longrightarrow> name \<in> set NotifyParams))"
      using notify [OF m] by blast
    show "case nw of (n, w) \<Rightarrow> ?P n w"
      unfolding eq prod.case
      using n typed [OF acc] conjunct1 [OF accepted_placeholders [OF acc]] service policy schedule target
      by argo
  qed
qed

section \<open>Examples\<close>

text \<open>
  A library in which every pattern compiles, no zone but UTC is known and every URL is an \<^verbatim>\<open>http\<close> one;
  a service, and a task fired every day whose optional param has a default outside its own enum.
\<close>

definition plain_libs :: Libs where
  "plain_libs = \<lparr>lib_compile = \<lambda>_. Some (\<lambda>_. True), lib_location = \<lambda>_. None, lib_url = \<lambda>_. Some (''http'', ''hub'')\<rparr>"

definition api_worker :: Worker where
  "api_worker = zero_Worker\<lparr>w_Name := ''api'', w_Type := TypeService, w_Command := ''/bin/api'',
     w_Logs := \<lparr>l_MaxBytesPerStream = 0, l_MaxFiles = 3\<rparr>\<rparr>"

definition daily_worker :: Worker where
  "daily_worker = zero_Worker\<lparr>w_Name := ''daily'', w_Command := ''/bin/job'', w_Args := [''{{mode}}''],
     w_Params := [(''mode'', \<lparr>pm_Required = False, pm_Pattern = '''', pm_Enum = [''full'', ''fast''], pm_Default = ''all''\<rparr>)],
     w_Schedule := \<lparr>sd_Cron = ''0 5 * * *'', sd_Timezone = '''', sd_CatchUp = False, sd_Jitter = 0, sd_compiled = None\<rparr>\<rparr>"

lemma load_examples:
  "(case LoadWorkers plain_libs [Some [Some api_worker, Some daily_worker]] of
      Some (Inr reg) \<Rightarrow> map fst reg = [''api'', ''daily''] | _ \<Rightarrow> False)"
  by code_simp

theorem LoadWorkers_sound_witness:
  "\<exists>reg w. LoadWorkers plain_libs [Some [Some api_worker, Some daily_worker]] = Some (Inr reg) \<and>
     (''api'', w) \<in> set reg \<and> IsAbs (w_Command w)"
proof -
  obtain reg where reg: "LoadWorkers plain_libs [Some [Some api_worker, Some daily_worker]] = Some (Inr reg)"
    "map fst reg = [''api'', ''daily'']"
    using load_examples by (auto split: option.splits sum.splits)
  then obtain w where w: "(''api'', w) \<in> set reg" by (auto simp: map_eq_Cons_conv)
  have "IsAbs (w_Command w)" using LoadWorkers_sound [OF reg(1)] w by fast
  then show ?thesis using reg w by blast
qed

text \<open>
  A default is not checked against its own declaration. A scheduled worker whose param has a default
  outside its enum loads without an error, although the loader refuses a schedule whose firings could
  never be built; and then every firing, which sends no params, is refused.
\<close>

theorem scheduled_default_outside_its_enum:
  "(case LoadWorkers plain_libs [Some [Some daily_worker]] of
      Some (Inr reg) \<Rightarrow>
        (case Registry_Get reg ''daily'' of
           Inr w \<Rightarrow> Schedule_IsSet (w_Schedule w) \<and>
             Instantiate (lib_compile plain_libs) ''proc_1'' 0 w [] =
               Inl (ParamError ''mode'' ''must be one of full, fast'')
         | Inl _ \<Rightarrow> False)
    | _ \<Rightarrow> False)"
  by code_simp

text \<open>
  A jitter that is not a number is neither below 0 nor above 1, so it is accepted; every retry of the
  worker then comes without any delay.
\<close>

definition nan_worker :: Worker where
  "nan_worker = zero_Worker\<lparr>w_Name := ''poll'', w_Command := ''/bin/poll'', w_Retry := zero_Retry\<lparr>
     r_Enabled := Some True, r_MaxAttempts := 100, r_Backoff := zero_Backoff\<lparr>bo_Jitter := NaN\<rparr>\<rparr>\<rparr>"

definition nan_backoff :: Backoff where
  "nan_backoff = default_backoff\<lparr>bo_Jitter := NaN\<rparr>"

lemma nan_worker_loads:
  "(case LoadWorkers plain_libs [Some [Some nan_worker]] of
      Some (Inr reg) \<Rightarrow>
        (case Registry_Get reg ''poll'' of
           Inr w \<Rightarrow> r_Backoff (w_Retry w) = nan_backoff \<and> EffectiveAttempts (w_Retry w) = 100
         | Inl _ \<Rightarrow> False)
    | _ \<Rightarrow> False)"
  by code_simp

text \<open>
  A jitter written as \<^verbatim>\<open>.nan\<close> passes validation, and the policy that results, 5 s doubling up to
  5 min, retries a hundred times with no delay at all, whatever the attempt and the random draw.
\<close>

theorem nan_jitter_accepted:
  "(case LoadWorkers plain_libs [Some [Some nan_worker]] of
      Some (Inr reg) \<Rightarrow>
        (case Registry_Get reg ''poll'' of
           Inr w \<Rightarrow> bo_Initial (r_Backoff (w_Retry w)) = 5 * second \<and> EffectiveAttempts (w_Retry w) = 100 \<and>
             (\<forall>attempt random. Delay (r_Backoff (w_Retry w)) attempt random = 0)
         | Inl _ \<Rightarrow> False)
    | _ \<Rightarrow> False)"
proof -
  have "Delay nan_backoff attempt random = 0" for attempt random
    using clamp_bounds [OF grown_is_float [of nan_backoff], of "bo_Max nan_backoff"]
    by (intro Delay_nan_jitter) (simp_all add: nan_backoff_def default_backoff_def time_units MaxInt64_def)
  then show ?thesis
    using nan_worker_loads by (auto simp: nan_backoff_def default_backoff_def split: option.splits sum.splits)
qed

end
