(* ===== verification/ScheduleRunner.thy ===== *)
theory ScheduleRunner
  imports World Workers
begin

text \<open>
  \<^verbatim>\<open>internal/schedule/schedule.go\<close>: the loop that fires workers on their cron expressions, the record of
  what was fired and missed, and the reports to the API.

  A pass returns \<open>None\<close> when it does not come back: a search of the expression that does not end, or
  the panic of \<^verbatim>\<open>rand.Int64N\<close> for the largest window. The map of entries is an association list in the
  order in which the pass ranges over it. The random draw of an entry is an input, \<open>draw\<close>. \<^verbatim>\<open>Run\<close>
  (timer, channels) is what calls the passes.
\<close>

definition maxSleep :: duration where "maxSleep = minute"
definition maxMissed :: int where "maxMissed = 1000"

text \<open>The zero \<^verbatim>\<open>time.Time\<close>: the first instant of the year 1.\<close>

definition zero_time :: gtime where "zero_time = - 62135596800 * second"

section \<open>Texts of an occurrence\<close>

text \<open>The layout \<^verbatim>\<open>2006-01-02T15:04\<close> in a zone.\<close>

definition occurrence_text :: "Location \<Rightarrow> gtime \<Rightarrow> string" where
  "occurrence_text loc t = pad 4 (Year loc t) @ ''-'' @ pad 2 (Month loc t) @ ''-'' @ pad 2 (Day loc t) @ ''T'' @
     pad 2 (Hour loc t) @ '':'' @ pad 2 (Minute loc t)"

text \<open>\<^verbatim>\<open>time.RFC3339\<close>: the same with seconds and the offset of the zone, to the minute.\<close>

definition RFC3339 :: "Location \<Rightarrow> gtime \<Rightarrow> string" where
  "RFC3339 loc t =
     (let off = offset_at loc (unix t); m = \<bar>off\<bar> div 60 in
      occurrence_text loc t @ '':'' @ pad 2 (Second loc t) @
      (if off = 0 then ''Z''
       else (if off < 0 then ''-'' else ''+'') @ pad 2 (m div 60) @ '':'' @ pad 2 (m mod 60)))"

section \<open>Entries\<close>

record Entry =
  en_worker :: string
  en_schedule :: Schedule
  en_jitter :: duration
  en_occurrence :: gtime
  en_fireAt :: gtime
  en_planned :: bool

record Runner =
  rn_entries :: "(string \<times> Entry) list"
  rn_states :: "string \<rightharpoonup> ScheduleState"

definition setPlan :: "gtime \<Rightarrow> gtime \<Rightarrow> Entry \<Rightarrow> Entry" where
  "setPlan occurrence fireAt e = e\<lparr>en_occurrence := occurrence, en_fireAt := fireAt, en_planned := True\<rparr>"

definition unplan :: "Entry \<Rightarrow> Entry" where
  "unplan e = e\<lparr>en_planned := False\<rparr>"

definition jitterOf :: "int \<Rightarrow> duration \<Rightarrow> duration option" where
  "jitterOf draw window =
     (if window \<le> 0 then Some 0
      else if window \<ge> MaxInt64 then None
      else Some (draw mod (window + 1)))"

definition plan :: "(string \<Rightarrow> int) \<Rightarrow> gtime \<Rightarrow> Entry \<Rightarrow> Entry option" where
  "plan draw from e =
     Option.bind (Next (en_schedule e) from) (\<lambda>found.
       case found of
         None \<Rightarrow> Some (unplan e)
       | Some occurrence \<Rightarrow>
           map_option (\<lambda>j. setPlan occurrence (occurrence + j) e) (jitterOf (draw (en_worker e)) (en_jitter e)))"

definition accountedThrough :: "ScheduleState \<Rightarrow> gtime" where
  "accountedThrough st =
     (let through = (case ss_LastFiredAt st of None \<Rightarrow> zero_time | Some t \<Rightarrow> t)
      in case ss_LastMissedAt st of
           Some m \<Rightarrow> if m > through then m else through
         | None \<Rightarrow> through)"

section \<open>Rebuilding the plan\<close>

definition zero_ScheduleState :: ScheduleState where
  "zero_ScheduleState = \<lparr>ss_LastFiredAt = None, ss_LastMissedAt = None, ss_MissedRuns = 0\<rparr>"

definition accountForDowntime ::
  "(string \<Rightarrow> int) \<Rightarrow> bool \<Rightarrow> gtime \<Rightarrow> Entry \<Rightarrow> ScheduleState \<Rightarrow> World \<Rightarrow> (Entry \<times> ScheduleState \<times> World) option" where
  "accountForDowntime draw catchUp now e st w =
     (let from_now = map_option (\<lambda>e. (e, st, w)) (plan draw now e) in
      if ss_LastFiredAt st = None then from_now
      else Option.bind (Between (en_schedule e) (accountedThrough st) now maxMissed) (\<lambda>missed.
        if missed = [] then from_now
        else if catchUp then Some (setPlan (last missed) now e, st, w)
        else
          let st = st\<lparr>ss_MissedRuns := ss_MissedRuns st + int (length missed), ss_LastMissedAt := Some (last missed)\<rparr>;
              w = snd (on_db (SaveSchedule (en_worker e) st) w)
          in map_option (\<lambda>e. (e, st, w)) (plan draw now e)))"

definition new_entry :: "Worker \<Rightarrow> Schedule \<Rightarrow> Entry" where
  "new_entry worker compiled = \<lparr>en_worker = w_Name worker, en_schedule = compiled,
     en_jitter = sd_Jitter (w_Schedule worker), en_occurrence = zero_time, en_fireAt = zero_time, en_planned = False\<rparr>"

fun reset_workers ::
  "(string \<Rightarrow> int) \<Rightarrow> gtime \<Rightarrow> (string \<rightharpoonup> ScheduleState) \<Rightarrow> Worker list \<Rightarrow> Runner \<Rightarrow> World \<Rightarrow> (Runner \<times> World) option" where
  "reset_workers draw now stored [] r w = Some (r, w)"
| "reset_workers draw now stored (worker # ws) r w =
     (case sd_compiled (w_Schedule worker) of
        None \<Rightarrow> reset_workers draw now stored ws r w
      | Some compiled \<Rightarrow>
          if \<not> Schedule_IsSet (w_Schedule worker) then reset_workers draw now stored ws r w
          else
            Option.bind
              (accountForDowntime draw (sd_CatchUp (w_Schedule worker)) now (new_entry worker compiled)
                 (case stored (w_Name worker) of None \<Rightarrow> zero_ScheduleState | Some st \<Rightarrow> st) w)
              (\<lambda>(e, st, w). reset_workers draw now stored ws
                 \<lparr>rn_entries = rn_entries r @ [(w_Name worker, e)], rn_states = (rn_states r)(w_Name worker \<mapsto> st)\<rparr> w))"

text \<open>A history that cannot be read is taken as empty.\<close>

definition reset :: "(string \<Rightarrow> int) \<Rightarrow> gtime \<Rightarrow> World \<Rightarrow> (Runner \<times> World) option" where
  "reset draw now w =
     (let (loaded, w) = on_db LoadSchedules w;
          stored = (case loaded of Inl _ \<Rightarrow> Map.empty | Inr m \<Rightarrow> m)
      in reset_workers draw now stored (Registry_All (s_registry w)) \<lparr>rn_entries = [], rn_states = Map.empty\<rparr> w)"

section \<open>Firing\<close>

definition triggerKey :: string where "triggerKey = ''processd.trigger''"
definition triggerSchedule :: string where "triggerSchedule = ''schedule''"
definition occurrenceKey :: string where "occurrenceKey = ''processd.occurrence''"

definition alreadyFired :: "Runner \<Rightarrow> Entry \<Rightarrow> bool" where
  "alreadyFired r e =
     (case rn_states r (en_worker e) of
        None \<Rightarrow> False
      | Some st \<Rightarrow>
          (case ss_LastFiredAt st of
             None \<Rightarrow> False
           | Some t \<Rightarrow> occurrence_text (sc_loc (en_schedule e)) t = occurrence_text (sc_loc (en_schedule e)) (en_occurrence e)))"

definition state_of :: "Runner \<Rightarrow> string \<Rightarrow> ScheduleState" where
  "state_of r name = (case rn_states r name of None \<Rightarrow> zero_ScheduleState | Some st \<Rightarrow> st)"

text \<open>A state is kept in memory and persisted; a failed write is logged.\<close>

definition save_state :: "string \<Rightarrow> ScheduleState \<Rightarrow> Runner \<times> World \<Rightarrow> Runner \<times> World" where
  "save_state name st = (\<lambda>(r, w). (r\<lparr>rn_states := (rn_states r)(name \<mapsto> st)\<rparr>, snd (on_db (SaveSchedule name st) w)))"

definition recordFiring :: "Entry \<Rightarrow> Runner \<times> World \<Rightarrow> Runner \<times> World" where
  "recordFiring e = (\<lambda>(r, w).
     save_state (en_worker e) ((state_of r (en_worker e))\<lparr>ss_LastFiredAt := Some (en_occurrence e)\<rparr>) (r, w))"

text \<open>
  \<^verbatim>\<open>fire\<close>: \<open>submit\<close> is the scheduler's, and \<open>new_id\<close> and \<open>created\<close> are the fresh id and the clock of the
  execution that is built.
\<close>

definition fire ::
  "(string \<Rightarrow> (string \<Rightarrow> bool) option) \<Rightarrow> (Process \<Rightarrow> World \<Rightarrow> (error, World) outcome) \<Rightarrow> string \<Rightarrow> gtime \<Rightarrow>
     Entry \<Rightarrow> Runner \<times> World \<Rightarrow> Runner \<times> World" where
  "fire compile submit new_id created e = (\<lambda>(r, w).
     case Registry_Get (s_registry w) (en_worker e) of
       Inl _ \<Rightarrow> (r, w)
     | Inr worker \<Rightarrow>
         if \<not> Worker_IsEnabled worker then (r, w)
         else if alreadyFired r e then (r, w)
         else
           case Instantiate compile new_id created worker [] of
             Inl _ \<Rightarrow> (r, w)
           | Inr p \<Rightarrow>
               let p = (if p_Lock p = '''' then p\<lparr>p_Lock := ''schedule:'' @ w_Name worker\<rparr> else p);
                   p = p\<lparr>p_Metadata := [(triggerKey, triggerSchedule),
                         (occurrenceKey, RFC3339 (sc_loc (en_schedule e)) (en_occurrence e))]\<rparr>
               in recordFiring e (r, snd (submit p w)))"

definition advance ::
  "(string \<Rightarrow> int) \<Rightarrow> gtime \<Rightarrow> Entry \<Rightarrow> Runner \<times> World \<Rightarrow> (Entry \<times> Runner \<times> World) option" where
  "advance draw now e rw =
     Option.bind (Next (en_schedule e) (en_occurrence e)) (\<lambda>found.
       case found of
         None \<Rightarrow> Some (unplan e, rw)
       | Some nxt \<Rightarrow>
           if nxt > now
           then map_option (\<lambda>j. (setPlan nxt (nxt + j) e, rw)) (jitterOf (draw (en_worker e)) (en_jitter e))
           else
             Option.bind (Between (en_schedule e) (en_occurrence e) now maxMissed) (\<lambda>skipped.
               let st = state_of (fst rw) (en_worker e);
                   st = st\<lparr>ss_MissedRuns := ss_MissedRuns st + int (length skipped)\<rparr>;
                   st = (if skipped \<noteq> [] then st\<lparr>ss_LastMissedAt := Some (last skipped)\<rparr> else st);
                   rw = save_state (en_worker e) st rw
               in map_option (\<lambda>e. (e, rw)) (plan draw now e)))"

definition put_entry :: "Entry \<Rightarrow> Runner \<Rightarrow> Runner" where
  "put_entry e r = r\<lparr>rn_entries := map (\<lambda>(n, x). if n = en_worker e then (n, e) else (n, x)) (rn_entries r)\<rparr>"

definition is_due :: "gtime \<Rightarrow> Entry \<Rightarrow> bool" where
  "is_due now e \<longleftrightarrow> en_planned e \<and> \<not> en_fireAt e > now"

text \<open>The entries that are due, one after the other; \<open>ids\<close> gives each firing its fresh id.\<close>

fun fire_each ::
  "(string \<Rightarrow> (string \<Rightarrow> bool) option) \<Rightarrow> (Process \<Rightarrow> World \<Rightarrow> (error, World) outcome) \<Rightarrow> (string \<Rightarrow> string) \<Rightarrow>
     (string \<Rightarrow> int) \<Rightarrow> gtime \<Rightarrow> Entry list \<Rightarrow> Runner \<times> World \<Rightarrow> (Runner \<times> World) option" where
  "fire_each compile submit ids draw now [] rw = Some rw"
| "fire_each compile submit ids draw now (e # es) rw =
     Option.bind (advance draw now e (fire compile submit (ids (en_worker e)) now e rw))
       (\<lambda>(e, r, w). fire_each compile submit ids draw now es (put_entry e r, w))"

definition fireDue ::
  "(string \<Rightarrow> (string \<Rightarrow> bool) option) \<Rightarrow> (Process \<Rightarrow> World \<Rightarrow> (error, World) outcome) \<Rightarrow> (string \<Rightarrow> string) \<Rightarrow>
     (string \<Rightarrow> int) \<Rightarrow> gtime \<Rightarrow> Runner \<times> World \<Rightarrow> (Runner \<times> World) option" where
  "fireDue compile submit ids draw now rw =
     fire_each compile submit ids draw now (filter (is_due now) (map snd (rn_entries (fst rw)))) rw"

section \<open>Waiting and reporting\<close>

definition sleep :: "gtime \<Rightarrow> Runner \<Rightarrow> duration" where
  "sleep now r =
     (let wait = fold (\<lambda>(_, e) wait. if en_planned e \<and> en_fireAt e - now < wait then en_fireAt e - now else wait)
                   (rn_entries r) maxSleep
      in if wait < 0 then 0 else wait)"

record Status =
  st_Cron :: string
  st_Timezone :: string
  st_NextRun :: "gtime option"
  st_LastFiredAt :: "gtime option"
  st_LastMissedAt :: "gtime option"
  st_MissedRuns :: int

definition Status_of :: "string \<Rightarrow> Runner \<Rightarrow> Status option" where
  "Status_of worker r =
     map_option (\<lambda>e. let st = state_of r worker in
         \<lparr>st_Cron = sc_spec (en_schedule e), st_Timezone = loc_name (sc_loc (en_schedule e)),
          st_NextRun = (if en_planned e then Some (en_occurrence e) else None),
          st_LastFiredAt = ss_LastFiredAt st, st_LastMissedAt = ss_LastMissedAt st, st_MissedRuns = ss_MissedRuns st\<rparr>)
       (map_of (rn_entries r) worker)"

end
