(* ===== verification/ScheduleProps.thy ===== *)
theory ScheduleProps
  imports ScheduleRunner CronSearch Scheduler
begin

text \<open>
  The firing loop: how long it waits, that a pass leaves nothing due and never fires an occurrence
  twice, and that downtime is counted once. The facts about searches hold in zones that keep one
  offset; what the clock changes do to \<^verbatim>\<open>Next\<close> is in \<open>CronSearch\<close>.
\<close>

section \<open>Searches\<close>

lemma Next_cases:
  assumes "fixed (sc_loc s)"
  obtains (found) u where "Next s t = Some (Some u)" "t < u" "occurs s u"
    | (none) "Next s t = Some None"
  using zone.search_cases [of s "loc_name (sc_loc s)" "loc_offset (sc_loc s)" t,
      unfolded in_fixed_zone_self [OF assms]] by metis

lemma Between_total:
  assumes "fixed (sc_loc s)"
  obtains xs where "Between s after until limit = Some xs"
  using zone.between_total [of s "loc_name (sc_loc s)" "loc_offset (sc_loc s)" until after "nat limit"]
  unfolding in_fixed_zone_self [OF assms] Between_def by blast

lemma Between_sound:
  assumes "fixed (sc_loc s)" and "Between s after until limit = Some xs"
  shows "sorted_wrt (<) xs \<and> (\<forall>v \<in> set xs. after < v \<and> v \<le> until \<and> occurs s v)"
  using zone.between_sound [of s "loc_name (sc_loc s)" "loc_offset (sc_loc s)" until after "nat limit" xs]
    assms(2) unfolding in_fixed_zone_self [OF assms(1)] Between_def by blast

lemma Between_complete:
  assumes "fixed (sc_loc s)" and "Between s after until limit = Some xs" and "int (length xs) < limit"
    and "after < v" and "v \<le> until" and "v \<le> after + horizon" and "occurs s v"
  shows "v \<in> set xs"
  using zone.between_complete [of s "loc_name (sc_loc s)" "loc_offset (sc_loc s)" until after "nat limit" xs v]
    assms(2-) unfolding in_fixed_zone_self [OF assms(1)] Between_def by (simp add: zless_nat_conj)

lemma Between_then_nothing:
  assumes "fixed (sc_loc s)" and "Between s after until limit = Some xs" and "int (length xs) < limit" and "xs \<noteq> []"
  shows "Between s (last xs) until limit = Some []"
  using zone.between_then_nothing [of s "loc_name (sc_loc s)" "loc_offset (sc_loc s)" until after "nat limit" xs "nat limit"]
    assms(2-) unfolding in_fixed_zone_self [OF assms(1)] Between_def by (simp add: zless_nat_conj)

lemma Between_nonempty:
  "Next s after = Some (Some u) \<Longrightarrow> u \<le> until \<Longrightarrow> 0 < limit \<Longrightarrow> Between s after until limit \<noteq> Some []"
  by (cases "nat limit") (auto simp: Between_def)

section \<open>Waiting\<close>

lemma shortest_wait:
  fixes now :: gtime and es :: "(string \<times> Entry) list"
  defines "f \<equiv> \<lambda>(_, e) wait. if en_planned e \<and> en_fireAt e - now < wait then en_fireAt e - now else wait"
  shows "fold f es wait \<le> wait \<and> (\<forall>(n, e) \<in> set es. en_planned e \<longrightarrow> fold f es wait \<le> en_fireAt e - now) \<and>
    (fold f es wait = wait \<or> (\<exists>(n, e) \<in> set es. en_planned e \<and> fold f es wait = en_fireAt e - now))"
proof (induction es arbitrary: wait)
  case (Cons ne es)
  obtain n e where ne: "ne = (n, e)" by fastforce
  note ih = Cons.IH [of "f ne wait"]
  have f: "f ne wait \<le> wait" "en_planned e \<Longrightarrow> f ne wait \<le> en_fireAt e - now"
    "f ne wait = wait \<or> en_planned e \<and> f ne wait = en_fireAt e - now"
    by (auto simp: f_def ne)
  show ?case using ih f by (auto simp: ne)
qed (simp add: f_def)

text \<open>
  The loop never oversleeps. It waits at most a minute and never a negative time; no planned firing
  falls inside the wait; and it waits less than a minute only for a firing that is due at the end of it
  or already due.
\<close>

theorem sleep_spec:
  "0 \<le> sleep now r \<and> sleep now r \<le> minute \<and>
   (\<forall>(n, e) \<in> set (rn_entries r). en_planned e \<longrightarrow> now + sleep now r \<le> max now (en_fireAt e)) \<and>
   (sleep now r < minute \<longrightarrow>
      (\<exists>(n, e) \<in> set (rn_entries r). en_planned e \<and> now + sleep now r = max now (en_fireAt e)))"
  using shortest_wait [where now = now and es = "rn_entries r" and wait = maxSleep]
  by (auto simp: sleep_def Let_def maxSleep_def time_units split: if_splits)

definition daily_entry :: Entry where
  "daily_entry = \<lparr>en_worker = ''daily'', en_schedule = every_day_at 5 0 UTC ''0 5 * * *'', en_jitter = 0,
     en_occurrence = 18000 * second, en_fireAt = 18000 * second, en_planned = True\<rparr>"

definition daily_runner :: Runner where
  "daily_runner = \<lparr>rn_entries = [(''daily'', daily_entry)],
     rn_states = [''daily'' \<mapsto> zero_ScheduleState\<lparr>ss_LastFiredAt := Some (- 68400 * second)\<rparr>]\<rparr>"

theorem sleep_spec_witness: "17999 * second + sleep (17999 * second) daily_runner = 18000 * second"
  using sleep_spec [of "17999 * second" daily_runner]
  by (auto simp: daily_runner_def daily_entry_def time_units split: if_splits)

section \<open>A pass\<close>

text \<open>
  The entries of a runner: filed under their worker, in zones with one offset, with windows that can be
  drawn from, and planned no earlier than their occurrence; and fresh, when what is planned is later
  than what was last fired.
\<close>

definition entry_ok :: "string \<Rightarrow> Entry \<Rightarrow> bool" where
  "entry_ok n e \<longleftrightarrow> n = en_worker e \<and> fixed (sc_loc (en_schedule e)) \<and> en_jitter e < MaxInt64 \<and>
     (en_planned e \<longrightarrow> en_occurrence e \<le> en_fireAt e)"



lemma jitterOf_total:
  assumes "window < MaxInt64"
  obtains j where "jitterOf draw window = Some j" "0 \<le> j"
  using assms by (cases "window \<le> 0") (auto simp: jitterOf_def)

lemma plan_total:
  assumes "entry_ok n e"
  obtains e' where "plan draw from e = Some e'" "entry_ok n e'" "en_planned e' \<longrightarrow> from < en_occurrence e'"
    "en_worker e' = en_worker e" "en_schedule e' = en_schedule e"
proof -
  have ok: "fixed (sc_loc (en_schedule e))" "en_jitter e < MaxInt64" using assms by (simp_all add: entry_ok_def)
  obtain j where j: "jitterOf (draw (en_worker e)) (en_jitter e) = Some j" "0 \<le> j" by (rule jitterOf_total [OF ok(2)])
  show ?thesis
  proof (cases rule: Next_cases [OF ok(1), of "from"])
    case (1 u)
    show ?thesis
      by (rule that [of "setPlan u (u + j) e"]) (use 1 j assms in \<open>auto simp: plan_def setPlan_def entry_ok_def\<close>)
  next
    case 2
    show ?thesis by (rule that [of "unplan e"]) (use 2 assms in \<open>auto simp: plan_def unplan_def entry_ok_def\<close>)
  qed
qed

lemma state_of_save [simp]:
  "state_of (fst (save_state name st rw)) n = (if n = name then st else state_of (fst rw) n)"
  "rn_entries (fst (save_state name st rw)) = rn_entries (fst rw)"
  by (cases rw, simp add: save_state_def state_of_def)+

lemma recordFiring_eq:
  "recordFiring e rw =
     save_state (en_worker e) ((state_of (fst rw) (en_worker e))\<lparr>ss_LastFiredAt := Some (en_occurrence e)\<rparr>) rw"
  by (cases rw) (simp add: recordFiring_def)

text \<open>A firing records the occurrence or changes no state of the runner.\<close>

lemma fire_states:
  "rn_entries (fst (fire compile submit i c e rw)) = rn_entries (fst rw) \<and>
   (fst (fire compile submit i c e rw) = fst rw \<or>
    state_of (fst (fire compile submit i c e rw)) = (state_of (fst rw))
      (en_worker e := (state_of (fst rw) (en_worker e))\<lparr>ss_LastFiredAt := Some (en_occurrence e)\<rparr>))"
  by (cases rw) (auto simp: fire_def recordFiring_eq Let_def fun_eq_iff split: sum.splits)

text \<open>
  What a pass does to the rest of the daemon: it submits executions and persists states, in an order.
  Between two passes anything may happen.
\<close>

datatype sched_event = Submitted Entry Process | Saved string ScheduleState | Between_passes "World \<Rightarrow> World"

fun replay :: "(Process \<Rightarrow> World \<Rightarrow> (error, World) outcome) \<Rightarrow> sched_event list \<Rightarrow> World \<Rightarrow> World" where
  "replay submit [] w = w"
| "replay submit (Submitted e p # es) w = replay submit es (snd (submit p w))"
| "replay submit (Saved n st # es) w = replay submit es (snd (on_db (SaveSchedule n st) w))"
| "replay submit (Between_passes f # es) w = replay submit es (f w)"

fun submissions :: "sched_event list \<Rightarrow> (Entry \<times> Process) list" where
  "submissions [] = []"
| "submissions (Submitted e p # es) = (e, p) # submissions es"
| "submissions (_ # es) = submissions es"

lemma submissions_append [simp]: "submissions (a @ b) = submissions a @ submissions b"
  by (induction a rule: submissions.induct) auto

lemma replay_append [simp]: "replay submit (a @ b) w = replay submit b (replay submit a w)"
  by (induction submit a w rule: replay.induct) auto

fun interludes :: "sched_event list \<Rightarrow> (World \<Rightarrow> World) list" where
  "interludes [] = []"
| "interludes (Between_passes f # es) = f # interludes es"
| "interludes (_ # es) = interludes es"

lemma interludes_append [simp]: "interludes (a @ b) = interludes a @ interludes b"
  by (induction a rule: interludes.induct) auto


definition last_fired :: "Runner \<Rightarrow> string \<Rightarrow> gtime option" where
  "last_fired r n = ss_LastFiredAt (state_of r n)"




lemma last_fired_save [simp]:
  "last_fired (fst (save_state name st rw)) n = (if n = name then ss_LastFiredAt st else last_fired (fst rw) n)"
  by (simp add: last_fired_def)




lemma put_entry_simps [simp]:
  "map fst (rn_entries (put_entry e r)) = map fst (rn_entries r)" "rn_states (put_entry e r) = rn_states r"
  "state_of (put_entry e r) = state_of r"
  by (auto simp: put_entry_def state_of_def fun_eq_iff)











section \<open>Downtime\<close>

lemma through_last: "ss_LastFiredAt st = Some t \<Longrightarrow> t \<le> accountedThrough st"
  by (auto simp: accountedThrough_def Let_def split: option.splits)

text \<open>
  What a rebuild finds missed: with a last firing on record, the occurrences after the instant the
  schedule is accounted through, up to now, at most a thousand of them.
\<close>

lemma accountForDowntime_cases:
  assumes "entry_ok n e" and "accountForDowntime draw False now e st w = Some (e', st', w')"
    and "ss_LastFiredAt st = Some t"
  obtains missed where "Between (en_schedule e) (accountedThrough st) now maxMissed = Some missed"
    "st' = (if missed = [] then st else
       st\<lparr>ss_MissedRuns := ss_MissedRuns st + int (length missed), ss_LastMissedAt := Some (last missed)\<rparr>)"
    "plan draw now e = Some e'"
proof -
  have f: "fixed (sc_loc (en_schedule e))" using assms(1) by (simp add: entry_ok_def)
  obtain missed where "Between (en_schedule e) (accountedThrough st) now maxMissed = Some missed"
    by (rule Between_total [OF f])
  then show ?thesis
    using assms(2,3) by (intro that [of missed]) (auto simp: accountForDowntime_def Let_def split: if_splits)
qed

text \<open>A worker fired every minute, last at the epoch, with a window of ten seconds.\<close>

definition minutely :: Entry where
  "minutely = \<lparr>en_worker = ''tick'', en_schedule = \<lparr>sc_minute = 1152921504606846975, sc_hour = 16777215,
       sc_dom = 4294967294, sc_month = 8190, sc_dow = 127, sc_domRestricted = False, sc_dowRestricted = False,
       sc_loc = UTC, sc_spec = ''* * * * *''\<rparr>, en_jitter = 10 * second, en_occurrence = minute,
     en_fireAt = minute + 9 * second, en_planned = True\<rparr>"

definition fired_at_epoch :: ScheduleState where
  "fired_at_epoch = zero_ScheduleState\<lparr>ss_LastFiredAt := Some 0\<rparr>"

lemma minutely_facts:
  "Parse ''* * * * *'' None = Inr (en_schedule minutely)"
  "Next (en_schedule minutely) 0 = Some (Some minute)" "accountedThrough fired_at_epoch = 0"
  "entry_ok ''tick'' minutely"
  by (code_simp, code_simp, simp add: accountedThrough_def fired_at_epoch_def zero_ScheduleState_def zero_time_def time_units,
    simp add: entry_ok_def minutely_def UTC_def fixed_def MaxInt64_def time_units)

text \<open>
  Downtime is counted exactly, and once. When the daemon comes back within the search horizon and
  fewer than a thousand runs were missed, the count grows by the number of occurrences between the
  instant accounted for and now, the schedule is then accounted for up to the last of them, the next
  firing is planned after now; and a second restart before that firing adds nothing.
\<close>

theorem downtime_counted_once:
  assumes "entry_ok n e" and "ss_LastFiredAt st = Some t"
    and "accountForDowntime draw False now e st w = Some (e1, st1, w1)"
    and "ss_MissedRuns st1 < ss_MissedRuns st + maxMissed" and "now \<le> accountedThrough st + horizon"
  shows "ss_MissedRuns st1 = ss_MissedRuns st +
      int (card {v. accountedThrough st < v \<and> v \<le> now \<and> occurs (en_schedule e) v}) \<and>
    (en_planned e1 \<longrightarrow> now < en_occurrence e1) \<and>
    (\<forall>draw' e2 st2 w2. accountForDowntime draw' False now e st1 w1 = Some (e2, st2, w2) \<longrightarrow> st2 = st1)"
proof -
  have f: "fixed (sc_loc (en_schedule e))" using assms(1) by (simp add: entry_ok_def)
  obtain missed where m: "Between (en_schedule e) (accountedThrough st) now maxMissed = Some missed"
    "st1 = (if missed = [] then st else
       st\<lparr>ss_MissedRuns := ss_MissedRuns st + int (length missed), ss_LastMissedAt := Some (last missed)\<rparr>)"
    "plan draw now e = Some e1"
    using accountForDowntime_cases [OF assms(1,3,2)] by blast
  note sound = Between_sound [OF f m(1)]
  have few: "int (length missed) < maxMissed" using assms(4) m(2) by (auto simp: maxMissed_def split: if_splits)
  have "set missed = {v. accountedThrough st < v \<and> v \<le> now \<and> occurs (en_schedule e) v}"
    using sound Between_complete [OF f m(1) few] assms(5) by auto
  moreover have "card (set missed) = length missed"
    using sound distinct_card strict_sorted_iff by blast
  ultimately have count: "int (length missed) = int (card {v. accountedThrough st < v \<and> v \<le> now \<and> occurs (en_schedule e) v})"
    by simp
  have again: "Between (en_schedule e) (accountedThrough st1) now maxMissed = Some []"
  proof (cases "missed = []")
    case True
    then show ?thesis using m by simp
  next
    case False
    then have "accountedThrough st < last missed" using sound last_in_set by blast
    then have "accountedThrough st1 = last missed"
      using m(2) False through_last [OF assms(2)] assms(2) by (simp add: accountedThrough_def Let_def)
    then show ?thesis using Between_then_nothing [OF f m(1) few False] by simp
  qed
  have same: "st2 = st1" if "accountForDowntime draw' False now e st1 w1 = Some (e2, st2, w2)" for draw' e2 st2 w2
  proof -
    have "ss_LastFiredAt st1 = Some t" using m(2) assms(2) by simp
    from accountForDowntime_cases [OF assms(1) that this] again show ?thesis by auto
  qed
  have "en_planned e1 \<longrightarrow> now < en_occurrence e1"
    using plan_total [OF assms(1), of draw now] m(3) by (metis option.inject)
  then show ?thesis using count m(2) same by (auto split: if_splits)
qed

theorem downtime_counted_once_witness:
  "card {v. 0 < v \<and> v \<le> second \<and> occurs (en_schedule minutely) v} = 0"
proof -
  let ?st = fired_at_epoch
  have lf: "ss_LastFiredAt ?st = Some 0" by (simp add: fired_at_epoch_def)
  have "Between (en_schedule minutely) (accountedThrough ?st) second maxMissed = Some []"
    using minutely_facts(2,3) by (cases "nat maxMissed") (auto simp: Between_def time_units)
  moreover obtain e1 where "plan (\<lambda>_. 0) second minutely = Some e1"
    using plan_total [OF minutely_facts(4), of "\<lambda>_. 0" second] by metis
  ultimately have a: "accountForDowntime (\<lambda>_. 0) False second minutely ?st w = Some (e1, ?st, w)" for w
    by (simp add: accountForDowntime_def Let_def)
  have "second \<le> accountedThrough ?st + horizon" unfolding minutely_facts(3) by (simp add: horizon_def time_units)
  moreover have "ss_MissedRuns ?st < ss_MissedRuns ?st + maxMissed" by (simp add: maxMissed_def)
  ultimately have "ss_MissedRuns ?st = ss_MissedRuns ?st +
      int (card {v. accountedThrough ?st < v \<and> v \<le> second \<and> occurs (en_schedule minutely) v})"
    using downtime_counted_once [OF minutely_facts(4) lf a] by blast
  then show ?thesis unfolding minutely_facts(3) by linarith
qed

text \<open>
  A catch-up is not recorded as a miss. The comment on \<^verbatim>\<open>accountForDowntime\<close> says that a missed
  occurrence is recorded whether or not it is caught up; with \<^verbatim>\<open>catch_up\<close> the state and the database are
  left as they were, however many occurrences were missed, and only the last of the enumerated ones is
  planned.
\<close>

theorem catch_up_records_nothing:
  assumes "entry_ok n e" and "ss_LastFiredAt st = Some t"
    and "Next (en_schedule e) (accountedThrough st) = Some (Some u)" and "u \<le> now"
  shows "\<exists>e'. accountForDowntime draw True now e st w = Some (e', st, w) \<and> en_planned e' \<and>
    en_fireAt e' = now \<and> accountedThrough st < en_occurrence e' \<and> en_occurrence e' \<le> now"
proof -
  have f: "fixed (sc_loc (en_schedule e))" using assms(1) by (simp add: entry_ok_def)
  obtain missed where m: "Between (en_schedule e) (accountedThrough st) now maxMissed = Some missed"
    by (rule Between_total [OF f])
  have "missed \<noteq> []" using m Between_nonempty [OF assms(3,4)] by (auto simp: maxMissed_def)
  then have "last missed \<in> set missed" by simp
  then have "accountedThrough st < last missed \<and> last missed \<le> now" using Between_sound [OF f m] by blast
  then show ?thesis
    using m assms(2) \<open>missed \<noteq> []\<close> by (simp add: accountForDowntime_def Let_def setPlan_def)
qed

theorem catch_up_records_nothing_witness:
  "\<exists>e'. accountForDowntime (\<lambda>_. 0) True hour minutely fired_at_epoch (new_world Default [] empty_db) = Some (e', fired_at_epoch, (new_world Default [] empty_db))"
  using catch_up_records_nothing [OF minutely_facts(4), of fired_at_epoch 0 minute hour "\<lambda>_. 0" "(new_world Default [] empty_db)"]
  by (auto simp: minutely_facts) (auto simp: fired_at_epoch_def time_units)

text \<open>
  A reload inside the jitter window loses the firing. The entry is planned for an occurrence that
  has passed, its submission is still ahead; a reload rebuilds the plan, which counts the occurrence as
  missed downtime, although the daemon was running, and plans a later one. So a worker reloaded within
  every window never runs.
\<close>

theorem reload_within_the_jitter_window:
  assumes "entry_ok n e" and "ss_LastFiredAt st = Some t" and "accountedThrough st < en_occurrence e"
    and "Next (en_schedule e) (accountedThrough st) = Some (Some (en_occurrence e))"
    and "en_planned e" and "en_occurrence e \<le> now" and "now < en_fireAt e"
  shows "\<exists>e' st' w'. accountForDowntime draw False now e st w = Some (e', st', w') \<and>
    ss_MissedRuns st < ss_MissedRuns st' \<and> ss_LastFiredAt st' = Some t \<and>
    (en_planned e' \<longrightarrow> en_occurrence e < en_occurrence e')"
proof -
  have f: "fixed (sc_loc (en_schedule e))" using assms(1) by (simp add: entry_ok_def)
  obtain missed where m: "Between (en_schedule e) (accountedThrough st) now maxMissed = Some missed"
    by (rule Between_total [OF f])
  have ne: "missed \<noteq> []" using m Between_nonempty [OF assms(4,6)] by (auto simp: maxMissed_def)
  obtain e' where p: "plan draw now e = Some e'" "en_planned e' \<longrightarrow> now < en_occurrence e'"
    using plan_total [OF assms(1), of draw now] by metis
  show ?thesis
    using m ne p assms(2,6) by (simp add: accountForDowntime_def Let_def) force
qed

theorem reload_within_the_jitter_window_witness:
  "\<exists>e' st' w'. accountForDowntime (\<lambda>_. 5) False (minute + second) minutely fired_at_epoch (new_world Default [] empty_db) = Some (e', st', w') \<and>
     0 < ss_MissedRuns st'"
  using reload_within_the_jitter_window [OF minutely_facts(4), of fired_at_epoch 0 "minute + second" "\<lambda>_. 5" "(new_world Default [] empty_db)"]
  by (auto simp: minutely_facts) (auto simp: fired_at_epoch_def zero_ScheduleState_def minutely_def time_units)

end
