(* ===== verification/Files.thy ===== *)
theory Files
  imports Prelude
begin

text \<open>
  The part of Go's \<^verbatim>\<open>os\<close> package the log store calls, on a directory of names, inodes and open
  descriptors: unlinking or renaming a file that is open leaves the descriptor on the inode, as on
  the Linux file systems the daemon runs on. Paths are whole strings and the directories that hold
  them always exist.

  Any call can fail: \<open>fs_faults\<close> says, call by call, which ones do. A failing write may have stored
  part of its bytes, \<open>Some k\<close> says how many; any other failing call changes nothing, apart from
  \<^verbatim>\<open>Close\<close>, which gives up the descriptor either way.
\<close>

datatype os_error = ErrNotExist | ErrClosed | ErrTooLong | ErrFault

record Files =
  fs_names :: "string \<rightharpoonup> nat"
  fs_data :: "nat \<Rightarrow> string"
  fs_mtime :: "nat \<Rightarrow> gtime"
  fs_inodes :: nat
  fs_fds :: "nat \<rightharpoonup> nat \<times> nat"
  fs_fd :: nat
  fs_now :: gtime
  fs_faults :: "nat option list"

definition no_files :: Files where
  "no_files = \<lparr>fs_names = Map.empty, fs_data = (\<lambda>_. []), fs_mtime = (\<lambda>_. 0), fs_inodes = 0,
     fs_fds = Map.empty, fs_fd = 0, fs_now = 0, fs_faults = []\<rparr>"

definition fault :: "Files \<Rightarrow> nat option" where
  "fault fs = (case fs_faults fs of f # _ \<Rightarrow> f | [] \<Rightarrow> None)"

definition called :: "Files \<Rightarrow> Files" where
  "called fs = fs\<lparr>fs_faults := tl (fs_faults fs)\<rparr>"

text \<open>The next step of a call that can fail.\<close>

fun and_then :: "('e + 'a) \<times> 's \<Rightarrow> ('a \<Rightarrow> 's \<Rightarrow> ('e + 'b) \<times> 's) \<Rightarrow> ('e + 'b) \<times> 's" where
  "and_then (Inl e, s) k = (Inl e, s)"
| "and_then (Inr a, s) k = k a s"

text \<open>A call that only answers whether it failed: \<^verbatim>\<open>MkdirAll\<close>, \<^verbatim>\<open>Stat\<close> of an open file, \<^verbatim>\<open>Seek\<close>.\<close>

definition os_call :: "Files \<Rightarrow> (os_error + unit) \<times> Files" where
  "os_call fs = (if fault fs = None then Inr () else Inl ErrFault, called fs)"

text \<open>\<^verbatim>\<open>OpenFile\<close> with \<^verbatim>\<open>O_CREATE|O_WRONLY|O_TRUNC\<close>.\<close>

definition os_create :: "string \<Rightarrow> Files \<Rightarrow> (os_error + nat) \<times> Files" where
  "os_create path fs =
     (if fault fs \<noteq> None then (Inl ErrFault, called fs)
      else
        let ino = (case fs_names fs path of Some i \<Rightarrow> i | None \<Rightarrow> fs_inodes fs);
            fresh = (if fs_names fs path = None then Suc (fs_inodes fs) else fs_inodes fs)
        in (Inr (fs_fd fs),
            (called fs)\<lparr>fs_names := (fs_names fs)(path \<mapsto> ino), fs_data := (fs_data fs)(ino := []),
              fs_mtime := (fs_mtime fs)(ino := fs_now fs), fs_inodes := fresh,
              fs_fds := (fs_fds fs)(fs_fd fs \<mapsto> (ino, 0)), fs_fd := Suc (fs_fd fs)\<rparr>))"

text \<open>Bytes written at an offset; a gap before it reads as zeros.\<close>

definition put_at :: "nat \<Rightarrow> string \<Rightarrow> string \<Rightarrow> string" where
  "put_at off p d =
     take off d @ replicate (off - length d) (CHR 0x00) @ p @ drop (off + length p) d"

definition os_write :: "nat \<Rightarrow> string \<Rightarrow> Files \<Rightarrow> (os_error + unit) \<times> Files" where
  "os_write fd p fs =
     (case fs_fds fs fd of
        None \<Rightarrow> (Inl ErrClosed, called fs)
      | Some (ino, off) \<Rightarrow>
          let stored = (case fault fs of Some k \<Rightarrow> take k p | None \<Rightarrow> p)
          in (if fault fs = None then Inr () else Inl ErrFault,
              (called fs)\<lparr>fs_data := (fs_data fs)(ino := put_at off stored (fs_data fs ino)),
                fs_mtime := (fs_mtime fs)(ino := fs_now fs),
                fs_fds := (fs_fds fs)(fd \<mapsto> (ino, off + length stored))\<rparr>))"

definition os_close :: "nat \<Rightarrow> Files \<Rightarrow> (os_error + unit) \<times> Files" where
  "os_close fd fs =
     (if fs_fds fs fd = None then (Inl ErrClosed, called fs)
      else (if fault fs = None then Inr () else Inl ErrFault,
            (called fs)\<lparr>fs_fds := (fs_fds fs)(fd := None)\<rparr>))"

definition os_remove :: "string \<Rightarrow> Files \<Rightarrow> (os_error + unit) \<times> Files" where
  "os_remove path fs =
     (if fault fs \<noteq> None then (Inl ErrFault, called fs)
      else if fs_names fs path = None then (Inl ErrNotExist, called fs)
      else (Inr (), (called fs)\<lparr>fs_names := (fs_names fs)(path := None)\<rparr>))"

definition os_rename :: "string \<Rightarrow> string \<Rightarrow> Files \<Rightarrow> (os_error + unit) \<times> Files" where
  "os_rename from to' fs =
     (if fault fs \<noteq> None then (Inl ErrFault, called fs)
      else
        case fs_names fs from of
          None \<Rightarrow> (Inl ErrNotExist, called fs)
        | Some i \<Rightarrow> (Inr (), (called fs)\<lparr>fs_names := (fs_names fs)(from := None, to' \<mapsto> i)\<rparr>))"

text \<open>
  \<^verbatim>\<open>Open\<close> of a file to read it, with its inode, which is what \<^verbatim>\<open>SameFile\<close> compares, and its bytes.
\<close>

definition os_open :: "string \<Rightarrow> Files \<Rightarrow> (os_error + nat \<times> string) \<times> Files" where
  "os_open path fs =
     (if fault fs \<noteq> None then (Inl ErrFault, called fs)
      else
        case fs_names fs path of
          None \<Rightarrow> (Inl ErrNotExist, called fs)
        | Some i \<Rightarrow> (Inr (i, fs_data fs i), called fs))"

text \<open>The time a file was last written.\<close>

definition os_stat :: "string \<Rightarrow> Files \<Rightarrow> (os_error + gtime) \<times> Files" where
  "os_stat path fs =
     (if fault fs \<noteq> None then (Inl ErrFault, called fs)
      else
        case fs_names fs path of
          None \<Rightarrow> (Inl ErrNotExist, called fs)
        | Some i \<Rightarrow> (Inr (fs_mtime fs i), called fs))"

text \<open>What a path shows.\<close>

definition contents :: "Files \<Rightarrow> string \<Rightarrow> string option" where
  "contents fs path = map_option (fs_data fs) (fs_names fs path)"

end
