(* ===== verification/Logs.thy ===== *)
theory Logs
  imports Files GoStrings GoTime
begin

text \<open>
  \<^verbatim>\<open>internal/logstore/logstore.go\<close>: the files that hold the output of an attempt, what bounds them
  (a cap or rotation), the register of the files an attempt is writing to, reading the output
  back, and retention.
\<close>

datatype Stream = StreamStdout | StreamStderr | StreamBoth | StreamOther string

fun Stream_text :: "Stream \<Rightarrow> string" where
  "Stream_text StreamStdout = ''stdout''"
| "Stream_text StreamStderr = ''stderr''"
| "Stream_text StreamBoth = ''both''"
| "Stream_text (StreamOther s) = s"

definition maxLineBytes :: nat where "maxLineBytes = 2 ^ 20"
definition tailChunkBytes :: nat where "tailChunkBytes = 64 * 2 ^ 10"
definition maxTailBytes :: nat where "maxTailBytes = 8 * 2 ^ 20"

record Policy =
  po_MaxBytesPerStream :: int
  po_MaxFiles :: int

record LogStore =
  ls_root :: string
  ls_maxBytes :: int
  ls_open :: "string \<rightharpoonup> int"

definition NewLogs :: "string \<Rightarrow> int \<Rightarrow> LogStore" where
  "NewLogs dir maxBytes = \<lparr>ls_root = dir, ls_maxBytes = maxBytes, ls_open = Map.empty\<rparr>"

section \<open>Paths\<close>

definition relPath :: "string \<Rightarrow> int \<Rightarrow> Stream \<Rightarrow> gtime \<Rightarrow> string" where
  "relPath processID attempt stream at =
     pad 4 (Year UTC at) @ ''/'' @ pad 2 (Month UTC at) @ ''/'' @ processID @ ''.'' @ Itoa attempt @ ''.'' @
     Stream_text stream @ ''.log''"

text \<open>The root is a clean path, so that \<^verbatim>\<open>filepath.Join\<close> puts one slash between the two.\<close>

definition under :: "string \<Rightarrow> string \<Rightarrow> string" where
  "under root rel = root @ ''/'' @ rel"

definition Path :: "LogStore \<Rightarrow> string \<Rightarrow> int \<Rightarrow> Stream \<Rightarrow> gtime \<Rightarrow> string" where
  "Path s processID attempt stream at = under (ls_root s) (relPath processID attempt stream at)"

definition rotatedPath :: "string \<Rightarrow> int \<Rightarrow> string" where
  "rotatedPath path generation = path @ ''.'' @ Itoa generation"

definition RotatedPath :: "LogStore \<Rightarrow> string \<Rightarrow> int \<Rightarrow> Stream \<Rightarrow> gtime \<Rightarrow> int \<Rightarrow> string" where
  "RotatedPath s processID attempt stream at generation =
     rotatedPath (Path s processID attempt stream at) generation"

section \<open>The files being written\<close>

text \<open>A missing entry of a Go map reads as zero.\<close>

definition open_count :: "LogStore \<Rightarrow> string \<Rightarrow> int" where
  "open_count s rel = (case ls_open s rel of None \<Rightarrow> 0 | Some n \<Rightarrow> n)"

definition markOpen :: "string \<Rightarrow> LogStore \<Rightarrow> LogStore" where
  "markOpen rel s = s\<lparr>ls_open := (ls_open s)(rel \<mapsto> open_count s rel + 1)\<rparr>"

definition markClosed :: "string \<Rightarrow> LogStore \<Rightarrow> LogStore" where
  "markClosed rel s =
     (if open_count s rel \<le> 1 then s\<lparr>ls_open := (ls_open s)(rel := None)\<rparr>
      else s\<lparr>ls_open := (ls_open s)(rel \<mapsto> open_count s rel - 1)\<rparr>)"

definition isOpen :: "LogStore \<Rightarrow> string \<Rightarrow> bool" where
  "isOpen s rel \<longleftrightarrow> open_count s rel > 0"

section \<open>Rotation\<close>

record Rotator =
  ro_path :: string
  ro_maxFiles :: int
  ro_current :: nat

text \<open>The renames of one rotation, from generation \<open>g\<close> down to 1; a generation that is not there is skipped.\<close>

fun rename_down :: "string \<Rightarrow> nat \<Rightarrow> Files \<Rightarrow> (os_error + unit) \<times> Files" where
  "rename_down path 0 fs = (Inr (), fs)"
| "rename_down path (Suc g) fs =
     (case os_rename (rotatedPath path (int (Suc g))) (rotatedPath path (int (Suc g) + 1)) fs of
        (Inl e, fs) \<Rightarrow> if e \<noteq> ErrNotExist then (Inl e, fs) else rename_down path g fs
      | (Inr _, fs) \<Rightarrow> rename_down path g fs)"

text \<open>Whether a generation was discarded, or the error; a rotation that fails after the removal has still discarded it.\<close>

definition shift :: "Rotator \<Rightarrow> Files \<Rightarrow> (os_error + bool) \<times> Files" where
  "shift r fs =
     (let (removed, fs) = os_remove (rotatedPath (ro_path r) (ro_maxFiles r)) fs
      in case removed of
           Inl ErrFault \<Rightarrow> (Inl ErrFault, fs)
         | Inl ErrClosed \<Rightarrow> (Inl ErrClosed, fs)
         | Inl ErrTooLong \<Rightarrow> (Inl ErrTooLong, fs)
         | _ \<Rightarrow>
             let dropped = (removed = Inr ())
             in and_then (rename_down (ro_path r) (nat (ro_maxFiles r - 1)) fs) (\<lambda>_ fs.
                and_then (os_rename (ro_path r) (rotatedPath (ro_path r) 1) fs) (\<lambda>_ fs.
                (Inr dropped, fs))))"

definition next_file :: "Rotator \<Rightarrow> Files \<Rightarrow> (os_error + Rotator \<times> bool) \<times> Files" where
  "next_file r fs =
     and_then (os_close (ro_current r) fs) (\<lambda>_ fs.
     and_then (shift r fs) (\<lambda>dropped fs.
     and_then (os_create (ro_path r) fs) (\<lambda>fd fs.
     (Inr (r\<lparr>ro_current := fd\<rparr>, dropped), fs))))"

section \<open>Writers\<close>

record StreamWriter =
  sw_w :: nat
  sw_limit :: int
  sw_written :: int
  sw_stored :: int
  sw_capped :: bool
  sw_dropped :: bool
  sw_rotate :: "Rotator option"

definition truncation_marker :: "int \<Rightarrow> string" where
  "truncation_marker limit =
     [CHR 0x0A] @ ''[processd] output truncated at '' @ Itoa limit @ '' bytes'' @ [CHR 0x0A]"

definition markCapped :: "StreamWriter \<Rightarrow> Files \<Rightarrow> os_error option \<times> StreamWriter \<times> Files" where
  "markCapped c fs =
     (case os_write (sw_w c) (truncation_marker (sw_limit c)) fs of
        (Inl e, fs) \<Rightarrow> (Some e, c\<lparr>sw_capped := True\<rparr>, fs)
      | (Inr _, fs) \<Rightarrow> (None, c\<lparr>sw_capped := True\<rparr>, fs))"

definition roll :: "StreamWriter \<Rightarrow> Files \<Rightarrow> os_error option \<times> StreamWriter \<times> Files" where
  "roll c fs =
     (case sw_rotate c of
        None \<Rightarrow> markCapped c fs
      | Some r \<Rightarrow>
          if sw_limit c \<le> 0 then markCapped c fs
          else
            case next_file r fs of
              (Inl e, fs) \<Rightarrow> (Some e, c, fs)
            | (Inr (r, dropped), fs) \<Rightarrow>
                (None, c\<lparr>sw_w := ro_current r, sw_written := 0,
                   sw_dropped := (sw_dropped c \<or> dropped), sw_rotate := Some r\<rparr>, fs))"

lemma roll_progress:
  assumes "roll c fs = (None, c', fs')"
  shows "sw_capped c' \<or> sw_written c' < sw_limit c'"
  using assms by (auto simp: roll_def markCapped_def split: option.splits if_splits prod.splits sum.splits)

text \<open>
  The loop of \<^verbatim>\<open>Write\<close> on what is left of the bytes. The first component is the error, with whether
  the call reports all the bytes as written or none.
\<close>

function write_loop :: "string \<Rightarrow> StreamWriter \<Rightarrow> Files \<Rightarrow> (os_error \<times> bool) option \<times> StreamWriter \<times> Files" where
  "write_loop p c fs =
     (if p = [] \<or> sw_capped c then (None, c, fs)
      else
        let remaining = sw_limit c - sw_written c
        in if remaining \<le> 0 then
             (case roll c fs of
                (Some e, c, fs) \<Rightarrow> (Some (e, True), c, fs)
              | (None, c, fs) \<Rightarrow> write_loop p c fs)
           else
             let size = min (int (length p)) remaining
             in case os_write (sw_w c) (take (nat size) p) fs of
                  (Inl e, fs) \<Rightarrow> (Some (e, False), c, fs)
                | (Inr _, fs) \<Rightarrow>
                    write_loop (drop (nat size) p)
                      (c\<lparr>sw_written := sw_written c + size, sw_stored := sw_stored c + size\<rparr>) fs)"
  by pat_completeness auto

termination
proof (relation "measure (\<lambda>(p, c, fs). 2 * length p + (if sw_capped c \<or> sw_written c < sw_limit c then 0 else 1))",
    simp, goal_cases)
  case (1 p c fs x y xa ya)
  from 1(1,2,3) have "roll c fs = (None, ya, snd xa)" using 1 by (cases xa) auto
  from roll_progress [OF this] show ?case using 1 by auto
next
  case (2 p c fs)
  then show ?case by (auto simp: Let_def split: if_splits)
qed

declare write_loop.simps [simp del]

definition Write :: "string \<Rightarrow> StreamWriter \<Rightarrow> Files \<Rightarrow> (int \<times> os_error option) \<times> StreamWriter \<times> Files" where
  "Write p c fs =
     (case write_loop p c fs of
        (None, c, fs) \<Rightarrow> ((int (length p), None), c, fs)
      | (Some (e, all), c, fs) \<Rightarrow> ((if all then int (length p) else 0, Some e), c, fs))"

definition Truncated :: "StreamWriter \<Rightarrow> bool" where
  "Truncated c \<longleftrightarrow> sw_capped c \<or> sw_dropped c"

text \<open>Close goes to the rotator of a stream that rotates, and to the one file of a stream that does not.\<close>

definition Close_stream :: "StreamWriter \<Rightarrow> Files \<Rightarrow> (os_error + unit) \<times> Files" where
  "Close_stream c fs = os_close (case sw_rotate c of None \<Rightarrow> sw_w c | Some r \<Rightarrow> ro_current r) fs"

section \<open>The files of an attempt\<close>

record LogAttempt =
  la_Stdout :: StreamWriter
  la_Stderr :: StreamWriter
  la_files :: "string list"

definition openStream ::
  "string \<Rightarrow> int \<Rightarrow> Stream \<Rightarrow> gtime \<Rightarrow> Policy \<Rightarrow> LogStore \<Rightarrow> Files \<Rightarrow> (os_error + StreamWriter) \<times> LogStore \<times> Files" where
  "openStream processID attempt stream at policy s fs =
     (let path = Path s processID attempt stream at; rel = relPath processID attempt stream at
      in case os_call fs of
           (Inl e, fs) \<Rightarrow> (Inl e, s, fs)
         | (Inr _, fs) \<Rightarrow>
             case os_create path fs of
               (Inl e, fs) \<Rightarrow> (Inl e, markClosed rel (markOpen rel s), fs)
             | (Inr fd, fs) \<Rightarrow>
                 (Inr \<lparr>sw_w = fd, sw_limit = po_MaxBytesPerStream policy, sw_written = 0, sw_stored = 0,
                    sw_capped = False, sw_dropped = False,
                    sw_rotate = (if po_MaxFiles policy > 0
                      then Some \<lparr>ro_path = path, ro_maxFiles = po_MaxFiles policy, ro_current = fd\<rparr> else None)\<rparr>,
                  markOpen rel s, fs))"

definition Create ::
  "string \<Rightarrow> int \<Rightarrow> gtime \<Rightarrow> Policy \<Rightarrow> LogStore \<Rightarrow> Files \<Rightarrow> (os_error + LogAttempt) \<times> LogStore \<times> Files" where
  "Create processID attempt at policy s fs =
     (let policy = (if po_MaxBytesPerStream policy \<le> 0 then policy\<lparr>po_MaxBytesPerStream := ls_maxBytes s\<rparr> else policy)
      in case openStream processID attempt StreamStdout at policy s fs of
           (Inl e, s, fs) \<Rightarrow> (Inl e, s, fs)
         | (Inr stdout, s, fs) \<Rightarrow>
             case openStream processID attempt StreamStderr at policy s fs of
               (Inl e, s, fs) \<Rightarrow>
                 (Inl e, markClosed (relPath processID attempt StreamStdout at) s, snd (Close_stream stdout fs))
             | (Inr stderr, s, fs) \<Rightarrow>
                 (Inr \<lparr>la_Stdout = stdout, la_Stderr = stderr,
                    la_files = [relPath processID attempt StreamStdout at, relPath processID attempt StreamStderr at]\<rparr>,
                  s, fs))"

definition Attempt_Truncated :: "LogAttempt \<Rightarrow> bool" where
  "Attempt_Truncated a \<longleftrightarrow> Truncated (la_Stdout a) \<or> Truncated (la_Stderr a)"

text \<open>The first error of the two closes; the files go back to retention either way.\<close>

definition Close_attempt :: "LogAttempt \<Rightarrow> LogStore \<Rightarrow> Files \<Rightarrow> os_error option \<times> LogAttempt \<times> LogStore \<times> Files" where
  "Close_attempt a s fs =
     (let (out, fs) = Close_stream (la_Stdout a) fs; (err, fs) = Close_stream (la_Stderr a) fs
      in (case out of Inl e \<Rightarrow> Some e | Inr _ \<Rightarrow> (case err of Inl e \<Rightarrow> Some e | Inr _ \<Rightarrow> None),
          a\<lparr>la_files := []\<rparr>, fold markClosed (la_files a) s, fs))"

section \<open>Retention\<close>

text \<open>
  The walk over the log directory is a list, in the order of \<^verbatim>\<open>WalkDir\<close>: a file by its path under the
  root, or the error of reading a directory.
\<close>

fun purge_walk ::
  "LogStore \<Rightarrow> gtime \<Rightarrow> (os_error + string) list \<Rightarrow> int \<Rightarrow> Files \<Rightarrow> (os_error option \<times> int) \<times> Files" where
  "purge_walk s before [] removed fs = ((None, removed), fs)"
| "purge_walk s before (Inl e # entries) removed fs =
     (if e = ErrNotExist then purge_walk s before entries removed fs else ((Some e, removed), fs))"
| "purge_walk s before (Inr rel # entries) removed fs =
     (case os_stat (under (ls_root s) rel) fs of
        (Inl e, fs) \<Rightarrow> ((Some e, removed), fs)
      | (Inr modified, fs) \<Rightarrow>
          if modified > before \<or> isOpen s rel then purge_walk s before entries removed fs
          else
            case os_remove (under (ls_root s) rel) fs of
              (Inl e, fs) \<Rightarrow> ((Some e, removed), fs)
            | (Inr _, fs) \<Rightarrow> purge_walk s before entries (removed + 1) fs)"

text \<open>The first argument is what opening the log directory gives: its walk, or an error.\<close>

definition Purge ::
  "os_error + (os_error + string) list \<Rightarrow> gtime \<Rightarrow> LogStore \<Rightarrow> Files \<Rightarrow> (os_error option \<times> int) \<times> Files" where
  "Purge root before s fs =
     (case root of
        Inl e \<Rightarrow> ((if e = ErrNotExist then None else Some e, 0), fs)
      | Inr entries \<Rightarrow>
          case purge_walk s before entries 0 fs of
            ((e, removed), fs) \<Rightarrow> ((if e = Some ErrNotExist then None else e, removed), fs))"

end
