(* ===== verification/LogRead.thy ===== *)
theory LogRead
  imports Logs
begin

text \<open>
  Reading the output of an attempt back: \<^verbatim>\<open>Lines\<close> of \<^verbatim>\<open>internal/logstore/logstore.go\<close>, with the forward
  scan and the backwards walk behind it, and the follower of \<^verbatim>\<open>internal/logstore/tail.go\<close>.

  Bytes are characters, and the file being read does not change during one call.
\<close>

definition newline :: char where "newline = CHR 0x0A"

section \<open>Scanning forwards\<close>

text \<open>The pieces between newlines; what follows the last newline is a line when it is not empty.\<close>

definition raw_lines :: "string \<Rightarrow> string list" where
  "raw_lines d = (let ps = Split d newline in if last ps = [] then butlast ps else ps)"

definition dropCR :: "string \<Rightarrow> string" where
  "dropCR l = (if l \<noteq> [] \<and> last l = CHR 0x0D then butlast l else l)"

text \<open>\<^verbatim>\<open>bufio.Scanner\<close> with a buffer of \<open>maxLineBytes\<close>: a line has to fit the buffer with its newline.\<close>

definition scan_lines :: "string \<Rightarrow> os_error + string list" where
  "scan_lines d =
     (if \<exists>l \<in> set (raw_lines d). length l \<ge> maxLineBytes then Inl ErrTooLong else Inr (map dropCR (raw_lines d)))"

section \<open>Walking backwards\<close>

text \<open>The position reached and the bytes from it to the end.\<close>

function walk_back :: "string \<Rightarrow> int \<Rightarrow> nat \<Rightarrow> string \<Rightarrow> nat \<times> string" where
  "walk_back d n position buffer =
     (if position > 0 \<and> int (count_list buffer newline) \<le> n \<and> length buffer < maxTailBytes then
        let len = min tailChunkBytes position; position = position - len
        in walk_back d n position (take len (drop position d) @ buffer)
      else (position, buffer))"
  by pat_completeness auto
termination
  by (relation "measure (\<lambda>(d, n, position, buffer). position)") (auto simp: tailChunkBytes_def)

declare walk_back.simps [simp del]

definition TrimRight_newlines :: "string \<Rightarrow> string" where
  "TrimRight_newlines s = rev (dropWhile (\<lambda>c. c = newline) (rev s))"

definition last_n :: "nat \<Rightarrow> 'a list \<Rightarrow> 'a list" where
  "last_n n xs = drop (length xs - n) xs"

definition tailLines :: "string \<Rightarrow> int \<Rightarrow> string list" where
  "tailLines d n =
     (let (position, buffer) = walk_back d n (length d) []
      in if buffer = [] then []
         else
           let lines = Split (TrimRight_newlines buffer) newline;
               lines = (if position > 0 \<and> lines \<noteq> [] then tl lines else lines)
           in if int (length lines) > n then last_n (nat n) lines else lines)"

section \<open>Lines across rotations\<close>

definition readFileLines :: "string \<Rightarrow> int \<Rightarrow> Files \<Rightarrow> (os_error + string list) \<times> Files" where
  "readFileLines path tail fs =
     (case os_open path fs of
        (Inl e, fs) \<Rightarrow> (if e = ErrNotExist then Inr [] else Inl e, fs)
      | (Inr (_, d), fs) \<Rightarrow> (case os_call fs of
          (Inl e, fs) \<Rightarrow> (Inl e, fs)
        | (Inr _, fs) \<Rightarrow> (if tail > 0 then Inr (tailLines d tail) else scan_lines d, fs)))"

text \<open>
  The generations that are there, counted up from the newest until one is missing. \<open>None\<close> stands for
  a search that does not end, in a directory that holds every generation.
\<close>

partial_function (option) generations :: "string \<Rightarrow> nat \<Rightarrow> Files \<Rightarrow> (nat \<times> Files) option" where
  "generations live g fs =
     (case os_stat (rotatedPath live (int (Suc g))) fs of
        (Inl _, fs) \<Rightarrow> Some (g, fs)
      | (Inr _, fs) \<Rightarrow> generations live (Suc g) fs)"

definition streamFiles ::
  "LogStore \<Rightarrow> string \<Rightarrow> int \<Rightarrow> Stream \<Rightarrow> gtime \<Rightarrow> Files \<Rightarrow> (string list \<times> Files) option" where
  "streamFiles s processID attempt stream at fs =
     (let live = Path s processID attempt stream at
      in map_option (\<lambda>(k, fs). (map (\<lambda>g. rotatedPath live (int g)) (rev [1 ..< Suc k]) @ [live], fs))
           (generations live 0 fs))"

text \<open>The paths newest first, and the lines read so far behind them.\<close>

fun read_backward :: "int \<Rightarrow> string list \<Rightarrow> string list \<Rightarrow> Files \<Rightarrow> (os_error + string list) \<times> Files" where
  "read_backward tail [] lines fs = (Inr lines, fs)"
| "read_backward tail (path # paths) lines fs =
     and_then (readFileLines path tail fs) (\<lambda>read fs.
       let lines = read @ lines
       in if tail > 0 \<and> int (length lines) \<ge> tail then (Inr (last_n (nat tail) lines), fs)
          else read_backward tail paths lines fs)"

definition readLines ::
  "LogStore \<Rightarrow> string \<Rightarrow> int \<Rightarrow> Stream \<Rightarrow> gtime \<Rightarrow> int \<Rightarrow> Files \<Rightarrow> ((os_error + string list) \<times> Files) option" where
  "readLines s processID attempt stream at tail fs =
     map_option (\<lambda>(paths, fs). read_backward tail (rev paths) [] fs) (streamFiles s processID attempt stream at fs)"

fun read_streams ::
  "LogStore \<Rightarrow> string \<Rightarrow> int \<Rightarrow> bool \<Rightarrow> gtime \<Rightarrow> int \<Rightarrow> Stream list \<Rightarrow> string list \<Rightarrow> Files
     \<Rightarrow> ((os_error + string list) \<times> Files) option" where
  "read_streams s processID attempt labelled at tail [] lines fs = Some (Inr lines, fs)"
| "read_streams s processID attempt labelled at tail (current # streams) lines fs =
     Option.bind (readLines s processID attempt current at tail fs) (\<lambda>r.
       case r of
         (Inl e, fs) \<Rightarrow> Some (Inl e, fs)
       | (Inr read, fs) \<Rightarrow>
           read_streams s processID attempt labelled at tail streams
             (lines @ (if labelled then map (\<lambda>line. Stream_text current @ '': '' @ line) read else read)) fs)"

definition Lines ::
  "LogStore \<Rightarrow> string \<Rightarrow> int \<Rightarrow> Stream \<Rightarrow> gtime \<Rightarrow> int \<Rightarrow> Files \<Rightarrow> ((os_error + string list) \<times> Files) option" where
  "Lines s processID attempt stream at tail fs =
     map_option (\<lambda>r. and_then r (\<lambda>lines fs.
         (Inr (if tail > 0 \<and> int (length lines) > tail then last_n (nat tail) lines else lines), fs)))
       (read_streams s processID attempt (stream = StreamBoth) at tail
          (if stream = StreamBoth then [StreamStdout, StreamStderr] else [stream]) [] fs)"

section \<open>Following a file\<close>

definition maxPollBytes :: nat where "maxPollBytes = 2 ^ 20"

record Line =
  l_Stream :: Stream
  l_Text :: string

record tailSource =
  ts_path :: string
  ts_stream :: Stream
  ts_offset :: nat
  ts_partial :: string
  ts_info :: "nat option"

text \<open>\<^verbatim>\<open>LastIndex\<close> of a newline.\<close>

fun LastIndex_newline :: "string \<Rightarrow> nat option" where
  "LastIndex_newline [] = None"
| "LastIndex_newline (c # cs) =
     (case LastIndex_newline cs of
        Some i \<Rightarrow> Some (Suc i)
      | None \<Rightarrow> if c = newline then Some 0 else None)"

text \<open>The newline before the last \<open>n\<close> lines of a window.\<close>

fun back_lines :: "string \<Rightarrow> nat \<Rightarrow> nat \<Rightarrow> nat option" where
  "back_lines window 0 start = Some start"
| "back_lines window (Suc n) start =
     (case LastIndex_newline (take start window) of
        None \<Rightarrow> None
      | Some previous \<Rightarrow> back_lines window n previous)"

definition incompleteStart :: "string \<Rightarrow> nat \<Rightarrow> nat \<Rightarrow> nat" where
  "incompleteStart window position end_of =
     (if position = 0 then 0
      else if newline \<notin> set window then end_of
      else position + length (takeWhile (\<lambda>c. c \<noteq> newline) window) + 1)"

definition tailStart :: "string \<Rightarrow> int \<Rightarrow> nat" where
  "tailStart d n =
     (if n < 0 then length d
      else
        let (position, buffer) = walk_back d n (length d) [];
            trimmed = TrimSuffix buffer [newline]
        in case back_lines trimmed (nat n) (length trimmed) of
             None \<Rightarrow> incompleteStart trimmed position (length d)
           | Some start \<Rightarrow> position + start + 1)"

definition startOffset :: "string \<Rightarrow> int \<Rightarrow> Files \<Rightarrow> (os_error + nat) \<times> Files" where
  "startOffset path backlog fs =
     (if backlog = 0 then (Inr 0, fs)
      else
        case os_open path fs of
          (Inl e, fs) \<Rightarrow> (if e = ErrNotExist then Inr 0 else Inl e, fs)
        | (Inr (_, d), fs) \<Rightarrow> and_then (os_call fs) (\<lambda>_ fs. (Inr (tailStart d backlog), fs)))"

fun tail_sources ::
  "LogStore \<Rightarrow> string \<Rightarrow> int \<Rightarrow> gtime \<Rightarrow> int \<Rightarrow> Stream list \<Rightarrow> Files \<Rightarrow> (os_error + tailSource list) \<times> Files" where
  "tail_sources s processID attempt at backlog [] fs = (Inr [], fs)"
| "tail_sources s processID attempt at backlog (current # streams) fs =
     (let path = Path s processID attempt current at
      in and_then (startOffset path backlog fs) (\<lambda>offset fs.
         and_then (tail_sources s processID attempt at backlog streams fs) (\<lambda>sources fs.
         (Inr (\<lparr>ts_path = path, ts_stream = current, ts_offset = offset, ts_partial = [], ts_info = None\<rparr> # sources), fs))))"

definition Tail ::
  "LogStore \<Rightarrow> string \<Rightarrow> int \<Rightarrow> Stream \<Rightarrow> gtime \<Rightarrow> int \<Rightarrow> Files \<Rightarrow> (os_error + tailSource list) \<times> Files" where
  "Tail s processID attempt stream at backlog fs =
     tail_sources s processID attempt at backlog
       (if stream = StreamBoth then [StreamStdout, StreamStderr] else [stream]) fs"

definition split_lines :: "tailSource \<Rightarrow> string \<Rightarrow> Line list \<times> tailSource" where
  "split_lines t chunk =
     (let pieces = Split (ts_partial t @ chunk) newline; rest = last pieces;
          lines = map (\<lambda>text. \<lparr>l_Stream = ts_stream t, l_Text = text\<rparr>) (butlast pieces)
      in if length rest \<ge> maxLineBytes
         then (lines @ [\<lparr>l_Stream = ts_stream t, l_Text = rest\<rparr>], t\<lparr>ts_partial := []\<rparr>)
         else (lines, t\<lparr>ts_partial := rest\<rparr>))"

definition rewindIfRotated :: "nat \<Rightarrow> string \<Rightarrow> tailSource \<Rightarrow> tailSource" where
  "rewindIfRotated inode d t =
     (let replaced = (case ts_info t of None \<Rightarrow> False | Some i \<Rightarrow> i \<noteq> inode);
          t = t\<lparr>ts_info := Some inode\<rparr>
      in if \<not> replaced \<and> length d \<ge> ts_offset t then t else t\<lparr>ts_offset := 0, ts_partial := []\<rparr>)"

text \<open>One poll of one file; the calls between opening and reading it can each fail.\<close>

definition read_source :: "tailSource \<Rightarrow> Files \<Rightarrow> (os_error + Line list) \<times> tailSource \<times> Files" where
  "read_source t fs =
     (case os_open (ts_path t) fs of
        (Inl e, fs) \<Rightarrow> (if e = ErrNotExist then Inr [] else Inl e, t, fs)
      | (Inr (inode, d), fs) \<Rightarrow>
          case os_call fs of
            (Inl e, fs) \<Rightarrow> (Inl e, t, fs)
          | (Inr _, fs) \<Rightarrow>
              let t = rewindIfRotated inode d t
              in case os_call fs of
                   (Inl e, fs) \<Rightarrow> (Inl e, t, fs)
                 | (Inr _, fs) \<Rightarrow>
                     let chunk = take maxPollBytes (drop (ts_offset t) d);
                         (lines, t) = split_lines (t\<lparr>ts_offset := ts_offset t + length chunk\<rparr>) chunk
                     in (Inr lines, t, fs))"

text \<open>One poll of every file; the first error loses what the poll has read so far.\<close>

fun Tailer_Read :: "tailSource list \<Rightarrow> Files \<Rightarrow> (os_error + Line list) \<times> tailSource list \<times> Files" where
  "Tailer_Read [] fs = (Inr [], [], fs)"
| "Tailer_Read (t # ts) fs =
     (case read_source t fs of
        (Inl e, t, fs) \<Rightarrow> (Inl e, t # ts, fs)
      | (Inr lines, t, fs) \<Rightarrow>
          case Tailer_Read ts fs of
            (Inl e, ts, fs) \<Rightarrow> (Inl e, t # ts, fs)
          | (Inr rest, ts, fs) \<Rightarrow> (Inr (lines @ rest), t # ts, fs))"

end
