(* ===== verification/LogTail.thy ===== *)
theory LogTail
  imports LogRead
begin

text \<open>
  What reading the log back gives: the backwards walk returns the last lines of the file, and a
  follower starts at the right line and neither loses nor repeats what the file shows.
\<close>

section \<open>Pieces between newlines\<close>

abbreviation newlines :: "string \<Rightarrow> nat" where
  "newlines s \<equiv> count_list s newline"

lemma Split_length: "length (Split d sep) = Suc (count_list d sep)"
  by (induction d) (auto split: list.splits)

lemma Split_append:
  "Split (x @ y) sep = butlast (Split x sep) @ (last (Split x sep) @ hd (Split y sep)) # tl (Split y sep)"
proof (induction x)
  case Nil
  then show ?case by (cases "Split y sep") auto
next
  case (Cons c x)
  then show ?case
    by (cases "Split x sep") (auto split: list.splits)
qed

lemma last_Split_Nil: "last (Split d sep) = [] \<longleftrightarrow> d = [] \<or> last d = sep"
proof (cases d rule: rev_cases)
  case (snoc x c)
  then show ?thesis by (simp add: Split_append)
qed simp

lemma count_list_eq_0: "count_list xs x = 0 \<longleftrightarrow> x \<notin> set xs"
  by (induction xs) auto

lemma raw_lines_Nil [simp]: "raw_lines [] = []"
  by (simp add: raw_lines_def)

lemma raw_lines_terminated: "raw_lines (x @ [newline]) = Split x newline"
  by (simp add: raw_lines_def Split_append_sep)

lemma raw_lines_unterminated: "d \<noteq> [] \<Longrightarrow> last d \<noteq> newline \<Longrightarrow> raw_lines d = Split d newline"
  by (simp add: raw_lines_def last_Split_Nil)

lemma raw_lines_trim:
  assumes "d \<noteq> []"
  shows "raw_lines d = Split (TrimSuffix d [newline]) newline"
proof (cases "last d = newline")
  case True
  then obtain x where d: "d = x @ [newline]" using assms by (metis append_butlast_last_id)
  show ?thesis by (simp add: d raw_lines_terminated TrimSuffix_def HasSuffix_def)
next
  case False
  then have "TrimSuffix d [newline] = d"
    using assms by (cases d rule: rev_cases) (auto simp: TrimSuffix_def HasSuffix_def)
  then show ?thesis by (simp add: raw_lines_unterminated assms False)
qed

lemma last_n_all: "length xs \<le> n \<Longrightarrow> last_n n xs = xs"
  by (simp add: last_n_def)

lemma last_n_append: "n \<le> length ys \<Longrightarrow> last_n n (xs @ ys) = last_n n ys"
  by (simp add: last_n_def)

lemma last_n_length: "length xs = n \<Longrightarrow> last_n n (ys @ xs) = xs"
  by (simp add: last_n_def)

section \<open>The backwards walk\<close>

lemma walk_back_inv:
  assumes "walk_back d n position buffer = (q, b)" and "d = take position d @ buffer" and "position \<le> length d"
  shows "q \<le> length d \<and> d = take q d @ b \<and>
    \<not> (q > 0 \<and> int (newlines b) \<le> n \<and> length b < maxTailBytes)"
  using assms
proof (induction d n position buffer arbitrary: q b rule: walk_back.induct)
  case (1 d n position buffer)
  let ?c = "position > 0 \<and> int (newlines buffer) \<le> n \<and> length buffer < maxTailBytes"
  show ?case
  proof (cases ?c)
    case True
    let ?len = "min tailChunkBytes position"
    have r: "walk_back d n (position - ?len) (take ?len (drop (position - ?len) d) @ buffer) = (q, b)"
      using 1(2) True by (subst (asm) walk_back.simps) (simp add: Let_def)
    have "take position d = take (position - ?len) d @ take ?len (drop (position - ?len) d)"
      by (metis add.commute le_add_diff_inverse2 min.cobounded2 take_add)
    then have "d = take (position - ?len) d @ take ?len (drop (position - ?len) d) @ buffer"
      using 1(3) by (metis append.assoc)
    then show ?thesis using 1(1) [OF True refl refl r] 1(4) by simp
  next
    case False
    then have "(position, buffer) = (q, b)" using 1(2) by (subst (asm) walk_back.simps) (auto split: if_splits)
    then show ?thesis using False 1(3,4) by simp
  qed
qed

text \<open>
  The window the walk needs lies in the bytes it is willing to read: the file is short enough, or
  its last bytes hold more newlines than lines are asked for.
\<close>

definition in_window :: "string \<Rightarrow> int \<Rightarrow> bool" where
  "in_window d n \<longleftrightarrow> length d \<le> maxTailBytes \<or> n < int (newlines (drop (length d - maxTailBytes) d))"

lemma walk_back_window:
  assumes "in_window d n" and "walk_back d n (length d) [] = (q, b)"
  shows "d = take q d @ b" "q = 0 \<or> n < int (newlines b)"
proof -
  have inv: "q \<le> length d" "d = take q d @ b" "\<not> (q > 0 \<and> int (newlines b) \<le> n \<and> length b < maxTailBytes)"
    using walk_back_inv [OF assms(2)] by auto
  then show "d = take q d @ b" by simp
  have lb: "length b = length d - q" using inv(1,2) by (metis append_take_drop_id length_drop same_append_eq)
  show "q = 0 \<or> n < int (newlines b)"
  proof (rule ccontr)
    assume c: "\<not> (q = 0 \<or> n < int (newlines b))"
    then have "maxTailBytes \<le> length b" using inv(3) by auto
    moreover have b: "b = drop q d" using inv(2) by (metis append_take_drop_id same_append_eq)
    ultimately have le: "q \<le> length d - maxTailBytes" and long: "length d > maxTailBytes"
      using lb c inv(1) by auto
    have "drop q d = take (length d - maxTailBytes - q) (drop q d) @ drop (length d - maxTailBytes) d"
      using le by (metis append_take_drop_id drop_drop le_add_diff_inverse2)
    then have "newlines (drop (length d - maxTailBytes) d) \<le> newlines b"
      unfolding b by (metis count_list_append le_add2)
    then show False using assms(1) c long by (auto simp: in_window_def)
  qed
qed

section \<open>The last lines\<close>

lemma HasSuffix_iff: "HasSuffix s suf \<longleftrightarrow> (\<exists>x. s = x @ suf)"
proof
  assume "HasSuffix s suf"
  then have "s = take (length s - length suf) s @ suf" unfolding HasSuffix_def by (metis append_take_drop_id)
  then show "\<exists>x. s = x @ suf" by blast
qed (auto simp: HasSuffix_def)

lemma TrimSuffix_one: "TrimSuffix (x @ [c]) [newline] = (if c = newline then x else x @ [c])"
  by (simp add: TrimSuffix_def HasSuffix_def)

lemma TrimSuffix_Nil [simp]: "TrimSuffix [] [newline] = []"
  by (simp add: TrimSuffix_def)

lemma TrimRight_one:
  assumes "b \<noteq> []" and "\<not> HasSuffix b [newline, newline]"
  shows "TrimRight_newlines b = TrimSuffix b [newline]"
proof (cases b rule: rev_cases)
  case (snoc x c)
  show ?thesis
  proof (cases x rule: rev_cases)
    case Nil
    then show ?thesis using snoc TrimSuffix_one [of "[]" c] by (simp add: TrimRight_newlines_def)
  next
    case (snoc y c')
    with \<open>b = x @ [c]\<close> show ?thesis
      using assms(2) TrimSuffix_one [of x c] by (auto simp: TrimRight_newlines_def HasSuffix_def)
  qed
qed (use assms in simp)

lemma TrimSuffix_append: "b \<noteq> [] \<Longrightarrow> TrimSuffix (x @ b) [newline] = x @ TrimSuffix b [newline]"
  by (cases b rule: rev_cases) (simp_all add: TrimSuffix_one flip: append_assoc)

lemma newlines_TrimSuffix: "newlines b \<le> Suc (newlines (TrimSuffix b [newline]))"
  by (cases b rule: rev_cases) (simp_all add: TrimSuffix_one)

text \<open>The last lines of a file, seen from a window at its end that holds enough newlines.\<close>

lemma last_lines_of_window:
  assumes "b \<noteq> []" and "n \<le> newlines (TrimSuffix b [newline])"
  shows "last_n n (raw_lines (x @ b)) = last_n n (tl (Split (TrimSuffix b [newline]) newline))"
proof -
  let ?y = "TrimSuffix b [newline]"
  have len: "length (tl (Split ?y newline)) = newlines ?y" by (simp add: Split_length)
  have "raw_lines (x @ b) = butlast (Split x newline) @ (last (Split x newline) @ hd (Split ?y newline)) # tl (Split ?y newline)"
    using assms(1) by (simp add: raw_lines_trim TrimSuffix_append Split_append)
  then show ?thesis
    using last_n_append [of n "tl (Split ?y newline)"] assms(2) len by (metis append.assoc append_Cons append_Nil)
qed

text \<open>What the walk returns, in terms of the pieces between newlines that the forward scan also starts from.\<close>

lemma tailLines_raw:
  assumes "n > 0" and "in_window d n" and "\<not> HasSuffix d [newline, newline]"
  shows "tailLines d n = last_n (nat n) (raw_lines d)"
proof -
  obtain q b where w: "walk_back d n (length d) [] = (q, b)" by force
  note win = walk_back_window [OF assms(2) w]
  show ?thesis
  proof (cases "b = []")
    case True
    then have "d = []" using win assms(1) by auto
    then show ?thesis using w by (simp add: tailLines_def True last_n_def)
  next
    case False
    then obtain y c where y: "b = y @ [c]" by (cases b rule: rev_cases) auto
    have "\<not> HasSuffix b [newline, newline]"
      using assms(3) win(1) unfolding HasSuffix_iff by (metis append.assoc)
    then have t: "TrimRight_newlines b = TrimSuffix b [newline]" by (rule TrimRight_one [OF False])
    show ?thesis
    proof (cases "q = 0")
      case True
      then have "raw_lines d = Split (TrimSuffix b [newline]) newline"
        using win(1) False raw_lines_trim [of b] by simp
      then show ?thesis using True False assms(1) by (auto simp: tailLines_def w t last_n_all Let_def)
    next
      case q: False
      let ?y = "TrimSuffix b [newline]"
      have n: "nat n \<le> newlines ?y" using win(2) q newlines_TrimSuffix [of b] assms(1) by linarith
      have "last_n (nat n) (raw_lines d) = last_n (nat n) (tl (Split ?y newline))"
        using last_lines_of_window [OF False n, of "take q d"] win(1) by simp
      then show ?thesis using q False n assms(1) by (auto simp: tailLines_def w t last_n_all Let_def Split_length)
    qed
  qed
qed

lemma last_n_map: "last_n n (map f xs) = map f (last_n n xs)"
  by (simp add: last_n_def drop_map)

text \<open>
  C32. The backwards walk agrees with the forward scan of \<^verbatim>\<open>bufio.Scanner\<close>: of every file that does not
  end with a blank line and whose last lines lie in the 8 MiB the walk is willing to read, a bounded tail
  returns the last lines of a full read, however the 64 KiB blocks cut the file, except that it leaves a
  carriage return at the end of a line, which the scan drops; and it returns the last lines also of a file with a line
  of 1 MiB or more, which the full read refuses.
\<close>

theorem tailLines_last:
  assumes "n > 0" and "in_window d n" and "\<not> HasSuffix d [newline, newline]"
  shows "map dropCR (tailLines d n) = last_n (nat n) (map dropCR (raw_lines d)) \<and>
    (case scan_lines d of
       Inr lines \<Rightarrow> map dropCR (tailLines d n) = last_n (nat n) lines
     | Inl e \<Rightarrow> e = ErrTooLong \<and> (\<exists>l \<in> set (raw_lines d). maxLineBytes \<le> length l) \<and>
         tailLines d n = last_n (nat n) (raw_lines d))"
  using tailLines_raw [OF assms] by (auto simp: scan_lines_def last_n_map)

theorem tailLines_last_witness:
  "map dropCR (tailLines (''a'' @ newline # ''b'' @ CHR 0x0D # newline # ''c'') 2) = [''b'', ''c'']"
proof -
  let ?d = "''a'' @ newline # ''b'' @ CHR 0x0D # newline # ''c''"
  have "map dropCR (tailLines ?d 2) = last_n (nat 2) (map dropCR (raw_lines ?d)) \<and>
    (case scan_lines ?d of
       Inr lines \<Rightarrow> map dropCR (tailLines ?d 2) = last_n (nat 2) lines
     | Inl e \<Rightarrow> e = ErrTooLong \<and> (\<exists>l \<in> set (raw_lines ?d). maxLineBytes \<le> length l) \<and>
         tailLines ?d 2 = last_n (nat 2) (raw_lines ?d))"
    by (rule tailLines_last) (simp_all add: in_window_def maxTailBytes_def HasSuffix_def newline_def)
  then show ?thesis by (simp add: raw_lines_def last_n_def newline_def dropCR_def)
qed

text \<open>The carriage return: a full read of the same two lines drops it and a bounded tail does not.\<close>

theorem tail_keeps_the_carriage_return:
  "scan_lines (''a'' @ CHR 0x0D # newline # ''b'' @ [newline]) = Inr [''a'', ''b''] \<and>
   tailLines (''a'' @ CHR 0x0D # newline # ''b'' @ [newline]) 2 = [''a'' @ [CHR 0x0D], ''b'']"
proof -
  let ?d = "''a'' @ CHR 0x0D # newline # ''b'' @ [newline]"
  have "tailLines ?d 2 = last_n (nat 2) (raw_lines ?d)"
    by (rule tailLines_raw) (simp_all add: in_window_def maxTailBytes_def HasSuffix_def newline_def)
  then show ?thesis
    by (simp add: scan_lines_def raw_lines_def last_n_def newline_def dropCR_def maxLineBytes_def)
qed

text \<open>
  The trailing newlines of the window are all dropped, not only the one that ends the last line:
  of a log that goes on with 64 KiB of blank lines a bounded tail returns nothing, although it holds
  as many lines as were asked for and more.
\<close>

theorem tail_of_blank_lines_is_empty:
  assumes "x \<noteq> []" and "0 < n" and "n < int tailChunkBytes" and "tailChunkBytes \<le> k"
  shows "tailLines (x @ replicate k newline) n = [] \<and> int (length (raw_lines (x @ replicate k newline))) > n"
proof -
  let ?d = "x @ replicate k newline"
  let ?b = "replicate tailChunkBytes newline"
  have len: "length ?d - tailChunkBytes = length x + (k - tailChunkBytes)" using assms(4) by simp
  have count: "newlines (replicate m newline) = m" for m by (induction m) auto
  have chunk: "drop (length ?d - tailChunkBytes) ?d = ?b" using assms(4) by (simp add: len)
  have "walk_back ?d n (length ?d) [] = walk_back ?d n (length ?d - tailChunkBytes) ?b"
    using assms chunk by (subst walk_back.simps) (simp add: Let_def maxTailBytes_def min_absorb1)
  also have "\<dots> = (length ?d - tailChunkBytes, ?b)"
    using assms(3) count by (subst walk_back.simps) simp
  finally have w: "walk_back ?d n (length ?d) [] = (length ?d - tailChunkBytes, ?b)" .
  have "TrimRight_newlines ?b = []"
    by (simp add: TrimRight_newlines_def dropWhile_eq_Nil_conv)
  moreover have "?b \<noteq> []" by (simp add: tailChunkBytes_def)
  moreover have "length ?d - tailChunkBytes > 0" using assms(1) len by simp
  ultimately have none: "tailLines ?d n = []" using w assms(2) by (simp add: tailLines_def)
  have "k > 0" using assms(4) by (simp add: tailChunkBytes_def)
  then have "TrimSuffix ?d [newline] = x @ replicate (k - 1) newline"
    using TrimSuffix_one [of "x @ replicate (k - 1) newline" newline]
    using \<open>k > 0\<close> by (cases k) (simp_all add: replicate_append_same)
  then have "int (length (raw_lines ?d)) > n"
    using raw_lines_trim [of ?d] assms(1,3,4) count [of "k - 1"] by (simp add: Split_length)
  with none show ?thesis ..
qed

theorem tail_of_blank_lines_is_empty_witness:
  "tailLines (''result: 42'' @ replicate tailChunkBytes newline) 100 = []"
  using tail_of_blank_lines_is_empty [of "''result: 42''" 100 tailChunkBytes] by (simp add: tailChunkBytes_def)

section \<open>Where a follower starts\<close>

lemma LastIndex_newline_None: "LastIndex_newline s = None \<longleftrightarrow> newline \<notin> set s"
  by (induction s) (auto split: option.splits)

lemma LastIndex_newline_Some:
  "LastIndex_newline s = Some i \<Longrightarrow> s = take i s @ newline # drop (Suc i) s \<and> newline \<notin> set (drop (Suc i) s)"
  by (induction s arbitrary: i) (auto simp: LastIndex_newline_None split: option.splits if_splits)

text \<open>The walk over a window stops at the newline before its last \<open>n\<close> pieces, or the window has no such newline.\<close>

lemma back_lines_spec:
  assumes "m \<le> length y"
  shows "case back_lines y n m of
      None \<Rightarrow> newlines (take m y) < n
    | Some i \<Rightarrow> n = 0 \<and> i = m \<or>
        (\<exists>z. take m y = take i y @ newline # z \<and> Suc (newlines z) = n)"
  using assms
proof (induction n arbitrary: m)
  case (Suc n)
  show ?case
  proof (cases "LastIndex_newline (take m y)")
    case None
    moreover from None have "newlines (take m y) = 0" by (simp add: LastIndex_newline_None count_list_eq_0)
    ultimately show ?thesis by simp
  next
    case (Some i)
    have i: "take m y = take i (take m y) @ newline # drop (Suc i) (take m y)"
      "newline \<notin> set (drop (Suc i) (take m y))"
      using LastIndex_newline_Some [OF Some] by auto
    then have "i < m" using Suc.prems by (metis Some LastIndex_newline_None append_take_drop_id length_take linorder_not_less list.distinct(1) self_append_conv take_all min.absorb2 drop_eq_Nil)
    define z where "z = drop (Suc i) (take m y)"
    have ty: "take m y = take i y @ newline # z" and z: "newlines z = 0"
      using i \<open>i < m\<close> by (simp_all add: z_def count_list_eq_0 min_absorb1)
    have IH: "case back_lines y n i of
        None \<Rightarrow> newlines (take i y) < n
      | Some j \<Rightarrow> n = 0 \<and> j = i \<or> (\<exists>z. take i y = take j y @ newline # z \<and> Suc (newlines z) = n)"
      using Suc.IH [of i] \<open>i < m\<close> Suc.prems by simp
    show ?thesis
    proof (cases "back_lines y n i")
      case None
      then show ?thesis using IH Some ty z by simp
    next
      case j: (Some j)
      then consider "n = 0" "j = i" | z' where "take i y = take j y @ newline # z'" "Suc (newlines z') = n"
        using IH by auto
      then show ?thesis
      proof cases
        case 1
        then show ?thesis using Some j ty z by auto
      next
        case 2
        then have "take m y = take j y @ newline # (z' @ newline # z)" using ty by simp
        then show ?thesis using Some j 2 z by auto
      qed
    qed
  qed
qed simp

lemma back_lines_bound: "back_lines y n m = Some i \<Longrightarrow> i \<le> m \<and> (n > 0 \<longrightarrow> i < length y)"
proof (induction n arbitrary: m)
  case (Suc n)
  then obtain k where k: "LastIndex_newline (take m y) = Some k" "back_lines y n k = Some i"
    by (auto split: option.splits)
  have "take m y \<noteq> [] \<and> k < length (take m y)"
    using LastIndex_newline_Some [OF k(1)] 
    by (metis append_take_drop_id drop_eq_Nil2 le_less_linear list.distinct(1) same_append_eq LastIndex_newline.simps(1) k(1) option.distinct(1))
  then show ?case using Suc.IH [OF k(2)] by auto
qed simp

text \<open>
  A follower that asks for a backlog starts at the right byte: what the file shows from there on is
  its last lines, exactly as many as were asked for or all of them, blank lines included.
\<close>

theorem tailStart_spec:
  assumes "n > 0" and "in_window d n"
  shows "raw_lines (drop (tailStart d n) d) = last_n (nat n) (raw_lines d)"
proof -
  obtain q b where w: "walk_back d n (length d) [] = (q, b)" by force
  note win = walk_back_window [OF assms(2) w]
  let ?y = "TrimSuffix b [newline]"
  have start: "tailStart d n = (case back_lines ?y (nat n) (length ?y) of
      None \<Rightarrow> incompleteStart ?y q (length d) | Some i \<Rightarrow> q + i + 1)"
    using assms(1) w by (simp add: tailStart_def Let_def)
  show ?thesis
  proof (cases "back_lines ?y (nat n) (length ?y)")
    case None
    then have few: "newlines ?y < nat n" using back_lines_spec [of "length ?y" ?y "nat n"] by simp
    then have q: "q = 0" using win(2) newlines_TrimSuffix [of b] by linarith
    then have "length (raw_lines d) \<le> nat n"
      using few win(1) by (cases "d = []") (auto simp: raw_lines_trim Split_length)
    then show ?thesis using None q start by (simp add: incompleteStart_def last_n_all)
  next
    case (Some i)
    then obtain z where z: "?y = take i ?y @ newline # z" "Suc (newlines z) = nat n"
      using back_lines_spec [of "length ?y" ?y "nat n"] assms(1) by auto
    have "\<exists>e. b = ?y @ e \<and> (e = [] \<and> (b = [] \<or> last b \<noteq> newline) \<or> e = [newline])"
      by (cases b rule: rev_cases) (simp_all add: TrimSuffix_one)
    then obtain e where b: "b = ?y @ e" "e = [] \<and> (b = [] \<or> last b \<noteq> newline) \<or> e = [newline]" by blast
    let ?p = "take q d @ take i ?y @ [newline]"
    have d: "d = ?p @ z @ e" using win(1) b(1) z(1) by (metis append.assoc append_Cons append_Nil)
    have "length (take i ?y) = i"
      using back_lines_bound [OF Some] assms(1) by simp
    moreover have "q \<le> length d" using walk_back_inv [OF w] by simp
    ultimately have p: "length ?p = q + i + 1" by simp
    have "z @ e = drop (length ?p) d"
      by (rule append_eq_conv_conj [THEN iffD1, OF d [symmetric], THEN conjunct2])
    then have "z @ e = drop (q + i + 1) d" unfolding p .
    then have drop: "drop (tailStart d n) d = z @ e" unfolding start Some option.case by (rule sym)
    have ze: "z @ e \<noteq> []"
    proof
      assume "z @ e = []"
      then have "last ?y = newline" "?y = b" "b \<noteq> []" using z(1) b(1) by (metis append_is_Nil_conv last_snoc, simp, metis append_is_Nil_conv list.distinct(1) append_Nil2)
      then show False using b(2) \<open>z @ e = []\<close> by auto
    qed
    have t: "TrimSuffix (z @ e) [newline] = z"
    proof (cases "e = []")
      case True
      then have "last z \<noteq> newline" using b z(1) ze by (metis append_Nil2 append_is_Nil_conv last_ConsR last_appendR list.distinct(1))
      then show ?thesis using True ze by (cases z rule: rev_cases) (auto simp: TrimSuffix_one)
    qed (use b(2) in \<open>simp add: TrimSuffix_one\<close>)
    have "raw_lines (z @ e) = Split z newline" using raw_lines_trim [OF ze] t by simp
    moreover have "raw_lines d = Split (take q d @ take i ?y) newline @ Split z newline"
    proof -
      have "TrimSuffix d [newline] = ?p @ z" using d t ze TrimSuffix_append [OF ze, of ?p] by simp
      moreover have "d \<noteq> []" using d by auto
      ultimately show ?thesis using raw_lines_trim [of d] Split_append_sep [of "take q d @ take i ?y" newline z] by simp
    qed
    ultimately show ?thesis using drop z(2) by (simp add: last_n_length Split_length)
  qed
qed


theorem tailStart_spec_witness:
  "raw_lines (drop (tailStart (''a'' @ newline # newline # ''c'') 2) (''a'' @ newline # newline # ''c'')) = [[], ''c'']"
proof -
  have "raw_lines (drop (tailStart (''a'' @ newline # newline # ''c'') 2) (''a'' @ newline # newline # ''c'')) =
      last_n (nat 2) (raw_lines (''a'' @ newline # newline # ''c''))"
    by (rule tailStart_spec) (simp_all add: in_window_def maxTailBytes_def)
  then show ?thesis by (simp add: raw_lines_def last_n_def newline_def)
qed

section \<open>Following\<close>

text \<open>The polls of one follower over the states the file system goes through.\<close>

fun follow :: "tailSource \<Rightarrow> Files list \<Rightarrow> Line list \<times> tailSource" where
  "follow t [] = ([], t)"
| "follow t (fs # fss) =
     (case read_source t fs of
        (read, t', _) \<Rightarrow>
          let (lines, t'') = follow t' fss
          in ((case read of Inl _ \<Rightarrow> [] | Inr l \<Rightarrow> l) @ lines, t''))"

text \<open>One file that only grows, in calls that succeed; \<open>d\<close> is what it holds at first.\<close>

fun grows :: "string \<Rightarrow> nat \<Rightarrow> string \<Rightarrow> Files list \<Rightarrow> bool" where
  "grows path ino d [] = True"
| "grows path ino d (fs # fss) =
     (fs_names fs path = Some ino \<and> fs_faults fs = [] \<and> (\<exists>e. fs_data fs ino = d @ e) \<and>
      grows path ino (fs_data fs ino) fss)"

definition final :: "nat \<Rightarrow> string \<Rightarrow> Files list \<Rightarrow> string" where
  "final ino d fss = (if fss = [] then d else fs_data (last fss) ino)"

lemma final_Cons [simp]: "final ino d (fs # fss) = final ino (fs_data fs ino) fss"
  by (simp add: final_def)

lemma final_grows: "grows path ino d fss \<Longrightarrow> \<exists>e. final ino d fss = d @ e"
proof (induction fss arbitrary: d)
  case Nil
  then show ?case by (simp add: final_def)
next
  case (Cons fs fss)
  then obtain e e' where "fs_data fs ino = d @ e" "final ino (fs_data fs ino) fss = fs_data fs ino @ e'"
    by (metis grows.simps(2))
  then show ?case by simp
qed

lemma last_Split_no_sep: "sep \<notin> set (last (Split d sep))"
proof (induction d)
  case (Cons c d)
  then show ?case by (cases "Split d sep") auto
qed simp

lemma Split_resume: "Split (x @ y) sep = butlast (Split x sep) @ Split (last (Split x sep) @ y) sep"
  using Split_append [of "last (Split x sep)" y sep] Split_append [of x y sep]
  by (simp add: Split_no_sep last_Split_no_sep)

text \<open>A source that has read the bytes \<open>seg\<close> of its file since it started, and what it holds back of them.\<close>

lemma split_lines_resume:
  assumes "ts_partial t = last (Split seg newline)"
    and "length (last (Split (seg @ chunk) newline)) < maxLineBytes"
  shows "\<exists>lines. split_lines t chunk = (lines, t\<lparr>ts_partial := last (Split (seg @ chunk) newline)\<rparr>) \<and>
    butlast (Split (seg @ chunk) newline) = butlast (Split seg newline) @ map l_Text lines"
  using assms by (simp add: split_lines_def Let_def Split_resume [of seg chunk] butlast_append comp_def)

lemma last_piece_bound:
  assumes "\<forall>l \<in> set (Split (x @ y) sep). length l < m"
  shows "length (last (Split x sep)) < m"
  using assms by (auto simp: Split_append)

text \<open>One poll: it moves to the end of the file or by the most a poll may read.\<close>

lemma read_source_step:
  assumes "fs_names fs (ts_path t) = Some ino" and "fs_faults fs = []" and "ts_info t = None \<or> ts_info t = Some ino"
    and "ts_offset t \<le> length (fs_data fs ino)"
    and "ts_partial t = last (Split seg newline)"
    and "c = take maxPollBytes (drop (ts_offset t) (fs_data fs ino))"
    and "length (last (Split (seg @ c) newline)) < maxLineBytes"
  shows "\<exists>lines t' fs'. read_source t fs = (Inr lines, t', fs') \<and> ts_path t' = ts_path t \<and> ts_info t' = Some ino \<and>
    ts_offset t' = ts_offset t + length c \<and> ts_partial t' = last (Split (seg @ c) newline) \<and>
    butlast (Split (seg @ c) newline) = butlast (Split seg newline) @ map l_Text lines"
proof -
  let ?t = "t\<lparr>ts_info := Some ino\<rparr>"
  let ?u = "?t\<lparr>ts_offset := ts_offset t + length c\<rparr>"
  have "rewindIfRotated ino (fs_data fs ino) t = ?t"
    using assms(3,4) by (auto simp: rewindIfRotated_def Let_def)
  moreover obtain lines where "split_lines ?u c = (lines, ?u\<lparr>ts_partial := last (Split (seg @ c) newline)\<rparr>)"
    "butlast (Split (seg @ c) newline) = butlast (Split seg newline) @ map l_Text lines"
    using split_lines_resume [of ?u seg c] assms(5,7) by auto
  ultimately show ?thesis
    using assms(1,2,6) by (simp add: read_source_def os_open_def os_call_def fault_def called_def Let_def)
qed


text \<open>The bytes of \<open>d\<close> from \<open>a\<close> up to \<open>b\<close>.\<close>

definition between :: "nat \<Rightarrow> nat \<Rightarrow> string \<Rightarrow> string" where
  "between a b d = take (b - a) (drop a d)"

lemma between_append [simp]: "b \<le> length d \<Longrightarrow> between a b (d @ e) = between a b d"
  by (cases "a \<le> b") (auto simp: between_def)

lemma between_step:
  assumes "a \<le> b" and "b \<le> length d"
  shows "between a b d @ take m (drop b d) = between a (b + length (take m (drop b d))) d"
proof -
  have "drop b d = drop (b - a) (drop a d)" using assms(1) by simp
  moreover have "b + length (take m (drop b d)) - a = (b - a) + length (take m (drop b d))" using assms(1) by simp
  moreover have "take (length (take m xs)) xs = take m xs" for xs :: string by (cases "m \<le> length xs") auto
  ultimately show ?thesis unfolding between_def by (metis take_add)
qed

lemma between_prefix: "\<exists>e. drop a d = between a b d @ e"
  unfolding between_def by (metis append_take_drop_id)

lemma follow_inv:
  assumes "grows (ts_path t) ino d fss" and "ts_info t = None \<or> ts_info t = Some ino"
    and "a \<le> ts_offset t" and "ts_offset t \<le> length d"
    and "ts_partial t = last (Split (between a (ts_offset t) d) newline)"
    and "\<forall>l \<in> set (Split (drop a (final ino d fss)) newline). length l < maxLineBytes"
    and "follow t fss = (lines, t')"
  shows "ts_offset t \<le> ts_offset t' \<and> ts_offset t' \<le> length (final ino d fss) \<and>
    ts_partial t' = last (Split (between a (ts_offset t') (final ino d fss)) newline) \<and>
    butlast (Split (between a (ts_offset t') (final ino d fss)) newline) =
      butlast (Split (between a (ts_offset t) d) newline) @ map l_Text lines \<and>
    (fss \<noteq> [] \<longrightarrow> ts_offset t' = length (final ino d fss) \<or> ts_offset t + maxPollBytes \<le> ts_offset t')"
  using assms
proof (induction fss arbitrary: t d lines)
  case Nil
  then show ?case by (simp add: final_def)
next
  case (Cons fs fss)
  let ?d = "fs_data fs ino"
  let ?c = "take maxPollBytes (drop (ts_offset t) ?d)"
  let ?seg = "between a (ts_offset t) d"
  have fs: "fs_names fs (ts_path t) = Some ino" "fs_faults fs = []" and g: "grows (ts_path t) ino ?d fss"
    using Cons.prems(1) by auto
  obtain e where e: "?d = d @ e" using Cons.prems(1) by auto
  have off: "ts_offset t \<le> length ?d" using e Cons.prems(4) by simp
  have seg: "?seg = between a (ts_offset t) ?d" using e Cons.prems(4) by simp
  have segc: "?seg @ ?c = between a (ts_offset t + length ?c) ?d"
    using between_step [OF Cons.prems(3) off, of maxPollBytes] seg by simp
  have "\<exists>e. drop a (final ino d (fs # fss)) = (?seg @ ?c) @ e"
  proof -
    obtain e' where "final ino ?d fss = ?d @ e'" using final_grows [OF g] by auto
    moreover have "a \<le> length ?d" using Cons.prems(3) off by simp
    moreover obtain e'' where "drop a ?d = (?seg @ ?c) @ e''" using between_prefix segc by metis
    ultimately show ?thesis by simp
  qed
  then have short: "length (last (Split (?seg @ ?c) newline)) < maxLineBytes"
    using Cons.prems(6) last_piece_bound [of "?seg @ ?c" _ newline maxLineBytes] by force
  obtain ls u fs' where step: "read_source t fs = (Inr ls, u, fs')" "ts_path u = ts_path t" "ts_info u = Some ino"
      "ts_offset u = ts_offset t + length ?c" "ts_partial u = last (Split (?seg @ ?c) newline)"
      "butlast (Split (?seg @ ?c) newline) = butlast (Split ?seg newline) @ map l_Text ls"
    using read_source_step [OF fs Cons.prems(2) off Cons.prems(5) refl short] by blast
  obtain ls' where f: "follow u fss = (ls', t')" "lines = ls @ ls'"
    using Cons.prems(7) step(1) by (auto split: prod.splits)
  have cl: "ts_offset u \<le> length ?d" using step(4) off by simp
  have IH: "ts_offset u \<le> ts_offset t' \<and> ts_offset t' \<le> length (final ino ?d fss) \<and>
      ts_partial t' = last (Split (between a (ts_offset t') (final ino ?d fss)) newline) \<and>
      butlast (Split (between a (ts_offset t') (final ino ?d fss)) newline) =
        butlast (Split (between a (ts_offset u) ?d) newline) @ map l_Text ls' \<and>
      (fss \<noteq> [] \<longrightarrow> ts_offset t' = length (final ino ?d fss) \<or> ts_offset u + maxPollBytes \<le> ts_offset t')"
  proof (rule Cons.IH [OF _ _ _ cl _ _ f(1)])
    show "grows (ts_path u) ino ?d fss" using g step(2) by simp
    show "ts_partial u = last (Split (between a (ts_offset u) ?d) newline)" using step(4,5) segc by simp
    show "\<forall>l \<in> set (Split (drop a (final ino ?d fss)) newline). length l < maxLineBytes" using Cons.prems(6) by simp
  qed (use step(3,4) Cons.prems(3) in auto)
  have "fss = [] \<longrightarrow> ts_offset t' = length ?d \<or> ts_offset t + maxPollBytes \<le> ts_offset t'"
    using f(1) step(4) off by auto
  then have progress: "ts_offset t' = length (final ino ?d fss) \<or> ts_offset t + maxPollBytes \<le> ts_offset t'"
    using IH step(4) by (cases "fss = []") (auto simp: final_def)
  have segu: "between a (ts_offset u) ?d = ?seg @ ?c" using segc step(4) by simp
  have "butlast (Split (between a (ts_offset t') (final ino ?d fss)) newline) =
      butlast (Split ?seg newline) @ map l_Text lines"
    using IH step(6) f(2) unfolding segu by simp
  moreover have "ts_offset t \<le> ts_offset t'" using IH step(4) by linarith
  ultimately show ?case unfolding final_Cons using IH progress by blast
qed

text \<open>
  A follower neither loses nor repeats output. Over any sequence of polls of a file that grows, the
  lines it has reported are exactly the complete lines of the bytes between where it started and where
  it is, the rest of them is what it holds back, and each sequence of polls ends at the end of the file
  or at least 1 MiB further on. (Lines of 1 MiB and more, which are cut, are left out.)
\<close>

theorem follow_complete:
  assumes "grows (ts_path t) ino d fss" and "fss \<noteq> []"
    and "ts_info t = None" and "ts_partial t = []" and "ts_offset t \<le> length d"
    and "\<forall>l \<in> set (Split (drop (ts_offset t) (final ino d fss)) newline). length l < maxLineBytes"
    and "follow t fss = (lines, t')"
  defines "seen \<equiv> between (ts_offset t) (ts_offset t') (final ino d fss)"
  shows "map l_Text lines = butlast (Split seen newline) \<and> ts_partial t' = last (Split seen newline) \<and>
    (ts_offset t' = length (final ino d fss) \<or> ts_offset t + maxPollBytes \<le> ts_offset t')"
  using follow_inv [OF assms(1) _ order.refl assms(5) _ assms(6,7)] assms(2-4)
  by (simp add: seen_def between_def)

definition log_at :: "string \<Rightarrow> Files" where
  "log_at d = no_files\<lparr>fs_names := [''out'' \<mapsto> 0], fs_data := (\<lambda>_. d)\<rparr>"

definition follower :: tailSource where
  "follower = \<lparr>ts_path = ''out'', ts_stream = StreamStdout, ts_offset = 0, ts_partial = [], ts_info = None\<rparr>"

theorem follow_complete_witness:
  "map l_Text (fst (follow follower [log_at (''a'' @ newline # ''b''), log_at (''a'' @ newline # ''bc'' @ [newline])])) =
     [''a'', ''bc'']"
proof -
  let ?fss = "[log_at (''a'' @ newline # ''b''), log_at (''a'' @ newline # ''bc'' @ [newline])]"
  obtain lines t' where f: "follow follower ?fss = (lines, t')" by force
  have fin: "final 0 [] ?fss = ''a'' @ newline # ''bc'' @ [newline]" by (simp add: final_def log_at_def)
  have "map l_Text lines = butlast (Split (between (ts_offset follower) (ts_offset t') (final 0 [] ?fss)) newline) \<and>
      ts_partial t' = last (Split (between (ts_offset follower) (ts_offset t') (final 0 [] ?fss)) newline) \<and>
      (ts_offset t' = length (final 0 [] ?fss) \<or> ts_offset follower + maxPollBytes \<le> ts_offset t')"
    by (rule follow_complete [OF _ _ _ _ _ _ f])
      (simp_all add: follower_def log_at_def no_files_def final_def newline_def maxLineBytes_def)
  moreover have "ts_offset t' = 5"
    using f by (auto simp: follower_def log_at_def no_files_def read_source_def os_open_def os_call_def fault_def
        called_def rewindIfRotated_def split_lines_def maxPollBytes_def maxLineBytes_def newline_def Let_def)
  ultimately show ?thesis using f fin by (simp add: follower_def between_def newline_def)
qed

end
