(* ===== verification/LogsProps.thy ===== *)
theory LogsProps
  imports LogRead
begin

text \<open>
  What the writers keep: a rotating stream keeps the end of the output in bounded files that reading
  puts together again, a capped stream keeps its beginning, and retention spares the files of the
  attempts that are still open.
\<close>

section \<open>The register of open files\<close>

lemma count_list_pos: "k \<in> set ks \<Longrightarrow> count_list ks k > 0"
  by (induction ks) auto

text \<open>
  A table of use counts: what a client that gives back what it took may rely on, whatever the order.
\<close>

locale use_counts =
  fixes acquire release :: "'k \<Rightarrow> 's \<Rightarrow> 's" and uses :: "'s \<Rightarrow> 'k \<Rightarrow> nat" and ok :: "'s \<Rightarrow> bool"
  assumes ok_acquire: "ok s \<Longrightarrow> ok (acquire k s)"
    and ok_release: "ok s \<Longrightarrow> ok (release k s)"
    and uses_acquire: "ok s \<Longrightarrow> uses (acquire k s) = (uses s)(k := Suc (uses s k))"
    and uses_release: "ok s \<Longrightarrow> uses (release k s) = (uses s)(k := uses s k - 1)"
begin

definition held :: "'s \<Rightarrow> 'k list \<Rightarrow> bool" where
  "held s ks \<longleftrightarrow> ok s \<and> (\<forall>k. uses s k = count_list ks k)"

lemma held_acquire: "held s ks \<Longrightarrow> held (acquire k s) (k # ks)"
  by (simp add: held_def ok_acquire uses_acquire)

lemma held_release: "held s (xs @ k # ys) \<Longrightarrow> held (release k s) (xs @ ys)"
  by (simp add: held_def ok_release uses_release)

lemma held_release_all: "held s (xs @ ks @ ys) \<Longrightarrow> held (fold release ks s) (xs @ ys)"
  by (induction ks arbitrary: s) (auto dest: held_release)

lemma held_uses: "held s ks \<Longrightarrow> k \<in> set ks \<Longrightarrow> uses s k > 0"
  by (simp add: held_def count_list_pos)

lemma held_acquire_release: "held s ks \<Longrightarrow> held (release k (acquire k s)) ks"
  using held_acquire [of s ks k] held_release [of _ "[]" k ks] by simp

lemma held_acquire_end: "held s ks \<Longrightarrow> held (acquire k s) (ks @ [k])"
  by (simp add: held_def ok_acquire uses_acquire)

end

definition counts_ok :: "LogStore \<Rightarrow> bool" where
  "counts_ok s \<longleftrightarrow> (\<forall>rel. open_count s rel \<ge> 0)"

interpretation open_files: use_counts markOpen markClosed "\<lambda>s rel. nat (open_count s rel)" counts_ok
  by unfold_locales
    (auto simp: counts_ok_def markOpen_def markClosed_def open_count_def fun_eq_iff nat_add_distrib split: option.splits if_splits)


section \<open>Retention\<close>

text \<open>
  The life of a log directory: attempts open and close their files and write to them, retention passes
  run in between, and any call of the operating system may fail. The list holds every attempt opened so
  far, closed ones without files.
\<close>

type_synonym LogState = "LogStore \<times> Files \<times> LogAttempt list"

datatype log_event =
    LCreate string int gtime Policy
  | LWrite nat Stream string
  | LClose nat
  | LPurge "os_error + (os_error + string) list" gtime
  | LWait gtime

definition write_attempt :: "Stream \<Rightarrow> string \<Rightarrow> LogAttempt \<Rightarrow> Files \<Rightarrow> LogAttempt \<times> Files" where
  "write_attempt stream p a fs =
     (if stream = StreamStdout
      then (case Write p (la_Stdout a) fs of (_, c, fs) \<Rightarrow> (a\<lparr>la_Stdout := c\<rparr>, fs))
      else (case Write p (la_Stderr a) fs of (_, c, fs) \<Rightarrow> (a\<lparr>la_Stderr := c\<rparr>, fs)))"

fun log_step :: "LogState \<Rightarrow> log_event \<Rightarrow> LogState" where
  "log_step (s, fs, as) (LCreate processID attempt at policy) =
     (case Create processID attempt at policy s fs of
        (Inl _, s, fs) \<Rightarrow> (s, fs, as)
      | (Inr a, s, fs) \<Rightarrow> (s, fs, as @ [a]))"
| "log_step (s, fs, as) (LWrite i stream p) =
     (if i < length as
      then (case write_attempt stream p (as ! i) fs of (a, fs) \<Rightarrow> (s, fs, as[i := a]))
      else (s, fs, as))"
| "log_step (s, fs, as) (LClose i) =
     (if i < length as
      then (case Close_attempt (as ! i) s fs of (_, a, s, fs) \<Rightarrow> (s, fs, as[i := a]))
      else (s, fs, as))"
| "log_step (s, fs, as) (LPurge root before) = (s, snd (Purge root before s fs), as)"
| "log_step (s, fs, as) (LWait now) = (s, fs\<lparr>fs_now := now\<rparr>, as)"

definition log_ok :: "LogState \<Rightarrow> bool" where
  "log_ok st = (case st of (s, fs, as) \<Rightarrow> open_files.held s (concat (map la_files as)))"

lemma NewLogs_counts: "counts_ok (NewLogs dir maxBytes)" "open_count (NewLogs dir maxBytes) rel = 0"
  by (simp_all add: counts_ok_def NewLogs_def open_count_def)

lemma openStream_held:
  assumes "open_files.held s ks" and "openStream processID attempt stream at policy s fs = (r, s', fs')"
  shows "open_files.held s' (case r of Inl _ \<Rightarrow> ks | Inr _ \<Rightarrow> ks @ [relPath processID attempt stream at])"
    and "ls_root s' = ls_root s"
proof -
  show "open_files.held s' (case r of Inl _ \<Rightarrow> ks | Inr _ \<Rightarrow> ks @ [relPath processID attempt stream at])"
    using assms open_files.held_acquire_release [OF assms(1)] open_files.held_acquire_end [OF assms(1)]
    by (auto simp: openStream_def Let_def split: prod.splits sum.splits)
  show "ls_root s' = ls_root s"
    using assms(2)
    by (auto simp: openStream_def Let_def markOpen_def markClosed_def split: prod.splits sum.splits if_splits)
qed

lemma Create_held:
  assumes "open_files.held s ks" and "Create processID attempt at policy s fs = (r, s', fs')"
  shows "open_files.held s' (case r of Inl _ \<Rightarrow> ks | Inr a \<Rightarrow> ks @ la_files a)"
proof -
  let ?policy = "if po_MaxBytesPerStream policy \<le> 0 then policy\<lparr>po_MaxBytesPerStream := ls_maxBytes s\<rparr> else policy"
  obtain r1 s1 fs1 where one: "openStream processID attempt StreamStdout at ?policy s fs = (r1, s1, fs1)"
    by (metis prod_cases3)
  note h1 = openStream_held(1) [OF assms(1) one]
  show ?thesis
  proof (cases r1)
    case (Inl e)
    then show ?thesis using assms(2) one h1 by (auto simp: Create_def Let_def)
  next
    case stdout: (Inr stdout)
    obtain r2 s2 fs2 where two: "openStream processID attempt StreamStderr at ?policy s1 fs1 = (r2, s2, fs2)"
      by (metis prod_cases3)
    note h2 = openStream_held(1) [OF h1 [unfolded stdout sum.case] two]
    show ?thesis
    proof (cases r2)
      case (Inl e)
      then have "open_files.held s2 (ks @ [relPath processID attempt StreamStdout at])" using h2 by simp
      then have "open_files.held (markClosed (relPath processID attempt StreamStdout at) s2) ks"
        using open_files.held_release [of s2 ks "relPath processID attempt StreamStdout at" "[]"] by simp
      then show ?thesis using assms(2) one two stdout Inl by (auto simp: Create_def Let_def)
    next
      case (Inr stderr)
      then show ?thesis using assms(2) one two stdout h2 by (auto simp: Create_def Let_def)
    qed
  qed
qed

lemma concat_update:
  "i < length as \<Longrightarrow> concat (map f (as[i := a])) = concat (map f (take i as)) @ f a @ concat (map f (drop (Suc i) as))"
  by (simp add: upd_conv_take_nth_drop map_update)

lemma concat_at:
  "i < length as \<Longrightarrow> concat (map f as) = concat (map f (take i as)) @ f (as ! i) @ concat (map f (drop (Suc i) as))"
  using concat_update [of i as f "as ! i"] by simp

lemma log_step_ok: "log_ok st \<Longrightarrow> log_ok (log_step st ev)"
proof (cases st)
  case st: (fields s fs as)
  assume "log_ok st"
  then have h: "open_files.held s (concat (map la_files as))" by (simp add: log_ok_def st)
  show ?thesis
  proof (cases ev)
    case (LCreate processID attempt at policy)
    obtain r s' fs' where c: "Create processID attempt at policy s fs = (r, s', fs')" by (metis prod_cases3)
    show ?thesis using Create_held [OF h c] c by (cases r) (simp_all add: st LCreate log_ok_def)
  next
    case (LWrite i stream p)
    show ?thesis
    proof (cases "i < length as")
      case True
      obtain a fs' where w: "write_attempt stream p (as ! i) fs = (a, fs')" by force
      then have "la_files a = la_files (as ! i)"
        by (auto simp: write_attempt_def split: prod.splits if_splits)
      then show ?thesis
        using h True w concat_at [OF True, of la_files] by (simp add: st LWrite log_ok_def concat_update)
    qed (use h in \<open>simp add: st LWrite log_ok_def\<close>)
  next
    case (LClose i)
    show ?thesis
    proof (cases "i < length as")
      case True
      obtain e a s' fs' where c: "Close_attempt (as ! i) s fs = (e, a, s', fs')" by (metis prod_cases4)
      then have "s' = fold markClosed (la_files (as ! i)) s" "la_files a = []"
        by (auto simp: Close_attempt_def Let_def split: prod.splits)
      then show ?thesis
        using h c True concat_at [OF True, of la_files]
          open_files.held_release_all [of s "concat (map la_files (take i as))" "la_files (as ! i)"]
        by (simp add: st LClose log_ok_def concat_update)
    qed (use h in \<open>simp add: st LClose log_ok_def\<close>)
  qed (use h in \<open>auto simp: st log_ok_def split: prod.splits\<close>)
qed

lemma contents_called [simp]: "contents (called fs) = contents fs"
  by (simp add: contents_def called_def fun_eq_iff)

lemma os_stat_contents: "contents (snd (os_stat path fs)) = contents fs"
  by (simp add: os_stat_def split: option.splits)

lemma os_remove_contents: "path' \<noteq> path \<Longrightarrow> contents (snd (os_remove path fs)) path' = contents fs path'"
  by (simp add: os_remove_def contents_def called_def)

lemma purge_walk_keeps:
  assumes "isOpen s rel"
  shows "contents (snd (purge_walk s before entries removed fs)) (under (ls_root s) rel) = contents fs (under (ls_root s) rel)"
  using assms
proof (induction s before entries removed fs rule: purge_walk.induct)
  case (3 s before other entries removed fs)
  obtain r fs1 where stat: "os_stat (under (ls_root s) other) fs = (r, fs1)" by force
  have c1: "contents fs1 = contents fs" using os_stat_contents [of "under (ls_root s) other" fs] stat by simp
  obtain q fs2 where rem: "os_remove (under (ls_root s) other) fs1 = (q, fs2)" by force
  have c2: "contents fs2 (under (ls_root s) rel) = contents fs1 (under (ls_root s) rel)" if "other \<noteq> rel"
    using os_remove_contents [of "under (ls_root s) rel" "under (ls_root s) other" fs1] rem that by (simp add: under_def)
  show ?case
  proof (cases r)
    case (Inr modified)
    show ?thesis
    proof (cases "modified > before \<or> isOpen s other")
      case True
      then show ?thesis using 3(1) [OF stat [symmetric] Inr True 3(3)] stat c1 Inr by simp
    next
      case False
      then have "other \<noteq> rel" using 3(3) by auto
      then show ?thesis
        using 3(2) [OF stat [symmetric] Inr False rem [symmetric] _ 3(3)] stat c1 c2 rem False Inr by (cases q) auto
    qed
  qed (use stat c1 in simp)
qed auto

text \<open>
  C30. Retention never takes a file away from an attempt that is still open. In whatever order attempts are
  opened, written to, rotated and closed, several of them on one file included, and whichever calls of
  the operating system fail, a retention pass, with whatever age limit, leaves every file that an open
  attempt claimed as it is.
\<close>

theorem purge_spares_open_attempts:
  assumes "foldl log_step (NewLogs dir maxBytes, fs0, []) evs = (s, fs, as)"
    and "a \<in> set as" and "rel \<in> set (la_files a)"
  shows "contents (snd (Purge root before s fs)) (under (ls_root s) rel) = contents fs (under (ls_root s) rel)"
proof -
  have start: "log_ok (NewLogs dir maxBytes, fs0, [])"
    using NewLogs_counts [of dir maxBytes] by (simp add: log_ok_def open_files.held_def)
  have "log_ok (foldl log_step st evs)" if "log_ok st" for st
    using that
  proof (induction evs arbitrary: st)
    case (Cons ev evs)
    from Cons.IH [OF log_step_ok [OF Cons.prems]] show ?case by simp
  qed simp
  from this [OF start] have "open_files.held s (concat (map la_files as))" using assms(1) by (simp add: log_ok_def)
  from open_files.held_uses [OF this, of rel] assms(2,3) have "isOpen s rel" by (auto simp: isOpen_def)
  from purge_walk_keeps [OF this] show ?thesis
    by (simp add: Purge_def split: sum.splits prod.splits) (metis snd_conv)
qed


definition one_log :: "log_event list" where
  "one_log = [LCreate ''p'' 1 0 \<lparr>po_MaxBytesPerStream = 10, po_MaxFiles = 0\<rparr>, LWrite 0 StreamStdout ''up'', LWait hour]"

theorem purge_spares_open_attempts_witness:
  "\<exists>s fs as. foldl log_step (NewLogs ''logs'' 100, no_files, []) one_log = (s, fs, as) \<and>
     contents (snd (Purge (Inr [Inr ''1970/01/p.1.stdout.log'', Inr ''1970/01/p.1.stderr.log'']) hour s fs))
       (under (ls_root s) ''1970/01/p.1.stdout.log'') = Some ''up''"
proof -
  obtain s fs as where run: "foldl log_step (NewLogs ''logs'' 100, no_files, []) one_log = (s, fs, as)"
    by (metis prod_cases3)
  have rel: "relPath ''p'' 1 StreamStdout 0 = ''1970/01/p.1.stdout.log''" "relPath ''p'' 1 StreamStderr 0 = ''1970/01/p.1.stderr.log''"
    by code_simp+
  have facts: "contents fs (under (ls_root s) ''1970/01/p.1.stdout.log'') = Some ''up'' \<and>
      (\<exists>a. as = [a] \<and> ''1970/01/p.1.stdout.log'' \<in> set (la_files a))"
    using run
    by (auto simp: one_log_def Create_def openStream_def Path_def rel NewLogs_def under_def os_call_def os_create_def fault_def
        called_def no_files_def write_attempt_def Write_def write_loop.simps os_write_def put_at_def contents_def Let_def
        markOpen_def)
  then obtain a where "a \<in> set as" "''1970/01/p.1.stdout.log'' \<in> set (la_files a)" by auto
  from purge_spares_open_attempts [OF run this] facts run show ?thesis by metis
qed


section \<open>Rotation\<close>

lemma Itoa_inj: "0 \<le> a \<Longrightarrow> 0 \<le> b \<Longrightarrow> Itoa a = Itoa b \<longleftrightarrow> a = b"
  by (metis Itoa_def linorder_not_less nat_digits_props)

text \<open>The file of a generation; generation 0 is the live file.\<close>

definition gen_path :: "string \<Rightarrow> nat \<Rightarrow> string" where
  "gen_path path g = (if g = 0 then path else rotatedPath path (int g))"

lemma gen_path_inj [simp]: "gen_path path g = gen_path path h \<longleftrightarrow> g = h"
  by (auto simp: gen_path_def rotatedPath_def Itoa_inj)

lemma gen_path_live: "gen_path path g = path \<longleftrightarrow> g = 0" "path = gen_path path g \<longleftrightarrow> g = 0"
  using gen_path_inj [of path g 0] by (auto simp: gen_path_def)

lemma called_fault_free [simp]: "fs_faults fs = [] \<Longrightarrow> called fs = fs"
  by (simp add: called_def)

lemma fault_free [simp]: "fs_faults fs = [] \<Longrightarrow> fault fs = None"
  by (simp add: fault_def)

lemma rename_down_spec:
  assumes "fs_faults fs = []" and "fs_names fs (gen_path path (Suc g)) = None"
  shows "\<exists>names. rename_down path g fs = (Inr (), fs\<lparr>fs_names := names\<rparr>) \<and> names (gen_path path 1) = None \<and>
    (\<forall>h. 1 \<le> h \<and> h \<le> g \<longrightarrow> names (gen_path path (Suc h)) = fs_names fs (gen_path path h)) \<and>
    (\<forall>p. p \<notin> gen_path path ` {1..Suc g} \<longrightarrow> names p = fs_names fs p)"
  using assms
proof (induction g arbitrary: fs)
  case 0
  then show ?case by (intro exI [of _ "fs_names fs"]) simp
next
  case (Suc g)
  let ?src = "gen_path path (Suc g)" and ?dst = "gen_path path (Suc (Suc g))"
  have paths: "rotatedPath path (int (Suc g)) = ?src" "rotatedPath path (int (Suc g) + 1) = ?dst"
    by (simp_all add: gen_path_def add.commute)
  show ?case
  proof (cases "fs_names fs ?src")
    case None
    then obtain names where n: "rename_down path g fs = (Inr (), fs\<lparr>fs_names := names\<rparr>)" "names (gen_path path 1) = None"
        "\<forall>h. 1 \<le> h \<and> h \<le> g \<longrightarrow> names (gen_path path (Suc h)) = fs_names fs (gen_path path h)"
        "\<forall>p. p \<notin> gen_path path ` {1..Suc g} \<longrightarrow> names p = fs_names fs p"
      using Suc.IH [OF Suc.prems(1)] by blast
    have "os_rename ?src ?dst fs = (Inl ErrNotExist, fs)"
      using None Suc.prems(1) by (simp add: os_rename_def)
    then have "rename_down path (Suc g) fs = (Inr (), fs\<lparr>fs_names := names\<rparr>)" using n(1) unfolding rename_down.simps paths by simp
    moreover have "?dst \<notin> gen_path path ` {1..Suc g}" by auto
    then have "names ?dst = fs_names fs ?src" using n(4) Suc.prems(2) None by metis
    moreover have "names (gen_path path (Suc h)) = fs_names fs (gen_path path h)" if "1 \<le> h" "h \<le> Suc g" for h
      using n(3) that \<open>names ?dst = fs_names fs ?src\<close> by (cases "h = Suc g") auto
    moreover have "names p = fs_names fs p" if "p \<notin> gen_path path ` {1..Suc (Suc g)}" for p
      using n(4) that by (auto simp: image_iff)
    ultimately show ?thesis using n(2) by (intro exI [of _ names]) auto
  next
    case (Some i)
    let ?fs = "fs\<lparr>fs_names := (fs_names fs)(?src := None, ?dst \<mapsto> i)\<rparr>"
    have "os_rename ?src ?dst fs = (Inr (), ?fs)" using Some Suc.prems(1) by (simp add: os_rename_def)
    then have step: "rename_down path (Suc g) fs = rename_down path g ?fs" unfolding rename_down.simps paths by simp
    obtain names where n: "rename_down path g ?fs = (Inr (), ?fs\<lparr>fs_names := names\<rparr>)" "names (gen_path path 1) = None"
        "\<forall>h. 1 \<le> h \<and> h \<le> g \<longrightarrow> names (gen_path path (Suc h)) = fs_names ?fs (gen_path path h)"
        "\<forall>p. p \<notin> gen_path path ` {1..Suc g} \<longrightarrow> names p = fs_names ?fs p"
      using Suc.IH [of ?fs] Suc.prems(1) by auto
    have "?dst \<notin> gen_path path ` {1..Suc g}" by auto
    then have "names ?dst = fs_names ?fs ?dst" using n(4) by blast
    then have "names ?dst = Some i" by simp
    then have up: "names (gen_path path (Suc h)) = fs_names fs (gen_path path h)" if "1 \<le> h" "h \<le> Suc g" for h
      using n(3) that Some by (cases "h = Suc g") auto
    have "names p = fs_names fs p" if "p \<notin> gen_path path ` {1..Suc (Suc g)}" for p
      using n(4) that by (auto simp: image_iff)
    then show ?thesis using step n(1,2) up by (intro exI [of _ names]) auto
  qed
qed


text \<open>One rotation: every kept generation is one older, the oldest is gone, and the live file is new.\<close>

lemma shift_spec:
  assumes "fs_faults fs = []" and "ro_path r = path" and "ro_maxFiles r = int m" and "m \<ge> 1"
    and "fs_names fs path = Some i"
  shows "\<exists>names. shift r fs = (Inr (fs_names fs (gen_path path m) \<noteq> None), fs\<lparr>fs_names := names\<rparr>) \<and>
    names path = None \<and>
    (\<forall>g < m. names (gen_path path (Suc g)) = fs_names fs (gen_path path g)) \<and>
    (\<forall>g > m. names (gen_path path g) = fs_names fs (gen_path path g))"
proof -
  let ?last = "gen_path path m"
  let ?fs = "fs\<lparr>fs_names := (fs_names fs)(?last := None)\<rparr>"
  have m: "nat (ro_maxFiles r - 1) = m - 1" "Suc (m - 1) = m" using assms(3,4) by auto
  have last: "rotatedPath (ro_path r) (ro_maxFiles r) = ?last"
    using assms(2-4) by (simp add: gen_path_def)
  have same: "fs\<lparr>fs_names := (fs_names fs)(?last := None)\<rparr> = fs" if "fs_names fs ?last = None"
    using that by (simp add: fun_upd_idem)
  have rem: "os_remove ?last fs = ((if fs_names fs ?last = None then Inl ErrNotExist else Inr ()), ?fs)"
    using assms(1) same by (simp add: os_remove_def)
  have path: "path = gen_path path 0" by (simp add: gen_path_def)
  obtain names where n: "rename_down path (m - 1) ?fs = (Inr (), ?fs\<lparr>fs_names := names\<rparr>)" "names (gen_path path 1) = None"
      "\<forall>h. 1 \<le> h \<and> h \<le> m - 1 \<longrightarrow> names (gen_path path (Suc h)) = fs_names ?fs (gen_path path h)"
      "\<forall>p. p \<notin> gen_path path ` {1..m} \<longrightarrow> names p = fs_names ?fs p"
    using rename_down_spec [of ?fs path "m - 1"] assms(1) m(2) by auto
  have "path \<notin> gen_path path ` {1..m}"
    by (subst (1) path) auto
  then have "names path = fs_names ?fs path" using n(4) by blast
  moreover have "path \<noteq> ?last" using path gen_path_inj [of path 0 m] assms(4) by force
  ultimately have live: "names path = Some i" using assms(5) by simp
  let ?names = "names(path := None, gen_path path 1 \<mapsto> i)"
  have ren: "os_rename path (rotatedPath path 1) (?fs\<lparr>fs_names := names\<rparr>) = (Inr (), fs\<lparr>fs_names := ?names\<rparr>)"
    using live assms(1) by (simp add: os_rename_def gen_path_def)
  have "shift r fs = (Inr (fs_names fs ?last \<noteq> None), fs\<lparr>fs_names := ?names\<rparr>)"
    using rem n(1) ren m(1) assms(2) last by (simp add: shift_def)
  moreover have "?names path = None" using path gen_path_inj [of path 1 0] by (metis fun_upd_other fun_upd_same zero_neq_one)
  moreover have "?names (gen_path path (Suc g)) = fs_names fs (gen_path path g)" if "g < m" for g
  proof (cases "g = 0")
    case True
    then show ?thesis using assms(5) path by simp
  next
    case False
    then have "gen_path path (Suc g) \<noteq> path" "gen_path path (Suc g) \<noteq> gen_path path 1" "gen_path path g \<noteq> ?last"
      using path gen_path_inj that by (metis nat.distinct(1), simp_all)
    then show ?thesis using n(3) that False by simp
  qed
  moreover have "?names (gen_path path g) = fs_names fs (gen_path path g)" if "g > m" for g
  proof -
    have "gen_path path g \<notin> gen_path path ` {1..m}" using that by auto
    moreover have "gen_path path g \<noteq> path" "gen_path path g \<noteq> gen_path path 1" "gen_path path g \<noteq> ?last"
      using path gen_path_inj that assms(4) by (metis not_less_zero, simp_all)
    ultimately show ?thesis using n(4) by simp
  qed
  ultimately show ?thesis by blast
qed

text \<open>
  \<open>rotating\<close> relates a rotating writer to the output it has been given: the generations from the live
  file back are the files \<open>inos\<close>, full but for the live one, and together they hold the end of the output.
\<close>

definition kept_bytes :: "Files \<Rightarrow> nat list \<Rightarrow> string" where
  "kept_bytes fs inos = concat (map (fs_data fs) (rev inos))"

definition rotating :: "string \<Rightarrow> nat \<Rightarrow> int \<Rightarrow> string \<Rightarrow> StreamWriter \<Rightarrow> Files \<Rightarrow> nat list \<Rightarrow> bool" where
  "rotating path m limit out c fs inos \<longleftrightarrow>
     fs_faults fs = [] \<and> m \<ge> 1 \<and> limit > 0 \<and>
     sw_rotate c = Some \<lparr>ro_path = path, ro_maxFiles = int m, ro_current = sw_w c\<rparr> \<and>
     sw_limit c = limit \<and> \<not> sw_capped c \<and> sw_stored c = int (length out) \<and>
     inos \<noteq> [] \<and> length inos \<le> Suc m \<and> distinct inos \<and> (\<forall>i \<in> set inos. i < fs_inodes fs) \<and>
     (\<forall>g. fs_names fs (gen_path path g) = (if g < length inos then Some (inos ! g) else None)) \<and>
     fs_fds fs (sw_w c) = Some (hd inos, length (fs_data fs (hd inos))) \<and>
     sw_written c = int (length (fs_data fs (hd inos))) \<and> sw_written c \<le> limit \<and>
     (\<forall>i \<in> set (tl inos). int (length (fs_data fs i)) = limit) \<and>
     (\<exists>lost. out = lost @ kept_bytes fs inos \<and> sw_dropped c = (lost \<noteq> []) \<and> (lost \<noteq> [] \<longrightarrow> length inos = Suc m))"

lemma rotating_roll:
  assumes "rotating path m limit out c fs inos" and "sw_written c = limit"
  shows "\<exists>c' fs' inos'. roll c fs = (None, c', fs') \<and> rotating path m limit out c' fs' inos' \<and> sw_written c' = 0"
proof -
  note r = assms(1) [unfolded rotating_def]
  let ?r = "\<lparr>ro_path = path, ro_maxFiles = int m, ro_current = sw_w c\<rparr>"
  obtain i rest where inos: "inos = i # rest" using r by (cases inos) auto
  have names: "fs_names fs (gen_path path g) = (if g < length inos then Some (inos ! g) else None)" for g
    using r by blast
  let ?fs = "fs\<lparr>fs_fds := (fs_fds fs)(sw_w c := None)\<rparr>"
  have close: "os_close (sw_w c) fs = (Inr (), ?fs)" using r by (simp add: os_close_def)
  have "fs_names ?fs path = Some i" using names [of 0] inos by (simp add: gen_path_def)
  then obtain nm where nm: "shift ?r ?fs = (Inr (fs_names fs (gen_path path m) \<noteq> None), ?fs\<lparr>fs_names := nm\<rparr>)"
      "nm path = None" "\<forall>g < m. nm (gen_path path (Suc g)) = fs_names fs (gen_path path g)"
      "\<forall>g > m. nm (gen_path path g) = fs_names fs (gen_path path g)"
    using shift_spec [of ?fs ?r path m i] r by auto
  let ?new = "fs_inodes fs"
  let ?fs' = "?fs\<lparr>fs_names := nm(path \<mapsto> ?new), fs_data := (fs_data fs)(?new := []),
      fs_mtime := (fs_mtime fs)(?new := fs_now fs), fs_inodes := Suc ?new,
      fs_fds := (fs_fds ?fs)(fs_fd fs \<mapsto> (?new, 0)), fs_fd := Suc (fs_fd fs)\<rparr>"
  have create: "os_create path (?fs\<lparr>fs_names := nm\<rparr>) = (Inr (fs_fd fs), ?fs')"
    using nm(2) r by (simp add: os_create_def Let_def)
  let ?dropped = "length inos = Suc m"
  have dropped: "(fs_names fs (gen_path path m) \<noteq> None) = ?dropped" using names [of m] r by auto
  let ?c' = "c\<lparr>sw_w := fs_fd fs, sw_written := 0, sw_dropped := (sw_dropped c \<or> ?dropped),
      sw_rotate := Some (?r\<lparr>ro_current := fs_fd fs\<rparr>)\<rparr>"
  have roll: "roll c fs = (None, ?c', ?fs')"
    using r close nm(1) create dropped by (simp add: roll_def next_file_def)
  let ?keep = "take m inos"
  let ?inos = "?new # ?keep"
  have fresh: "?new \<notin> set inos" using r by auto
  have data: "fs_data ?fs' j = fs_data fs j" if "j \<in> set inos" for j using fresh that by auto
  have "\<forall>g. fs_names ?fs' (gen_path path g) = (if g < length ?inos then Some (?inos ! g) else None)"
  proof
    fix g
    consider "g = 0" | h where "g = Suc h" "h < m" | "g > m"
      by (metis not0_implies_Suc not_less_eq)
    then show "fs_names ?fs' (gen_path path g) = (if g < length ?inos then Some (?inos ! g) else None)"
    proof cases
      case 1
      then show ?thesis by (simp add: gen_path_def)
    next
      case 2
      then have "gen_path path g \<noteq> path" using gen_path_inj [of path g 0] by (simp add: gen_path_def [of path 0])
      then show ?thesis using nm(3) 2 names [of h] by auto
    next
      case 3
      then have "gen_path path g \<noteq> path" using gen_path_inj [of path g 0] by (simp add: gen_path_def [of path 0])
      then show ?thesis using nm(4) 3 names [of g] r by auto
    qed
  qed
  moreover have "\<exists>lost. out = lost @ kept_bytes ?fs' ?inos \<and> sw_dropped ?c' = (lost \<noteq> []) \<and> (lost \<noteq> [] \<longrightarrow> length ?inos = Suc m)"
  proof -
    obtain lost where lost: "out = lost @ kept_bytes fs inos" "sw_dropped c = (lost \<noteq> [])" "lost \<noteq> [] \<longrightarrow> ?dropped"
      using r by blast
    have kb: "kept_bytes ?fs' ?inos = concat (map (fs_data fs) (rev ?keep))"
    proof -
      have "?new \<notin> set ?keep" using fresh by (auto dest: in_set_takeD)
      then show ?thesis by (simp add: kept_bytes_def)
    qed
    have split: "kept_bytes fs inos = concat (map (fs_data fs) (rev (drop m inos))) @ concat (map (fs_data fs) (rev ?keep))"
      unfolding kept_bytes_def by (metis append_take_drop_id concat_append map_append rev_append)
    show ?thesis
    proof (cases ?dropped)
      case True
      then obtain j where j: "drop m inos = [j]" by (metis Cons_nth_drop_Suc drop_all le_refl lessI)
      have "j \<in> set (tl inos)"
        using j r True by (metis drop_Suc in_set_dropD list.set_intros(1) Suc_le_D One_nat_def drop_tl)
      then have "int (length (fs_data fs j)) = limit" using r by blast
      then have "fs_data fs j \<noteq> []" using r by auto
      moreover have "m \<le> length inos" using True by simp
      ultimately show ?thesis using lost kb split j True by (intro exI [of _ "lost @ fs_data fs j"]) (simp add: min_absorb2)
    next
      case False
      then have "length inos \<le> m" using r by auto
      then show ?thesis using lost kb split False by (intro exI [of _ lost]) auto
    qed
  qed
  moreover have full_old: "\<forall>j \<in> set (tl inos). int (length (fs_data fs j)) = limit" using r by blast
  have full_live: "int (length (fs_data fs (hd inos))) = limit" using r assms(2) by presburger
  have "\<forall>j \<in> set (tl ?inos). int (length (fs_data ?fs' j)) = limit"
  proof
    fix j assume "j \<in> set (tl ?inos)"
    then have j: "j \<in> set inos" by (auto dest: in_set_takeD)
    then have "int (length (fs_data fs j)) = limit" using full_live full_old inos by auto
    then show "int (length (fs_data ?fs' j)) = limit" using data [OF j] by simp
  qed
  moreover have "distinct ?inos" using r fresh by (auto dest: in_set_takeD)
  moreover have below: "\<forall>j \<in> set inos. j < fs_inodes fs" using r by blast
  have "\<forall>j \<in> set ?inos. j < fs_inodes ?fs'"
  proof
    fix j assume "j \<in> set ?inos"
    then have "j = ?new \<or> j \<in> set inos" by (auto dest: in_set_takeD)
    then show "j < fs_inodes ?fs'" using below by auto
  qed
  ultimately have "rotating path m limit out ?c' ?fs' ?inos" using r unfolding rotating_def by simp
  then show ?thesis using roll by auto
qed


lemma put_at_end [simp]: "put_at (length d) p d = d @ p"
  by (simp add: put_at_def)

lemma rotating_put:
  assumes "rotating path m limit out c fs inos" and "int (length q) \<le> limit - sw_written c"
  shows "\<exists>fs'. os_write (sw_w c) q fs = (Inr (), fs') \<and>
    rotating path m limit (out @ q) (c\<lparr>sw_written := sw_written c + int (length q), sw_stored := sw_stored c + int (length q)\<rparr>) fs' inos"
proof -
  note r = assms(1) [unfolded rotating_def]
  obtain i rest where inos: "inos = i # rest" using r by (cases inos) auto
  let ?d = "fs_data fs i"
  let ?fs' = "fs\<lparr>fs_data := (fs_data fs)(i := ?d @ q), fs_mtime := (fs_mtime fs)(i := fs_now fs),
      fs_fds := (fs_fds fs)(sw_w c \<mapsto> (i, length ?d + length q))\<rparr>"
  have w: "os_write (sw_w c) q fs = (Inr (), ?fs')" using r inos by (simp add: os_write_def)
  have i: "i \<notin> set rest" using r inos by simp
  then have "kept_bytes ?fs' inos = kept_bytes fs inos @ q" by (auto simp: kept_bytes_def inos intro!: arg_cong [of _ _ concat])
  then have "\<exists>lost. out @ q = lost @ kept_bytes ?fs' inos \<and> sw_dropped c = (lost \<noteq> []) \<and> (lost \<noteq> [] \<longrightarrow> length inos = Suc m)"
    using r by auto
  moreover have "\<forall>j \<in> set rest. int (length (fs_data ?fs' j)) = limit" using r i inos by auto
  ultimately have "rotating path m limit (out @ q)
      (c\<lparr>sw_written := sw_written c + int (length q), sw_stored := sw_stored c + int (length q)\<rparr>) ?fs' inos"
    using r assms(2) unfolding rotating_def inos by simp
  then show ?thesis using w by blast
qed

lemma rotating_write_loop:
  assumes "rotating path m limit out c fs inos"
  shows "\<exists>c' fs' inos'. write_loop p c fs = (None, c', fs') \<and> rotating path m limit (out @ p) c' fs' inos'"
  using assms
proof (induction p c fs arbitrary: out inos rule: write_loop.induct)
  case (1 p c fs)
  note r = 1(3) [unfolded rotating_def]
  let ?remaining = "sw_limit c - sw_written c"
  have open': "\<not> sw_capped c" using r by blast
  show ?case
  proof (cases "p = []")
    case True
    then show ?thesis using 1(3) by (subst write_loop.simps) auto
  next
    case False
    then have go: "\<not> (p = [] \<or> sw_capped c)" using open' by simp
    show ?thesis
    proof (cases "?remaining \<le> 0")
      case True
      then have "sw_written c = limit" using r by auto
      then obtain c' fs' inos' where roll: "roll c fs = (None, c', fs')" "rotating path m limit out c' fs' inos'"
        using rotating_roll [OF 1(3)] by blast
      have "write_loop p c fs = write_loop p c' fs'" using go True roll(1) by (subst write_loop.simps) simp
      then show ?thesis using 1(1) [OF go refl True roll(1) [symmetric] _ _ roll(2)] by simp
    next
      case False
      let ?size = "min (int (length p)) ?remaining"
      let ?q = "take (nat ?size) p"
      have q: "int (length ?q) = ?size" using False by simp
      then have "int (length ?q) \<le> limit - sw_written c" using r by auto
      from rotating_put [OF 1(3) this] obtain fs' where w: "os_write (sw_w c) ?q fs = (Inr (), fs')"
          "rotating path m limit (out @ ?q) (c\<lparr>sw_written := sw_written c + ?size, sw_stored := sw_stored c + ?size\<rparr>) fs' inos"
        unfolding q by blast
      have "write_loop p c fs = write_loop (drop (nat ?size) p) (c\<lparr>sw_written := sw_written c + ?size, sw_stored := sw_stored c + ?size\<rparr>) fs'"
        using go False w(1) by (subst write_loop.simps) (simp add: Let_def)
      moreover have "(out @ ?q) @ drop (nat ?size) p = out @ p" by simp
      ultimately show ?thesis using 1(2) [OF go refl False refl w(1) [symmetric] refl w(2)] by metis
    qed
  qed
qed

text \<open>A stream written in pieces, with what each call reports.\<close>

fun write_all :: "string list \<Rightarrow> StreamWriter \<Rightarrow> Files \<Rightarrow> (int \<times> os_error option) list \<times> StreamWriter \<times> Files" where
  "write_all [] c fs = ([], c, fs)"
| "write_all (p # ps) c fs =
     (case Write p c fs of
        (r, c, fs) \<Rightarrow> (case write_all ps c fs of (rs, c, fs) \<Rightarrow> (r # rs, c, fs)))"

lemma rotating_write_all:
  assumes "rotating path m limit out c fs inos"
  shows "\<exists>c' fs' inos'. write_all ps c fs = (map (\<lambda>p. (int (length p), None)) ps, c', fs') \<and>
    rotating path m limit (out @ concat ps) c' fs' inos'"
  using assms
proof (induction ps arbitrary: out c fs inos)
  case (Cons p ps)
  obtain c1 fs1 inos1 where one: "write_loop p c fs = (None, c1, fs1)" "rotating path m limit (out @ p) c1 fs1 inos1"
    using rotating_write_loop [OF Cons.prems] by blast
  obtain c2 fs2 inos2 where "write_all ps c1 fs1 = (map (\<lambda>p. (int (length p), None)) ps, c2, fs2)"
      "rotating path m limit ((out @ p) @ concat ps) c2 fs2 inos2"
    using Cons.IH [OF one(2)] by blast
  then show ?case using one(1) by (auto simp: Write_def)
qed auto

section \<open>Reading the generations back\<close>

lemma generations_found:
  assumes "fs_faults fs = []" and "\<forall>g. fs_names fs (gen_path path g) = (if g < length inos then Some (inos ! g) else None)"
    and "g < length inos"
  shows "generations path g fs = Some (length inos - 1, fs)"
  using assms
proof (induction "length inos - g" arbitrary: g)
  case (Suc n)
  have path: "rotatedPath path (int (Suc g)) = gen_path path (Suc g)" by (simp add: gen_path_def)
  show ?case
  proof (cases "Suc g < length inos")
    case True
    then have "os_stat (rotatedPath path (int (Suc g))) fs = (Inr (fs_mtime fs (inos ! Suc g)), fs)"
      using Suc.prems(1,2) unfolding path by (simp add: os_stat_def)
    moreover have "generations path (Suc g) fs = Some (length inos - 1, fs)"
      using Suc.hyps True Suc.prems by (metis Suc_diff_Suc diff_Suc_1 Suc_inject)
    ultimately show ?thesis by (subst generations.simps) simp
  next
    case False
    then have "os_stat (rotatedPath path (int (Suc g))) fs = (Inl ErrNotExist, fs)"
      using Suc.prems(1,2) unfolding path by (simp add: os_stat_def)
    moreover have "g = length inos - 1" using False Suc.prems(3) by simp
    ultimately show ?thesis by (subst generations.simps) simp
  qed
qed simp


lemma stream_files_found:
  assumes "fs_faults fs = []" and "inos \<noteq> []"
    and "\<forall>g. fs_names fs (gen_path (Path s processID attempt stream at) g) = (if g < length inos then Some (inos ! g) else None)"
  shows "\<exists>paths. streamFiles s processID attempt stream at fs = Some (paths, fs) \<and>
    map (contents fs) paths = map (\<lambda>i. Some (fs_data fs i)) (rev inos)"
proof -
  let ?live = "Path s processID attempt stream at"
  let ?k = "length inos - 1"
  have "generations ?live 0 fs = Some (?k, fs)" using generations_found [OF assms(1,3), of 0] assms(2) by simp
  moreover have paths: "map (\<lambda>g. rotatedPath ?live (int g)) (rev [1 ..< Suc ?k]) @ [?live] = map (gen_path ?live) (rev [0 ..< length inos])"
  proof -
    have "[0 ..< length inos] = 0 # [1 ..< Suc ?k]" using assms(2) by (simp add: upt_conv_Cons)
    then show ?thesis by (auto simp: gen_path_def)
  qed
  ultimately have "streamFiles s processID attempt stream at fs = Some (map (gen_path ?live) (rev [0 ..< length inos]), fs)"
    by (simp add: streamFiles_def Let_def)
  moreover have "map (contents fs) (map (gen_path ?live) (rev [0 ..< length inos])) = rev (map (\<lambda>i. Some (fs_data fs i)) (map ((!) inos) [0 ..< length inos]))"
    using assms(3) by (simp add: rev_map contents_def)
  ultimately show ?thesis unfolding map_nth by (simp add: rev_map)
qed

text \<open>
  C27. A rotating stream keeps the end of the output, whatever the writes: every call reports all its bytes
  as written, the live file and the rotations that reading finds hold, oldest first, exactly the end of
  what the process wrote, no file is larger than the limit and there are at most \<^verbatim>\<open>MaxFiles\<close> behind the
  live one, and output is lost only when all of them are full, which is when \<^verbatim>\<open>Truncated\<close> says so.
\<close>

theorem rotation_keeps_the_end:
  assumes "fs_faults fs = []" and "po_MaxFiles policy = int m" and "m \<ge> 1" and "po_MaxBytesPerStream policy > 0"
    and "\<forall>g. fs_names fs (gen_path (Path s processID attempt stream at) g) = None"
  shows "\<exists>c s1 fs1 c' fs' paths lost kept.
    openStream processID attempt stream at policy s fs = (Inr c, s1, fs1) \<and>
    write_all ps c fs1 = (map (\<lambda>p. (int (length p), None)) ps, c', fs') \<and>
    concat ps = lost @ concat kept \<and> Truncated c' = (lost \<noteq> []) \<and> sw_stored c' = int (length (concat ps)) \<and>
    streamFiles s processID attempt stream at fs' = Some (paths, fs') \<and> map (contents fs') paths = map Some kept \<and>
    length kept \<le> Suc m \<and> (\<forall>d \<in> set kept. int (length d) \<le> po_MaxBytesPerStream policy) \<and>
    (lost \<noteq> [] \<longrightarrow> int (length (concat kept)) \<ge> int m * po_MaxBytesPerStream policy)"
proof -
  let ?path = "Path s processID attempt stream at" and ?limit = "po_MaxBytesPerStream policy"
  have "fs_names fs ?path = None" using assms(5) by (metis gen_path_def)
  then have "\<exists>c s1 fs1. openStream processID attempt stream at policy s fs = (Inr c, s1, fs1) \<and>
      rotating ?path m ?limit [] c fs1 [fs_inodes fs]"
    using assms by (auto simp: openStream_def os_call_def os_create_def rotating_def kept_bytes_def gen_path_live Let_def)
  then obtain c s1 fs1 where o: "openStream processID attempt stream at policy s fs = (Inr c, s1, fs1)"
      "rotating ?path m ?limit [] c fs1 [fs_inodes fs]" by blast
  obtain c' fs' inos where w: "write_all ps c fs1 = (map (\<lambda>p. (int (length p), None)) ps, c', fs')"
      "rotating ?path m ?limit (concat ps) c' fs' inos"
    using rotating_write_all [OF o(2), of ps] by auto
  note r = w(2) [unfolded rotating_def]
  obtain lost where lost: "concat ps = lost @ kept_bytes fs' inos" "sw_dropped c' = (lost \<noteq> [])"
      "lost \<noteq> [] \<longrightarrow> length inos = Suc m" using r by blast
  obtain paths where paths: "streamFiles s processID attempt stream at fs' = Some (paths, fs')"
      "map (contents fs') paths = map (\<lambda>i. Some (fs_data fs' i)) (rev inos)"
    using stream_files_found [of fs' inos s processID attempt stream at] r by blast
  let ?kept = "map (fs_data fs') (rev inos)"
  obtain i rest where inos: "inos = i # rest" using r by (cases inos) auto
  have old: "\<forall>j \<in> set rest. int (length (fs_data fs' j)) = ?limit" using r inos by auto
  have live: "int (length (fs_data fs' i)) \<le> ?limit" using r inos by auto
  have "int (length (concat (map (fs_data fs') (rev rest)))) = int (length rest) * ?limit"
    using old by (induction rest) (simp_all add: algebra_simps)
  then have "lost \<noteq> [] \<longrightarrow> int (length (concat ?kept)) \<ge> int m * ?limit" using lost(3) inos by simp
  moreover have "\<forall>d \<in> set ?kept. int (length d) \<le> ?limit" using old live inos by auto
  moreover have "length ?kept \<le> Suc m" "Truncated c' = (lost \<noteq> [])" "sw_stored c' = int (length (concat ps))"
    using r lost(2) by (simp_all add: Truncated_def)
  moreover have "concat ps = lost @ concat ?kept" using lost(1) by (simp add: kept_bytes_def)
  moreover have "map (contents fs') paths = map Some ?kept" using paths(2) by simp
  ultimately show ?thesis using o(1) w(1) paths(1) by blast
qed

theorem rotation_keeps_the_end_witness:
  "\<exists>c s1 fs1 c' fs' kept lost. openStream ''p'' 1 StreamStdout 0 \<lparr>po_MaxBytesPerStream = 2, po_MaxFiles = 1\<rparr> (NewLogs ''logs'' 9) no_files = (Inr c, s1, fs1) \<and>
     write_all [''abc'', ''de''] c fs1 = ([(3, None), (2, None)], c', fs') \<and> ''abcde'' = lost @ concat kept \<and> length kept \<le> 2"
proof -
  let ?policy = "\<lparr>po_MaxBytesPerStream = 2, po_MaxFiles = 1\<rparr>" and ?ps = "[''abc'', ''de'']"
  have pre: "fs_faults no_files = []" "po_MaxFiles ?policy = int 1" "1 \<le> (1 :: nat)" "po_MaxBytesPerStream ?policy > 0"
    by (simp_all add: no_files_def)
  have fresh: "\<forall>g. fs_names no_files (gen_path (Path (NewLogs ''logs'' 9) ''p'' 1 StreamStdout 0) g) = None"
    by (simp add: no_files_def)
  obtain c s1 fs1 c' fs' paths lost kept where
    "openStream ''p'' 1 StreamStdout 0 ?policy (NewLogs ''logs'' 9) no_files = (Inr c, s1, fs1)"
    "write_all ?ps c fs1 = (map (\<lambda>p. (int (length p), None)) ?ps, c', fs')"
    "concat ?ps = lost @ concat kept" "length kept \<le> Suc 1"
    using rotation_keeps_the_end [OF pre fresh, of ?ps] by blast
  moreover have "map (\<lambda>p. (int (length p), None)) ?ps = [(3, None), (2, None)]" "concat ?ps = ''abcde''" by simp_all
  ultimately show ?thesis unfolding Suc_1 by metis
qed


section \<open>Capping\<close>

definition capping :: "string \<Rightarrow> int \<Rightarrow> string \<Rightarrow> StreamWriter \<Rightarrow> Files \<Rightarrow> bool" where
  "capping path limit out c fs \<longleftrightarrow>
     fs_faults fs = [] \<and> sw_rotate c = None \<and> sw_limit c = limit \<and> limit \<ge> 0 \<and> \<not> sw_dropped c \<and>
     sw_stored c = min (int (length out)) limit \<and>
     (if sw_capped c then int (length out) > limit \<and> contents fs path = Some (take (nat limit) out @ truncation_marker limit)
      else sw_written c = int (length out) \<and> int (length out) \<le> limit \<and>
        (\<exists>i. fs_names fs path = Some i \<and> fs_data fs i = out \<and> fs_fds fs (sw_w c) = Some (i, length out)))"

lemma capping_write_loop:
  assumes "capping path limit out c fs"
  shows "\<exists>c' fs'. write_loop p c fs = (None, c', fs') \<and> capping path limit (out @ p) c' fs'"
  using assms
proof (induction p c fs arbitrary: out rule: write_loop.induct)
  case (1 p c fs)
  note r = 1(3) [unfolded capping_def]
  let ?remaining = "sw_limit c - sw_written c"
  show ?case
  proof (cases "p = [] \<or> sw_capped c")
    case True
    then have "capping path limit (out @ p) c fs" using r unfolding capping_def by auto
    then show ?thesis using True by (subst write_loop.simps) auto
  next
    case go: False
    obtain i where i: "fs_names fs path = Some i" "fs_data fs i = out" "fs_fds fs (sw_w c) = Some (i, length out)"
      using r go by auto
    show ?thesis
    proof (cases "?remaining \<le> 0")
      case True
      then have full: "int (length out) = limit" using r go by simp
      let ?fs' = "snd (os_write (sw_w c) (truncation_marker limit) fs)"
      let ?c' = "c\<lparr>sw_capped := True\<rparr>"
      have roll: "roll c fs = (None, ?c', ?fs')" and cont: "contents ?fs' path = Some (out @ truncation_marker limit)"
        using r i by (simp_all add: roll_def markCapped_def os_write_def contents_def Let_def)
      have ff: "fs_faults ?fs' = []" using r i by (simp add: os_write_def Let_def)
      have "write_loop p c fs = write_loop p ?c' ?fs'" using go True roll by (subst write_loop.simps) simp
      also have "\<dots> = (None, ?c', ?fs')" by (subst write_loop.simps) simp
      finally have loop: "write_loop p c fs = (None, ?c', ?fs')" .
      have "p \<noteq> []" using go by simp
      moreover have "nat limit = length out" using full by simp
      ultimately have "capping path limit (out @ p) ?c' ?fs'" using r cont ff full go by (auto simp: capping_def)
      then show ?thesis using loop by blast
    next
      case False
      let ?size = "min (int (length p)) ?remaining"
      let ?q = "take (nat ?size) p"
      let ?c' = "c\<lparr>sw_written := sw_written c + ?size, sw_stored := sw_stored c + ?size\<rparr>"
      have q: "int (length ?q) = ?size" using False by simp
      obtain fs' where w: "os_write (sw_w c) ?q fs = (Inr (), fs')"
        and fs': "fs' = snd (os_write (sw_w c) ?q fs)" using r i by (simp add: os_write_def Let_def)
      have files: "fs_names fs' path = Some i" "fs_data fs' i = out @ ?q" "fs_fds fs' (sw_w ?c') = Some (i, length (out @ ?q))" "fs_faults fs' = []"
        using r i unfolding fs' by (simp_all add: os_write_def Let_def)
      have counts: "sw_written c = int (length out)" "sw_stored c = int (length out)" "int (length out) \<le> limit" "sw_limit c = limit"
        using r go by auto
      have fits: "int (length (out @ ?q)) \<le> limit" using q counts by simp
      have nw: "sw_written ?c' = int (length (out @ ?q))" "sw_stored ?c' = int (length (out @ ?q))" using q counts by simp_all
      have "capping path limit (out @ ?q) ?c' fs'"
      proof -
        have same: "sw_rotate ?c' = None" "sw_limit ?c' = limit" "limit \<ge> 0" "\<not> sw_dropped ?c'" "sw_capped ?c' = False"
          using r go by simp_all
        have stored: "sw_stored ?c' = min (int (length (out @ ?q))) limit" using nw(2) fits by linarith
        show ?thesis
          unfolding capping_def same(5) if_False
          by (intro conjI exI [of _ i] same(1-4) stored nw(1) fits files)
      qed
      from 1(2) [OF go refl False refl w [symmetric] refl this] obtain c'' fs'' where
        "write_loop (drop (nat ?size) p) ?c' fs' = (None, c'', fs'')" "capping path limit ((out @ ?q) @ drop (nat ?size) p) c'' fs''"
        by blast
      moreover have "write_loop p c fs = write_loop (drop (nat ?size) p) ?c' fs'"
        using go False w by (subst write_loop.simps) (simp add: Let_def)
      ultimately show ?thesis by auto
    qed
  qed
qed

lemma capping_write_all:
  assumes "capping path limit out c fs"
  shows "\<exists>c' fs'. write_all ps c fs = (map (\<lambda>p. (int (length p), None)) ps, c', fs') \<and> capping path limit (out @ concat ps) c' fs'"
  using assms
proof (induction ps arbitrary: out c fs)
  case (Cons p ps)
  obtain c1 fs1 where one: "write_loop p c fs = (None, c1, fs1)" "capping path limit (out @ p) c1 fs1"
    using capping_write_loop [OF Cons.prems] by blast
  obtain c2 fs2 where "write_all ps c1 fs1 = (map (\<lambda>p. (int (length p), None)) ps, c2, fs2)"
      "capping path limit ((out @ p) @ concat ps) c2 fs2"
    using Cons.IH [OF one(2)] by blast
  then show ?case using one(1) by (auto simp: Write_def)
qed auto

text \<open>
  A stream that does not rotate keeps the beginning of the output, whatever the writes: the process
  sees every write succeed, the file holds all of the output, or its first bytes up to the limit and the
  marker, and \<^verbatim>\<open>Truncated\<close> and \<^verbatim>\<open>Written\<close> say which.
\<close>

theorem capping_keeps_the_beginning:
  assumes "fs_faults fs = []" and "po_MaxFiles policy \<le> 0" and "po_MaxBytesPerStream policy = int limit"
  shows "\<exists>c s1 fs1 c' fs'.
    openStream processID attempt stream at policy s fs = (Inr c, s1, fs1) \<and>
    write_all ps c fs1 = (map (\<lambda>p. (int (length p), None)) ps, c', fs') \<and>
    Truncated c' = (length (concat ps) > limit) \<and> sw_stored c' = int (min (length (concat ps)) limit) \<and>
    contents fs' (Path s processID attempt stream at) =
      Some (if length (concat ps) \<le> limit then concat ps else take limit (concat ps) @ truncation_marker (int limit))"
proof -
  let ?path = "Path s processID attempt stream at"
  have "\<exists>c s1 fs1. openStream processID attempt stream at policy s fs = (Inr c, s1, fs1) \<and> capping ?path (int limit) [] c fs1"
    using assms by (auto simp: openStream_def os_call_def os_create_def capping_def Let_def)
  then obtain c s1 fs1 where o: "openStream processID attempt stream at policy s fs = (Inr c, s1, fs1)"
      "capping ?path (int limit) [] c fs1" by blast
  obtain c' fs' where w: "write_all ps c fs1 = (map (\<lambda>p. (int (length p), None)) ps, c', fs')"
      "capping ?path (int limit) (concat ps) c' fs'"
    using capping_write_all [OF o(2), of ps] by auto
  have "Truncated c' = (length (concat ps) > limit) \<and> sw_stored c' = int (min (length (concat ps)) limit) \<and>
      contents fs' ?path = Some (if length (concat ps) \<le> limit then concat ps else take limit (concat ps) @ truncation_marker (int limit))"
    using w(2) by (auto simp: capping_def Truncated_def contents_def split: if_splits)
  then show ?thesis using o(1) w(1) by blast
qed

theorem capping_keeps_the_beginning_witness:
  "\<exists>c s1 fs1 c' fs'. openStream ''p'' 1 StreamStdout 0 \<lparr>po_MaxBytesPerStream = 2, po_MaxFiles = 0\<rparr> (NewLogs ''logs'' 9) no_files = (Inr c, s1, fs1) \<and>
     write_all [''abc''] c fs1 = ([(3, None)], c', fs') \<and>
     contents fs' (Path (NewLogs ''logs'' 9) ''p'' 1 StreamStdout 0) = Some (''ab'' @ truncation_marker 2)"
proof -
  let ?policy = "\<lparr>po_MaxBytesPerStream = 2, po_MaxFiles = 0\<rparr>" and ?ps = "[''abc'']"
  have pre: "fs_faults no_files = []" "po_MaxFiles ?policy \<le> 0" "po_MaxBytesPerStream ?policy = int 2"
    by (simp_all add: no_files_def)
  obtain c s1 fs1 c' fs' where
    "openStream ''p'' 1 StreamStdout 0 ?policy (NewLogs ''logs'' 9) no_files = (Inr c, s1, fs1)"
    "write_all ?ps c fs1 = (map (\<lambda>p. (int (length p), None)) ?ps, c', fs')"
    "contents fs' (Path (NewLogs ''logs'' 9) ''p'' 1 StreamStdout 0) =
      Some (if length (concat ?ps) \<le> 2 then concat ?ps else take 2 (concat ?ps) @ truncation_marker (int 2))"
    using capping_keeps_the_beginning [OF pre, of "''p''" 1 StreamStdout 0 "NewLogs ''logs'' 9" ?ps] by blast
  moreover have "map (\<lambda>p. (int (length p), None)) ?ps = [(3, None)]" by simp
  ultimately show ?thesis by (simp del: write_all.simps)
qed


lemma read_backward_all:
  assumes "fs_faults fs = []" and "map (contents fs) paths = map Some ds"
    and "\<forall>d \<in> set ds. \<forall>l \<in> set (raw_lines d). length l < maxLineBytes"
  shows "read_backward 0 paths lines fs = (Inr (concat (map (\<lambda>d. map dropCR (raw_lines d)) (rev ds)) @ lines), fs)"
  using assms(2,3)
proof (induction paths arbitrary: ds lines)
  case (Cons path paths)
  then obtain d ds' where ds: "ds = d # ds'" by (cases ds) auto
  then obtain i where i: "fs_names fs path = Some i" "fs_data fs i = d"
    using Cons.prems(1) by (auto simp: contents_def)
  have "readFileLines path 0 fs = (Inr (map dropCR (raw_lines d)), fs)"
    using i assms(1) Cons.prems(2) ds
    by (auto simp: readFileLines_def os_open_def os_call_def scan_lines_def not_le)
  moreover have "read_backward 0 paths (map dropCR (raw_lines d) @ lines) fs =
      (Inr (concat (map (\<lambda>d. map dropCR (raw_lines d)) (rev ds')) @ map dropCR (raw_lines d) @ lines), fs)"
    using Cons.IH [of ds'] Cons.prems ds by simp
  ultimately show ?case using ds by (simp add: Let_def)
qed simp

text \<open>All of one stream, as \<^verbatim>\<open>Lines\<close> returns it: the lines of each file, oldest rotation first.\<close>

lemma Lines_all:
  assumes "fs_faults fs = []" and "inos \<noteq> []" and "stream \<noteq> StreamBoth"
    and "\<forall>g. fs_names fs (gen_path (Path s processID attempt stream at) g) = (if g < length inos then Some (inos ! g) else None)"
    and "\<forall>i \<in> set inos. \<forall>l \<in> set (raw_lines (fs_data fs i)). length l < maxLineBytes"
  shows "Lines s processID attempt stream at 0 fs =
    Some (Inr (concat (map (\<lambda>i. map dropCR (raw_lines (fs_data fs i))) (rev inos))), fs)"
proof -
  obtain paths where paths: "streamFiles s processID attempt stream at fs = Some (paths, fs)"
      "map (contents fs) paths = map (\<lambda>i. Some (fs_data fs i)) (rev inos)"
    using stream_files_found [OF assms(1,2,4)] by blast
  have "map (contents fs) (rev paths) = rev (map (contents fs) paths)" by (simp add: rev_map)
  then have "map (contents fs) (rev paths) = map Some (map (fs_data fs) inos)" by (simp add: paths(2) rev_map)
  from read_backward_all [OF assms(1) this] assms(5)
  have "readLines s processID attempt stream at 0 fs =
      Some (Inr (concat (map (\<lambda>i. map dropCR (raw_lines (fs_data fs i))) (rev inos))), fs)"
    by (simp add: readLines_def paths(1) rev_map comp_def)
  then show ?thesis using assms(3) by (simp add: Lines_def)
qed

definition cut_line :: "StreamWriter \<times> Files" where
  "cut_line =
     (case openStream ''p'' 1 StreamStdout 0 \<lparr>po_MaxBytesPerStream = 3, po_MaxFiles = 2\<rparr> (NewLogs ''logs'' 9) no_files of
        (Inr c, s, fs) \<Rightarrow> snd (Write (''abcd'' @ [newline]) c fs)
      | (Inl _, s, fs) \<Rightarrow> (\<lparr>sw_w = 0, sw_limit = 0, sw_written = 0, sw_stored = 0, sw_capped = False, sw_dropped = False, sw_rotate = None\<rparr>, fs))"

text \<open>
  A line that a rotation cuts is read back as two lines: what \<^verbatim>\<open>Lines\<close> returns of the full history is
  not what the process wrote, although no output was lost.
\<close>

theorem rotated_line_is_read_as_two:
  "\<not> Truncated (fst cut_line) \<and>
   map_option fst (Lines (NewLogs ''logs'' 9) ''p'' 1 StreamStdout 0 0 (snd cut_line)) = Some (Inr [''abc'', ''d''])"
proof -
  let ?path = "Path (NewLogs ''logs'' 9) ''p'' 1 StreamStdout 0"
  have gens: "rotatedPath ?path 1 = gen_path ?path 1" "rotatedPath ?path 2 = gen_path ?path 2" "gen_path ?path 0 = ?path"
    by (simp_all add: gen_path_def)
  have "\<exists>c fs. cut_line = (c, fs) \<and> \<not> Truncated c \<and> fs_faults fs = [] \<and> fs_data fs 0 = ''abc'' \<and> fs_data fs 1 = ''d'' @ [newline] \<and>
      (\<forall>g. fs_names fs (gen_path ?path g) = (if g < 2 then Some ([1, 0] ! g) else None))"
    by (simp add: cut_line_def Write_def write_loop.simps [of "_ # _"] write_loop.simps [of "[]"] openStream_def os_call_def os_create_def no_files_def fault_def called_def
        os_write_def put_at_def roll_def next_file_def os_close_def shift_def os_remove_def os_rename_def gens gen_path_live Truncated_def
        less_2_cases_iff Let_def)
  then obtain c fs where f: "cut_line = (c, fs)" "\<not> Truncated c" "fs_faults fs = []" "fs_data fs 0 = ''abc''" "fs_data fs 1 = ''d'' @ [newline]"
      "\<forall>g. fs_names fs (gen_path ?path g) = (if g < length [1, 0 :: nat] then Some ([1, 0] ! g) else None)"
    by (auto simp: numeral_2_eq_2)
  have raw: "raw_lines ''abc'' = [''abc'']" "raw_lines (''d'' @ [newline]) = [''d'']"
    by (simp_all add: raw_lines_def newline_def)
  from Lines_all [OF f(3) _ _ f(6)] f(2,4,5) raw show ?thesis
    unfolding f(1) by (simp add: maxLineBytes_def dropCR_def)
qed

end
