(* ===== verification/Notifier.thy ===== *)
theory Notifier
  imports World Workers LogRead
begin

text \<open>
  \<^verbatim>\<open>internal/notify/notify.go\<close>: telling somebody that an execution ended badly. The queue is a list, and
  a delivery goroutine takes the oldest job. What an HTTP endpoint answers, the clock and the id of a new
  execution are inputs; the waits between attempts, the headers and the draining of response bodies have
  no effect on the state and are left out.
\<close>

section \<open>Texts\<close>

fun State_text :: "State \<Rightarrow> string" where
  "State_text StateCreated = ''CREATED''"
| "State_text StateQueued = ''QUEUED''"
| "State_text StateStarting = ''STARTING''"
| "State_text StateRunning = ''RUNNING''"
| "State_text StateStopping = ''STOPPING''"
| "State_text StateCrashed = ''CRASHED''"
| "State_text StateRetrying = ''RETRYING''"
| "State_text StateCompleted = ''COMPLETED''"
| "State_text StateFailed = ''FAILED''"
| "State_text StateCanceled = ''CANCELED''"
| "State_text (StateOther s) = s"

fun Reason_text :: "Reason \<Rightarrow> string" where
  "Reason_text ReasonNone = ''''"
| "Reason_text ReasonUserRequest = ''user_request''"
| "Reason_text ReasonTimeout = ''timeout''"
| "Reason_text ReasonMaxAttempts = ''max_attempts''"
| "Reason_text ReasonQueueTimeout = ''queue_timeout''"
| "Reason_text ReasonShutdown = ''shutdown''"
| "Reason_text ReasonDaemonRestart = ''daemon_restart''"
| "Reason_text ReasonStartError = ''start_error''"
| "Reason_text ReasonNoRetryExit = ''no_retry_exit_code''"
| "Reason_text ReasonLockConflict = ''lock_conflict''"
| "Reason_text ReasonOrphaned = ''orphaned''"
| "Reason_text ReasonNoCapacity = ''no_capacity''"

fun NotifyEvent_text :: "NotifyEvent \<Rightarrow> string" where
  "NotifyEvent_text NotifyNone = ''''"
| "NotifyEvent_text NotifyOnFailed = ''failed''"
| "NotifyEvent_text NotifyOnCrashed = ''crashed''"
| "NotifyEvent_text NotifyOnRetriesExhausted = ''retries_exhausted''"
| "NotifyEvent_text NotifyOnTimeout = ''timeout''"
| "NotifyEvent_text (NotifyOther s) = s"

section \<open>The queue\<close>

definition queueDepth :: nat where "queueDepth = 256"
definition deliveryWorkers :: nat where "deliveryWorkers = 4"

definition notifyTriggerKey :: string where "notifyTriggerKey = ''processd.trigger''"
definition triggerNotify :: string where "triggerNotify = ''notify''"
definition notifyEventKey :: string where "notifyEventKey = ''processd.notify_event''"
definition notifySourceKey :: string where "notifySourceKey = ''processd.notify_source''"

record Job =
  j_event :: NotifyEvent
  j_policy :: Notify
  j_process :: Process

record Notifier =
  nt_fallback :: Notify
  nt_node :: string
  nt_jobs :: "Job list"
  nt_closed :: bool
  nt_dropped :: int

definition NewNotifier :: "Notify \<Rightarrow> string \<Rightarrow> Notifier" where
  "NewNotifier fallback node =
     \<lparr>nt_fallback = fallback, nt_node = node, nt_jobs = [], nt_closed = False, nt_dropped = 0\<rparr>"

definition policyFor :: "Notifier \<Rightarrow> Worker option \<Rightarrow> Notify" where
  "policyFor n worker =
     (case worker of
        Some w \<Rightarrow> if Notify_IsSet (w_Notify w) then w_Notify w else nt_fallback n
      | None \<Rightarrow> nt_fallback n)"

definition is_notification :: "Process \<Rightarrow> bool" where
  "is_notification p \<longleftrightarrow> map_of (p_Metadata p) notifyTriggerKey = Some triggerNotify"

definition Notify_outcome :: "NotifyEvent \<Rightarrow> Process option \<Rightarrow> Worker option \<Rightarrow> Notifier \<Rightarrow> Notifier" where
  "Notify_outcome event process worker n =
     (case process of
        None \<Rightarrow> n
      | Some p \<Rightarrow>
          if is_notification p then n
          else
            let policy = policyFor n worker
            in if \<not> Notifies policy event then n
               else if nt_closed n then n
               else if length (nt_jobs n) < queueDepth
               then n\<lparr>nt_jobs := nt_jobs n @ [\<lparr>j_event = event, j_policy = policy, j_process = p\<rparr>]\<rparr>
               else n\<lparr>nt_dropped := nt_dropped n + 1\<rparr>)"

text \<open>The first half of \<^verbatim>\<open>Close\<close>; the wait for the queue to drain changes nothing here.\<close>

definition Close_notifier :: "Notifier \<Rightarrow> Notifier" where
  "Close_notifier n = (if nt_closed n then n else n\<lparr>nt_closed := True\<rparr>)"

text \<open>A delivery goroutine of \<^verbatim>\<open>Run\<close> receives a job; a closed and empty queue gives none.\<close>

definition receive :: "Notifier \<Rightarrow> Job option \<times> Notifier" where
  "receive n =
     (case nt_jobs n of
        [] \<Rightarrow> (None, n)
      | job # rest \<Rightarrow> (Some job, n\<lparr>nt_jobs := rest\<rparr>))"

section \<open>Webhooks\<close>

datatype HttpAnswer = NotBuilt | Unreachable | StatusCode int

definition postOnce :: "HttpAnswer \<Rightarrow> bool" where
  "postOnce answer = (case answer of NotBuilt \<Rightarrow> False | Unreachable \<Rightarrow> False | StatusCode code \<Rightarrow> code < 400)"

text \<open>The loop over the attempts: how many were made, and whether the last of them delivered.\<close>

function post_loop :: "(int \<Rightarrow> HttpAnswer) \<Rightarrow> int \<Rightarrow> int \<Rightarrow> int \<times> bool" where
  "post_loop answer attempts attempt =
     (if attempt \<le> attempts then
        if postOnce (answer attempt) then (attempt, True) else post_loop answer attempts (attempt + 1)
      else (attempt - 1, False))"
  by pat_completeness auto
termination by (relation "measure (\<lambda>(answer, attempts, attempt). nat (attempts + 1 - attempt))") auto

declare post_loop.simps [simp del]

definition post :: "(int \<Rightarrow> HttpAnswer) \<Rightarrow> NotifyWebhook \<Rightarrow> int \<times> bool" where
  "post answer hook = post_loop answer (h_Retry hook + 1) 1"

record payloadProcess =
  pp_ID :: string
  pp_Worker :: string
  pp_Type :: Type
  pp_State :: State
  pp_Reason :: Reason
  pp_Attempt :: int
  pp_Restarts :: int
  pp_ExitCode :: "int option"
  pp_Signal :: string
  pp_Metadata :: "(string \<times> string) list"
  pp_CreatedAt :: gtime
  pp_StartedAt :: "gtime option"
  pp_FinishedAt :: "gtime option"
  pp_DurationMS :: int

record payload =
  py_Event :: NotifyEvent
  py_Node :: string
  py_SentAt :: gtime
  py_Process :: payloadProcess
  py_LogTail :: "string list"

text \<open>\<^verbatim>\<open>Milliseconds\<close> truncates toward zero.\<close>

definition Milliseconds :: "duration \<Rightarrow> int" where
  "Milliseconds d = (if d < 0 then - ((- d) div millisecond) else d div millisecond)"

text \<open>
  The body for one outcome; \<open>logs\<close> is the log store when there is one. \<open>None\<close> is the log search that
  does not end.
\<close>

definition payloadOf ::
  "LogStore option \<Rightarrow> gtime \<Rightarrow> Notifier \<Rightarrow> Job \<Rightarrow> NotifyWebhook \<Rightarrow> Files \<Rightarrow> (payload \<times> Files) option" where
  "payloadOf logs now n job hook fs =
     (let p = j_process job;
          built = \<lparr>py_Event = j_event job, py_Node = nt_node n, py_SentAt = now,
            py_Process = \<lparr>pp_ID = p_ID p, pp_Worker = p_Worker p, pp_Type = p_Type p, pp_State = p_State p,
              pp_Reason = p_Reason p, pp_Attempt = p_Attempt p, pp_Restarts = p_Restarts p,
              pp_ExitCode = p_ExitCode p, pp_Signal = p_Signal p, pp_Metadata = p_Metadata p,
              pp_CreatedAt = p_CreatedAt p, pp_StartedAt = p_StartedAt p, pp_FinishedAt = p_FinishedAt p,
              pp_DurationMS = Milliseconds (Duration p)\<rparr>,
            py_LogTail = []\<rparr>
      in case logs of
           None \<Rightarrow> Some (built, fs)
         | Some s \<Rightarrow>
             if h_IncludeLogTail hook \<le> 0 then Some (built, fs)
             else
               map_option (\<lambda>r. case r of
                   (Inl _, fs) \<Rightarrow> (built, fs)
                 | (Inr lines, fs) \<Rightarrow> (built\<lparr>py_LogTail := lines\<rparr>, fs))
                 (Lines s (p_ID p) (p_Attempt p) StreamBoth (p_CreatedAt p) (h_IncludeLogTail hook) fs))"

section \<open>Notification workers\<close>

definition available :: "Notifier \<Rightarrow> Job \<Rightarrow> (string \<times> string) list" where
  "available n job =
     (let p = j_process job
      in [(''event'', NotifyEvent_text (j_event job)), (''process_id'', p_ID p), (''worker'', p_Worker p),
          (''state'', State_text (p_State p)), (''reason'', Reason_text (p_Reason p)),
          (''attempt'', Itoa (p_Attempt p)), (''signal'', p_Signal p), (''node'', nt_node n)] @
         (case p_ExitCode p of None \<Rightarrow> [] | Some code \<Rightarrow> [(''exit_code'', Itoa code)]))"

definition paramsFor :: "Notifier \<Rightarrow> Worker \<Rightarrow> Job \<Rightarrow> (string \<times> string) list" where
  "paramsFor n worker job = filter (\<lambda>(name, _). map_of (w_Params worker) name \<noteq> None) (available n job)"

definition run_notification ::
  "(string \<Rightarrow> (string \<Rightarrow> bool) option) \<Rightarrow> (Process \<Rightarrow> World \<Rightarrow> (error, World) outcome) \<Rightarrow> string \<Rightarrow> gtime \<Rightarrow>
     Notifier \<Rightarrow> Job \<Rightarrow> NotifyExec \<Rightarrow> World \<Rightarrow> World" where
  "run_notification compile submit new_id now n job target w =
     (case Registry_Get (s_registry w) (x_Worker target) of
        Inl _ \<Rightarrow> w
      | Inr worker \<Rightarrow>
          if \<not> Worker_IsEnabled worker then w
          else
            case Instantiate compile new_id now worker (paramsFor n worker job) of
              Inl _ \<Rightarrow> w
            | Inr p \<Rightarrow>
                snd (submit (p\<lparr>p_Metadata := [(notifyTriggerKey, triggerNotify),
                       (notifyEventKey, NotifyEvent_text (j_event job)),
                       (notifySourceKey, p_ID (j_process job))]\<rparr>) w))"

text \<open>Both deliveries of one job, and what the webhook, if any, came to.\<close>

definition deliver ::
  "(int \<Rightarrow> HttpAnswer) \<Rightarrow> (string \<Rightarrow> (string \<Rightarrow> bool) option) \<Rightarrow> (Process \<Rightarrow> World \<Rightarrow> (error, World) outcome) \<Rightarrow>
     string \<Rightarrow> gtime \<Rightarrow> Notifier \<Rightarrow> Job \<Rightarrow> World \<Rightarrow> (int \<times> bool) option \<times> World" where
  "deliver answer compile submit new_id now n job w =
     (map_option (post answer) (n_Webhook (j_policy job)),
      case n_Exec (j_policy job) of
        None \<Rightarrow> w
      | Some target \<Rightarrow> run_notification compile submit new_id now n job target w)"

end
