(* ===== verification/NotifierProps.thy ===== *)
theory NotifierProps
  imports Notifier "HOL-Library.Sublist"
begin

text \<open>
  What the notifier guarantees: a bounded queue that keeps order and accounts for every outcome somebody
  asked to hear about, bounded deliveries, no notifications about notifications, nothing of the daemon's
  environment in a payload, and which outcomes reach a notification worker.
\<close>

section \<open>The queue\<close>

datatype notifier_event = NRaise NotifyEvent "Process option" "Worker option" | NReceive | NClose

fun notifier_step :: "notifier_event \<Rightarrow> Job list \<times> Notifier \<Rightarrow> Job list \<times> Notifier" where
  "notifier_step (NRaise ev p worker) (got, n) = (got, Notify_outcome ev p worker n)"
| "notifier_step NReceive (got, n) =
     (case receive n of (None, n) \<Rightarrow> (got, n) | (Some job, n) \<Rightarrow> (got @ [job], n))"
| "notifier_step NClose (got, n) = (got, Close_notifier n)"

text \<open>The outcomes somebody asked to hear about, as jobs, up to the shutdown.\<close>

fun wanted :: "Notify \<Rightarrow> notifier_event list \<Rightarrow> Job list" where
  "wanted fallback [] = []"
| "wanted fallback (NClose # evs) = []"
| "wanted fallback (NReceive # evs) = wanted fallback evs"
| "wanted fallback (NRaise ev None worker # evs) = wanted fallback evs"
| "wanted fallback (NRaise ev (Some p) worker # evs) =
     (let policy = policyFor (NewNotifier fallback '''') worker
      in if is_notification p \<or> \<not> Notifies policy ev then wanted fallback evs
         else \<lparr>j_event = ev, j_policy = policy, j_process = p\<rparr> # wanted fallback evs)"

lemma wanted_append:
  "wanted fallback (evs @ evs') = wanted fallback evs @ (if NClose \<in> set evs then [] else wanted fallback evs')"
  by (induction fallback evs rule: wanted.induct) (auto simp: Let_def)

definition queue_ok :: "notifier_event list \<Rightarrow> Notify \<Rightarrow> Job list \<times> Notifier \<Rightarrow> bool" where
  "queue_ok evs fallback st \<longleftrightarrow>
     (case st of (got, n) \<Rightarrow>
        nt_fallback n = fallback \<and> nt_closed n = (NClose \<in> set evs) \<and> length (nt_jobs n) \<le> queueDepth \<and>
        nt_dropped n \<ge> 0 \<and>
        subseq (got @ nt_jobs n) (wanted fallback evs) \<and>
        int (length (got @ nt_jobs n)) + nt_dropped n = int (length (wanted fallback evs)))"

lemma notifier_step_ok:
  assumes "queue_ok evs fallback st"
  shows "queue_ok (evs @ [ev]) fallback (notifier_step ev st)"
proof -
  obtain got n where st: "st = (got, n)" by force
  show ?thesis
  proof (cases ev)
    case (NRaise event process worker)
    show ?thesis
    proof (cases process)
      case None
      then show ?thesis using assms by (auto simp: queue_ok_def st NRaise Notify_outcome_def wanted_append)
    next
      case (Some p)
      have pol: "policyFor n worker = policyFor (NewNotifier fallback '''') worker"
        using assms by (auto simp: policyFor_def NewNotifier_def queue_ok_def st split: option.splits)
      show ?thesis
      proof (cases "is_notification p \<or> \<not> Notifies (policyFor n worker) event \<or> nt_closed n")
        case True
        then show ?thesis
          using assms pol by (auto simp: queue_ok_def st NRaise Some Notify_outcome_def wanted_append Let_def)
      next
        case False
        let ?job = "\<lparr>j_event = event, j_policy = policyFor n worker, j_process = p\<rparr>"
        have w: "wanted fallback (evs @ [ev]) = wanted fallback evs @ [?job]"
          using False assms pol by (simp add: queue_ok_def st NRaise Some wanted_append Let_def)
        have sub: "subseq (got @ nt_jobs n) (wanted fallback evs)" using assms by (simp add: queue_ok_def st)
        have "subseq ((got @ nt_jobs n) @ [?job]) (wanted fallback evs @ [?job])"
          using sub by (rule list_emb_append_mono) simp
        moreover have "subseq (got @ nt_jobs n) (wanted fallback evs @ [?job])"
          using sub by (rule subseq_order.trans) (rule list_emb_prefix [OF subseq_order.refl])
        ultimately show ?thesis
          using False assms w
          by (cases "length (nt_jobs n) < queueDepth")
            (auto simp: queue_ok_def st NRaise Some Notify_outcome_def Let_def)
      qed
    qed
  next
    case NReceive
    then show ?thesis using assms
      by (cases "nt_jobs n") (auto simp: queue_ok_def st receive_def wanted_append)
  next
    case NClose
    then show ?thesis using assms by (auto simp: queue_ok_def st Close_notifier_def wanted_append)
  qed
qed

text \<open>
  The notification queue, whatever is raised, delivered and closed in whatever order: it never holds
  more than 256 jobs, what has been delivered and what is waiting are outcomes that somebody asked to
  hear about before the shutdown, in the order they happened and each once, and every one that is missing
  is counted as dropped.
\<close>

theorem notification_accounting:
  defines "st \<equiv> \<lambda>fallback node evs. fold notifier_step evs ([], NewNotifier fallback node)"
  shows "case st fallback node evs of (got, n) \<Rightarrow>
    length (nt_jobs n) \<le> 256 \<and> subseq (got @ nt_jobs n) (wanted fallback evs) \<and>
    int (length got + length (nt_jobs n)) + nt_dropped n = int (length (wanted fallback evs))"
proof -
  have "queue_ok evs fallback (fold notifier_step evs ([], NewNotifier fallback node))"
  proof (induction evs rule: rev_induct)
    case Nil
    then show ?case by (simp add: queue_ok_def NewNotifier_def)
  next
    case (snoc ev evs)
    then show ?case using notifier_step_ok by simp
  qed
  then show ?thesis by (auto simp: st_def queue_ok_def queueDepth_def)
qed

section \<open>Webhooks\<close>

lemma post_loop_spec:
  "case post_loop answer attempts attempt of (made, delivered) \<Rightarrow>
     (delivered \<longrightarrow> attempt \<le> made \<and> made \<le> attempts \<and> postOnce (answer made)) \<and>
     (\<not> delivered \<longrightarrow> made = max attempts (attempt - 1)) \<and>
     (\<forall>i. attempt \<le> i \<and> i \<le> attempts \<and> postOnce (answer i) \<longrightarrow> delivered \<and> made \<le> i)"
proof (induction answer attempts attempt rule: post_loop.induct)
  case (1 answer attempts attempt)
  show ?case
  proof (cases "attempt \<le> attempts \<and> \<not> postOnce (answer attempt)")
    case True
    then have "post_loop answer attempts attempt = post_loop answer attempts (attempt + 1)"
      by (subst post_loop.simps) simp
    moreover have "attempt \<le> i \<and> i \<le> attempts \<and> postOnce (answer i) \<Longrightarrow> attempt + 1 \<le> i" for i
      using True by (cases "i = attempt") auto
    ultimately show ?thesis using 1 True by (auto split: prod.splits)
  next
    case False
    then show ?thesis by (subst post_loop.simps) auto
  qed
qed

text \<open>
  A webhook is tried once and then at most as often as its bound says, whatever the endpoint answers:
  the tries stop at the first answer below 400, and the delivery fails only when every try did.
\<close>

theorem post_bounded:
  assumes "h_Retry hook \<ge> 0" and "post answer hook = (made, delivered)"
  shows "1 \<le> made \<and> made \<le> h_Retry hook + 1 \<and>
    delivered = (\<exists>i. 1 \<le> i \<and> i \<le> h_Retry hook + 1 \<and> postOnce (answer i)) \<and>
    (\<forall>i. 1 \<le> i \<and> i < made \<longrightarrow> \<not> postOnce (answer i))"
  using assms post_loop_spec [where answer = answer and attempts = "h_Retry hook + 1" and attempt = 1] unfolding post_def by (cases delivered) force+

definition flaky_hook :: NotifyWebhook where
  "flaky_hook = \<lparr>h_URL = ''https://alerts'', h_Method = ''POST'', h_Headers = [], h_Timeout = second, h_Retry = 2,
     h_IncludeLogTail = 0\<rparr>"

theorem post_bounded_witness:
  "post (\<lambda>i. if i = 1 then Unreachable else if i = 2 then StatusCode 503 else StatusCode 204) flaky_hook = (3, True)"
proof -
  let ?answer = "\<lambda>i :: int. if i = 1 then Unreachable else if i = 2 then StatusCode 503 else StatusCode 204"
  obtain made delivered where p: "post ?answer flaky_hook = (made, delivered)" by force
  have b: "h_Retry flaky_hook \<ge> 0" by (simp add: flaky_hook_def)
  note spec = post_bounded [OF b p]
  have ok: "postOnce (?answer 3)" "\<not> postOnce (?answer 1)" "\<not> postOnce (?answer 2)" by (simp_all add: postOnce_def)
  have "delivered" using spec ok(1) by (auto simp: flaky_hook_def intro!: exI [of _ 3])
  moreover have "made = 3"
  proof -
    have "made \<le> 3" "1 \<le> made" using spec by (auto simp: flaky_hook_def)
    moreover have "made \<noteq> 1" "made \<noteq> 2" using p by (auto simp: post_def flaky_hook_def post_loop.simps postOnce_def)
    ultimately show ?thesis by linarith
  qed
  ultimately show ?thesis using p by simp
qed

section \<open>What a notification carries\<close>

text \<open>
  A payload carries nothing of the command line or the environment: two executions that differ only in
  their command, arguments, environment, directory, user, group, lock and policies give the same body.
\<close>

theorem payload_hides_the_command:
  "payloadOf logs now n (job\<lparr>j_process := p\<lparr>p_Command := c, p_Args := args, p_Env := env, p_Cwd := cwd, p_User := u,
       p_Group := g, p_Lock := l, p_Timeout := t, p_MaxAttempts := a, p_PID := pid\<rparr>\<rparr>) hook fs =
   payloadOf logs now n (job\<lparr>j_process := p\<rparr>) hook fs"
proof -
  let ?q = "p\<lparr>p_Command := c, p_Args := args, p_Env := env, p_Cwd := cwd, p_User := u, p_Group := g,
      p_Lock := l, p_Timeout := t, p_MaxAttempts := a, p_PID := pid\<rparr>"
  have job: "j_process (job\<lparr>j_process := r\<rparr>) = r" "j_event (job\<lparr>j_process := r\<rparr>) = j_event job" for r
    by simp_all
  have fields: "p_ID ?q = p_ID p" "p_Worker ?q = p_Worker p" "p_Type ?q = p_Type p" "p_State ?q = p_State p"
    "p_Reason ?q = p_Reason p" "p_Attempt ?q = p_Attempt p" "p_Restarts ?q = p_Restarts p" "p_ExitCode ?q = p_ExitCode p"
    "p_Signal ?q = p_Signal p" "p_Metadata ?q = p_Metadata p" "p_CreatedAt ?q = p_CreatedAt p"
    "p_StartedAt ?q = p_StartedAt p" "p_FinishedAt ?q = p_FinishedAt p"
    by simp_all
  show ?thesis unfolding payloadOf_def Duration_def Let_def job fields ..
qed

text \<open>
  There is no notification about a notification: the notifier leaves the scheduler alone, or it submits
  one execution, and no outcome of an execution with its metadata, for whatever event, worker and policy,
  ever queues another notification.
\<close>

theorem notifications_do_not_loop:
  "run_notification compile submit new_id now n job target w = w \<or>
   (\<exists>p. run_notification compile submit new_id now n job target w = snd (submit p w) \<and>
      (\<forall>ev q worker m. Notify_outcome ev (Some (q\<lparr>p_Metadata := p_Metadata p\<rparr>)) worker m = m))"
proof -
  have silent: "Notify_outcome ev (Some (q\<lparr>p_Metadata := (notifyTriggerKey, triggerNotify) # rest\<rparr>)) worker m = m"
    for ev q worker m rest
    by (simp add: Notify_outcome_def is_notification_def)
  show ?thesis
  proof (cases "Registry_Get (s_registry w) (x_Worker target)")
    case reg: (Inr worker)
    show ?thesis
    proof (cases "Worker_IsEnabled worker")
      case True
      show ?thesis
      proof (cases "Instantiate compile new_id now worker (paramsFor n worker job)")
        case (Inr p)
        let ?p = "p\<lparr>p_Metadata := [(notifyTriggerKey, triggerNotify),
            (notifyEventKey, NotifyEvent_text (j_event job)), (notifySourceKey, p_ID (j_process job))]\<rparr>"
        have "run_notification compile submit new_id now n job target w = snd (submit ?p w)"
          using reg True Inr by (simp add: run_notification_def)
        moreover have "Notify_outcome ev (Some (q\<lparr>p_Metadata := p_Metadata ?p\<rparr>)) worker' m = m" for ev q worker' m
          by (simp add: silent)
        ultimately show ?thesis by blast
      qed (use reg True in \<open>simp add: run_notification_def\<close>)
    qed (use reg in \<open>simp add: run_notification_def\<close>)
  qed (simp add: run_notification_def)
qed

section \<open>Which outcomes reach a notification worker\<close>

lemma available_names: "fst ` set (available n job) =
    set NotifyParams - (if p_ExitCode (j_process job) = None then {''exit_code''} else {})"
proof -
  have "fst ` set (available n job) = set (map fst (available n job))" by simp
  also have "\<dots> = set NotifyParams - (if p_ExitCode (j_process job) = None then {''exit_code''} else {})"
    by (cases "p_ExitCode (j_process job)")
      (simp_all add: available_def NotifyParams_def Let_def insert_Diff_if insert_commute)
  finally show ?thesis .
qed

text \<open>
  C33. Which outcomes reach the worker a policy names. For a target the loader accepts, whose params take any
  value, the execution can be built exactly when the outcome has an exit code or the target does not
  insist on one: of a worker that could not start, an attempt without an exit code, a target that requires
  \<^verbatim>\<open>exit_code\<close> is never told, although the loader lists it among the params a notification carries.
\<close>

theorem notification_reaches_its_worker:
  assumes "n_Exec (w_Notify w) = Some x" and "map_of reg (x_Worker x) = Some target" and "notify_target_errors reg w = []"
    and "distinct (map fst (w_Params target))"
    and "\<forall>(name, p) \<in> set (w_Params target). pm_Pattern p = '''' \<and> pm_Enum p = []"
  shows "(\<exists>q. Instantiate compile new_id now target (paramsFor n target job) = Inr q) \<longleftrightarrow>
    p_ExitCode (j_process job) \<noteq> None \<or> \<not> (\<exists>p. (''exit_code'', p) \<in> set (w_Params target) \<and> pm_Required p)"
proof -
  let ?params = "paramsFor n target job"
  have valid: "acceptable compile (map_of ?params) name p \<longleftrightarrow> \<not> (pm_Required p \<and> map_of ?params name = None)"
    if "(name, p) \<in> set (w_Params target)" for name p
    using assms(5) that by (auto simp: acceptable_def Param_validate_def split: option.splits)
  have declared: "set (map fst ?params) \<subseteq> set (map fst (w_Params target))"
  proof
    fix name assume "name \<in> set (map fst ?params)"
    then obtain p where "map_of (w_Params target) name = Some p" by (auto simp: paramsFor_def)
    then show "name \<in> set (map fst (w_Params target))" by (metis map_of_eq_None_iff option.distinct(1) set_map)
  qed
  have given: "map_of ?params name = None \<longleftrightarrow> name \<notin> fst ` set (available n job)"
    if "(name, p) \<in> set (w_Params target)" for name p
  proof -
    have "map_of (w_Params target) name \<noteq> None" using that by (metis fst_conv image_eqI map_of_eq_None_iff)
    then have "map_of (filter (\<lambda>(name, _). map_of (w_Params target) name \<noteq> None) xs) name = map_of xs name" for xs :: "(string \<times> string) list"
      by (induction xs) auto
    then show ?thesis by (simp add: paramsFor_def map_of_eq_None_iff)
  qed
  have required: "name \<in> set NotifyParams" if "(name, p) \<in> set (w_Params target)" "pm_Required p" for name p
    using assms(1-3) that by (force simp: notify_target_errors_def err_if_def split: if_splits)
  have "(\<exists>q. Instantiate compile new_id now target ?params = Inr q) \<longleftrightarrow> (\<exists>rv. Resolve compile target ?params = Inr rv)"
    by (auto simp: Instantiate_def split: sum.splits)
  also have "\<dots> \<longleftrightarrow> (\<forall>(name, p) \<in> set (w_Params target). acceptable compile (map_of ?params) name p)"
    using Resolve_iff [OF assms(4) refl, of compile ?params] declared by blast
  also have "\<dots> \<longleftrightarrow> (\<forall>(name, p) \<in> set (w_Params target). pm_Required p \<longrightarrow> name \<in> fst ` set (available n job))"
  proof (intro ball_cong refl)
    fix d assume d: "d \<in> set (w_Params target)"
    obtain name p where "d = (name, p)" by (cases d)
    with d show "(case d of (name, p) \<Rightarrow> acceptable compile (map_of ?params) name p) =
        (case d of (name, p) \<Rightarrow> pm_Required p \<longrightarrow> name \<in> fst ` set (available n job))"
      using valid [of name p] given [of name p] by simp
  qed
  also have "\<dots> \<longleftrightarrow> p_ExitCode (j_process job) \<noteq> None \<or> \<not> (\<exists>p. (''exit_code'', p) \<in> set (w_Params target) \<and> pm_Required p)"
    (is "?L \<longleftrightarrow> ?R")
  proof
    assume l: ?L
    show ?R
    proof (rule ccontr)
      assume r: "\<not> ?R"
      then obtain p where "(''exit_code'', p) \<in> set (w_Params target)" "pm_Required p" by blast
      with l have "''exit_code'' \<in> fst ` set (available n job)" by fast
      with r show False by (simp add: available_names)
    qed
  next
    assume r: ?R
    show ?L
    proof (intro ballI, clarify)
      fix name p assume m: "(name, p) \<in> set (w_Params target)" "pm_Required p"
      with r have "p_ExitCode (j_process job) \<noteq> None \<or> name \<noteq> ''exit_code''" by blast
      then show "name \<in> fst ` set (available n job)"
        using required [OF m] unfolding available_names by (cases "p_ExitCode (j_process job)") auto
    qed
  qed
  finally show ?thesis .
qed


definition pager :: Worker where
  "pager = zero_Worker\<lparr>w_Name := ''pager'', w_Type := TypeTask,
     w_Params := [(''worker'', \<lparr>pm_Required = True, pm_Pattern = '''', pm_Enum = [], pm_Default = ''''\<rparr>),
       (''exit_code'', \<lparr>pm_Required = True, pm_Pattern = '''', pm_Enum = [], pm_Default = ''''\<rparr>)]\<rparr>"

definition paged :: Worker where
  "paged = zero_Worker\<lparr>w_Name := ''api'', w_Notify := \<lparr>n_On = [NotifyOnFailed], n_Webhook = None, n_Exec = Some \<lparr>x_Worker = ''pager''\<rparr>\<rparr>\<rparr>"

definition not_started :: Job where
  "not_started = \<lparr>j_event = NotifyOnFailed, j_policy = w_Notify paged,
     j_process = zero_Process\<lparr>p_State := StateFailed, p_Reason := ReasonStartError\<rparr>\<rparr>"

theorem notification_reaches_its_worker_witness:
  "\<not> (\<exists>q. Instantiate (\<lambda>_. None) ''p'' 0 pager (paramsFor (NewNotifier zero_Notify ''n'') pager not_started) = Inr q)"
  using notification_reaches_its_worker [of paged "\<lparr>x_Worker = ''pager''\<rparr>" "[(''pager'', pager)]" pager
      "\<lambda>_. None" "''p''" 0 "NewNotifier zero_Notify ''n''" not_started]
  by (simp add: paged_def pager_def not_started_def notify_target_errors_def zero_Worker_def zero_Notify_def
      Notify_IsSet_def NotifyParams_def zero_Process_def err_if_def)

end
