(* ===== verification/Scalar.thy ===== *)
theory Scalar
  imports GoStrings GoTime GoFloat WorkerTypes
begin

text \<open>
  \<^verbatim>\<open>internal/config/scalar.go\<close>: durations with days and weeks, byte sizes and attempt ceilings, as they are
  written in YAML, and the two functions of the standard library under them: \<^verbatim>\<open>strconv.ParseFloat\<close> of a
  decimal number and \<^verbatim>\<open>time.ParseDuration\<close>.

  \<^verbatim>\<open>ParseFloat\<close> also reads infinities, hexadecimal numbers and underscores; \<open>exotic\<close> stands for it on the
  texts that are not decimal numbers.
\<close>

section \<open>strconv.ParseFloat\<close>

text \<open>A sign, digits with at most one point and at least one digit, and an exponent.\<close>

definition unsign :: "string \<Rightarrow> bool \<times> string" where
  "unsign s =
     (case s of
        c # cs \<Rightarrow> if c = CHR ''-'' then (True, cs) else if c = CHR ''+'' then (False, cs) else (False, s)
      | [] \<Rightarrow> (False, s))"

definition exponent_of :: "string \<Rightarrow> int option" where
  "exponent_of s =
     (case s of
        [] \<Rightarrow> Some 0
      | e # rest \<Rightarrow>
          if e \<noteq> CHR ''e'' \<and> e \<noteq> CHR ''E'' then None
          else case unsign rest of (neg, ds) \<Rightarrow>
                 if ds = [] \<or> \<not> list_all is_digit ds then None
                 else Some (if neg then - digits_val 0 ds else digits_val 0 ds))"

definition decimal_value :: "string \<Rightarrow> rat option" where
  "decimal_value s =
     (case unsign s of (neg, body) \<Rightarrow>
        let whole = takeWhile is_digit body;
            rest = dropWhile is_digit body;
            (frac, rest) = (case rest of
               c # cs \<Rightarrow> if c = CHR ''.'' then (takeWhile is_digit cs, dropWhile is_digit cs) else ([], rest)
             | [] \<Rightarrow> ([], []))
        in if whole = [] \<and> frac = [] then None
           else map_option (\<lambda>e.
                  (if neg then - 1 else 1) * of_int (digits_val 0 (whole @ frac)) * 10 powi (e - int (length frac)))
                (exponent_of rest))"

text \<open>A value that rounds past the largest float is a range error.\<close>

definition ParseFloat :: "(string \<Rightarrow> float64 option) \<Rightarrow> string \<Rightarrow> float64 option" where
  "ParseFloat exotic s =
     (case decimal_value s of
        None \<Rightarrow> exotic s
      | Some x \<Rightarrow> (case rnd x of Num y \<Rightarrow> Some (Num y) | _ \<Rightarrow> None))"

section \<open>time.ParseDuration\<close>

text \<open>
  The integer and the fraction of one element are read as unsigned 64-bit numbers that must not pass
  \<open>2\<^sup>6\<^sup>3\<close>; digits of a fraction that would are dropped.
\<close>

fun leadingInt :: "int \<Rightarrow> string \<Rightarrow> (int \<times> string) option" where
  "leadingInt x [] = Some (x, [])"
| "leadingInt x (c # cs) =
     (if \<not> is_digit c then Some (x, c # cs)
      else if x > 2 ^ 63 div 10 then None
      else let x = x * 10 + digit_val c in if x > 2 ^ 63 then None else leadingInt x cs)"

fun leadingFraction :: "int \<Rightarrow> int \<Rightarrow> bool \<Rightarrow> string \<Rightarrow> int \<times> int \<times> string" where
  "leadingFraction x scale overflow [] = (x, scale, [])"
| "leadingFraction x scale overflow (c # cs) =
     (if \<not> is_digit c then (x, scale, c # cs)
      else if overflow then leadingFraction x scale overflow cs
      else if x > (2 ^ 63 - 1) div 10 then leadingFraction x scale True cs
      else let y = x * 10 + digit_val c
           in if y > 2 ^ 63 then leadingFraction x scale True cs
              else leadingFraction y (scale * 10) overflow cs)"

definition unitMap :: "(string \<times> int) list" where
  "unitMap =
     [(''ns'', 1), (''us'', 1000), ([char_of (194::nat), char_of (181::nat), CHR ''s''], 1000),
      ([char_of (206::nat), char_of (188::nat), CHR ''s''], 1000),
      (''ms'', 1000000), (''s'', second), (''m'', minute), (''h'', hour)]"

lemma leadingInt_shorter: "leadingInt x s = Some (y, t) \<Longrightarrow> length t \<le> length s"
  by (induction x s arbitrary: y t rule: leadingInt.induct) (fastforce split: if_splits simp: Let_def)+

lemma leadingFraction_shorter: "leadingFraction x sc ov s = (y, sc', t) \<Longrightarrow> length t \<le> length s"
  by (induction x sc ov s arbitrary: y sc' t rule: leadingFraction.induct)
     (fastforce split: if_splits simp: Let_def)+

text \<open>The optional fraction: its digits as a number, its scale, the rest, and whether it had a digit.\<close>

definition fraction :: "string \<Rightarrow> int \<times> int \<times> string \<times> bool" where
  "fraction s =
     (if s \<noteq> [] \<and> hd s = CHR ''.''
      then case leadingFraction 0 1 False (tl s) of (f, scale, rest) \<Rightarrow> (f, scale, rest, length rest \<noteq> length (tl s))
      else (0, 1, s, False))"

definition scaled :: "int \<Rightarrow> int \<Rightarrow> int \<Rightarrow> int \<Rightarrow> int option" where
  "scaled v f scale unit =
     (if v > 2 ^ 63 div unit then None
      else let v = v * unit;
               v = (if f > 0 then v + to_int64 (f_mul (of_int64 f) (rnd (of_int unit / of_int scale))) else v)
           in if v > 2 ^ 63 then None else Some v)"

text \<open>One element such as \<^verbatim>\<open>1.5h\<close>: its value and the rest of the text.\<close>

abbreviation unit_char :: "char \<Rightarrow> bool" where
  "unit_char c \<equiv> c \<noteq> CHR ''.'' \<and> \<not> is_digit c"

definition element :: "string \<Rightarrow> (int \<times> string) option" where
  "element s =
     (if s = [] \<or> unit_char (hd s) then None
      else case leadingInt 0 s of None \<Rightarrow> None | Some (v, s1) \<Rightarrow>
        (case fraction s1 of (f, scale, s2, post) \<Rightarrow>
          if length s1 = length s \<and> \<not> post \<or> takeWhile unit_char s2 = [] then None
          else case map_of unitMap (takeWhile unit_char s2) of None \<Rightarrow> None | Some unit \<Rightarrow>
            map_option (\<lambda>v. (v, dropWhile unit_char s2)) (scaled v f scale unit)))"

lemma element_shorter:
  assumes "element s = Some (v, t)"
  shows "length t < length s"
proof -
  obtain v1 s1 f scale s2 post where s1: "leadingInt 0 s = Some (v1, s1)" and fr: "fraction s1 = (f, scale, s2, post)"
    and u: "takeWhile unit_char s2 \<noteq> []" and t: "t = dropWhile unit_char s2"
    using assms by (auto simp: element_def split: if_splits option.splits prod.splits)
  have "length s2 \<le> length s1"
    using fr by (auto simp: fraction_def split: if_splits prod.splits dest: leadingFraction_shorter)
  moreover have "length (takeWhile unit_char s2) + length t = length s2"
    unfolding t by (metis length_append takeWhile_dropWhile_id)
  moreover have "0 < length (takeWhile unit_char s2)" using u by simp
  ultimately show ?thesis using leadingInt_shorter [OF s1] by linarith
qed

text \<open>The sum of the elements, in an unsigned 64-bit word.\<close>

function elements :: "int \<Rightarrow> string \<Rightarrow> int option" where
  "elements d s =
     (if s = [] then Some d
      else case element s of
             None \<Rightarrow> None
           | Some (v, t) \<Rightarrow> let d = (d + v) mod 2 ^ 64 in if d > 2 ^ 63 then None else elements d t)"
  by pat_completeness auto
termination by (relation "measure (length \<circ> snd)") (auto dest: element_shorter)

declare elements.simps [simp del]

definition time_ParseDuration :: "string \<Rightarrow> duration option" where
  "time_ParseDuration s =
     (case unsign s of (neg, s) \<Rightarrow>
        if s = ''0'' then Some 0
        else if s = [] then None
        else case elements 0 s of
               None \<Rightarrow> None
             | Some d \<Rightarrow> if neg then Some (- d) else if d > 2 ^ 63 - 1 then None else Some d)"

section \<open>Durations\<close>

text \<open>\<^verbatim>\<open>dayOrWeekPattern\<close>: digits, a fraction, and one of the two units.\<close>

definition day_or_week :: "string \<Rightarrow> (string \<times> char) option" where
  "day_or_week s =
     (if s = [] then None
      else
        let unit = last s; number = butlast s;
            whole = takeWhile is_digit number; rest = dropWhile is_digit number;
            fraction = (case rest of [] \<Rightarrow> True | c # cs \<Rightarrow> c = CHR ''.'' \<and> cs \<noteq> [] \<and> list_all is_digit cs)
        in if unit \<in> {CHR ''d'', CHR ''w''} \<and> whole \<noteq> [] \<and> fraction then Some (number, unit) else None)"

definition ParseDuration :: "(string \<Rightarrow> float64 option) \<Rightarrow> string \<Rightarrow> duration option" where
  "ParseDuration exotic raw =
     (let trimmed = TrimSpace raw
      in case day_or_week trimmed of
           Some (number, unit) \<Rightarrow>
             map_option (\<lambda>value. to_int64 (f_mul value (of_int64 (if unit = CHR ''w'' then 7 * 24 * hour else 24 * hour))))
               (ParseFloat exotic number)
         | None \<Rightarrow> time_ParseDuration trimmed)"

section \<open>Byte sizes\<close>

definition byteUnits :: "(string \<times> int) list" where
  "byteUnits =
     [(''GiB'', 2 ^ 30), (''MiB'', 2 ^ 20), (''KiB'', 2 ^ 10),
      (''GB'', 1000000000), (''MB'', 1000000), (''KB'', 1000), (''B'', 1)]"

definition ByteSize_String :: "int \<Rightarrow> string" where
  "ByteSize_String b =
     (case find (\<lambda>(_, factor). b \<ge> factor \<and> b mod factor = 0) byteUnits of
        Some (suffix, factor) \<Rightarrow> Itoa (b div factor) @ suffix
      | None \<Rightarrow> Itoa b @ ''B'')"

definition ParseByteSize :: "(string \<Rightarrow> float64 option) \<Rightarrow> string \<Rightarrow> int option" where
  "ParseByteSize exotic raw =
     (let trimmed = TrimSpace raw
      in case find (\<lambda>(suffix, _). HasSuffix trimmed suffix) byteUnits of
           Some (suffix, factor) \<Rightarrow>
             map_option (\<lambda>value. to_int64 (f_mul value (of_int64 factor)))
               (ParseFloat exotic (TrimSpace (TrimSuffix trimmed suffix)))
         | None \<Rightarrow> ParseInt64 trimmed)"

section \<open>Attempt ceilings\<close>

definition unlimitedAttempts :: string where "unlimitedAttempts = ''unlimited''"

definition Unlimited :: "int \<Rightarrow> bool" where
  "Unlimited a \<longleftrightarrow> a = AttemptsUnlimited"

definition Attempts_String :: "int \<Rightarrow> string" where
  "Attempts_String a = (if Unlimited a then unlimitedAttempts else Itoa a)"

definition ParseAttempts :: "string \<Rightarrow> int option" where
  "ParseAttempts raw =
     (if TrimSpace raw = unlimitedAttempts then Some AttemptsUnlimited else ParseInt64 (TrimSpace raw))"

section \<open>Reading back what was written\<close>

lemma Itoa_snoc: "\<exists>ds c. Itoa i = ds @ [c] \<and> is_digit c"
proof -
  have "\<exists>ds c. nat_digits n = ds @ [c] \<and> is_digit c" if "0 \<le> n" for n
    using nat_digits_props [OF that] by (cases "nat_digits n" rule: rev_cases) auto
  then show ?thesis
    by (cases "i < 0") (auto simp: Itoa_def, metis append_Cons less_minus_iff minus_zero order_less_imp_le)
qed

lemma unsign_digits: "s \<noteq> [] \<Longrightarrow> list_all is_digit s \<Longrightarrow> unsign s = (False, s)"
  using is_digit_not_sign by (cases s) (auto simp: unsign_def)

lemma unsign_Itoa: "unsign (Itoa i) = (i < 0, nat_digits \<bar>i\<bar>)"
  using nat_digits_props [of i] unsign_digits [of "nat_digits i"]
  by (cases "i < 0") (auto simp: Itoa_def unsign_def)

lemma takeWhile_all: "list_all P s \<Longrightarrow> takeWhile P s = s \<and> dropWhile P s = []"
  by (induction s) auto

lemma decimal_value_Itoa: "decimal_value (Itoa i) = Some (of_int i)"
proof -
  define ds where "ds = nat_digits \<bar>i\<bar>"
  have ds: "ds \<noteq> []" "list_all is_digit ds" "digits_val 0 ds = \<bar>i\<bar>"
    using nat_digits_props [of "\<bar>i\<bar>"] by (simp_all add: ds_def)
  note tw = takeWhile_all [OF ds(2), THEN conjunct1] takeWhile_all [OF ds(2), THEN conjunct2]
  show ?thesis
    by (simp add: decimal_value_def unsign_Itoa ds_def [symmetric] exponent_of_def Let_def ds tw)
qed

lemma of_int64_small:
  assumes "\<bar>n\<bar> \<le> 2 ^ 53"
  shows "of_int64 n = Num (of_int n)"
proof (cases "n < 0")
  case True
  then have "of_int64 (- n) = Num (of_int (- n))" using assms by (intro of_int64_exact) simp_all
  then show ?thesis using rnd_neg [of "of_int (- n)"] by (simp add: of_int64_def)
next
  case False
  then show ?thesis using assms by (intro of_int64_exact) simp_all
qed

lemma ParseFloat_Itoa: "\<bar>n\<bar> \<le> 2 ^ 53 \<Longrightarrow> ParseFloat exotic (Itoa n) = Some (Num (of_int n))"
  using of_int64_small [of n] by (simp add: ParseFloat_def decimal_value_Itoa of_int64_def)

lemma to_int64_small: "\<bar>n\<bar> \<le> 2 ^ 53 \<Longrightarrow> to_int64 (Num (of_int n)) = n"
  by (auto simp: Let_def MinInt64_def MaxInt64_def)

lemma HasSuffix_rev: "HasSuffix s suf \<longleftrightarrow> take (length suf) (rev s) = rev suf"
proof -
  have "length suf \<le> length s" if "drop (length s - length suf) s = suf"
    by (rule ccontr) (use that in simp)
  then show ?thesis by (auto simp: HasSuffix_def take_rev)
qed


lemma last_of_Itoa:
  obtains ds c where "Itoa i = ds @ [c]" and "is_digit c"
  using Itoa_snoc by blast

lemma Itoa_starts: "Itoa i \<noteq> [] \<and> \<not> is_space (hd (Itoa i))"
proof -
  have "nat_digits n \<noteq> [] \<and> \<not> is_space (hd (nat_digits n))" if "0 \<le> n" for n
    using nat_digits_props [OF that] is_digit_not_space by (cases "nat_digits n") auto
  then show ?thesis by (cases "i < 0") (simp_all add: Itoa_def is_space_def)
qed

lemma TrimSpace_Itoa: "suf = [] \<or> \<not> is_space (last suf) \<Longrightarrow> TrimSpace (Itoa i @ suf) = Itoa i @ suf"
proof (rule TrimSpace_no_space)
  assume suf: "suf = [] \<or> \<not> is_space (last suf)"
  obtain ds c where i: "Itoa i = ds @ [c]" "is_digit c" by (rule last_of_Itoa)
  then show "\<not> is_space (last (Itoa i @ suf))" using suf is_digit_not_space by (cases suf) auto
qed (use Itoa_starts [of i] in auto)

lemma digit_ne: "is_digit c \<Longrightarrow> \<not> is_digit d \<Longrightarrow> c \<noteq> d"
  by auto

lemma byteUnits_found:
  assumes "(suffix, factor) \<in> set byteUnits"
  shows "find (\<lambda>(suf, _). HasSuffix (Itoa q @ suffix) suf) byteUnits = Some (suffix, factor)"
proof -
  obtain ds c where i: "Itoa q = ds @ [c]" "is_digit c" by (rule last_of_Itoa)
  have eq: "Itoa q @ suf = ds @ c # suf" for suf by (simp add: i(1))
  have c: "c \<noteq> CHR ''i''" "c \<noteq> CHR ''K''" "c \<noteq> CHR ''M''" "c \<noteq> CHR ''G''"
    using i(2) by (auto simp: is_digit_def)
  have "suffix = ''GiB'' \<and> factor = 2 ^ 30 \<or> suffix = ''MiB'' \<and> factor = 2 ^ 20 \<or> suffix = ''KiB'' \<and> factor = 2 ^ 10 \<or>
      suffix = ''GB'' \<and> factor = 1000000000 \<or> suffix = ''MB'' \<and> factor = 1000000 \<or> suffix = ''KB'' \<and> factor = 1000 \<or>
      suffix = ''B'' \<and> factor = 1"
    using assms by (simp only: byteUnits_def list.set insert_iff empty_iff prod.inject simp_thms)
  then show ?thesis unfolding eq byteUnits_def
    by (elim disjE conjE; hypsubst; simp add: HasSuffix_rev c)
qed

lemma ParseByteSize_units:
  assumes "(suffix, factor) \<in> set byteUnits" and "\<bar>q\<bar> \<le> 2 ^ 53" and "\<bar>q * factor\<bar> \<le> 2 ^ 53"
  shows "ParseByteSize exotic (Itoa q @ suffix) = Some (q * factor)"
proof -
  have trim: "TrimSpace (Itoa q @ suffix) = Itoa q @ suffix"
    by (rule TrimSpace_Itoa) (use assms(1) in \<open>auto simp: byteUnits_def is_space_def\<close>)
  have "TrimSuffix (Itoa q @ suffix) suffix = Itoa q" by (simp add: TrimSuffix_def HasSuffix_def)
  then have inner: "TrimSpace (TrimSuffix (Itoa q @ suffix) suffix) = Itoa q"
    using TrimSpace_Itoa [of "[]" q] by simp
  have "0 \<le> factor" "factor \<le> 2 ^ 53" using assms(1) by (auto simp: byteUnits_def)
  then have f: "of_int64 factor = Num (of_int factor)" by (intro of_int64_exact)
  have prod: "f_mul (Num (of_int q)) (of_int64 factor) = Num (of_int (q * factor))"
    using of_int64_small [OF assms(3)] f by (simp add: of_int64_def)
  show ?thesis
    using byteUnits_found [OF assms(1), of q] ParseFloat_Itoa [OF assms(2), of exotic]
      to_int64_small [OF assms(3)]
    unfolding ParseByteSize_def trim Let_def by (simp add: inner prod del: to_int64.simps)
qed

text \<open>
  A byte size is read back as the number it was written from: for every size of at most \<open>2\<^sup>5\<^sup>3\<close> bytes,
  whichever unit \<^verbatim>\<open>ByteSize.String\<close> picks. The bound is the one below which the \<^verbatim>\<open>float64\<close> that
  \<^verbatim>\<open>ParseByteSize\<close> computes with is exact.
\<close>

theorem byte_size_roundtrip:
  assumes "\<bar>b\<bar> \<le> 2 ^ 53"
  shows "ParseByteSize exotic (ByteSize_String b) = Some b"
proof (cases "find (\<lambda>(_, factor). b \<ge> factor \<and> b mod factor = 0) byteUnits")
  case None
  have "(''B'', 1) \<in> set byteUnits" by (simp add: byteUnits_def)
  then show ?thesis using ParseByteSize_units [of "''B''" 1 b exotic] assms None by (simp add: ByteSize_String_def)
next
  case (Some u)
  obtain suffix factor where u: "u = (suffix, factor)" by (cases u)
  have mem: "(suffix, factor) \<in> set byteUnits" and le: "factor \<le> b" and dvd: "b mod factor = 0"
    using find_SomeD [OF Some] unfolding u by simp_all
  have pos: "0 < factor" using mem by (auto simp: byteUnits_def)
  have b: "b div factor * factor = b" using dvd by auto
  moreover have "\<bar>b div factor\<bar> \<le> 2 ^ 53"
  proof -
    have "b div factor \<le> b" "0 \<le> b div factor"
      using pos le div_le_dividend [of "nat b" "nat factor"]
      by (auto simp: pos_imp_zdiv_nonneg_iff intro: order_trans [OF zdiv_mono2 [of b 1 factor]])
    then show ?thesis using assms by simp
  qed
  ultimately show ?thesis
    using ParseByteSize_units [OF mem, of "b div factor" exotic] Some assms
    by (simp add: ByteSize_String_def u)
qed

theorem byte_size_roundtrip_witness: "ParseByteSize (\<lambda>_. None) (ByteSize_String 33554432) = Some 33554432"
  by (rule byte_size_roundtrip) simp

text \<open>
  A ceiling of attempts is read back as it was written, for every value the code gives one; and the
  plain count \<^verbatim>\<open>-1\<close> reads as the ceiling that has no bound, like the word for it.
\<close>

theorem attempts_roundtrip:
  "(- (2 ^ 63) \<le> a \<and> a < 2 ^ 63 \<longrightarrow> ParseAttempts (Attempts_String a) = Some a) \<and>
   ParseAttempts ''-1'' = Some AttemptsUnlimited"
proof (intro conjI impI)
  assume a: "- (2 ^ 63) \<le> a \<and> a < 2 ^ 63"
  have t: "TrimSpace (Itoa a) = Itoa a" using TrimSpace_Itoa [of "[]" a] by simp
  have "Itoa a \<noteq> unlimitedAttempts"
  proof
    assume "Itoa a = unlimitedAttempts"
    moreover obtain ds c where "Itoa a = ds @ [c]" "is_digit c" by (rule last_of_Itoa)
    ultimately have "last unlimitedAttempts = c" "is_digit c" by (metis last_snoc, simp)
    then show False by (auto simp: unlimitedAttempts_def is_digit_def)
  qed
  moreover have "TrimSpace unlimitedAttempts = unlimitedAttempts" by (simp add: TrimSpace_def unlimitedAttempts_def is_space_def)
  ultimately show "ParseAttempts (Attempts_String a) = Some a"
    using ParseInt64_Itoa [of a] a by (auto simp: ParseAttempts_def Attempts_String_def Unlimited_def t)
next
  show "ParseAttempts ''-1'' = Some AttemptsUnlimited"
    by (simp add: ParseAttempts_def unlimitedAttempts_def TrimSpace_def is_space_def ParseInt64_def is_digit_def
        digit_val_def AttemptsUnlimited_def)
qed

theorem attempts_roundtrip_witness: "ParseAttempts (Attempts_String 3) = Some 3"
  using attempts_roundtrip [of 3] by simp


lemma rnd_dyadic:
  assumes "0 \<le> m" and "m < 2 ^ 53" and "0 \<le> k" and "k \<le> 900"
  shows "rnd (of_int m * 2 powi k) = Num (of_int m * 2 powi k)"
proof (cases "m = 0")
  case False
  define x :: rat where "x = of_int m * 2 powi k"
  have m: "(0::rat) < of_int m" "(of_int m :: rat) < 2 powi 53"
  proof -
    show "(0::rat) < of_int m" using assms(1) False by simp
    have "(of_int m :: rat) < of_int (2 ^ 53)" using assms(2) by linarith
    then show "(of_int m :: rat) < 2 powi 53" by (simp add: power_int_def)
  qed
  have pos: "0 < x" using m by (simp add: x_def)
  have "x < 2 powi 53 * 2 powi k" unfolding x_def using m(2) by (intro mult_strict_right_mono) auto
  then have lt: "x < 2 powi (53 + k)" by (simp only: powi_mult)
  have "2 powi expo x < (2::rat) powi (53 + k)" using expo_bounds [OF pos] lt by linarith
  then have "expo x < 53 + k" by (simp only: powi_less_iff)
  then have u: "ulp_exp x \<le> k" using assms(3) by (simp add: ulp_exp_def)
  have "x / 2 powi ulp_exp x = of_int m * 2 powi (k - ulp_exp x)" by (simp add: x_def powi_div [symmetric])
  also have "\<dots> = of_int (m * 2 ^ nat (k - ulp_exp x))" using powi_nonneg_int [of "k - ulp_exp x"] u by simp
  finally have "round_pos x = x" by (rule round_pos_fix)
  moreover have "x < 2 powi max_exp"
    by (rule less_trans [OF lt]) (use assms(4) in \<open>simp only: powi_less_iff max_exp_def\<close>)
  ultimately show ?thesis using pos by (simp add: rnd_nonneg x_def [symmetric])
qed simp

lemma to_int64_int: "0 \<le> n \<Longrightarrow> n \<le> MaxInt64 \<Longrightarrow> to_int64 (Num (of_int n)) = n"
  by (simp add: Let_def MinInt64_def)

lemma rnd_large:
  assumes "2 powi 63 \<le> x" and "x \<le> 2 powi 200"
  shows "to_int64 (rnd x) = MinInt64"
proof -
  have pos: "0 < x" using assms(1) powi_pos [of 63] by linarith
  have a: "2 powi 63 \<le> round_pos x" using round_pos_mono [of "2 powi 63" x] round_pos_power [of 63] assms(1) by simp
  have "round_pos x \<le> 2 powi 200" using round_pos_mono [OF pos assms(2)] round_pos_power [of 200] by simp
  also have "(2::rat) powi 200 < 2 powi max_exp" by (simp only: powi_less_iff max_exp_def)
  finally have r: "rnd x = Num (round_pos x)" using pos by (simp add: rnd_nonneg)
  have "(of_int (2 ^ 63) :: rat) \<le> round_pos x" using a by (simp add: power_int_def)
  then have "2 ^ 63 \<le> \<lfloor>round_pos x\<rfloor>" by (simp only: le_floor_iff)
  moreover have "0 \<le> round_pos x" using round_pos_nonneg [OF pos] .
  ultimately show ?thesis unfolding r by (simp add: Let_def MaxInt64_def MinInt64_def)
qed

definition days_of :: "char \<Rightarrow> int" where
  "days_of unit = (if unit = CHR ''w'' then 7 else 1)"

lemma day_or_week_Itoa:
  assumes "0 \<le> n" and "unit \<in> {CHR ''d'', CHR ''w''}"
  shows "day_or_week (Itoa n @ [unit]) = Some (Itoa n, unit)"
proof -
  define ds where "ds = Itoa n"
  have ds: "ds \<noteq> []" "list_all is_digit ds"
    using nat_digits_props [OF assms(1)] assms(1) by (simp_all add: ds_def Itoa_def)
  note tw = takeWhile_all [OF ds(2), THEN conjunct1] takeWhile_all [OF ds(2), THEN conjunct2]
  show ?thesis using assms(2) ds(1) unfolding ds_def [symmetric] by (simp add: day_or_week_def Let_def tw)
qed

text \<open>
  A whole number of days or weeks is that many times 24 hours, to the nanosecond, up to the largest
  duration a 64-bit integer holds (106751 days); and past it the value is not refused but becomes the
  smallest duration, a negative one, unlike the same duration written in hours.
\<close>

theorem days_and_weeks:
  assumes "0 \<le> n" and "n \<le> 2 ^ 53" and "unit \<in> {CHR ''d'', CHR ''w''}"
  shows "ParseDuration exotic (Itoa n @ [unit]) =
    Some (if days_of unit * n \<le> 106751 then days_of unit * n * (24 * hour) else MinInt64)"
proof -
  define d where "d = days_of unit * n"
  have trim: "TrimSpace (Itoa n @ [unit]) = Itoa n @ [unit]"
    by (rule TrimSpace_Itoa) (use assms(3) in \<open>auto simp: is_space_def\<close>)
  have unit_float: "of_int64 (if unit = CHR ''w'' then 7 * 24 * hour else 24 * hour) = Num (of_int (days_of unit * (24 * hour)))"
    by (cases "unit = CHR ''w''") (simp_all add: days_of_def hour_def minute_def second_def of_int64_small)
  have "f_mul (Num (of_int n)) (Num (of_int (days_of unit * (24 * hour)))) = rnd (of_int (d * (24 * hour)))"
    by (simp add: d_def mult_ac)
  then have parsed: "ParseDuration exotic (Itoa n @ [unit]) = Some (to_int64 (rnd (of_int (d * (24 * hour)))))"
    using day_or_week_Itoa [OF assms(1,3)] ParseFloat_Itoa [of n exotic] assms(1,2)
    unfolding ParseDuration_def trim Let_def unit_float by (simp add: unit_float)
  have eq: "(of_int (d * (24 * hour)) :: rat) = of_int (d * 1318359375) * 2 powi 16"
    by (simp add: hour_def minute_def second_def power_int_def)
  have d: "0 \<le> d" "d \<le> 7 * 2 ^ 53" using assms(1,2) by (auto simp: d_def days_of_def)
  show ?thesis
  proof (cases "d \<le> 106751")
    case True
    have "rnd (of_int (d * (24 * hour))) = Num (of_int (d * (24 * hour)))"
      unfolding eq by (rule rnd_dyadic) (use d True in simp_all)
    moreover have "0 \<le> d * (24 * hour)" "d * (24 * hour) \<le> MaxInt64"
      using d True by (simp_all add: hour_def minute_def second_def MaxInt64_def)
    ultimately have "to_int64 (rnd (of_int (d * (24 * hour)))) = d * (24 * hour)"
      by (simp only: to_int64_int MinInt64_def)
    then show ?thesis using True unfolding parsed d_def [symmetric] by (simp only: if_True)
  next
    case False
    have "(2::rat) powi 63 \<le> of_int (d * (24 * hour))" and "of_int (d * (24 * hour)) \<le> (2::rat) powi 200"
    proof -
      have "2 ^ 63 \<le> d * (24 * hour)" "d * (24 * hour) \<le> 2 ^ 200"
        using d False by (simp_all add: hour_def minute_def second_def)
      then have "(of_int (2 ^ 63) :: rat) \<le> of_int (d * (24 * hour))" "(of_int (d * (24 * hour)) :: rat) \<le> of_int (2 ^ 200)"
        by (simp_all only: of_int_le_iff)
      then show "(2::rat) powi 63 \<le> of_int (d * (24 * hour))" "of_int (d * (24 * hour)) \<le> (2::rat) powi 200"
        by (simp_all add: power_int_def)
    qed
    then show ?thesis using False unfolding parsed d_def [symmetric] by (simp add: rnd_large)
  qed
qed

theorem days_and_weeks_witness:
  "ParseDuration (\<lambda>_. None) (Itoa 30 @ ''d'') = Some (30 * (24 * hour)) \<and>
   ParseDuration (\<lambda>_. None) (Itoa 110000 @ ''d'') = Some MinInt64"
  using days_and_weeks [of 30 "CHR ''d''" "\<lambda>_. None"] days_and_weeks [of 110000 "CHR ''d''" "\<lambda>_. None"]
  by (simp add: days_of_def)

end
