(* ===== verification/Api.thy ===== *)
theory Api
  imports Scheduler Supervisor Notifier LogRead ScheduleRunner "HOL-Library.AList"
begin

text \<open>
  \<^verbatim>\<open>internal/api\<close>: who may call (\<^verbatim>\<open>auth.go\<close>, \<^verbatim>\<open>routes.go\<close>), how errors are answered (\<^verbatim>\<open>errors.go\<close>), the listing
  filter (\<^verbatim>\<open>filter.go\<close>) and the handlers of \<^verbatim>\<open>handlers.go\<close> with the shapes of \<^verbatim>\<open>dto.go\<close>, as functions on the
  daemon's state.

  The SHA-256 digest, JSON decoding, \<^verbatim>\<open>time.ParseDuration\<close>, \<^verbatim>\<open>time.Parse\<close> and the base64 cursor are
  parameters. An answer is a status with a code or a body; the texts of the messages, the log lines and
  the HTTP transport are left out.
\<close>

section \<open>Errors\<close>

text \<open>An error of a handler: one with its own place in the contract, or one of the domain.\<close>

datatype api_error = ApiError int string | Domain error

definition badRequest :: "string \<Rightarrow> api_error" where
  "badRequest code = ApiError 400 code"

definition sentinelStatus :: "(error \<times> int \<times> string) list" where
  "sentinelStatus =
     [(ErrNotFound, 404, ''not_found''),
      (ErrWorkerNotFound, 404, ''worker_not_found''),
      (ErrWorkerDisabled, 422, ''worker_disabled''),
      (ErrLockHeld, 409, ''lock_held''),
      (ErrIdempotencyReuse, 409, ''idempotency_reuse''),
      (ErrIdempotencyInFlight, 409, ''idempotency_in_flight''),
      (ErrNotRunning, 409, ''not_running''),
      (ErrQueueFull, 429, ''queue_full''),
      (ErrShuttingDown, 503, ''shutting_down''),
      (ErrNoCapacity, 503, ''no_capacity''),
      (ErrUnsupportedType, 400, ''unsupported_type''),
      (ErrRawCommandDenied, 403, ''raw_command_denied'')]"

definition statusFor :: "api_error \<Rightarrow> int \<times> string" where
  "statusFor err =
     (case err of
        ApiError status code \<Rightarrow> (status, code)
      | Domain e \<Rightarrow>
          (case e of
             ParamError _ _ \<Rightarrow> (400, ''param_invalid'')
           | _ \<Rightarrow> (case map_of sentinelStatus e of
                     Some answer \<Rightarrow> answer
                   | None \<Rightarrow> (500, ''internal_error''))))"

section \<open>Who may call\<close>

definition hashPrefix :: string where "hashPrefix = ''sha256:''"

definition HashToken :: "(string \<Rightarrow> string) \<Rightarrow> string \<Rightarrow> string" where
  "HashToken hex_digest token = hashPrefix @ hex_digest token"

text \<open>A constant-time comparison answers 1 for equal texts.\<close>

definition authenticate :: "(string \<Rightarrow> string) \<Rightarrow> Token list \<Rightarrow> string \<Rightarrow> Token option" where
  "authenticate hex_digest tokens header =
     (if \<not> HasPrefix header ''Bearer '' then None
      else
        let presented = HashToken hex_digest (TrimSpace (drop 7 header))
        in find (\<lambda>token. presented = t_Hash token) tokens)"

definition isSafeMethod :: "string \<Rightarrow> bool" where
  "isSafeMethod method \<longleftrightarrow> method \<in> {''GET'', ''HEAD'', ''OPTIONS''}"

definition uiPrefix :: string where "uiPrefix = ''/ui/''"

definition isPublic :: "bool \<Rightarrow> string \<Rightarrow> bool" where
  "isPublic ui url_path \<longleftrightarrow>
     url_path = ''/v1/health'' \<or> (ui \<and> (url_path = ''/'' \<or> url_path = ''/ui'' \<or> HasPrefix url_path uiPrefix))"

definition zero_Token :: Token where
  "zero_Token = \<lparr>t_Name = '''', t_Hash = '''', t_Workers = [], t_ReadOnly = False\<rparr>"

text \<open>The middleware: the error it answers, or the token the handler sees.\<close>

definition admit_request ::
  "(string \<Rightarrow> string) \<Rightarrow> Token list \<Rightarrow> bool \<Rightarrow> string \<Rightarrow> string \<Rightarrow> string \<Rightarrow> api_error + Token" where
  "admit_request hex_digest tokens ui method url_path header =
     (if isPublic ui url_path then Inr zero_Token
      else case authenticate hex_digest tokens header of
             None \<Rightarrow> Inl (ApiError 401 ''unauthorized'')
           | Some token \<Rightarrow>
               if t_ReadOnly token \<and> \<not> isSafeMethod method then Inl (ApiError 403 ''read_only_token'')
               else Inr token)"

section \<open>Reading a query\<close>

text \<open>A query is its pairs in order; \<^verbatim>\<open>Get\<close> reads the first value of a key.\<close>

type_synonym query = "(string \<times> string) list"

definition query_get :: "query \<Rightarrow> string \<Rightarrow> string" where
  "query_get q key = (case map_of q key of None \<Rightarrow> '''' | Some v \<Rightarrow> v)"

definition query_all :: "query \<Rightarrow> string \<Rightarrow> string list" where
  "query_all q key = map snd (filter (\<lambda>(k, _). k = key) q)"

definition isTruthy :: "string \<Rightarrow> bool" where
  "isTruthy raw \<longleftrightarrow> ToLower raw \<in> {''1'', ''true'', ''yes'', ''on''}"

definition defaultListLimit :: int where "defaultListLimit = 50"
definition maxListLimit :: int where "maxListLimit = 500"

definition parseType :: "string \<Rightarrow> Type" where
  "parseType raw = (if raw = ''task'' then TypeTask else if raw = ''service'' then TypeService else TypeOther raw)"

definition parseTime :: "(string \<Rightarrow> gtime option) \<Rightarrow> string \<Rightarrow> api_error + gtime option" where
  "parseTime rfc3339 raw =
     (if raw = '''' then Inr None
      else case rfc3339 raw of None \<Rightarrow> Inl (badRequest ''time_invalid'') | Some t \<Rightarrow> Inr (Some t))"

fun parse_states :: "string list \<Rightarrow> State list \<Rightarrow> api_error + State list" where
  "parse_states [] states = Inr states"
| "parse_states (raw # raws) states =
     (case find (\<lambda>s. State_text s = raw) States of
        None \<Rightarrow> Inl (badRequest ''status_unknown'')
      | Some s \<Rightarrow> parse_states raws (states @ [s]))"

definition parseLimit :: "string \<Rightarrow> api_error + int" where
  "parseLimit raw =
     (if raw = '''' then Inr defaultListLimit
      else case ParseInt64 raw of
             None \<Rightarrow> Inl (badRequest ''limit_invalid'')
           | Some n \<Rightarrow> if n < 1 then Inl (badRequest ''limit_invalid'') else Inr (min n maxListLimit))"

definition parseFilter ::
  "(string \<Rightarrow> gtime option) \<Rightarrow> (string \<Rightarrow> Cursor) \<Rightarrow> query \<Rightarrow> api_error + Filter" where
  "parseFilter rfc3339 cursor_of q =
     (let kind = parseType (query_get q ''type'')
      in if query_get q ''type'' \<noteq> '''' \<and> kind \<notin> {TypeTask, TypeService} then Inl (badRequest ''type_unknown'')
         else case parse_states (query_all q ''status'') [] of
           Inl e \<Rightarrow> Inl e
         | Inr states \<Rightarrow> (case parseTime rfc3339 (query_get q ''created_after'') of
           Inl e \<Rightarrow> Inl e
         | Inr after \<Rightarrow> (case parseTime rfc3339 (query_get q ''created_before'') of
           Inl e \<Rightarrow> Inl e
         | Inr before \<Rightarrow> (case parseLimit (query_get q ''limit'') of
           Inl e \<Rightarrow> Inl e
         | Inr limit \<Rightarrow>
             Inr \<lparr>f_States = states, f_Type = kind, f_Worker = query_get q ''worker'',
               f_Lock = query_get q ''lock'', f_CreatedAfter = after, f_CreatedBefore = before,
               f_Limit = limit, f_Cursor = cursor_of (query_get q ''cursor'')\<rparr>))))"

definition parseStream :: "string \<Rightarrow> api_error + Stream" where
  "parseStream raw =
     (if raw = '''' then Inr StreamBoth
      else case find (\<lambda>s. Stream_text s = raw) [StreamStdout, StreamStderr, StreamBoth] of
             Some s \<Rightarrow> Inr s
           | None \<Rightarrow> Inl (badRequest ''stream_unknown''))"

definition parseAttempt :: "string \<Rightarrow> int \<Rightarrow> api_error + int" where
  "parseAttempt raw current =
     (if raw = '''' then Inr (max current 1)
      else case ParseInt64 raw of
             None \<Rightarrow> Inl (badRequest ''attempt_invalid'')
           | Some n \<Rightarrow>
               if n < 1 then Inl (badRequest ''attempt_invalid'')
               else if n > current then Inl (badRequest ''attempt_unknown'')
               else Inr n)"

definition parsePositive :: "string \<Rightarrow> string \<Rightarrow> api_error + int" where
  "parsePositive raw name =
     (if raw = '''' then Inr 0
      else case ParseInt64 raw of
             None \<Rightarrow> Inl (badRequest (name @ ''_invalid''))
           | Some n \<Rightarrow> if n < 0 then Inl (badRequest (name @ ''_invalid'')) else Inr n)"

section \<open>Building an execution from a request\<close>

record createProcessRequest =
  rq_Node :: string
  rq_Worker :: string
  rq_Type :: Type
  rq_Params :: "(string \<times> string) list"
  rq_Env :: "(string \<times> string) list"
  rq_Lock :: string
  rq_Timeout :: string
  rq_Metadata :: "(string \<times> string) list"
  rq_Command :: string
  rq_Args :: "string list"

text \<open>What the model takes as given: the digest in hexadecimal, the decoder of a body, the regular
  expressions, and the parser of a duration.\<close>

record Env =
  en_digest :: "string \<Rightarrow> string"
  en_decode :: "string \<Rightarrow> createProcessRequest option"
  en_compile :: "string \<Rightarrow> (string \<Rightarrow> bool) option"
  en_duration :: "string \<Rightarrow> duration option"
  en_duration_text :: "duration \<Rightarrow> string"
  en_start :: starter
  en_id :: string
  en_now :: gtime

definition refuseWorkerFields :: "createProcessRequest \<Rightarrow> api_error option" where
  "refuseWorkerFields req =
     (if rq_Worker req \<noteq> '''' then Some (badRequest ''command_and_worker'')
      else if rq_Params req \<noteq> [] then Some (badRequest ''params_denied'')
      else if rq_Timeout req \<noteq> '''' then Some (badRequest ''timeout_denied'')
      else None)"

definition applyRawCommand :: "Config \<Rightarrow> createProcessRequest \<Rightarrow> Process \<Rightarrow> api_error + Process" where
  "applyRawCommand cfg req p =
     (if c_ExecutionMode cfg \<noteq> ExecutionModeRaw then Inl (Domain ErrRawCommandDenied)
      else if rq_Command req \<notin> set (c_AllowedCommands cfg) then Inl (Domain ErrRawCommandDenied)
      else if rq_Type req = TypeService then Inl (Domain ErrRawCommandDenied)
      else case refuseWorkerFields req of
             Some e \<Rightarrow> Inl e
           | None \<Rightarrow>
               Inr (p\<lparr>p_Command := rq_Command req, p_Args := rq_Args req, p_Env := rq_Env req, p_Cwd := ''/'',
                 p_Lock := rq_Lock req, p_MaxAttempts := 1\<rparr>))"

text \<open>\<^verbatim>\<open>maps.Copy\<close>: the entries of the second map replace those of the first.\<close>

definition copy_map :: "(string \<times> string) list \<Rightarrow> (string \<times> string) list \<Rightarrow> (string \<times> string) list" where
  "copy_map dst src = foldl (\<lambda>m (k, v). AList.update k v m) dst src"

definition applyOverrides ::
  "(string \<Rightarrow> duration option) \<Rightarrow> Worker \<Rightarrow> createProcessRequest \<Rightarrow> Process \<Rightarrow> api_error + Process" where
  "applyOverrides duration_of worker req p =
     (if rq_Env req \<noteq> [] \<and> \<not> Allows worker OverridableEnv then Inl (badRequest ''override_denied'')
      else
        let p = (if rq_Env req \<noteq> [] then p\<lparr>p_Env := copy_map (p_Env p) (rq_Env req)\<rparr> else p);
            timed = (if rq_Timeout req = '''' then Inr p
                     else if p_Type p = TypeService then Inl (badRequest ''timeout_denied'')
                     else if \<not> Allows worker OverridableTimeout then Inl (badRequest ''override_denied'')
                     else case duration_of (rq_Timeout req) of
                            None \<Rightarrow> Inl (badRequest ''timeout_invalid'')
                          | Some timeout \<Rightarrow> Inr (p\<lparr>p_Timeout := timeout\<rparr>))
        in case timed of
             Inl e \<Rightarrow> Inl e
           | Inr p \<Rightarrow>
               if rq_Lock req = '''' then Inr p
               else if \<not> Allows worker OverridableLock then Inl (badRequest ''override_denied'')
               else Inr (p\<lparr>p_Lock := rq_Lock req\<rparr>))"

definition buildFromWorker :: "Env \<Rightarrow> Registry \<Rightarrow> Token \<Rightarrow> createProcessRequest \<Rightarrow> api_error + Process" where
  "buildFromWorker env reg token req =
     (if \<not> AllowsWorker token (rq_Worker req) then Inl (ApiError 403 ''worker_forbidden'')
      else case Registry_Get reg (rq_Worker req) of
        Inl e \<Rightarrow> Inl (Domain e)
      | Inr worker \<Rightarrow>
          if \<not> Worker_IsEnabled worker then Inl (Domain ErrWorkerDisabled)
          else if rq_Type req \<noteq> TypeOther '''' \<and> rq_Type req \<noteq> w_Type worker then Inl (Domain ErrUnsupportedType)
          else case Instantiate (en_compile env) (en_id env) (en_now env) worker (rq_Params req) of
                 Inl e \<Rightarrow> Inl (Domain e)
               | Inr p \<Rightarrow> applyOverrides (en_duration env) worker req (p\<lparr>p_Metadata := rq_Metadata req\<rparr>))"

definition buildProcess :: "Env \<Rightarrow> Config \<Rightarrow> Registry \<Rightarrow> Token \<Rightarrow> createProcessRequest \<Rightarrow> api_error + Process" where
  "buildProcess env cfg reg token req =
     (if rq_Type req \<notin> {TypeOther '''', TypeTask, TypeService} then Inl (Domain ErrUnsupportedType)
      else if rq_Command req \<noteq> '''' then
        applyRawCommand cfg req
          (zero_Process\<lparr>p_ID := en_id env, p_Type := TypeTask, p_State := StateCreated,
             p_Metadata := rq_Metadata req, p_CreatedAt := en_now env\<rparr>)
      else if rq_Worker req = '''' then Inl (badRequest ''worker_required'')
      else buildFromWorker env reg token req)"

section \<open>Answers\<close>

text \<open>A refusal is a status with a code; an answer is a status, the replay header and a body.\<close>

datatype 'b answer = Refused int string | Answered int bool 'b

definition writeError :: "api_error \<Rightarrow> 'b answer" where
  "writeError err = (case statusFor err of (status, code) \<Rightarrow> Refused status code)"

record createProcessResponse =
  cr_ID :: string
  cr_Status :: State
  cr_PID :: "int option"
  cr_Attempt :: int

definition newCreateResponse :: "Process \<Rightarrow> createProcessResponse" where
  "newCreateResponse p = \<lparr>cr_ID = p_ID p, cr_Status = p_State p,
     cr_PID = (if p_PID p > 0 then Some (p_PID p) else None), cr_Attempt = p_Attempt p\<rparr>"

definition attemptCeiling :: "int \<Rightarrow> int option" where
  "attemptCeiling maxAttempts = (if maxAttempts = AttemptsUnlimited then None else Some maxAttempts)"

record usageResponse =
  us_CPUSeconds :: float64
  us_RSSBytes :: int
  us_Threads :: int

record processResponse =
  pr_ID :: string
  pr_Worker :: string
  pr_Type :: Type
  pr_Status :: State
  pr_Reason :: Reason
  pr_PID :: "int option"
  pr_Attempt :: int
  pr_MaxAttempts :: "int option"
  pr_Restarts :: int
  pr_Command :: string
  pr_Args :: "string list"
  pr_Cwd :: string
  pr_User :: string
  pr_Lock :: string
  pr_ExitCode :: "int option"
  pr_Signal :: string
  pr_LogTruncated :: bool
  pr_Usage :: "usageResponse option"
  pr_Metadata :: "(string \<times> string) list"
  pr_CreatedAt :: gtime
  pr_QueuedAt :: "gtime option"
  pr_StartedAt :: "gtime option"
  pr_FinishedAt :: "gtime option"
  pr_RetryAt :: "gtime option"
  pr_DurationMS :: "int option"

definition newProcessResponse :: "gtime \<Rightarrow> Process \<Rightarrow> processResponse" where
  "newProcessResponse now p = \<lparr>pr_ID = p_ID p, pr_Worker = p_Worker p, pr_Type = p_Type p, pr_Status = p_State p,
     pr_Reason = p_Reason p, pr_PID = (if p_PID p > 0 then Some (p_PID p) else None), pr_Attempt = p_Attempt p,
     pr_MaxAttempts = attemptCeiling (p_MaxAttempts p), pr_Restarts = p_Restarts p, pr_Command = p_Command p,
     pr_Args = p_Args p, pr_Cwd = p_Cwd p, pr_User = p_User p, pr_Lock = p_Lock p, pr_ExitCode = p_ExitCode p,
     pr_Signal = p_Signal p, pr_LogTruncated = p_LogTruncated p,
     pr_Usage = None, pr_Metadata = p_Metadata p,
     pr_CreatedAt = p_CreatedAt p, pr_QueuedAt = p_QueuedAt p, pr_StartedAt = p_StartedAt p,
     pr_FinishedAt = p_FinishedAt p, pr_RetryAt = p_RetryAt p,
     pr_DurationMS = (if Elapsed p now > 0 then Some (Milliseconds (Elapsed p now)) else None)\<rparr>"

section \<open>Idempotency\<close>

definition hashBody :: "Env \<Rightarrow> string \<Rightarrow> string" where
  "hashBody env body = en_digest env body"

definition replayIdempotent ::
  "Env \<Rightarrow> string \<Rightarrow> string \<Rightarrow> World \<Rightarrow> (api_error + Process option) \<times> World" where
  "replayIdempotent env key body w =
     (if key = '''' then (Inr None, w)
      else case on_db (FindIdempotency key) w of
        (Inl e, w) \<Rightarrow> (if e = ErrNotFound then Inr None else Inl (Domain e), w)
      | (Inr held, w) \<Rightarrow>
          if i_RequestHash held \<noteq> hashBody env body then (Inl (Domain ErrIdempotencyReuse), w)
          else case on_db (GetProcess (i_ProcessID held)) w of
                 (Inl e, w) \<Rightarrow> (if e = ErrNotFound then Inr None else Inl (Domain e), w)
               | (Inr p, w) \<Rightarrow> (Inr (Some p), w))"

definition claimIdempotent ::
  "Env \<Rightarrow> string \<Rightarrow> string \<Rightarrow> string \<Rightarrow> World \<Rightarrow> (api_error + Process option) \<times> World" where
  "claimIdempotent env key body processID w =
     (if key = '''' then (Inr None, w)
      else case on_db (SaveIdempotency key
          \<lparr>i_RequestHash = hashBody env body, i_ProcessID = processID, i_CreatedAt = en_now env\<rparr>) w of
        (None, w) \<Rightarrow> (Inr None, w)
      | (Some e, w) \<Rightarrow>
          if e \<noteq> ErrIdempotencyClaimed then (Inl (Domain e), w)
          else case replayIdempotent env key body w of
                 (Inl e, w) \<Rightarrow> (Inl e, w)
               | (Inr None, w) \<Rightarrow> (Inl (Domain ErrIdempotencyInFlight), w)
               | (Inr (Some p), w) \<Rightarrow> (Inr (Some p), w))"

definition refused :: "error \<Rightarrow> bool" where
  "refused e \<longleftrightarrow> e \<in> {ErrQueueFull, ErrShuttingDown, ErrNoCapacity, ErrLockHeld}"

definition releaseIdempotent :: "string \<Rightarrow> string \<Rightarrow> World \<Rightarrow> World" where
  "releaseIdempotent key processID w =
     (if key = '''' then w else snd (on_db (DeleteIdempotency key processID) w))"

definition audit :: "Env \<Rightarrow> Token \<Rightarrow> string \<Rightarrow> string \<Rightarrow> string \<Rightarrow> World \<Rightarrow> World" where
  "audit env token action processID detail w =
     snd (on_db (AppendAudit \<lparr>a_At = en_now env, a_TokenName = t_Name token, a_Action = action,
       a_ProcessID = processID, a_Detail = detail\<rparr>) w)"

section \<open>Submitting\<close>

text \<open>
  The caller's own copy of an execution after \<^verbatim>\<open>Submit\<close> has succeeded. The scheduler moves it to QUEUED, or
  to STARTING with the next attempt; what the supervisor does from there it does to its clone. Which of
  the two it was is read off the row, which is QUEUED only in the first case.
\<close>

definition submitted :: "World \<Rightarrow> Process \<Rightarrow> Process" where
  "submitted w p =
     (case lookup (s_db w) (p_ID p) of
        Some q \<Rightarrow> if p_State q = StateQueued then p\<lparr>p_State := StateQueued\<rparr>
                  else p\<lparr>p_State := StateStarting, p_Attempt := p_Attempt p + 1, p_PID := 0\<rparr>
      | None \<Rightarrow> p)"

text \<open>
  \<open>forward\<close> answers for the node a request names; \<open>body\<close> is \<open>None\<close> when it is too large or cannot be read.
\<close>

definition createProcess ::
  "(string \<Rightarrow> string \<Rightarrow> 'r) \<Rightarrow> Env \<Rightarrow> Token \<Rightarrow> string \<Rightarrow> string option \<Rightarrow> World
     \<Rightarrow> ('r + createProcessResponse answer) \<times> World" where
  "createProcess forward env token key body w =
     (case body of None \<Rightarrow> (Inr (writeError (badRequest ''invalid_body'')), w) | Some body \<Rightarrow>
      case en_decode env body of None \<Rightarrow> (Inr (writeError (badRequest ''invalid_body'')), w) | Some req \<Rightarrow>
      if rq_Node req \<noteq> '''' then (Inl (forward (rq_Node req) body), w)
      else case replayIdempotent env key body w of
        (Inl e, w) \<Rightarrow> (Inr (writeError e), w)
      | (Inr (Some replayed), w) \<Rightarrow> (Inr (Answered 200 True (newCreateResponse replayed)), w)
      | (Inr None, w) \<Rightarrow>
          case buildProcess env (s_cfg w) (s_registry w) token req of
            Inl e \<Rightarrow> (Inr (writeError e), w)
          | Inr p \<Rightarrow>
              case claimIdempotent env key body (p_ID p) w of
                (Inl e, w) \<Rightarrow> (Inr (writeError e), w)
              | (Inr (Some claimed), w) \<Rightarrow> (Inr (Answered 200 True (newCreateResponse claimed)), w)
              | (Inr None, w) \<Rightarrow>
                  case Submit (en_start env) (en_now env) p w of
                    (Some e, w) \<Rightarrow>
                      (Inr (writeError (Domain e)), if refused e then releaseIdempotent key (p_ID p) w else w)
                  | (None, w) \<Rightarrow>
                      let q = submitted w p
                      in (Inr (Answered (if p_State q = StateQueued then 202 else 201) False (newCreateResponse q)),
                          audit env token ''create'' (p_ID p) (p_Worker p) w))"

section \<open>Reading, stopping and signalling\<close>

text \<open>\<open>sample\<close> is what \<^verbatim>\<open>/proc\<close> says of a process, by its PID and start time.\<close>

definition Supervisor_Usage :: "(int \<Rightarrow> nat \<Rightarrow> usageResponse option) \<Rightarrow> string \<Rightarrow> World \<Rightarrow> usageResponse option" where
  "Supervisor_Usage sample pid w =
     Option.bind (s_running w pid) (\<lambda>exec. sample (p_PID (e_process exec)) (p_PIDStartTime (e_process exec)))"

definition withUsage ::
  "(int \<Rightarrow> nat \<Rightarrow> usageResponse option) \<Rightarrow> World \<Rightarrow> processResponse \<Rightarrow> processResponse" where
  "withUsage sample w r =
     (case Supervisor_Usage sample (pr_ID r) w of None \<Rightarrow> r | Some u \<Rightarrow> r\<lparr>pr_Usage := Some u\<rparr>)"

definition getProcess :: "(int \<Rightarrow> nat \<Rightarrow> usageResponse option) \<Rightarrow> Env \<Rightarrow> string \<Rightarrow> World \<Rightarrow> processResponse answer \<times> World" where
  "getProcess sample env pid w =
     (case on_db (GetProcess pid) w of
        (Inl e, w) \<Rightarrow> (writeError (Domain e), w)
      | (Inr p, w) \<Rightarrow> (Answered 200 False (withUsage sample w (newProcessResponse (en_now env) p)), w))"

text \<open>
  A listing is answered here, unless a node is asked for and \<open>fleet\<close>, what a hub answers for its nodes, is
  there.
\<close>

datatype 'r listed = Here "(processResponse list \<times> Cursor) answer" | Across 'r

definition listProcesses ::
  "(string \<Rightarrow> query \<Rightarrow> 'r) option \<Rightarrow> (string \<Rightarrow> gtime option) \<Rightarrow> (string \<Rightarrow> Cursor) \<Rightarrow>
     (int \<Rightarrow> nat \<Rightarrow> usageResponse option) \<Rightarrow> Env \<Rightarrow> query \<Rightarrow> World \<Rightarrow> 'r listed \<times> World" where
  "listProcesses fleet rfc3339 cursor_of sample env q w =
     (let node = query_get q ''node''
      in if node \<noteq> '''' \<and> fleet \<noteq> None then (Across (the fleet node q), w)
         else case parseFilter rfc3339 cursor_of q of
           Inl e \<Rightarrow> (Here (writeError e), w)
         | Inr f \<Rightarrow>
             (case on_db (ListProcesses f) w of
                (Inl e, w) \<Rightarrow> (Here (writeError (Domain e)), w)
              | (Inr page, w) \<Rightarrow>
                  (Here (Answered 200 False
                     (map (\<lambda>p. withUsage sample w (newProcessResponse (en_now env) p)) (pg_Items page), pg_NextCursor page)), w)))"

definition deleteProcess :: "(Process \<Rightarrow> World \<Rightarrow> World) \<Rightarrow> Env \<Rightarrow> Token \<Rightarrow> query \<Rightarrow> string \<Rightarrow> World \<Rightarrow> unit answer \<times> World" where
  "deleteProcess on_settle env token q pid w =
     (let raw = query_get q ''grace'';
          grace = (if raw = '''' then Some (c_ShutdownGrace (s_cfg w)) else en_duration env raw)
      in case grace of
           None \<Rightarrow> (writeError (badRequest ''grace_invalid''), w)
         | Some grace \<Rightarrow>
             (case Stop on_settle pid grace w of
                (Some e, w) \<Rightarrow> (writeError (Domain e), w)
              | (None, w) \<Rightarrow> (Answered 202 False (), audit env token ''stop'' pid (en_duration_text env grace) w)))"

definition SignalNames :: "string list" where
  "SignalNames = [''SIGCONT'', ''SIGHUP'', ''SIGINT'', ''SIGKILL'', ''SIGQUIT'', ''SIGSTOP'', ''SIGTERM'', ''SIGUSR1'', ''SIGUSR2'']"

text \<open>\<open>decode\<close> reads the signal out of a body; \<open>kill\<close> is what the runner answers.\<close>

definition signalProcess ::
  "(string \<Rightarrow> string option) \<Rightarrow> (int \<Rightarrow> string \<Rightarrow> error option) \<Rightarrow> Env \<Rightarrow> Token \<Rightarrow> string option \<Rightarrow> string \<Rightarrow> World
     \<Rightarrow> unit answer \<times> World" where
  "signalProcess decode kill env token body pid w =
     (case Option.bind body decode of
        None \<Rightarrow> (writeError (badRequest ''invalid_body''), w)
      | Some sig \<Rightarrow>
          if sig \<notin> set SignalNames then (writeError (badRequest ''signal_not_allowed''), w)
          else case Signal kill pid sig w of
                 (Some e, w) \<Rightarrow> (writeError (Domain e), w)
               | (None, w) \<Rightarrow> (Answered 202 False (), audit env token ''signal'' pid sig w))"

record logsResponse =
  lr_Attempt :: int
  lr_Stream :: Stream
  lr_Lines :: "string list"
  lr_Truncated :: bool

text \<open>An error of the log store is none of the sentinels. \<open>None\<close> is the log search that does not end.\<close>

definition processLogs ::
  "LogStore \<Rightarrow> query \<Rightarrow> string \<Rightarrow> World \<Rightarrow> Files \<Rightarrow> (logsResponse answer \<times> World \<times> Files) option" where
  "processLogs logs q pid w fs =
     (case on_db (GetProcess pid) w of
        (Inl e, w) \<Rightarrow> Some (writeError (Domain e), w, fs)
      | (Inr p, w) \<Rightarrow> (case parseStream (query_get q ''stream'') of
        Inl e \<Rightarrow> Some (writeError e, w, fs)
      | Inr stream \<Rightarrow> (case parseAttempt (query_get q ''attempt'') (p_Attempt p) of
        Inl e \<Rightarrow> Some (writeError e, w, fs)
      | Inr attempt \<Rightarrow> (case parsePositive (query_get q ''tail'') ''tail'' of
        Inl e \<Rightarrow> Some (writeError e, w, fs)
      | Inr tail \<Rightarrow>
          map_option (\<lambda>r. case r of
              (Inl _, fs) \<Rightarrow> (writeError (Domain ErrIO), w, fs)
            | (Inr lines, fs) \<Rightarrow>
                (Answered 200 False \<lparr>lr_Attempt = attempt, lr_Stream = stream, lr_Lines = lines, lr_Truncated = p_LogTruncated p\<rparr>,
                 w, fs))
            (Lines logs (p_ID p) attempt stream (p_CreatedAt p) tail fs)))))"

section \<open>The state of the node\<close>

record statsResponse =
  st_SlotsUsed :: int
  st_SlotsMax :: int
  st_Workers :: int
  st_Running :: int
  st_QueueDepth :: int
  st_States :: "State \<Rightarrow> int"
  st_Up :: int
  st_Restarting :: int
  st_Starting :: int
  st_Restarts :: int

definition stats :: "World \<Rightarrow> statsResponse answer \<times> World" where
  "stats w =
     (case on_db CountActiveByTypeAndState w of
        (Inl e, w) \<Rightarrow> (writeError (Domain e), w)
      | (Inr byType, w) \<Rightarrow>
          (case on_db CountRestarts w of
             (Inl e, w) \<Rightarrow> (writeError (Domain e), w)
           | (Inr restarts, w) \<Rightarrow>
               let count = (\<lambda>t s. case byType (t, s) of None \<Rightarrow> 0 | Some n \<Rightarrow> n);
                   types = remdups (map p_Type (d_processes (s_db w)));
                   states = (\<lambda>s. sum_list (map (\<lambda>t. count t s) types));
                   (used, limit) = Usage (s_slots w)
               in (Answered 200 False \<lparr>st_SlotsUsed = used, st_SlotsMax = limit,
                     st_Workers = int (Registry_Len (s_registry w)), st_Running = int (Running w),
                     st_QueueDepth = states StateQueued + count TypeTask StateRetrying, st_States = states,
                     st_Up = count TypeService StateRunning, st_Restarting = count TypeService StateRetrying,
                     st_Starting = count TypeService StateStarting, st_Restarts = restarts\<rparr>, w)))"

record healthResponse =
  he_Status :: string
  he_Store :: string

definition health :: "query \<Rightarrow> World \<Rightarrow> healthResponse answer \<times> World" where
  "health q w =
     (if \<not> isTruthy (query_get q ''deep'') then (Answered 200 False \<lparr>he_Status = ''ok'', he_Store = ''''\<rparr>, w)
      else case on_db Ping w of
             (Some e, w) \<Rightarrow> (Answered 503 False \<lparr>he_Status = ''degraded'', he_Store = ''unavailable''\<rparr>, w)
           | (None, w) \<Rightarrow> (Answered 200 False \<lparr>he_Status = ''ok'', he_Store = ''ok''\<rparr>, w))"

text \<open>\<open>reload\<close> reads \<^verbatim>\<open>workers.d\<close> again; the daemon injects it.\<close>

definition reloadWorkers :: "(World \<Rightarrow> api_error option \<times> World) \<Rightarrow> World \<Rightarrow> nat answer \<times> World" where
  "reloadWorkers reload w =
     (case reload w of
        (Some e, w) \<Rightarrow> (writeError e, w)
      | (None, w) \<Rightarrow> (Answered 200 False (Registry_Len (s_registry w)), w))"

text \<open>The schedule of a worker, as the schedule runner reports it, when there is a runner.\<close>

definition scheduleOf :: "(string \<Rightarrow> Status option) option \<Rightarrow> string \<Rightarrow> Status option" where
  "scheduleOf schedules worker = Option.bind schedules (\<lambda>report. report worker)"

definition describeParam :: "Param \<Rightarrow> string" where
  "describeParam p =
     (if pm_Enum p \<noteq> [] then ''enum'' else if pm_Pattern p \<noteq> '''' then pm_Pattern p else ''string'')"

record workerResponse =
  wr_Name :: string
  wr_Enabled :: bool
  wr_Type :: Type
  wr_Command :: string
  wr_Params :: "(string \<times> string) list"
  wr_MaxProcesses :: int
  wr_Schedule :: "Status option"

definition listWorkers :: "(string \<Rightarrow> Status option) option \<Rightarrow> Token \<Rightarrow> World \<Rightarrow> workerResponse list" where
  "listWorkers schedules token w =
     map (\<lambda>worker. \<lparr>wr_Name = w_Name worker, wr_Enabled = Worker_IsEnabled worker, wr_Type = w_Type worker,
         wr_Command = w_Command worker, wr_Params = map (\<lambda>(name, p). (name, describeParam p)) (w_Params worker),
         wr_MaxProcesses = w_MaxProcesses worker,
         wr_Schedule = scheduleOf schedules (w_Name worker)\<rparr>)
       (filter (\<lambda>worker. AllowsWorker token (w_Name worker)) (Registry_All (s_registry w)))"

end
