(* ===== verification/Fleet.thy ===== *)
theory Fleet
  imports Workers "HOL-Library.Multiset"
begin

text \<open>
  \<^verbatim>\<open>internal/fleet/fleet.go\<close>: what a hub knows of the nodes it reads, how a poll refreshes it, and where a
  proxied call may go. The nodes are fixed when the hub starts; what changes is the token of each, held
  by its position, and the last status of each, by name.

  The network, the token files, JSON decoding and the URL parser are parameters.
\<close>

section \<open>Nodes and their status\<close>

text \<open>A JSON value whose shape the hub does not look into, unless it is a string.\<close>

datatype any = AnyString string | AnyOther string

datatype fleet_err =
    TokenUnreadable
  | TokenEmpty
  | UnknownNode
  | CallFailed
  | AnswerStatus int
  | DecodeFailed

record NodeStatus =
  ns_Name :: string
  ns_URL :: string
  ns_Reachable :: bool
  ns_Error :: "fleet_err option"
  ns_Version :: string
  ns_LastSeen :: "gtime option"
  ns_Stats :: "(string \<times> any) list"

record Node =
  nd_name :: string
  nd_url :: string
  nd_scheme :: string
  nd_host :: string
  nd_tokenFile :: string

record Hub =
  hub_token :: "nat \<Rightarrow> string"
  hub_status :: "string \<Rightarrow> NodeStatus option"

definition zero_NodeStatus :: NodeStatus where
  "zero_NodeStatus = \<lparr>ns_Name = '''', ns_URL = '''', ns_Reachable = False, ns_Error = None, ns_Version = '''',
     ns_LastSeen = None, ns_Stats = []\<rparr>"

text \<open>What is around a hub: files, the network (an answer is a status and a body), JSON.\<close>

record Outside =
  ou_file :: "string \<Rightarrow> string option"
  ou_get :: "string \<Rightarrow> string \<Rightarrow> (int \<times> string) option"
  ou_version :: "string \<Rightarrow> string option"
  ou_stats :: "string \<Rightarrow> (string \<times> any) list option"
  ou_now :: gtime

section \<open>Building\<close>

definition read_token :: "Outside \<Rightarrow> string \<Rightarrow> fleet_err + string" where
  "read_token env file_name =
     (case ou_file env file_name of
        None \<Rightarrow> Inl TokenUnreadable
      | Some raw \<Rightarrow> if TrimSpace raw = [] then Inl TokenEmpty else Inr (TrimSpace raw))"

text \<open>\<open>parse\<close> answers the text of the URL, its scheme and its host.\<close>

fun new_nodes ::
  "(string \<Rightarrow> (string \<times> string \<times> string) option) \<Rightarrow> Outside \<Rightarrow> FleetNode list \<Rightarrow> Node list \<Rightarrow> Hub
     \<Rightarrow> fleet_err + Node list \<times> Hub" where
  "new_nodes parse env [] ns f = Inr (ns, f)"
| "new_nodes parse env (d # ds) ns f =
     (case parse (TrimSuffix (fn_URL d) ''/'') of
        None \<Rightarrow> Inl DecodeFailed
      | Some (url, scheme, host) \<Rightarrow>
          (case read_token env (fn_TokenFile d) of
             Inl e \<Rightarrow> Inl e
           | Inr token \<Rightarrow>
               new_nodes parse env ds
                 (ns @ [\<lparr>nd_name = fn_Name d, nd_url = url, nd_scheme = scheme, nd_host = host,
                         nd_tokenFile = fn_TokenFile d\<rparr>])
                 (f\<lparr>hub_token := (hub_token f)(length ns := token),
                    hub_status := (hub_status f)(fn_Name d \<mapsto>
                      zero_NodeStatus\<lparr>ns_Name := fn_Name d, ns_URL := url\<rparr>)\<rparr>)))"

definition New_fleet ::
  "(string \<Rightarrow> (string \<times> string \<times> string) option) \<Rightarrow> Outside \<Rightarrow> Fleet
     \<Rightarrow> fleet_err + (Node list \<times> Hub) option" where
  "New_fleet parse env cfg =
     (if \<not> Fleet_IsSet cfg then Inr None
      else map_sum id Some
        (new_nodes parse env (fl_Nodes cfg) [] \<lparr>hub_token = (\<lambda>_. []), hub_status = Map.empty\<rparr>))"

text \<open>\<^verbatim>\<open>byName\<close>: of two nodes with one name, the one declared last.\<close>

definition byName :: "Node list \<Rightarrow> string \<Rightarrow> nat option" where
  "byName ns name = find (\<lambda>k. nd_name (ns ! k) = name) (rev [0..<length ns])"

definition Names :: "Node list \<Rightarrow> string list" where
  "Names ns = map nd_name ns"

definition Has :: "Node list \<Rightarrow> string \<Rightarrow> bool" where
  "Has ns name \<longleftrightarrow> byName ns name \<noteq> None"

definition Statuses :: "Node list \<Rightarrow> Hub \<Rightarrow> NodeStatus list" where
  "Statuses ns f =
     map (\<lambda>n. case hub_status f (nd_name n) of None \<Rightarrow> zero_NodeStatus | Some s \<Rightarrow> s) ns"

section \<open>Polling\<close>

definition Get :: "Outside \<Rightarrow> Node list \<Rightarrow> Hub \<Rightarrow> string \<Rightarrow> string \<Rightarrow> string \<Rightarrow> fleet_err + int \<times> string" where
  "Get env ns f name endpoint query =
     (case byName ns name of
        None \<Rightarrow> Inl UnknownNode
      | Some k \<Rightarrow>
          (case ou_get env (nd_url (ns ! k) @ endpoint @ (if query = [] then [] else ''?'' @ query)) (''Bearer '' @ hub_token f k) of
             None \<Rightarrow> Inl CallFailed
           | Some answer \<Rightarrow> Inr answer))"

definition decode_from ::
  "Outside \<Rightarrow> Node list \<Rightarrow> Hub \<Rightarrow> string \<Rightarrow> string \<Rightarrow> (string \<Rightarrow> 'a option) \<Rightarrow> fleet_err + 'a" where
  "decode_from env ns f name endpoint parse =
     (case Get env ns f name endpoint [] of
        Inl e \<Rightarrow> Inl e
      | Inr (status, body) \<Rightarrow>
          if status \<ge> 400 then Inl (AnswerStatus status)
          else case parse body of None \<Rightarrow> Inl DecodeFailed | Some x \<Rightarrow> Inr x)"

text \<open>\<^verbatim>\<open>record\<close>: a poll that did not see the node keeps what the last one that did had learned.\<close>

definition record_status :: "NodeStatus \<Rightarrow> Hub \<Rightarrow> Hub" where
  "record_status s f =
     (let s' = (case hub_status f (ns_Name s) of
          Some previous \<Rightarrow>
            if ns_LastSeen s = None
            then s\<lparr>ns_Version := ns_Version previous, ns_LastSeen := ns_LastSeen previous, ns_Stats := ns_Stats previous\<rparr>
            else s
        | None \<Rightarrow> s)
      in f\<lparr>hub_status := (hub_status f)(ns_Name s \<mapsto> s')\<rparr>)"

definition poll :: "Outside \<Rightarrow> Node list \<Rightarrow> nat \<Rightarrow> Hub \<Rightarrow> Hub" where
  "poll env ns k f =
     (let n = ns ! k; status = zero_NodeStatus\<lparr>ns_Name := nd_name n, ns_URL := nd_url n\<rparr>
      in case read_token env (nd_tokenFile n) of
           Inl e \<Rightarrow> record_status (status\<lparr>ns_Error := Some e\<rparr>) f
         | Inr token \<Rightarrow>
             let f = f\<lparr>hub_token := (hub_token f)(k := token)\<rparr>
             in case decode_from env ns f (nd_name n) ''/v1/health'' (ou_version env) of
                  Inl e \<Rightarrow> record_status (status\<lparr>ns_Error := Some e\<rparr>) f
                | Inr version \<Rightarrow>
                    (case decode_from env ns f (nd_name n) ''/v1/stats'' (ou_stats env) of
                       Inl e \<Rightarrow> record_status (status\<lparr>ns_Error := Some e, ns_Version := version\<rparr>) f
                     | Inr stats \<Rightarrow>
                         record_status (status\<lparr>ns_Reachable := True, ns_Version := version,
                           ns_LastSeen := Some (ou_now env), ns_Stats := stats\<rparr>) f))"

text \<open>\<^verbatim>\<open>pollAll\<close> polls every node at once; \<open>order\<close> is the order in which the polls take effect.\<close>

definition pollAll :: "(nat \<Rightarrow> Outside) \<Rightarrow> Node list \<Rightarrow> nat list \<Rightarrow> Hub \<Rightarrow> Hub" where
  "pollAll env ns order f = fold (\<lambda>k. poll (env k) ns k) order f"

section \<open>Where a proxied call may go\<close>

text \<open>
  \<^verbatim>\<open>path.Clean\<close>: empty and dot segments are dropped, a dot-dot segment takes back the one before it; at the
  root there is nothing to take back, and a relative path keeps the ones that are left over.
\<close>

fun clean_segs :: "bool \<Rightarrow> string list \<Rightarrow> string list \<Rightarrow> string list" where
  "clean_segs rooted out [] = rev out"
| "clean_segs rooted out (s # ss) =
     (if s = [] \<or> s = ''.'' then clean_segs rooted out ss
      else if s \<noteq> ''..'' then clean_segs rooted (s # out) ss
      else if out \<noteq> [] \<and> hd out \<noteq> ''..'' then clean_segs rooted (tl out) ss
      else if rooted then clean_segs rooted out ss
      else clean_segs rooted (''..'' # out) ss)"

fun join_segs :: "string list \<Rightarrow> string" where
  "join_segs [] = []"
| "join_segs [s] = s"
| "join_segs (s # ss) = s @ ''/'' @ join_segs ss"

definition path_Clean :: "string \<Rightarrow> string" where
  "path_Clean p =
     (let rooted = HasPrefix p ''/''; body = join_segs (clean_segs rooted [] (Split p CHR ''/''))
      in if rooted then CHR ''/'' # body else if body = [] then ''.'' else body)"

definition TrimPrefix :: "string \<Rightarrow> string \<Rightarrow> string" where
  "TrimPrefix s pre = (if HasPrefix s pre then drop (length pre) s else s)"

definition TargetPath :: "string \<Rightarrow> string option" where
  "TargetPath tail =
     (let resolved = path_Clean (''/v1/'' @ TrimPrefix tail ''/'')
      in if resolved \<noteq> ''/v1'' \<and> \<not> HasPrefix resolved ''/v1/'' then None else Some resolved)"

text \<open>\<^verbatim>\<open>newProxy\<close>: the call as it leaves the hub. A header is a name and a value.\<close>

record Call =
  ca_method :: string
  ca_scheme :: string
  ca_host :: string
  ca_path :: string
  ca_query :: string
  ca_headers :: "(string \<times> string) list"
  ca_body :: string

definition Rewrite :: "Node list \<Rightarrow> Hub \<Rightarrow> nat \<Rightarrow> Call \<Rightarrow> Call" where
  "Rewrite ns f k c =
     c\<lparr>ca_scheme := nd_scheme (ns ! k), ca_host := nd_host (ns ! k),
       ca_headers := (''Authorization'', ''Bearer '' @ hub_token f k)
         # filter (\<lambda>(name, _). name \<noteq> ''Authorization'') (ca_headers c)\<rparr>"

end
