(* ===== verification/FleetApi.thy ===== *)
theory FleetApi
  imports Api Fleet
begin

text \<open>
  \<^verbatim>\<open>internal/api/fleet.go\<close>: the hub's side of the API. Listing across nodes, calls proxied to a node, and the
  dispatch of a submission, with the writer that rewrites its answer.

  URL and JSON encoding and the parser of a nanosecond time are parameters. Of the reverse proxy of the
  standard library only what the hub configures is modelled; the headers it drops on its own are not.
\<close>

definition allNodes :: string where "allNodes = ''*''"
definition processesPath :: string where "processesPath = ''/v1/processes''"

section \<open>Listing across nodes\<close>

type_synonym item = "(string \<times> any) list"

record fleetListing =
  li_Items :: "item list"
  li_NextCursor :: string

definition listFleetNodes :: "Node list \<Rightarrow> Hub \<Rightarrow> NodeStatus list answer" where
  "listFleetNodes ns f = Answered 200 False (Statuses ns f)"

definition fetchListing ::
  "(string \<Rightarrow> fleetListing option) \<Rightarrow> (query \<Rightarrow> string) \<Rightarrow> Outside \<Rightarrow> Node list \<Rightarrow> Hub \<Rightarrow> string \<Rightarrow> query
     \<Rightarrow> fleet_err + fleetListing" where
  "fetchListing parse encode env ns f name q =
     (case Get env ns f name processesPath (encode q) of
        Inl e \<Rightarrow> Inl e
      | Inr (status, body) \<Rightarrow>
          if status \<ge> 400 then Inl (AnswerStatus status)
          else case parse body of None \<Rightarrow> Inl DecodeFailed | Some listing \<Rightarrow> Inr listing)"

text \<open>\<^verbatim>\<open>gather\<close>, over the answers in the order they arrive: every item is tagged with its origin.\<close>

record gathered =
  ga_items :: "item list"
  ga_cursor :: string
  ga_failures :: "(string \<times> fleet_err) list"

definition tag :: "string \<Rightarrow> item \<Rightarrow> item" where
  "tag name item = AList.update ''node'' (AnyString name) item"

definition gather_one :: "string \<times> (fleet_err + fleetListing) \<Rightarrow> gathered \<Rightarrow> gathered" where
  "gather_one answer g =
     (case answer of (name, r) \<Rightarrow>
        case r of
          Inl e \<Rightarrow> g\<lparr>ga_failures := AList.update name e (ga_failures g)\<rparr>
        | Inr listing \<Rightarrow> g\<lparr>ga_items := ga_items g @ map (tag name) (li_Items listing), ga_cursor := li_NextCursor listing\<rparr>)"

definition gather :: "(string \<Rightarrow> fleet_err + fleetListing) \<Rightarrow> string list \<Rightarrow> gathered" where
  "gather fetch arrival =
     fold gather_one (map (\<lambda>name. (name, fetch name)) arrival) \<lparr>ga_items = [], ga_cursor = '''', ga_failures = []\<rparr>"

text \<open>\<^verbatim>\<open>time.Time{}\<close>, the first instant of the year 1.\<close>

definition zero_time :: gtime where
  "zero_time = - 62135596800 * second"

definition createdAtOf :: "(string \<Rightarrow> gtime option) \<Rightarrow> item \<Rightarrow> gtime" where
  "createdAtOf nano item =
     (case map_of item ''created_at'' of
        Some (AnyString raw) \<Rightarrow> (case nano raw of Some t \<Rightarrow> t | None \<Rightarrow> zero_time)
      | _ \<Rightarrow> zero_time)"

record fleetResponse =
  fr_items :: "item list"
  fr_next_cursor :: "string option"
  fr_unreachable :: "string list option"

text \<open>\<open>arrival\<close> is the order in which the nodes answer.\<close>

definition listFleetProcesses ::
  "(string \<Rightarrow> gtime option) \<Rightarrow> (string \<Rightarrow> Cursor) \<Rightarrow> (string \<Rightarrow> gtime option) \<Rightarrow> (string \<Rightarrow> query \<Rightarrow> fleet_err + fleetListing)
     \<Rightarrow> Node list \<Rightarrow> (string list \<Rightarrow> string list) \<Rightarrow> query \<Rightarrow> string \<Rightarrow> fleetResponse answer" where
  "listFleetProcesses rfc3339 cursor_of nano fetch ns arrival q node =
     (if node \<noteq> allNodes \<and> \<not> Has ns node then writeError (ApiError 404 ''node_unknown'')
      else case parseFilter rfc3339 cursor_of q of
        Inl e \<Rightarrow> writeError e
      | Inr f \<Rightarrow>
          let names = (if node = allNodes then Names ns else [node]);
              merged = gather (\<lambda>name. fetch name (filter (\<lambda>(k, _). k \<noteq> ''node'') q)) (arrival names);
              items = take (nat (f_Limit f)) (sort_key (\<lambda>item. - createdAtOf nano item) (ga_items merged))
          in Answered 200 False \<lparr>fr_items = items,
               fr_next_cursor = (if node \<noteq> allNodes then Some (ga_cursor merged) else None),
               fr_unreachable = (if ga_failures merged \<noteq> [] then Some (sort (map fst (ga_failures merged))) else None)\<rparr>)"

section \<open>Proxied calls\<close>

text \<open>A handler answers by itself or lets the proxy of a node make a call.\<close>

datatype handled = Local int string | Forwarded nat Call

definition refusal :: "api_error \<Rightarrow> handled" where
  "refusal e = (case statusFor e of (status, code) \<Rightarrow> Local status code)"

definition proxyToNode :: "Node list \<Rightarrow> Hub \<Rightarrow> string \<Rightarrow> string \<Rightarrow> Call \<Rightarrow> handled" where
  "proxyToNode ns f name tail c =
     (case byName ns name of
        None \<Rightarrow> refusal (ApiError 404 ''node_unknown'')
      | Some k \<Rightarrow>
          (case TargetPath tail of
             None \<Rightarrow> refusal (badRequest ''path_invalid'')
           | Some target \<Rightarrow> Forwarded k (Rewrite ns f k (c\<lparr>ca_path := target\<rparr>))))"

text \<open>A body is an object of the JSON parser, or not one.\<close>

definition withoutNode :: "(string \<Rightarrow> item option) \<Rightarrow> (item \<Rightarrow> string) \<Rightarrow> string \<Rightarrow> string option" where
  "withoutNode parse encode body = map_option (\<lambda>o'. encode (AList.delete ''node'' o')) (parse body)"

definition dispatchToNode ::
  "(string \<Rightarrow> item option) \<Rightarrow> (item \<Rightarrow> string) \<Rightarrow> Node list \<Rightarrow> Hub \<Rightarrow> string \<Rightarrow> string \<Rightarrow> Call \<Rightarrow> handled" where
  "dispatchToNode parse encode ns f name body c =
     (case byName ns name of
        None \<Rightarrow> refusal (ApiError 404 ''node_unknown'')
      | Some k \<Rightarrow>
          (case withoutNode parse encode body of
             None \<Rightarrow> refusal (badRequest ''body_invalid'')
           | Some forwarded \<Rightarrow>
               Forwarded k (Rewrite ns f k (c\<lparr>ca_path := processesPath, ca_body := forwarded,
                 ca_headers := (''Content-Type'', ''application/json'')
                   # filter (\<lambda>(name, _). name \<noteq> ''Content-Type'') (ca_headers c)\<rparr>))))"

section \<open>The answer of a dispatch\<close>

text \<open>
  What \<^verbatim>\<open>net/http\<close> does with a response: informational statuses go out on their own, the first other status
  is the answer, and a body without one is an answer of 200.
\<close>

record Response =
  re_informational :: "int list"
  re_status :: "int option"
  re_body :: string

definition no_response :: Response where
  "no_response = \<lparr>re_informational = [], re_status = None, re_body = ''''\<rparr>"

definition informational :: "int \<Rightarrow> bool" where
  "informational status \<longleftrightarrow> 100 \<le> status \<and> status \<le> 199 \<and> status \<noteq> 101"

definition rw_WriteHeader :: "int \<Rightarrow> Response \<Rightarrow> Response" where
  "rw_WriteHeader status r =
     (if re_status r \<noteq> None then r
      else if informational status then r\<lparr>re_informational := re_informational r @ [status]\<rparr>
      else r\<lparr>re_status := Some status\<rparr>)"

definition rw_Write :: "string \<Rightarrow> Response \<Rightarrow> Response" where
  "rw_Write p r =
     r\<lparr>re_status := (if re_status r = None then Some 200 else re_status r), re_body := re_body r @ p\<rparr>"

record dispatchWriter =
  dw_written :: bool
  dw_replaced :: bool
  dw_response :: Response

definition new_dispatchWriter :: dispatchWriter where
  "new_dispatchWriter = \<lparr>dw_written = False, dw_replaced = False, dw_response = no_response\<rparr>"

definition dispatch_unknown :: string where
  "dispatch_unknown = ''{\"error\":{\"code\":\"dispatch_unknown\",\"message\":'' @
     ''\"the node did not answer: the execution may or may not have started. '' @
     ''Retry with the same Idempotency-Key rather than assuming it did not.\"}}''"

definition node_unreachable :: string where
  "node_unreachable = ''{\"error\":{\"code\":\"node_unreachable\",\"message\":\"the node did not answer\"}}''"

definition dw_WriteHeader :: "int \<Rightarrow> dispatchWriter \<Rightarrow> dispatchWriter" where
  "dw_WriteHeader status d =
     (if dw_written d then d
      else if status \<noteq> 502
      then d\<lparr>dw_written := True, dw_response := rw_WriteHeader status (dw_response d)\<rparr>
      else d\<lparr>dw_written := True, dw_replaced := True,
             dw_response := rw_Write dispatch_unknown (rw_WriteHeader 504 (dw_response d))\<rparr>)"

definition dw_Write :: "string \<Rightarrow> dispatchWriter \<Rightarrow> dispatchWriter" where
  "dw_Write p d =
     (let d = (if dw_written d then d else dw_WriteHeader 200 d)
      in if dw_replaced d then d else d\<lparr>dw_response := rw_Write p (dw_response d)\<rparr>)"

text \<open>
  What the proxy calls: for a node that answers, its informational statuses, its status and its body piece
  by piece; for one that does not, the error handler of \<^verbatim>\<open>newProxy\<close>, after the informational statuses that
  had come.
\<close>

datatype node_answer = Answer "int list" int "string list" | NoAnswer "int list"

definition dispatched :: "node_answer \<Rightarrow> Response" where
  "dispatched a =
     (case a of
        Answer infos status chunks \<Rightarrow>
          dw_response (fold dw_Write chunks (dw_WriteHeader status (fold dw_WriteHeader infos new_dispatchWriter)))
      | NoAnswer infos \<Rightarrow>
          dw_response (dw_Write node_unreachable (dw_WriteHeader 502 (fold dw_WriteHeader infos new_dispatchWriter))))"

end
