(* ===== verification/Metrics.thy ===== *)
theory Metrics
  imports GoStrings GoFloat "HOL-Library.Word" "HOL-Library.AList" "HOL-Library.Multiset"
    "HOL-Library.List_Lexorder" "HOL-Library.Char_ord"
begin

text \<open>
  \<^verbatim>\<open>internal/metrics\<close>: the counters and histograms the supervisor feeds, and the text they are rendered in.

  A Go map is an association list in the order one iteration over it happens to have; the lemmas show that
  the order does not reach the text. How \<^verbatim>\<open>%g\<close> and \<^verbatim>\<open>FormatFloat\<close> print a float is a parameter.
\<close>

section \<open>The text format\<close>

record Label =
  lb_Name :: string
  lb_Value :: string

record MetricSample =
  sp_Labels :: "Label list"
  sp_Value :: float64

definition newline_char :: char where "newline_char = CHR ''\<newline>''"
definition backslash :: char where "backslash = CHR 0x5C"
definition quote :: char where "quote = CHR 0x22"

definition escape_char :: "char \<Rightarrow> string" where
  "escape_char c =
     (if c = backslash then [backslash, backslash]
      else if c = quote then [backslash, quote]
      else if c = newline_char then [backslash, CHR ''n'']
      else [c])"

definition escapeValue :: "string \<Rightarrow> string" where
  "escapeValue s = concat (map escape_char s)"

definition formatLabel :: "Label \<Rightarrow> string" where
  "formatLabel l = lb_Name l @ CHR ''='' # quote # escapeValue (lb_Value l) @ [quote]"

fun comma_separated :: "string list \<Rightarrow> string" where
  "comma_separated [] = []"
| "comma_separated [s] = s"
| "comma_separated (s # ss) = s @ CHR '','' # comma_separated ss"

definition formatLabels :: "Label list \<Rightarrow> string" where
  "formatLabels labels =
     (if labels = [] then [] else CHR ''{'' # comma_separated (map formatLabel labels) @ ''}'')"

definition header :: "string \<Rightarrow> string \<Rightarrow> string \<Rightarrow> string" where
  "header name help kind =
     ''# HELP '' @ name @ '' '' @ help @ [newline_char] @ ''# TYPE '' @ name @ '' '' @ kind @ [newline_char]"

definition sample :: "(float64 \<Rightarrow> string) \<Rightarrow> string \<Rightarrow> Label list \<Rightarrow> float64 \<Rightarrow> string" where
  "sample g name labels v = name @ formatLabels labels @ '' '' @ g v @ [newline_char]"

definition Gauge :: "(float64 \<Rightarrow> string) \<Rightarrow> string \<Rightarrow> string \<Rightarrow> float64 \<Rightarrow> string" where
  "Gauge g name help v = header name help ''gauge'' @ sample g name [] v"

definition vec :: "(float64 \<Rightarrow> string) \<Rightarrow> string \<Rightarrow> string \<Rightarrow> string \<Rightarrow> MetricSample list \<Rightarrow> string" where
  "vec g name help kind samples =
     header name help kind @
     concat (map (\<lambda>s. sample g name (sp_Labels s) (sp_Value s)) (sort_key (\<lambda>s. formatLabels (sp_Labels s)) samples))"

definition GaugeVec :: "(float64 \<Rightarrow> string) \<Rightarrow> string \<Rightarrow> string \<Rightarrow> MetricSample list \<Rightarrow> string" where
  "GaugeVec g name help samples = vec g name help ''gauge'' samples"

definition CounterVec :: "(float64 \<Rightarrow> string) \<Rightarrow> string \<Rightarrow> string \<Rightarrow> MetricSample list \<Rightarrow> string" where
  "CounterVec g name help samples = vec g name help ''counter'' samples"

section \<open>Histograms\<close>

definition durationBuckets :: "float64 list" where
  "durationBuckets = map rnd [1 / 10, 1 / 2, 1, 5, 10, 30, 60, 300, 900, 3600]"

record histogram =
  hg_counts :: "64 word list"
  hg_sum :: float64
  hg_total :: "64 word"

definition newHistogram :: histogram where
  "newHistogram = \<lparr>hg_counts = replicate (length durationBuckets) 0, hg_sum = Num 0, hg_total = 0\<rparr>"

definition observe :: "float64 \<Rightarrow> histogram \<Rightarrow> histogram" where
  "observe v h = \<lparr>
     hg_counts = map2 (\<lambda>bound n. if f_le v bound then n + 1 else n) durationBuckets (hg_counts h),
     hg_sum = f_add (hg_sum h) v, hg_total = hg_total h + 1\<rparr>"

section \<open>The registry\<close>

record MetricsRegistry =
  mr_attempts :: "(string \<times> 64 word) list"
  mr_outcomes :: "((string \<times> string) \<times> 64 word) list"
  mr_durations :: "(string \<times> histogram) list"
  mr_restarts :: "(string \<times> 64 word) list"

definition NewRegistry :: MetricsRegistry where
  "NewRegistry = \<lparr>mr_attempts = [], mr_outcomes = [], mr_durations = [], mr_restarts = []\<rparr>"

definition increment :: "'k \<Rightarrow> ('k \<times> 64 word) list \<Rightarrow> ('k \<times> 64 word) list" where
  "increment k m = AList.update k ((case map_of m k of None \<Rightarrow> 0 | Some n \<Rightarrow> n) + 1) m"

definition ServiceRestarted :: "string \<Rightarrow> MetricsRegistry \<Rightarrow> MetricsRegistry" where
  "ServiceRestarted worker r = r\<lparr>mr_restarts := increment worker (mr_restarts r)\<rparr>"

definition AttemptStarted :: "string \<Rightarrow> MetricsRegistry \<Rightarrow> MetricsRegistry" where
  "AttemptStarted worker r = r\<lparr>mr_attempts := increment worker (mr_attempts r)\<rparr>"

text \<open>\<^verbatim>\<open>time.Duration.Seconds\<close> of a positive duration: the whole seconds, and the rest over \<open>10\<^sup>9\<close>.\<close>

definition Seconds :: "duration \<Rightarrow> float64" where
  "Seconds d = f_add (of_int64 (d div second)) (rnd (of_int (d mod second) / 1000000000))"

definition AttemptFinished :: "string \<Rightarrow> string \<Rightarrow> duration \<Rightarrow> MetricsRegistry \<Rightarrow> MetricsRegistry" where
  "AttemptFinished worker state elapsed r =
     (let r = r\<lparr>mr_outcomes := increment (worker, state) (mr_outcomes r)\<rparr>
      in if elapsed \<le> 0 then r
         else let h = (case map_of (mr_durations r) worker of None \<Rightarrow> newHistogram | Some h \<Rightarrow> h)
              in r\<lparr>mr_durations := AList.update worker (observe (Seconds elapsed) h) (mr_durations r)\<rparr>)"

definition of_uint64 :: "64 word \<Rightarrow> float64" where
  "of_uint64 n = rnd (of_int (uint n))"

definition worker_label :: "string \<Rightarrow> Label" where
  "worker_label worker = \<lparr>lb_Name = ''worker'', lb_Value = worker\<rparr>"

definition bucket_line ::
  "(float64 \<Rightarrow> string) \<Rightarrow> string \<Rightarrow> Label \<Rightarrow> string \<Rightarrow> 64 word \<Rightarrow> string" where
  "bucket_line g name label le n =
     sample g (name @ ''_bucket'') [label, \<lparr>lb_Name = ''le'', lb_Value = le\<rparr>] (of_uint64 n)"

definition write_histogram ::
  "(float64 \<Rightarrow> string) \<Rightarrow> (float64 \<Rightarrow> string) \<Rightarrow> string \<Rightarrow> string \<Rightarrow> histogram \<Rightarrow> string" where
  "write_histogram g formatBound name worker h =
     concat (map2 (\<lambda>bound n. bucket_line g name (worker_label worker) (formatBound bound) n)
       durationBuckets (hg_counts h)) @
     bucket_line g name (worker_label worker) ''+Inf'' (hg_total h) @
     sample g (name @ ''_sum'') [worker_label worker] (hg_sum h) @
     sample g (name @ ''_count'') [worker_label worker] (of_uint64 (hg_total h))"

definition writeHistograms ::
  "(float64 \<Rightarrow> string) \<Rightarrow> (float64 \<Rightarrow> string) \<Rightarrow> string \<Rightarrow> string \<Rightarrow> (string \<times> histogram) list \<Rightarrow> string" where
  "writeHistograms g formatBound name help byWorker =
     header name help ''histogram'' @
     concat (map (\<lambda>worker. write_histogram g formatBound name worker (the (map_of byWorker worker)))
       (sort (map fst byWorker)))"

definition worker_samples :: "(string \<times> 64 word) list \<Rightarrow> MetricSample list" where
  "worker_samples m = map (\<lambda>(worker, n). \<lparr>sp_Labels = [worker_label worker], sp_Value = of_uint64 n\<rparr>) m"

definition outcome_samples :: "((string \<times> string) \<times> 64 word) list \<Rightarrow> MetricSample list" where
  "outcome_samples m =
     map (\<lambda>((worker, state), n). \<lparr>sp_Labels = [worker_label worker, \<lparr>lb_Name = ''status'', lb_Value = state\<rparr>],
       sp_Value = of_uint64 n\<rparr>) m"

definition Registry_Write :: "(float64 \<Rightarrow> string) \<Rightarrow> (float64 \<Rightarrow> string) \<Rightarrow> MetricsRegistry \<Rightarrow> string" where
  "Registry_Write g formatBound r =
     CounterVec g ''processd_process_attempts_total'' ''attempts started per worker'' (worker_samples (mr_attempts r)) @
     CounterVec g ''processd_processes_total'' ''executions finished per worker and terminal state''
       (outcome_samples (mr_outcomes r)) @
     CounterVec g ''processd_service_restarts_total'' ''service restarts per worker'' (worker_samples (mr_restarts r)) @
     writeHistograms g formatBound ''processd_process_duration_seconds'' ''attempt duration in seconds'' (mr_durations r)"

section \<open>Labels\<close>

text \<open>A reader of a label value: up to the first quote that is not escaped.\<close>

fun read_value :: "string \<Rightarrow> (string \<times> string) option" where
  "read_value [] = None"
| "read_value [c] = (if c = quote then Some ([], []) else None)"
| "read_value (c # d # cs) =
     (if c = quote then Some ([], d # cs)
      else if c = backslash
      then map_option (\<lambda>(v, rest). ((if d = CHR ''n'' then newline_char else d) # v, rest)) (read_value cs)
      else map_option (\<lambda>(v, rest). (c # v, rest)) (read_value (d # cs)))"

lemma special_chars [simp]:
  "backslash \<noteq> quote" "quote \<noteq> backslash" "newline_char \<noteq> backslash" "newline_char \<noteq> quote"
  "CHR ''n'' \<noteq> backslash" "CHR ''n'' \<noteq> quote" "backslash \<noteq> CHR ''n''" "quote \<noteq> CHR ''n''"
  by (simp_all add: backslash_def quote_def newline_char_def)

lemma read_value_quote: "read_value (quote # rest) = Some ([], rest)"
  by (cases rest) simp_all

lemma read_value_plain:
  "c \<noteq> quote \<Longrightarrow> c \<noteq> backslash \<Longrightarrow> s \<noteq> [] \<Longrightarrow> read_value (c # s) = map_option (\<lambda>(v, rest). (c # v, rest)) (read_value s)"
  by (cases s) simp_all

lemma label_value_reads: "read_value (escapeValue v @ quote # rest) = Some (v, rest)"
proof (induction v)
  case Nil
  show ?case by (simp add: escapeValue_def read_value_quote)
next
  case (Cons c v)
  have "escapeValue (c # v) = escape_char c @ escapeValue v" by (simp add: escapeValue_def)
  then show ?case
    using Cons read_value_plain [of c "escapeValue v @ quote # rest"]
    by (auto simp: escape_char_def)
qed

text \<open>So two label sets with the same names are written the same only when they are the same.\<close>

lemma escapeValue_stops: "escapeValue v @ quote # x = escapeValue w @ quote # y \<Longrightarrow> v = w \<and> x = y"
proof -
  assume eq: "escapeValue v @ quote # x = escapeValue w @ quote # y"
  have "Some (v, x) = Some (w, y)" by (rule trans [OF label_value_reads [of v x, symmetric]], subst eq) (rule label_value_reads)
  then show ?thesis by simp
qed

lemma formatLabel_inj: "lb_Name l = lb_Name m \<Longrightarrow> formatLabel l @ x = formatLabel m @ y \<Longrightarrow> lb_Value l = lb_Value m \<and> x = y"
  by (auto simp: formatLabel_def dest: escapeValue_stops)

lemma comma_separated_inj:
  "map lb_Name ls = map lb_Name ms \<Longrightarrow> comma_separated (map formatLabel ls) @ x = comma_separated (map formatLabel ms) @ y \<Longrightarrow>
     map lb_Value ls = map lb_Value ms"
proof (induction ls arbitrary: ms)
  case (Cons l ls)
  then obtain m ns where ms: "ms = m # ns" "lb_Name l = lb_Name m" "map lb_Name ls = map lb_Name ns" by (cases ms) auto
  show ?case
  proof (cases ls)
    case Nil
    then have "ns = []" using ms by simp
    then show ?thesis using Cons.prems(2) Nil ms formatLabel_inj [OF ms(2)] by auto
  next
    case (Cons l' ls')
    then obtain m' ns' where ns: "ns = m' # ns'" using ms by (cases ns) auto
    have "formatLabel l @ CHR '','' # comma_separated (map formatLabel ls) @ x =
        formatLabel m @ CHR '','' # comma_separated (map formatLabel ns) @ y"
      using \<open>comma_separated (map formatLabel (l # ls)) @ x = comma_separated (map formatLabel ms) @ y\<close>
      by (simp add: ms Cons ns)
    from formatLabel_inj [OF ms(2) this] show ?thesis using Cons.IH [OF ms(3)] ms by simp
  qed
qed simp

lemma formatLabels_inj:
  assumes "map lb_Name ls = map lb_Name ms" and "formatLabels ls = formatLabels ms"
  shows "map lb_Value ls = map lb_Value ms"
  using assms comma_separated_inj [OF assms(1), of "''}''" "''}''"]
  by (cases ls; cases ms) (simp_all add: formatLabels_def)

section \<open>The text does not depend on the iteration order\<close>

lemma set_of_map: "distinct (map fst m) \<Longrightarrow> set m = {(k, v). map_of m k = Some v}"
  by (auto simp: map_of_eq_Some_iff)

lemma same_map_mset:
  assumes "distinct (map fst m)" and "distinct (map fst m')" and "map_of m = map_of m'"
  shows "mset m = mset m'"
proof -
  have "set m = set m'" using assms set_of_map by metis
  then show ?thesis using assms(1,2) set_eq_iff_mset_eq_distinct [of m m'] by (simp add: distinct_map)
qed

lemma vec_order:
  assumes "mset samples = mset samples'" and "inj_on (\<lambda>s. formatLabels (sp_Labels s)) (set samples)"
  shows "vec g name help kind samples = vec g name help kind samples'"
proof -
  have "sort_key (\<lambda>s. formatLabels (sp_Labels s)) samples = sort_key (\<lambda>s. formatLabels (sp_Labels s)) samples'"
    by (rule sort_key_inj_key_eq) (use assms in simp_all)
  then show ?thesis by (simp add: vec_def)
qed

lemma worker_samples_order:
  assumes "distinct (map fst m)" and "distinct (map fst m')" and "map_of m = map_of m'"
  shows "CounterVec g name help (worker_samples m) = CounterVec g name help (worker_samples m')"
  unfolding CounterVec_def
proof (rule vec_order)
  show "mset (worker_samples m) = mset (worker_samples m')"
    using same_map_mset [OF assms] by (simp add: worker_samples_def)
  show "inj_on (\<lambda>s. formatLabels (sp_Labels s)) (set (worker_samples m))"
  proof (rule inj_onI)
    fix s t
    assume st: "s \<in> set (worker_samples m)" "t \<in> set (worker_samples m)" "formatLabels (sp_Labels s) = formatLabels (sp_Labels t)"
    then obtain a n b k where s: "(a, n) \<in> set m" "s = \<lparr>sp_Labels = [worker_label a], sp_Value = of_uint64 n\<rparr>"
      "(b, k) \<in> set m" "t = \<lparr>sp_Labels = [worker_label b], sp_Value = of_uint64 k\<rparr>" by (auto simp: worker_samples_def)
    have "a = b" using formatLabels_inj [of "[worker_label a]" "[worker_label b]"] st(3) s by (simp add: worker_label_def)
    then show "s = t" using s assms(1) by (auto dest: eq_key_imp_eq_value)
  qed
qed

lemma outcome_samples_order:
  assumes "distinct (map fst m)" and "distinct (map fst m')" and "map_of m = map_of m'"
  shows "CounterVec g name help (outcome_samples m) = CounterVec g name help (outcome_samples m')"
  unfolding CounterVec_def
proof (rule vec_order)
  show "mset (outcome_samples m) = mset (outcome_samples m')"
    using same_map_mset [OF assms] by (simp add: outcome_samples_def)
  show "inj_on (\<lambda>s. formatLabels (sp_Labels s)) (set (outcome_samples m))"
  proof (rule inj_onI)
    fix s t
    assume st: "s \<in> set (outcome_samples m)" "t \<in> set (outcome_samples m)" "formatLabels (sp_Labels s) = formatLabels (sp_Labels t)"
    let ?labels = "\<lambda>a x. [worker_label a, \<lparr>lb_Name = ''status'', lb_Value = x\<rparr>]"
    from st obtain a x n b y k where s: "((a, x), n) \<in> set m" "s = \<lparr>sp_Labels = ?labels a x, sp_Value = of_uint64 n\<rparr>"
      "((b, y), k) \<in> set m" "t = \<lparr>sp_Labels = ?labels b y, sp_Value = of_uint64 k\<rparr>"
      by (auto simp: outcome_samples_def)
    have "a = b \<and> x = y" using formatLabels_inj [of "?labels a x" "?labels b y"] st(3) s by (simp add: worker_label_def)
    then show "s = t" using s assms(1) by (auto dest: eq_key_imp_eq_value)
  qed
qed

text \<open>Two registries that hold the same numbers.\<close>

definition same_numbers :: "('k \<times> 'v) list \<Rightarrow> ('k \<times> 'v) list \<Rightarrow> bool" where
  "same_numbers m m' \<longleftrightarrow> distinct (map fst m) \<and> distinct (map fst m') \<and> map_of m = map_of m'"

text \<open>
  A scrape depends on the numbers only. Two registries that hold the same counters and histograms are
  written as the same text, byte for byte, in whatever order their maps are iterated: no series moves
  between two scrapes for no reason.
\<close>

theorem scrape_is_stable:
  assumes "same_numbers (mr_attempts r) (mr_attempts r')" and "same_numbers (mr_outcomes r) (mr_outcomes r')"
    and "same_numbers (mr_durations r) (mr_durations r')" and "same_numbers (mr_restarts r) (mr_restarts r')"
  shows "Registry_Write g formatBound r = Registry_Write g formatBound r'"
proof -
  have "mset (map fst (mr_durations r)) = mset (map fst (mr_durations r'))"
    using same_map_mset [of "mr_durations r" "mr_durations r'"] assms(3) by (simp add: same_numbers_def)
  then have "sort (map fst (mr_durations r)) = sort (map fst (mr_durations r'))"
    by (metis mset_sort properties_for_sort sorted_sort)
  note [simp] = this
  have "CounterVec g n x (worker_samples (mr_attempts r)) = CounterVec g n x (worker_samples (mr_attempts r'))"
    "CounterVec g n x (worker_samples (mr_restarts r)) = CounterVec g n x (worker_samples (mr_restarts r'))"
    "CounterVec g n x (outcome_samples (mr_outcomes r)) = CounterVec g n x (outcome_samples (mr_outcomes r'))" for n x
    using worker_samples_order outcome_samples_order assms(1,2,4) unfolding same_numbers_def by metis+
  moreover have "map_of (mr_durations r) = map_of (mr_durations r')" using assms(3) by (simp add: same_numbers_def)
  ultimately show ?thesis by (simp add: Registry_Write_def writeHistograms_def)
qed

theorem scrape_is_stable_witness:
  "Registry_Write (\<lambda>_. ''1'') (\<lambda>_. ''1'') (NewRegistry\<lparr>mr_attempts := [(''a'', 1), (''b'', 1)]\<rparr>) =
   Registry_Write (\<lambda>_. ''1'') (\<lambda>_. ''1'') (NewRegistry\<lparr>mr_attempts := [(''b'', 1), (''a'', 1)]\<rparr>)"
  by (rule scrape_is_stable) (auto simp: same_numbers_def NewRegistry_def fun_eq_iff)

section \<open>Histograms count what they observed\<close>

lemma observe_counts:
  assumes "length (hg_counts h) = length durationBuckets"
  shows "length (hg_counts (fold observe vs h)) = length durationBuckets \<and>
    (\<forall>i < length durationBuckets. hg_counts (fold observe vs h) ! i =
       hg_counts h ! i + of_nat (length (filter (\<lambda>v. f_le v (durationBuckets ! i)) vs))) \<and>
    hg_total (fold observe vs h) = hg_total h + of_nat (length vs)"
  using assms
proof (induction vs arbitrary: h)
  case (Cons v vs)
  have "length (hg_counts (observe v h)) = length durationBuckets" using Cons.prems by (simp add: observe_def)
  from Cons.IH [OF this] show ?case using Cons.prems by (auto simp: observe_def)
qed simp

text \<open>The observations of one worker, out of the attempts that finished.\<close>

definition finished_of :: "string \<Rightarrow> (string \<times> string \<times> duration) list \<Rightarrow> float64 list" where
  "finished_of worker xs = map (\<lambda>(_, _, d). Seconds d) (filter (\<lambda>(w, _, d). w = worker \<and> d > 0) xs)"

lemma finished_durations:
  "map_of (mr_durations (fold (\<lambda>(w, st, d). AttemptFinished w st d) xs NewRegistry)) worker =
     (if finished_of worker xs = [] then None else Some (fold observe (finished_of worker xs) newHistogram))"
proof (induction xs rule: rev_induct)
  case (snoc x xs)
  obtain w st d where x: "x = (w, st, d)" by (cases x)
  show ?case using snoc by (auto simp: x AttemptFinished_def Let_def finished_of_def update_conv' split: option.splits)
qed (simp add: NewRegistry_def finished_of_def)

text \<open>
  The duration histogram of a worker, after any attempts of any workers have finished: bucket \<open>i\<close> holds how
  many of this worker's timed attempts took no longer than its bound and the total how many there were
  (modulo \<open>2\<^sup>6\<^sup>4\<close>); so the buckets are cumulative, and no attempt that never started is timed.
\<close>

theorem histogram_counts:
  assumes "map_of (mr_durations (fold (\<lambda>(w, st, d). AttemptFinished w st d) xs NewRegistry)) worker = Some h"
  shows "length (hg_counts h) = 10 \<and>
    (\<forall>i < 10. hg_counts h ! i = of_nat (length (filter (\<lambda>v. f_le v (durationBuckets ! i)) (finished_of worker xs)))) \<and>
    hg_total h = of_nat (length (filter (\<lambda>(w, _, d). w = worker \<and> d > 0) xs))"
proof -
  have h: "h = fold observe (finished_of worker xs) newHistogram"
    using assms finished_durations [of xs worker] by (auto split: if_splits)
  have n: "length durationBuckets = 10" by (simp add: durationBuckets_def)
  show ?thesis
    using observe_counts [of newHistogram "finished_of worker xs"]
    by (simp add: h n newHistogram_def) (simp add: finished_of_def)
qed

theorem histogram_counts_witness:
  "hg_total (the (map_of (mr_durations (fold (\<lambda>(w, st, d). AttemptFinished w st d)
      [(''a'', ''COMPLETED'', second), (''a'', ''FAILED'', 0), (''b'', ''COMPLETED'', second)] NewRegistry)) ''a'')) = 1"
proof -
  let ?xs = "[(''a'', ''COMPLETED'', second), (''a'', ''FAILED'', 0), (''b'', ''COMPLETED'', second)]"
  obtain h where h: "map_of (mr_durations (fold (\<lambda>(w, st, d). AttemptFinished w st d) ?xs NewRegistry)) ''a'' = Some h"
    using finished_durations [of ?xs "''a''"] by (simp add: finished_of_def second_def)
  show ?thesis using histogram_counts [OF h] unfolding h by (simp add: second_def)
qed

end
