(* ===== verification/ApiProps.thy ===== *)
theory ApiProps
  imports Api SystemProps
begin

text \<open>
  What the API promises: which command a request can run, that an idempotency key never starts work twice,
  and that no request breaks what the daemon keeps about its executions.
\<close>

section \<open>What a handler leaves alone\<close>

text \<open>A statement on the idempotency keys or the audit trail, or one that only reads.\<close>

definition same_rows :: "World \<Rightarrow> World \<Rightarrow> bool" where
  "same_rows w w' \<longleftrightarrow>
     (\<exists>db. w' = w\<lparr>s_db := db\<rparr> \<and> d_processes db = d_processes (s_db w) \<and> d_attempts db = d_attempts (s_db w) \<and>
        d_locks db = d_locks (s_db w))"

named_theorems api_frame

lemma same_rows_refl [simp, intro]: "same_rows w w"
  by (auto simp: same_rows_def intro!: exI [of _ "s_db w"])

lemma same_rows_trans: "same_rows a b \<Longrightarrow> same_rows b c \<Longrightarrow> same_rows a c"
  by (auto simp: same_rows_def)

lemma same_rows_on_db:
  assumes "d_processes (snd (f (s_db w))) = d_processes (s_db w)" and "d_attempts (snd (f (s_db w))) = d_attempts (s_db w)"
    and "d_locks (snd (f (s_db w))) = d_locks (s_db w)"
  shows "same_rows w (snd (on_db f w))"
  using assms by (auto simp: same_rows_def)

lemma keys_and_audit [api_frame]:
  "same_rows w (snd (on_db (FindIdempotency key) w))"
  "same_rows w (snd (on_db (SaveIdempotency key r) w))"
  "same_rows w (snd (on_db (DeleteIdempotency key pid) w))"
  "same_rows w (snd (on_db (AppendAudit entry) w))"
  "same_rows w (snd (on_db (GetProcess pid) w))"
  "same_rows w (snd (on_db (ListProcesses f) w))"
  "same_rows w (snd (on_db Ping w))"
  "same_rows w (snd (on_db CountActiveByTypeAndState w))"
  "same_rows w (snd (on_db CountRestarts w))"
  "same_rows w (snd (on_db CountByState w))"
  "same_rows w (snd (on_db CountPendingByWorker w))"
  by (rule same_rows_on_db;
      simp add: FindIdempotency_def SaveIdempotency_def DeleteIdempotency_def AppendAudit_def GetProcess_def ListProcesses_def
        Ping_def CountActiveByTypeAndState_def CountRestarts_def CountByState_def CountPendingByWorker_def Let_def
        split: option.splits Cursor.splits)+

lemma same_rows_inv: "same_rows w w' \<Longrightarrow> runtime_inv w \<Longrightarrow> runtime_inv w' \<and> moves w w'"
proof -
  assume same: "same_rows w w'" and inv: "runtime_inv w"
  then obtain db where db: "w' = w\<lparr>s_db := db\<rparr>" "d_processes db = d_processes (s_db w)" "d_attempts db = d_attempts (s_db w)"
    "d_locks db = d_locks (s_db w)" by (auto simp: same_rows_def)
  have l: "lookup db = lookup (s_db w)" by (simp add: lookup_def fun_eq_iff db)
  have "attempt_ok w' pid e = attempt_ok w pid e" for pid e by (simp add: attempt_ok_def db(1,4) l)
  moreover have "store_inv db = store_inv (s_db w)" by (simp add: store_inv_def row_ids_def db)
  ultimately have "runtime_inv w'" using inv by (simp add: runtime_inv_def db(1))
  moreover have "moves w w'" by (auto simp: moves_def advances_def db(1) l)
  ultimately show ?thesis by simp
qed

lemma same_rows_world:
  "same_rows w w' \<Longrightarrow> s_running w' = s_running w \<and> s_slots w' = s_slots w \<and> s_registry w' = s_registry w \<and>
     s_cfg w' = s_cfg w \<and> lookup (s_db w') = lookup (s_db w)"
  by (auto simp: same_rows_def lookup_def)

lemma replay_same_rows [api_frame]: "same_rows w (snd (replayIdempotent env key body w))"
proof -
  obtain r db where f: "FindIdempotency key (s_db w) = (r, db)" by fastforce
  let ?w1 = "w\<lparr>s_db := db\<rparr>"
  have a: "same_rows w ?w1" using keys_and_audit(1) [of w key] f by simp
  have g: "same_rows w (?w1\<lparr>s_db := snd (GetProcess pid db)\<rparr>)" for pid
    using same_rows_trans [OF a keys_and_audit(5) [of ?w1 pid]] by simp
  have step: "same_rows w (w\<lparr>s_db := db'\<rparr>)" if "GetProcess pid db = (q, db')" for pid q db' using g [of pid] that by simp
  show ?thesis using a step by (auto simp: replayIdempotent_def on_db_def f split: sum.splits prod.splits)
qed

lemma claim_same_rows [api_frame]: "same_rows w (snd (claimIdempotent env key body pid w))"
proof -
  obtain r w1 where f: "on_db (SaveIdempotency key
      \<lparr>i_RequestHash = hashBody env body, i_ProcessID = pid, i_CreatedAt = en_now env\<rparr>) w = (r, w1)" by fastforce
  have a: "same_rows w w1" using keys_and_audit(2) [of w key] f by (metis snd_conv)
  obtain r2 w2 where g: "replayIdempotent env key body w1 = (r2, w2)" by fastforce
  have b: "same_rows w w2" using same_rows_trans [OF a replay_same_rows [of w1 env key body]] g by simp
  show ?thesis using a b by (auto simp: claimIdempotent_def f g split: option.splits sum.splits)
qed

lemma release_same_rows [api_frame]: "same_rows w (releaseIdempotent key pid w)"
  using keys_and_audit(3) by (auto simp: releaseIdempotent_def)

lemma audit_same_rows [api_frame]: "same_rows w (audit env token action pid detail w)"
  unfolding audit_def by (rule keys_and_audit)

section \<open>Which command a request runs\<close>

lemma applyOverrides_keeps:
  "applyOverrides parse worker req p = Inr q \<Longrightarrow>
     p_ID q = p_ID p \<and> p_Worker q = p_Worker p \<and> p_Type q = p_Type p \<and> p_Command q = p_Command p \<and> p_Args q = p_Args p \<and>
     p_State q = p_State p \<and> p_MaxAttempts q = p_MaxAttempts p \<and> p_User q = p_User p \<and> p_Group q = p_Group p \<and>
     (p_Env q = p_Env p \<or> Allows worker OverridableEnv) \<and> (p_Timeout q = p_Timeout p \<or> Allows worker OverridableTimeout) \<and>
     (p_Lock q = p_Lock p \<or> Allows worker OverridableLock)"
  by (auto simp: applyOverrides_def Let_def split: if_splits option.splits sum.splits)

section \<open>A node for the examples\<close>

text \<open>An idle node in raw mode that allows one command, and a request for it.\<close>

definition echo_request :: createProcessRequest where
  "echo_request = \<lparr>rq_Node = '''', rq_Worker = '''', rq_Type = TypeOther '''', rq_Params = [], rq_Env = [],
     rq_Lock = '''', rq_Timeout = '''', rq_Metadata = [], rq_Command = ''/bin/echo'', rq_Args = [''x'']\<rparr>"

definition echo_env :: "string \<Rightarrow> Env" where
  "echo_env pid = \<lparr>en_digest = (\<lambda>body. body), en_decode = (\<lambda>_. Some echo_request), en_compile = (\<lambda>_. None),
     en_duration = (\<lambda>_. None), en_duration_text = (\<lambda>_. ''''), en_start = supervisor_start quiet, en_id = pid, en_now = 0\<rparr>"

definition raw_config :: Config where
  "raw_config = Default\<lparr>c_ExecutionMode := ExecutionModeRaw, c_AllowedCommands := [''/bin/echo'']\<rparr>"

definition raw_node :: World where
  "raw_node = new_world raw_config [] empty_db"

definition echo_process :: "string \<Rightarrow> Process" where
  "echo_process pid = zero_Process\<lparr>p_ID := pid, p_Type := TypeTask, p_State := StateCreated, p_Command := ''/bin/echo'',
     p_Args := [''x''], p_Cwd := ''/'', p_MaxAttempts := 1\<rparr>"

lemma raw_node_facts [simp]:
  "runtime_inv raw_node" "s_cfg raw_node = raw_config" "s_registry raw_node = []" "s_db raw_node = empty_db"
  by (simp_all add: raw_node_def new_world_inv store_inv_empty) (simp_all add: new_world_def SetRegistry_def)

lemma echo_built: "buildProcess (echo_env pid) raw_config reg token echo_request = Inr (echo_process pid)"
  by (simp add: buildProcess_def applyRawCommand_def refuseWorkerFields_def echo_env_def raw_config_def echo_request_def
      echo_process_def zero_Process_def Default_def)

text \<open>
  C12. Which command a request can run. An accepted submission runs either the command of a worker that is
  loaded and enabled and that the token may use, with the arguments its parameters give, its user and its
  retry ceiling, and with its environment, timeout and lock unless the worker allows them to be replaced;
  or, in raw mode only, a command of the allowlist, once, as a task without a worker. For the latter the
  workers a token is limited to are not looked at.
\<close>

theorem accepted_command:
  assumes "buildProcess env cfg reg token req = Inr p"
  shows "(\<exists>w rv. Registry_Get reg (rq_Worker req) = Inr w \<and> AllowsWorker token (rq_Worker req) \<and> Worker_IsEnabled w \<and>
      Resolve (en_compile env) w (rq_Params req) = Inr rv \<and>
      p_Worker p = w_Name w \<and> p_Type p = w_Type w \<and> p_Command p = w_Command w \<and> p_Args p = rv_Args rv \<and>
      p_User p = w_User w \<and> p_MaxAttempts p = EffectiveAttempts (w_Retry w) \<and>
      (p_Env p = w_Env w \<or> Allows w OverridableEnv) \<and> (p_Timeout p = w_Timeout w \<or> Allows w OverridableTimeout) \<and>
      (p_Lock p = rv_Lock rv \<or> Allows w OverridableLock)) \<or>
    (c_ExecutionMode cfg = ExecutionModeRaw \<and> p_Command p \<in> set (c_AllowedCommands cfg) \<and> p_Worker p = '''' \<and>
      p_Type p = TypeTask \<and> p_MaxAttempts p = 1)"
proof (cases "rq_Command req = ''''")
  case True
  then have b: "buildFromWorker env reg token req = Inr p"
    using assms by (auto simp: buildProcess_def split: if_splits)
  then obtain w q where w: "AllowsWorker token (rq_Worker req)" "Registry_Get reg (rq_Worker req) = Inr w" "Worker_IsEnabled w"
    "Instantiate (en_compile env) (en_id env) (en_now env) w (rq_Params req) = Inr q"
    "applyOverrides (en_duration env) w req (q\<lparr>p_Metadata := rq_Metadata req\<rparr>) = Inr p"
    by (auto simp: buildFromWorker_def split: if_splits sum.splits)
  obtain rv where "Resolve (en_compile env) w (rq_Params req) = Inr rv"
    "q = zero_Process\<lparr>p_ID := en_id env, p_Worker := w_Name w, p_Type := w_Type w, p_State := StateCreated,
       p_Command := w_Command w, p_Args := rv_Args rv, p_Env := w_Env w, p_Cwd := w_Cwd w, p_User := w_User w,
       p_Group := w_Group w, p_Lock := rv_Lock rv, p_Timeout := w_Timeout w,
       p_MaxAttempts := EffectiveAttempts (w_Retry w), p_CreatedAt := en_now env\<rparr>"
    using w(4) by (auto simp: Instantiate_def split: sum.splits)
  with w applyOverrides_keeps [OF w(5)] show ?thesis by simp
next
  case False
  then have "applyRawCommand cfg req (zero_Process\<lparr>p_ID := en_id env, p_Type := TypeTask, p_State := StateCreated,
      p_Metadata := rq_Metadata req, p_CreatedAt := en_now env\<rparr>) = Inr p"
    using assms by (auto simp: buildProcess_def split: if_splits)
  then show ?thesis by (auto simp: applyRawCommand_def zero_Process_def split: if_splits option.splits)
qed

theorem accepted_command_witness:
  "buildProcess (echo_env ''a'') raw_config [] zero_Token echo_request = Inr (echo_process ''a'') \<and>
     p_Command (echo_process ''a'') \<in> set (c_AllowedCommands raw_config)"
  using accepted_command [OF echo_built [of "''a''" "[]" zero_Token]] echo_built
  by (simp add: Registry_Get_def)

section \<open>Idempotency keys through a submission\<close>

text \<open>Admitting an execution leaves the keys alone.\<close>

lemma keys_store [simp]:
  "d_idempotency (snd (CreateProcess p db)) = d_idempotency db"
  "d_idempotency (snd (UpdateProcess p db)) = d_idempotency db"
  "d_idempotency (snd (AcquireLock k pid db)) = d_idempotency db"
  "d_idempotency (snd (ReleaseLock k pid db)) = d_idempotency db"
  "d_idempotency (snd (PendingCount db)) = d_idempotency db"
  by (simp_all add: CreateProcess_def UpdateProcess_def upsertAttempt_def AcquireLock_def ReleaseLock_def PendingCount_def Let_def
      split: option.splits)

lemma keys_store' [dest]:
  "CreateProcess p db = (r, db') \<Longrightarrow> d_idempotency db' = d_idempotency db"
  "UpdateProcess p db = (r, db') \<Longrightarrow> d_idempotency db' = d_idempotency db"
  "AcquireLock k pid db = (r, db') \<Longrightarrow> d_idempotency db' = d_idempotency db"
  by (metis keys_store snd_conv)+

definition keys_of :: "World \<Rightarrow> string \<rightharpoonup> Idempotency" where
  "keys_of w = d_idempotency (s_db w)"

lemma keys_of_update [simp]:
  "keys_of (w\<lparr>s_db := db\<rparr>) = d_idempotency db" "keys_of (w\<lparr>s_slots := s\<rparr>) = keys_of w"
  "keys_of (w\<lparr>s_running := m\<rparr>) = keys_of w" "keys_of (w\<lparr>s_notified := n\<rparr>) = keys_of w"
  "keys_of (w\<lparr>s_stopped := x\<rparr>) = keys_of w" "keys_of (OnExecutionSettled p w) = keys_of w"
  "keys_of (sched_releaseLock p w) = keys_of w" "keys_of (releaseAll p w) = keys_of w"
  by (simp_all add: keys_of_def OnExecutionSettled_def Notify_wake_def sched_releaseLock_def releaseAll_def)

lemma keys_on_ok:
  assumes "keys_of (snd r) = keys_of w" and "\<And>w'. keys_of w' = keys_of w \<Longrightarrow> keys_of (snd (k w')) = keys_of w"
  shows "keys_of (snd (on_ok r k)) = keys_of w"
  using assms by (cases r; cases "fst r") auto

lemma keys_on_db:
  "keys_of (snd (on_db (CreateProcess p) w)) = keys_of w"
  "keys_of (snd (on_db (UpdateProcess p) w)) = keys_of w"
  "keys_of (snd (on_db (AcquireLock k pid) w)) = keys_of w"
  by (simp_all add: keys_of_def)

lemma keys_startFailed: "keys_of (snd (startFailed OnExecutionSettled i p worker w)) = keys_of w"
proof (cases "TransitionTo (p\<lparr>p_FinishedAt := Some (in_FinishedAt i)\<rparr>) StateCrashed ReasonStartError")
  case (Inr q)
  obtain event p' db where s: "settle i q worker RetryOnStartError ReasonStartError (s_db w) = (event, p', db)"
    by (cases "settle i q worker RetryOnStartError ReasonStartError (s_db w)") auto
  then have "keys_of (w\<lparr>s_db := db\<rparr>) = keys_of w" using moved_settle [OF s] by (auto simp: moved_def keys_of_def)
  then show ?thesis
    using Inr s by (simp add: startFailed_def) (rule keys_on_ok; simp add: keys_on_db del: on_db_simps)
qed (simp add: startFailed_def)

lemma keys_abandonStart: "keys_of (snd (abandonStart OnExecutionSettled i p worker w)) = keys_of w"
  by (simp add: abandonStart_def Let_def keys_startFailed)

lemma keys_supervisor_start: "keys_of (snd (supervisor_start i p w)) = keys_of w"
proof -
  have "keys_of (snd (case on_db (UpdateProcess q) w of (Some _, w) \<Rightarrow> abandonStart OnExecutionSettled i q worker w
      | (None, w) \<Rightarrow> (None, w\<lparr>s_running := m w\<rparr>))) = keys_of w" for q worker m
    using keys_on_db(2) [of q w] by (cases "on_db (UpdateProcess q) w"; cases "fst (on_db (UpdateProcess q) w)")
      (auto simp: keys_abandonStart split: option.splits)
  then show ?thesis
    by (auto simp: supervisor_start_def Start_def Let_def keys_startFailed keys_abandonStart
        split: option.splits sum.splits prod.splits)
qed

lemma keys_case_db:
  assumes "keys_of (snd (on_db f w)) = keys_of w"
    and "\<And>e w'. keys_of w' = keys_of w \<Longrightarrow> keys_of (snd (g e w')) = keys_of w"
    and "\<And>w'. keys_of w' = keys_of w \<Longrightarrow> keys_of (snd (h w')) = keys_of w"
  shows "keys_of (snd (case on_db f w of (Some e, w) \<Rightarrow> g e w | (None, w) \<Rightarrow> h w)) = keys_of w"
  using assms by (cases "on_db f w"; cases "fst (on_db f w)") auto

lemma keys_launch: "keys_of (snd (launch (supervisor_start i) p w)) = keys_of w"
proof -
  have start: "keys_of (snd (case supervisor_start i q w' of (Some e, w) \<Rightarrow> (Some e, releaseAll q w) | (None, w) \<Rightarrow> (None, w))) = keys_of w'"
    for q w'
    using keys_supervisor_start [of i q w'] by (cases "supervisor_start i q w'"; cases "fst (supervisor_start i q w')") auto
  show ?thesis
    unfolding launch_def Let_def
    by (cases "TransitionTo ((ClearAttempt (p\<lparr>p_Attempt := p_Attempt p + 1\<rparr>))\<lparr>p_RetryAt := None\<rparr>) StateStarting ReasonNone")
      (simp, simp, rule keys_case_db [OF keys_on_db(2)], simp_all add: start)
qed

lemma keys_refuse: "keys_of (snd (refuse reason cause p w)) = keys_of w"
  unfolding refuse_def
  by (cases "TransitionTo p StateCanceled reason") (simp, simp, rule keys_on_ok [OF keys_on_db(2)], simp)

lemma keys_park: "keys_of (snd (park now p refusal w)) = keys_of w"
proof -
  have "keys_of (snd (enqueue now p w)) = keys_of w"
    unfolding enqueue_def by (cases "TransitionTo p StateQueued ReasonNone") (simp, simp only: sum.case keys_on_db)
  then show ?thesis by (simp add: park_def reject_def keys_refuse)
qed

lemma keys_admit_claimed: "keys_of (snd (admit_claimed (supervisor_start i) now c p w)) = keys_of w"
proof -
  obtain got slots where t: "TryAcquire (s_slots w) (p_ID p) (p_Worker p) = (got, slots)" by fastforce
  let ?w = "w\<lparr>s_slots := slots\<rparr>"
  have "keys_of (snd (case on_db (AcquireLock (p_Lock p) (p_ID p)) ?w of
      (Some e, w) \<Rightarrow> (let w = w\<lparr>s_slots := Release (s_slots w) (p_ID p)\<rparr>
        in if e = ErrLockHeld then park now p ErrNoCapacity w else (Some e, w))
    | (None, w) \<Rightarrow> launch (supervisor_start i) p w)) = keys_of ?w"
    by (rule keys_case_db [OF keys_on_db(3)]) (simp_all add: Let_def keys_park keys_launch)
  then show ?thesis by (simp add: admit_claimed_def t keys_park Let_def)
qed

lemma keys_admit: "keys_of (snd (admit (supervisor_start i) now p w)) = keys_of w"
proof -
  have "keys_of (snd (case on_db (AcquireLock (p_Lock p) (p_ID p)) w of
      (Some e, w) \<Rightarrow> if e = ErrLockHeld then rejectLocked e p w else (Some e, w)
    | (None, w) \<Rightarrow> admit_claimed (supervisor_start i) now True p w)) = keys_of w"
    by (rule keys_case_db [OF keys_on_db(3)]) (simp_all add: rejectLocked_def keys_refuse keys_admit_claimed)
  then show ?thesis by (simp add: admit_def keys_admit_claimed)
qed

text \<open>What \<^verbatim>\<open>Submit\<close> checks before it records anything, and the rest of it.\<close>

lemma Submit_stages:
  obtains (refused) e w1 where "Submit start now p w = (Some e, w1)" "same_rows w w1" "keys_of w1 = keys_of w"
  | (recorded) w1 where "Submit start now p w = on_ok (on_db (CreateProcess p) w1) (admit start now p)"
      "same_rows w w1" "keys_of w1 = keys_of w"
proof -
  obtain r db where d: "PendingCount (s_db w) = (r, db)" by fastforce
  have pc: "same_rows w (snd (on_db PendingCount w))"
    by (rule same_rows_on_db) (simp_all add: PendingCount_def)
  have a: "same_rows w (w\<lparr>s_db := db\<rparr>)" using pc d by simp
  have k: "keys_of (w\<lparr>s_db := db\<rparr>) = keys_of w" using keys_store(5) [of "s_db w"] d by (simp add: keys_of_def)
  have q: "Scheduler.queueDepth w = (r, w\<lparr>s_db := db\<rparr>)" by (simp add: Scheduler.queueDepth_def on_db_def d)
  show ?thesis
  proof (cases "s_draining w")
    case True
    then show ?thesis using refused [of ErrShuttingDown w] by (simp add: Submit_def)
  next
    case False
    show ?thesis
    proof (cases "p_Type p = TypeService")
      case True
      then show ?thesis using recorded [of w] False by (simp add: Submit_def)
    next
      case task: False
      show ?thesis
      proof (cases r)
        case (Inl e)
        then show ?thesis using refused [of e "w\<lparr>s_db := db\<rparr>"] False task q a k by (simp add: Submit_def)
      next
        case (Inr depth)
        then show ?thesis
          using refused [of ErrQueueFull "w\<lparr>s_db := db\<rparr>"] recorded [of "w\<lparr>s_db := db\<rparr>"] False task q a k
          by (cases "q_MaxDepth (c_Queue (s_cfg w)) \<le> depth") (simp_all add: Submit_def)
      qed
    qed
  qed
qed

lemma keys_Submit: "keys_of (snd (Submit (supervisor_start i) now p w)) = keys_of w"
proof (cases rule: Submit_stages [of "supervisor_start i" now p w])
  case (recorded w1)
  have "keys_of (snd (on_ok (on_db (CreateProcess p) w1) (admit (supervisor_start i) now p))) = keys_of w1"
    by (rule keys_on_ok [OF keys_on_db(1)]) (simp add: keys_admit)
  then show ?thesis using recorded by simp
qed simp

lemma Submit_row:
  assumes inv: "runtime_inv w" and sub: "Submit (supervisor_start i) now p w = (None, w')"
  shows "lookup (s_db w') (p_ID p) \<noteq> None"
proof (cases rule: Submit_stages [of "supervisor_start i" now p w])
  case (recorded w1)
  have inv1: "runtime_inv w1" using same_rows_inv [OF recorded(2) inv] by simp
  obtain r db where c: "CreateProcess p (s_db w1) = (r, db)" by fastforce
  let ?w2 = "w1\<lparr>s_db := db\<rparr>"
  have r: "r = None" using sub recorded(1) c by (cases r) (auto simp: on_db_def)
  then have adm: "admit (supervisor_start i) now p ?w2 = (None, w')" using sub recorded(1) c by (simp add: on_db_def)
  have row: "lookup (s_db ?w2) (p_ID p) = Some p" using lookup_CreateProcess c r by simp
  have "lookup (s_db w1) (p_ID p) = None" using CreateProcess_ok c r by (simp add: lookup_None_iff)
  note absent = this
  have "s_running w1 (p_ID p) = None"
  proof (cases "s_running w1 (p_ID p)")
    case (Some e)
    then have "attempt_ok w1 (p_ID p) e" using inv1 by (simp add: runtime_inv_def)
    then show ?thesis using absent by (simp add: attempt_ok_def)
  qed
  then have "ready p ?w2" using row by (simp add: ready_def)
  from sup.admit_acts [OF this, of i now] have "act (p_ID p) ?w2 w'" using adm by simp
  then have "advances (s_db ?w2) (s_db w')" by (simp add: act_def)
  then show ?thesis using row by (auto simp: advances_def)
qed (use sub in simp)

section \<open>A key never starts work twice\<close>

lemma buildProcess_ID:
  assumes "buildProcess env cfg reg token req = Inr p"
  shows "p_ID p = en_id env"
proof (cases "rq_Command req = ''''")
  case True
  then have "buildFromWorker env reg token req = Inr p" using assms by (auto simp: buildProcess_def split: if_splits)
  then obtain w q where "Instantiate (en_compile env) (en_id env) (en_now env) w (rq_Params req) = Inr q"
    "applyOverrides (en_duration env) w req (q\<lparr>p_Metadata := rq_Metadata req\<rparr>) = Inr p"
    by (auto simp: buildFromWorker_def split: if_splits sum.splits)
  then show ?thesis by (auto simp: Instantiate_def dest: applyOverrides_keeps split: sum.splits)
next
  case False
  then show ?thesis
    using assms by (auto simp: buildProcess_def applyRawCommand_def split: if_splits option.splits)
qed

lemma writeError_refuses [simp]: "writeError e \<noteq> Answered s h b" "Answered s h b \<noteq> writeError e"
  by (auto simp: writeError_def split: prod.splits)

lemma created_fresh:
  assumes "createProcess fw env token key (Some body) w = (Inr (Answered s False r), w')"
  obtains req p w1 w2 w3 where "en_decode env body = Some req" "rq_Node req = ''''"
    "replayIdempotent env key body w = (Inr None, w1)"
    "buildProcess env (s_cfg w1) (s_registry w1) token req = Inr p"
    "claimIdempotent env key body (p_ID p) w1 = (Inr None, w2)"
    "Submit (en_start env) (en_now env) p w2 = (None, w3)"
    "cr_ID r = p_ID p" "w' = audit env token ''create'' (p_ID p) (p_Worker p) w3"
proof -
  obtain req where req: "en_decode env body = Some req" "rq_Node req = ''''"
    using assms by (auto simp: createProcess_def split: option.splits if_splits)
  obtain r1 w1 where rp: "replayIdempotent env key body w = (r1, w1)" by fastforce
  have r1: "r1 = Inr None"
    using assms by (auto simp: createProcess_def req rp split: sum.splits option.splits)
  obtain p where p: "buildProcess env (s_cfg w1) (s_registry w1) token req = Inr p"
    using assms by (auto simp: createProcess_def req rp r1 split: sum.splits)
  obtain r2 w2 where cl: "claimIdempotent env key body (p_ID p) w1 = (r2, w2)" by fastforce
  have r2: "r2 = Inr None"
    using assms by (auto simp: createProcess_def req rp r1 p cl split: sum.splits option.splits)
  obtain r3 w3 where sb: "Submit (en_start env) (en_now env) p w2 = (r3, w3)" by fastforce
  have r3: "r3 = None"
    using assms by (auto simp: createProcess_def req rp r1 p cl r2 sb split: option.splits)
  have "cr_ID r = p_ID p" "w' = audit env token ''create'' (p_ID p) (p_Worker p) w3"
    using assms by (auto simp: createProcess_def req rp r1 p cl r2 sb r3 Let_def newCreateResponse_def submitted_def
        split: option.splits if_splits)
  then show ?thesis using that req rp r1 p cl r2 sb r3 by blast
qed

text \<open>A claim that succeeds leaves the key with the execution it was made for, and with the request.\<close>

lemma claimed:
  assumes "replayIdempotent env key body w = (Inr None, w1)" and "claimIdempotent env key body pid w1 = (Inr None, w2)"
    and "key \<noteq> ''''" and "lookup (s_db w) pid = None"
  shows "\<exists>held. keys_of w2 key = Some held \<and> i_ProcessID held = pid \<and> i_RequestHash held = hashBody env body"
proof -
  let ?rec = "\<lparr>i_RequestHash = hashBody env body, i_ProcessID = pid, i_CreatedAt = en_now env\<rparr>"
  have keys1: "keys_of w1 = keys_of w"
  proof -
    have a: "d_idempotency (snd (FindIdempotency key db)) = d_idempotency db" "d_idempotency (snd (GetProcess q db)) = d_idempotency db" for q db
      by (simp_all add: FindIdempotency_def GetProcess_def)
    obtain r1 db1 where f: "FindIdempotency key (s_db w) = (r1, db1)" by fastforce
    have b: "d_idempotency db1 = d_idempotency (s_db w)" using a(1) [of "s_db w"] f by simp
    have c: "d_idempotency db2 = d_idempotency db1" if "GetProcess q db1 = (r2, db2)" for q r2 db2 using a(2) [of q db1] that by simp
    show ?thesis using assms(1,3) b c
      by (auto simp: replayIdempotent_def on_db_def f keys_of_def split: sum.splits prod.splits if_splits)
  qed
  obtain r db where s: "SaveIdempotency key ?rec (s_db w1) = (r, db)" by fastforce
  have r: "r = None"
  proof (rule ccontr)
    assume "r \<noteq> None"
    then obtain e where "r = Some e" by blast
    then show False using assms(2,3) s
      by (auto simp: claimIdempotent_def on_db_def split: if_splits sum.splits option.splits prod.splits)
  qed
  have w2: "w2 = w1\<lparr>s_db := db\<rparr>" using assms(2,3) s r by (simp add: claimIdempotent_def on_db_def)
  show ?thesis
  proof (cases "keys_of w1 key")
    case None
    then show ?thesis using s r unfolding w2
      by (auto simp: SaveIdempotency_def keys_of_def Let_def split: if_splits option.splits)
  next
    case (Some held)
    then have "i_ProcessID held = pid" "d_idempotency db = d_idempotency (s_db w1)"
      using s r by (auto simp: SaveIdempotency_def keys_of_def Let_def split: if_splits option.splits)
    moreover have "i_RequestHash held = hashBody env body"
      using assms(1,3) Some keys1
      by (auto simp: replayIdempotent_def on_db_def FindIdempotency_def keys_of_def split: if_splits option.splits sum.splits prod.splits)
    ultimately show ?thesis using Some by (simp add: w2 keys_of_def)
  qed
qed

lemma audit_keys [simp]: "keys_of (audit env token action pid detail w) = keys_of w"
  by (simp add: audit_def keys_of_def AppendAudit_def)

lemma claimed_by_first:
  assumes "runtime_inv w" and "en_start env = supervisor_start i" and "key \<noteq> ''''"
    and "lookup (s_db w) (en_id env) = None"
    and "createProcess fw env token key (Some body) w = (Inr (Answered s False r), w')"
  shows "\<exists>held. keys_of w' key = Some held \<and> i_ProcessID held = cr_ID r \<and> i_RequestHash held = hashBody env body \<and>
    cr_ID r = en_id env \<and> lookup (s_db w') (cr_ID r) \<noteq> None"
proof -
  obtain req p w1 w2 w3 where c: "replayIdempotent env key body w = (Inr None, w1)"
    "buildProcess env (s_cfg w1) (s_registry w1) token req = Inr p"
    "claimIdempotent env key body (p_ID p) w1 = (Inr None, w2)"
    "Submit (en_start env) (en_now env) p w2 = (None, w3)"
    "cr_ID r = p_ID p" "w' = audit env token ''create'' (p_ID p) (p_Worker p) w3"
    using created_fresh [OF assms(5)] by metis
  have id: "p_ID p = en_id env" using buildProcess_ID [OF c(2)] .
  obtain held where held: "keys_of w2 key = Some held" "i_ProcessID held = p_ID p" "i_RequestHash held = hashBody env body"
    using claimed [OF c(1,3) assms(3)] assms(4) id by auto
  have "same_rows w w2"
    using same_rows_trans [of w w1 w2] replay_same_rows [of w env key body] claim_same_rows [of w1 env key body "p_ID p"] c(1,3) by simp
  then have "runtime_inv w2" using same_rows_inv assms(1) by blast
  then have row: "lookup (s_db w3) (p_ID p) \<noteq> None" using Submit_row c(4) assms(2) by metis
  have "keys_of w3 = keys_of w2" using keys_Submit [of i "en_now env" p w2] c(4) assms(2) by simp
  moreover have "lookup (s_db w') = lookup (s_db w3)" using same_rows_world [OF audit_same_rows] c(6) by simp
  ultimately show ?thesis using held row id by (auto simp: c(5,6))
qed

text \<open>The example node accepts the request under a key.\<close>

definition echoed :: "(unit + createProcessResponse answer) \<times> World" where
  "echoed = createProcess (\<lambda>_ _. ()) (echo_env ''a'') zero_Token ''k'' (Some ''body'') raw_node"

lemma echoed_facts:
  "\<exists>r. fst echoed = Inr (Answered 201 False r) \<and> cr_ID r = ''a''"
  "d_faults (s_db (snd echoed)) = []"
  "lookup (s_db (snd echoed)) ''a'' \<noteq> None"
  "d_idempotency (s_db (snd echoed)) ''k'' = Some \<lparr>i_RequestHash = ''body'', i_ProcessID = ''a'', i_CreatedAt = 0\<rparr>"
  unfolding echoed_def raw_node_def
  by (simp_all add: createProcess_def echo_built [unfolded raw_config_def] replayIdempotent_def claimIdempotent_def audit_def
      SaveIdempotency_def FindIdempotency_def AppendAudit_def submitted_def newCreateResponse_def hashBody_def
      echo_env_def echo_request_def echo_process_def raw_config_def buildProcess_def applyRawCommand_def refuseWorkerFields_def
      Submit_def supervisor_start_def Start_def admit_def admit_claimed_def launch_def zero_Process_def new_world_def
      SetRegistry_def Scheduler.queueDepth_def PendingCount_def on_db_def empty_db_def CreateProcess_def Let_def Default_def
      TryAcquire_def NewSlots_def AcquireLock_def row_ids_def lookup_def exec_fails_def ticked_def TransitionTo_def
      ClearAttempt_def UpdateProcess_def upsertAttempt_def replace_row_def worker_of_def sched_worker_def lockConflict_def
      quiet_def killGrace_def)

text \<open>
  C13. A repeated submission. Once a submission with an idempotency key has been accepted, and for as long as
  the key and its execution are in the store: the same body answers 200 with that execution, marked as a
  replay, and another body is refused with 409; neither changes anything, whatever token sends it.
\<close>

theorem retried_submission:
  assumes "runtime_inv w" and "en_start env = supervisor_start i" and "key \<noteq> ''''"
    and "lookup (s_db w) (en_id env) = None"
    and "createProcess fw env token key (Some body) w = (Inr (Answered s False r), w1)"
    and "d_idempotency (s_db w2) key = d_idempotency (s_db w1) key" and "lookup (s_db w2) (cr_ID r) \<noteq> None"
    and "d_faults (s_db w2) = []" and "en_digest later = en_digest env"
    and "en_decode later body' = Some req" and "rq_Node req = ''''"
  shows "if hashBody later body' = hashBody env body
    then \<exists>again. createProcess fw later token' key (Some body') w2 = (Inr (Answered 200 True again), w2) \<and> cr_ID again = cr_ID r
    else createProcess fw later token' key (Some body') w2 = (Inr (Refused 409 ''idempotency_reuse''), w2)"
proof -
  obtain held where held: "d_idempotency (s_db w2) key = Some held" "i_ProcessID held = cr_ID r" "i_RequestHash held = hashBody env body"
    using claimed_by_first [OF assms(1-5)] assms(6) by (auto simp: keys_of_def)
  have tick: "w2\<lparr>s_db := ticked (s_db w2)\<rparr> = w2" using assms(8) by simp
  have find: "on_db (FindIdempotency key) w2 = (Inr held, w2)"
    using assms(8) held(1) by (simp add: on_db_def FindIdempotency_def)
  obtain q where q: "lookup (s_db w2) (cr_ID r) = Some q" using assms(7) by blast
  have get: "on_db (GetProcess (cr_ID r)) w2 = (Inr q, w2)"
    using assms(8) q by (simp add: on_db_def GetProcess_def)
  have qid: "p_ID q = cr_ID r" using lookup_SomeD [OF q] by simp
  show ?thesis
  proof (cases "hashBody later body' = hashBody env body")
    case True
    then have "replayIdempotent later key body' w2 = (Inr (Some q), w2)"
      using assms(3) held by (simp add: replayIdempotent_def find get)
    then have "createProcess fw later token' key (Some body') w2 = (Inr (Answered 200 True (newCreateResponse q)), w2)"
      using assms(10,11) by (simp add: createProcess_def)
    then show ?thesis using True qid by (auto simp: newCreateResponse_def)
  next
    case False
    then have "replayIdempotent later key body' w2 = (Inl (Domain ErrIdempotencyReuse), w2)"
      using assms(3) held by (auto simp: replayIdempotent_def find)
    then show ?thesis using False assms(10,11)
      by (simp add: createProcess_def writeError_def statusFor_def sentinelStatus_def)
  qed
qed

theorem retried_submission_witness:
  "(\<exists>again. createProcess (\<lambda>_ _. ()) (echo_env ''b'') zero_Token ''k'' (Some ''body'') (snd echoed) =
      (Inr (Answered 200 True again), snd echoed) \<and> cr_ID again = ''a'') \<and>
   createProcess (\<lambda>_ _. ()) (echo_env ''b'') zero_Token ''k'' (Some ''other'') (snd echoed) =
      (Inr (Refused 409 ''idempotency_reuse''), snd echoed)"
proof -
  obtain r where r: "createProcess (\<lambda>_ _. ()) (echo_env ''a'') zero_Token ''k'' (Some ''body'') raw_node =
      (Inr (Answered 201 False r), snd echoed)" "cr_ID r = ''a''"
    using echoed_facts(1) by (metis echoed_def prod.collapse)
  have facts: "en_start (echo_env ''a'') = supervisor_start quiet" "lookup (s_db raw_node) (en_id (echo_env ''a'')) = None"
    "en_digest (echo_env ''b'') = en_digest (echo_env ''a'')" "en_decode (echo_env ''b'') x = Some echo_request"
    "rq_Node echo_request = ''''" "hashBody (echo_env p) x = x" for x p
    by (simp_all add: echo_env_def empty_db_def lookup_def echo_request_def hashBody_def)
  note again = retried_submission [OF raw_node_facts(1) facts(1) _ facts(2) r(1) refl _ echoed_facts(2) facts(3,4,5),
      where token' = zero_Token]
  show ?thesis using again [where body' = "''body''"] again [where body' = "''other''"] echoed_facts(3) r(2) by (simp add: facts)
qed



end
