(* ===== verification/MetricsApi.thy ===== *)
theory MetricsApi
  imports Metrics ApiProps
begin

text \<open>
  \<^verbatim>\<open>internal/api/metrics.go\<close>: what a scrape of \<^verbatim>\<open>/v1/metrics\<close> gathers from the store, the supervisor and the
  registry, and how its idea of the queue differs from that of \<^verbatim>\<open>/v1/stats\<close>.

  \<open>workers\<close> and \<open>ids\<close> are the orders in which the maps of workers and of running executions are iterated.
\<close>

definition stateSamples :: "(State \<rightharpoonup> int) \<Rightarrow> MetricSample list" where
  "stateSamples counts =
     List.map_filter (\<lambda>s. map_option (\<lambda>n. \<lparr>sp_Labels = [\<lparr>lb_Name = ''state'', lb_Value = State_text s\<rparr>],
       sp_Value = of_int64 n\<rparr>) (counts s)) States"

definition floatSamples :: "(string \<times> float64) list \<Rightarrow> MetricSample list" where
  "floatSamples m = map (\<lambda>(worker, v). \<lparr>sp_Labels = [worker_label worker], sp_Value = v\<rparr>) m"

definition workerSamples :: "(string \<times> int) list \<Rightarrow> MetricSample list" where
  "workerSamples counts = floatSamples (map (\<lambda>(worker, n). (worker, of_int64 n)) counts)"

definition listing_of :: "string list \<Rightarrow> (string \<rightharpoonup> int) \<Rightarrow> (string \<times> int) list" where
  "listing_of workers counts = List.map_filter (\<lambda>k. map_option (Pair k) (counts k)) workers"

definition add_to :: "('v \<Rightarrow> 'v \<Rightarrow> 'v) \<Rightarrow> 'v \<Rightarrow> string \<Rightarrow> 'v \<Rightarrow> (string \<times> 'v) list \<Rightarrow> (string \<times> 'v) list" where
  "add_to f z k v m = AList.update k (f (case map_of m k of None \<Rightarrow> z | Some x \<Rightarrow> x) v) m"

record running_view =
  rv_running :: "(string \<times> int) list"
  rv_cpu :: "(string \<times> float64) list"
  rv_rss :: "(string \<times> float64) list"

text \<open>An attempt that ended between the snapshot and the sample is counted and not measured.\<close>

definition view_one :: "(string \<Rightarrow> usageResponse option) \<Rightarrow> Sample \<Rightarrow> running_view \<Rightarrow> running_view" where
  "view_one usage s v =
     (let v = v\<lparr>rv_running := add_to (+) 0 (sm_Worker s) 1 (rv_running v)\<rparr>
      in case usage (sm_ProcessID s) of
           None \<Rightarrow> v
         | Some u \<Rightarrow> v\<lparr>rv_cpu := add_to f_add (Num 0) (sm_Worker s) (us_CPUSeconds u) (rv_cpu v),
                       rv_rss := add_to f_add (Num 0) (sm_Worker s) (of_int64 (us_RSSBytes u)) (rv_rss v)\<rparr>)"

definition writeRunning :: "(float64 \<Rightarrow> string) \<Rightarrow> (string \<Rightarrow> usageResponse option) \<Rightarrow> Sample list \<Rightarrow> string" where
  "writeRunning g usage samples =
     (let v = fold (view_one usage) samples \<lparr>rv_running = [], rv_cpu = [], rv_rss = []\<rparr>
      in GaugeVec g ''processd_processes_running'' ''attempts under supervision, per worker'' (workerSamples (rv_running v)) @
         GaugeVec g ''processd_running_cpu_seconds'' ''CPU seconds consumed by the running attempts, per worker''
           (floatSamples (rv_cpu v)) @
         GaugeVec g ''processd_running_rss_bytes'' ''resident memory held by the running attempts, per worker''
           (floatSamples (rv_rss v)))"

definition count_of :: "(State \<rightharpoonup> int) \<Rightarrow> State \<Rightarrow> int" where
  "count_of counts s = (case counts s of None \<Rightarrow> 0 | Some n \<Rightarrow> n)"

definition metrics_queue_depth :: "(State \<rightharpoonup> int) \<Rightarrow> int" where
  "metrics_queue_depth counts = count_of counts StateQueued + count_of counts StateRetrying"

definition metrics_page ::
  "(float64 \<Rightarrow> string) \<Rightarrow> (float64 \<Rightarrow> string) \<Rightarrow> (int \<Rightarrow> nat \<Rightarrow> usageResponse option) \<Rightarrow> MetricsRegistry \<Rightarrow> string list
     \<Rightarrow> string list \<Rightarrow> World \<Rightarrow> string answer \<times> World" where
  "metrics_page g formatBound usage_of reg workers ids w =
     (case on_db CountByState w of
        (Inl e, w) \<Rightarrow> (writeError (Domain e), w)
      | (Inr counts, w) \<Rightarrow>
          (case on_db CountPendingByWorker w of
             (Inl e, w) \<Rightarrow> (writeError (Domain e), w)
           | (Inr waiting, w) \<Rightarrow>
               let (used, limit) = Usage (s_slots w)
               in (Answered 200 False (
                 Gauge g ''processd_daemon_up'' ''1 while the daemon is serving'' (Num 1) @
                 Gauge g ''processd_slots_used'' ''concurrency slots currently held'' (of_int64 used) @
                 Gauge g ''processd_slots_max'' ''concurrency slots available on this node'' (of_int64 limit) @
                 Gauge g ''processd_workers'' ''worker definitions loaded'' (of_int64 (int (Registry_Len (s_registry w)))) @
                 Gauge g ''processd_running_attempts'' ''attempts under supervision'' (of_int64 (int (Running w))) @
                 Gauge g ''processd_queue_depth'' ''executions waiting for a slot'' (of_int64 (metrics_queue_depth counts)) @
                 GaugeVec g ''processd_processes'' ''executions per state'' (stateSamples counts) @
                 GaugeVec g ''processd_processes_queued'' ''executions waiting for a slot, per worker''
                   (workerSamples (listing_of workers waiting)) @
                 writeRunning g (\<lambda>pid. Supervisor_Usage usage_of pid w) (Snapshot ids w) @
                 Registry_Write g formatBound reg), w)))"

section \<open>Two ideas of the queue\<close>

lemma count_of_group: "count_of (group_count key rows) k = int (length (filter (\<lambda>p. key p = k) rows))"
  for key :: "Process \<Rightarrow> State"
  by (simp add: count_of_def group_count_def Let_def)


lemma sum_by_type:
  assumes "finite S" and "p_Type ` set rows \<subseteq> S"
  shows "(\<Sum>t \<in> S. length (filter (\<lambda>p. p_Type p = t \<and> P p) rows)) = length (filter P rows)"
  using assms(2)
proof (induction rows)
  case (Cons p rows)
  then have m: "p_Type p \<in> S" and ih: "(\<Sum>t \<in> S. length (filter (\<lambda>p. p_Type p = t \<and> P p) rows)) = length (filter P rows)" by auto
  have "(\<Sum>t \<in> S. length (filter (\<lambda>p. p_Type p = t \<and> P p) (p # rows))) =
      (\<Sum>t \<in> S. (if t = p_Type p \<and> P p then 1 else 0) + length (filter (\<lambda>p. p_Type p = t \<and> P p) rows))"
    by (rule sum.cong) auto
  also have "\<dots> = (if P p then 1 else 0) + length (filter P rows)"
    using m assms(1) by (simp add: sum.distrib ih sum.If_cases)
  finally show ?case by simp
qed simp

definition flapping_node :: World where
  "flapping_node = new_world Default []
     (empty_db\<lparr>d_processes := [zero_Process\<lparr>p_ID := ''s'', p_Type := TypeService, p_State := StateRetrying\<rparr>]\<rparr>)"

text \<open>
  Two ideas of the queue. The queue depth of \<^verbatim>\<open>/v1/metrics\<close>, which is also the depth admission holds
  against \<^verbatim>\<open>max_depth\<close>, counts the services that wait out a backoff; the one of \<^verbatim>\<open>/v1/stats\<close> does not, because
  they hold their slots already. The two differ by exactly those.
\<close>

theorem queue_depths_differ:
  assumes "d_faults (s_db w) = []" and "stats w = (Answered 200 False r, w')"
    and "rows = d_processes (s_db w)" and "\<forall>p \<in> set rows. p_Type p = TypeTask \<or> p_Type p = TypeService"
  shows "metrics_queue_depth (group_count p_State rows) =
      st_QueueDepth r + int (length (filter (\<lambda>p. p_Type p = TypeService \<and> p_State p = StateRetrying) rows)) \<and>
    PendingCount (s_db w) = (Inr (metrics_queue_depth (group_count p_State rows)), s_db w)"
proof -
  let ?n = "\<lambda>P. length (filter P rows)"
  let ?active = "filter (\<lambda>p. \<not> IsTerminal (p_State p)) rows"
  let ?types = "remdups (map p_Type rows)"
  have count: "(case group_count (\<lambda>p. (p_Type p, p_State p)) ?active (t, s) of None \<Rightarrow> 0 | Some n \<Rightarrow> n) =
      int (?n (\<lambda>p. p_Type p = t \<and> p_State p = s))" if "\<not> IsTerminal s" for t s
  proof -
    have "filter (\<lambda>p. (p_Type p, p_State p) = (t, s)) ?active = filter (\<lambda>p. p_Type p = t \<and> p_State p = s) rows"
      using that by (auto intro: filter_cong)
    then show ?thesis by (simp add: group_count_def Let_def)
  qed
  have "(\<Sum>t \<leftarrow> ?types. int (?n (\<lambda>p. p_Type p = t \<and> p_State p = StateQueued))) =
      int (\<Sum>t \<in> set (map p_Type rows). ?n (\<lambda>p. p_Type p = t \<and> p_State p = StateQueued))"
    by (simp add: sum_list_distinct_conv_sum_set)
  also have "\<dots> = int (?n (\<lambda>p. p_State p = StateQueued))" using sum_by_type [of "set (map p_Type rows)" rows] by simp
  finally have queued_sum: "(\<Sum>t \<leftarrow> ?types. int (?n (\<lambda>p. p_Type p = t \<and> p_State p = StateQueued))) = int (?n (\<lambda>p. p_State p = StateQueued))" .
  have nt: "\<not> IsTerminal StateQueued" "\<not> IsTerminal StateRetrying" by simp_all
  have depth: "st_QueueDepth r = int (?n (\<lambda>p. p_State p = StateQueued)) + int (?n (\<lambda>p. p_Type p = TypeTask \<and> p_State p = StateRetrying))"
    using assms(1,2) unfolding stats_def
    by (auto simp: on_db_def CountActiveByTypeAndState_def CountRestarts_def Let_def assms(3) [symmetric]
        count [OF nt(1)] count [OF nt(2)] queued_sum split: prod.splits)
  have split: "?n (\<lambda>p. p_State p = StateRetrying) =
      ?n (\<lambda>p. p_Type p = TypeTask \<and> p_State p = StateRetrying) + ?n (\<lambda>p. p_Type p = TypeService \<and> p_State p = StateRetrying)"
    using assms(4) by (induction rows) auto
  have line: "?n in_line = ?n (\<lambda>p. p_State p = StateQueued) + ?n (\<lambda>p. p_State p = StateRetrying)"
    by (induction rows) (auto simp: in_line_def)
  show ?thesis
    using assms(1) by (simp add: metrics_queue_depth_def count_of_group depth split PendingCount_def assms(3) [symmetric] line)
qed

theorem queue_depths_differ_witness:
  "(\<exists>r w'. stats flapping_node = (Answered 200 False r, w') \<and>
     metrics_queue_depth (group_count p_State (d_processes (s_db flapping_node))) = st_QueueDepth r + 1)"
proof -
  have db: "d_faults (s_db flapping_node) = []"
    "d_processes (s_db flapping_node) = [zero_Process\<lparr>p_ID := ''s'', p_Type := TypeService, p_State := StateRetrying\<rparr>]"
    by (simp_all add: flapping_node_def new_world_def SetRegistry_def empty_db_def)
  have "\<exists>r w'. stats flapping_node = (Answered 200 False r, w')"
    using db(1) by (simp add: stats_def on_db_def CountActiveByTypeAndState_def CountRestarts_def Let_def split: prod.splits)
  then obtain r w' where s: "stats flapping_node = (Answered 200 False r, w')" by blast
  show ?thesis using queue_depths_differ [OF db(1) s refl] s unfolding db(2) by auto
qed

end
