(* ===== verification/Streams.thy ===== *)
theory Streams
  imports Api LogTail
begin

text \<open>
  \<^verbatim>\<open>internal/api/stream.go\<close>: the followed log of an attempt as a stream of events.

  The handler runs in rounds, one per tick of its timer. What a round meets is given: the log files when
  it reads them, the state of the daemon when it asks whether the attempt is still going, and the clock.
  The client can go away: a connection has room for so many more writes and flushes.
\<close>

section \<open>The connection\<close>

datatype event = LineEvent Stream string | EndEvent int string bool | KeepAlive

text \<open>\<open>None\<close> is a connection that never breaks.\<close>

record Conn =
  cn_out :: "event list"
  cn_room :: "nat option"

definition conn_call :: "Conn \<Rightarrow> bool \<times> Conn" where
  "conn_call c =
     (case cn_room c of
        None \<Rightarrow> (True, c)
      | Some 0 \<Rightarrow> (False, c)
      | Some (Suc n) \<Rightarrow> (True, c\<lparr>cn_room := Some n\<rparr>))"

definition writeEvent :: "event \<Rightarrow> Conn \<Rightarrow> bool \<times> Conn" where
  "writeEvent e c = (case conn_call c of (sent, c) \<Rightarrow> (sent, if sent then c\<lparr>cn_out := cn_out c @ [e]\<rparr> else c))"

definition flush :: "Conn \<Rightarrow> bool \<times> Conn" where
  "flush c = conn_call c"

section \<open>A round\<close>

definition streamPoll :: duration where "streamPoll = 250 * millisecond"
definition streamHeartbeat :: duration where "streamHeartbeat = 15 * second"
definition defaultStreamBacklog :: int where "defaultStreamBacklog = 100"

fun send_lines :: "Line list \<Rightarrow> Conn \<Rightarrow> bool \<times> Conn" where
  "send_lines [] c = (True, c)"
| "send_lines (l # ls) c =
     (case writeEvent (LineEvent (l_Stream l) (l_Text l)) c of
        (False, c) \<Rightarrow> (False, c)
      | (True, c) \<Rightarrow> send_lines ls c)"

text \<open>\<open>None\<close> is an error: of reading the files or of the connection.\<close>

definition pump :: "tailSource list \<Rightarrow> Files \<Rightarrow> Conn \<Rightarrow> nat option \<times> tailSource list \<times> Conn" where
  "pump tailer fs c =
     (case Tailer_Read tailer fs of
        (Inl _, tailer, _) \<Rightarrow> (None, tailer, c)
      | (Inr lines, tailer, _) \<Rightarrow>
          case send_lines lines c of (sent, c) \<Rightarrow> (if sent then Some (length lines) else None, tailer, c))"

definition attemptLive :: "string \<Rightarrow> int \<Rightarrow> World \<Rightarrow> bool" where
  "attemptLive pid attempt w =
     (case RunningAttempt pid w of
        Some running \<Rightarrow> running = attempt
      | None \<Rightarrow>
          (case fst (on_db (GetProcess pid) w) of
             Inl _ \<Rightarrow> False
           | Inr p \<Rightarrow> \<not> IsTerminal (p_State p) \<and> p_Attempt p \<le> attempt))"

definition closeStream :: "string \<Rightarrow> int \<Rightarrow> tailSource list \<Rightarrow> Files \<Rightarrow> World \<Rightarrow> Conn \<Rightarrow> Conn" where
  "closeStream pid attempt tailer fs w c =
     (case pump tailer fs c of
        (None, _, c) \<Rightarrow> c
      | (Some _, _, c) \<Rightarrow>
          let (status, truncated) =
            (case fst (on_db (GetProcess pid) w) of
               Inl _ \<Rightarrow> ('''', False)
             | Inr p \<Rightarrow> (State_text (p_State p), p_LogTruncated p))
          in (case writeEvent (EndEvent attempt status truncated) c of
                (False, c) \<Rightarrow> c
              | (True, c) \<Rightarrow> snd (flush c)))"

text \<open>What a round meets; the last two are what \<^verbatim>\<open>closeStream\<close> meets when the round ends the stream.\<close>

record Moment =
  mo_files :: Files
  mo_world :: World
  mo_now :: gtime
  mo_gone :: bool
  mo_end_files :: Files
  mo_end_world :: World

text \<open>\<open>Broken\<close>: a read or a write failed; \<open>Left\<close>: the client went away; \<open>Watching\<close>: it goes on.\<close>

datatype streaming = Broken | Closed | Left | Watching "tailSource list" gtime

text \<open>A round that has been silent for too long says so; the answer is since when it has been silent.\<close>

definition keep_alive :: "gtime \<Rightarrow> gtime \<Rightarrow> Conn \<Rightarrow> gtime option \<times> Conn" where
  "keep_alive now silent c =
     (if now - silent < streamHeartbeat then (Some silent, c)
      else case writeEvent KeepAlive c of
             (False, c) \<Rightarrow> (None, c)
           | (True, c) \<Rightarrow> (Some now, c))"

definition stream_round ::
  "string \<Rightarrow> int \<Rightarrow> tailSource list \<Rightarrow> gtime \<Rightarrow> Moment \<Rightarrow> Conn \<Rightarrow> streaming \<times> Conn" where
  "stream_round pid attempt tailer silent m c =
     (case pump tailer (mo_files m) c of
        (None, _, c) \<Rightarrow> (Broken, c)
      | (Some sent, tailer, c) \<Rightarrow>
          if sent = 0 \<and> \<not> attemptLive pid attempt (mo_world m)
          then (Closed, closeStream pid attempt tailer (mo_end_files m) (mo_end_world m) c)
          else case keep_alive (mo_now m) (if sent > 0 then mo_now m else silent) c of
                 (None, c) \<Rightarrow> (Broken, c)
               | (Some silent, c) \<Rightarrow>
                   (case flush c of
                      (False, c) \<Rightarrow> (Broken, c)
                    | (True, c) \<Rightarrow> (if mo_gone m then Left else Watching tailer silent, c)))"

fun serveStream ::
  "string \<Rightarrow> int \<Rightarrow> tailSource list \<Rightarrow> gtime \<Rightarrow> Moment list \<Rightarrow> Conn \<Rightarrow> streaming \<times> Conn" where
  "serveStream pid attempt tailer silent [] c = (Watching tailer silent, c)"
| "serveStream pid attempt tailer silent (m # ms) c =
     (case stream_round pid attempt tailer silent m c of
        (Watching tailer silent, c) \<Rightarrow> serveStream pid attempt tailer silent ms c
      | ended \<Rightarrow> ended)"

section \<open>The handler\<close>

definition parseBacklog :: "string \<Rightarrow> api_error + int" where
  "parseBacklog raw =
     (if raw = '''' then Inr defaultStreamBacklog
      else case ParseInt64 raw of
             None \<Rightarrow> Inl (badRequest ''tail_invalid'')
           | Some n \<Rightarrow> if n < 0 then Inl (badRequest ''tail_invalid'') else Inr n)"

text \<open>The refusal, or what became of the stream and what was sent on it.\<close>

definition streamProcessLogs ::
  "LogStore \<Rightarrow> query \<Rightarrow> string \<Rightarrow> World \<Rightarrow> Files \<Rightarrow> gtime \<Rightarrow> Moment list \<Rightarrow> nat option
     \<Rightarrow> unit answer + streaming \<times> event list" where
  "streamProcessLogs logs q pid w fs now ms room =
     (case fst (on_db (GetProcess pid) w) of
        Inl e \<Rightarrow> Inl (writeError (Domain e))
      | Inr p \<Rightarrow> (case parseStream (query_get q ''stream'') of
        Inl e \<Rightarrow> Inl (writeError e)
      | Inr stream \<Rightarrow> (case parseAttempt (query_get q ''attempt'') (p_Attempt p) of
        Inl e \<Rightarrow> Inl (writeError e)
      | Inr attempt \<Rightarrow> (case parseBacklog (query_get q ''tail'') of
        Inl e \<Rightarrow> Inl (writeError e)
      | Inr backlog \<Rightarrow> (case fst (Tail logs (p_ID p) attempt stream (p_CreatedAt p) backlog fs) of
        Inl _ \<Rightarrow> Inl (writeError (Domain ErrIO))
      | Inr tailer \<Rightarrow>
          (case serveStream (p_ID p) attempt tailer now ms \<lparr>cn_out = [], cn_room = room\<rparr> of
             (became, c) \<Rightarrow> Inr (became, cn_out c)))))))"

end
