(* ===== verification/Daemon.thy ===== *)
theory Daemon
  imports SystemProps Workers Notifier Fleet Logs "HOL-Library.Word"
begin

text \<open>
  \<^verbatim>\<open>internal/daemon\<close>: how the parts are put together, what a reload and a retention pass do, the order of a
  boot and of a shutdown, and the check of the descriptor limit (\<^verbatim>\<open>rlimit_linux.go\<close>).

  The loops that Run starts are the steps of the theory \<open>System\<close>; directories, the database file, the
  embedded console and the kernel's limits answer as given.
\<close>

section \<open>The descriptor limit\<close>

definition fdsPerProcess :: "64 word" where "fdsPerProcess = 5"
definition fdReserve :: "64 word" where "fdReserve = 256"

record Rlimit =
  rl_Cur :: "64 word"
  rl_Max :: "64 word"

definition supportedProcesses :: "64 word \<Rightarrow> int" where
  "supportedProcesses limit = (if limit \<le> fdReserve then 0 else uint ((limit - fdReserve) div fdsPerProcess))"

text \<open>What is logged: nothing, a limit that cannot be read or raised, a raise, or a raise that is not enough.\<close>

datatype limit_report = Enough | Unread | NotRaised "64 word" "64 word" | RaisedTo "64 word" "64 word" | RaisedShort "64 word" int

definition fds_needed :: "int \<Rightarrow> 64 word" where
  "fds_needed maxProcesses = word_of_int maxProcesses * fdsPerProcess + fdReserve"

definition ensureFileLimit :: "int \<Rightarrow> Rlimit option \<Rightarrow> (Rlimit \<Rightarrow> bool) \<Rightarrow> limit_report \<times> Rlimit option" where
  "ensureFileLimit maxProcesses current set_limit =
     (if maxProcesses \<le> 0 then (Enough, current)
      else
        let needed = fds_needed maxProcesses
        in case current of
             None \<Rightarrow> (Unread, None)
           | Some limit \<Rightarrow>
               if rl_Cur limit \<ge> needed then (Enough, current)
               else
                 let target = min needed (rl_Max limit); raised = limit\<lparr>rl_Cur := target\<rparr>
                 in if \<not> set_limit raised then (NotRaised (rl_Cur limit) needed, current)
                    else (if target < needed then RaisedShort target (supportedProcesses target)
                          else RaisedTo (rl_Cur limit) target, Some raised))"

section \<open>Building\<close>

datatype daemon_err =
    DataDirFailed
  | WorkersInvalid "worker_err list"
  | DatabaseFailed
  | NotifyTargetUnknown
  | NotifyTargetHasNotify
  | FleetFailed fleet_err
  | ConsoleFailed
  | LogDirFailed

definition validateNotifyTarget :: "Notify \<Rightarrow> Registry \<Rightarrow> daemon_err option" where
  "validateNotifyTarget policy reg =
     (case n_Exec policy of
        None \<Rightarrow> None
      | Some x \<Rightarrow>
          (case Registry_Get reg (x_Worker x) of
             Inl _ \<Rightarrow> Some NotifyTargetUnknown
           | Inr target \<Rightarrow> if Notify_IsSet (w_Notify target) then Some NotifyTargetHasNotify else None))"

definition nodeName :: "string option \<Rightarrow> string" where
  "nodeName hostname = (case hostname of None \<Rightarrow> ''unknown'' | Some name \<Rightarrow> name)"

text \<open>Whether there is a console; \<open>embedded\<close> says whether the assets could be opened.\<close>

definition buildConsole :: "bool \<Rightarrow> Config \<Rightarrow> daemon_err + bool" where
  "buildConsole embedded cfg =
     (if \<not> c_UIEnabled cfg then Inr False else if embedded then Inr True else Inl ConsoleFailed)"

text \<open>\<open>dm_replan\<close>: the schedule runner has been told to rebuild its plan.\<close>

record Daemon =
  dm_world :: World
  dm_logs :: LogStore
  dm_notifier :: Notifier
  dm_fleet :: "(Node list \<times> Hub) option"
  dm_console :: bool
  dm_replan :: bool

record Surroundings =
  su_data_dir :: bool
  su_log_dir :: bool
  su_workers :: "Worker option list option list"
  su_database :: "Db option"
  su_parse_url :: "string \<Rightarrow> (string \<times> string \<times> string) option"
  su_outside :: Outside
  su_hostname :: "string option"
  su_embedded :: bool

text \<open>\<open>None\<close> is the panic of \<^verbatim>\<open>LoadWorkers\<close>.\<close>

definition New_daemon :: "Libs \<Rightarrow> Surroundings \<Rightarrow> Config \<Rightarrow> (daemon_err + Daemon) option" where
  "New_daemon lib su cfg =
     (if \<not> su_data_dir su then Some (Inl DataDirFailed)
      else case LoadWorkers lib (su_workers su) of
        None \<Rightarrow> None
      | Some (Inl errs) \<Rightarrow> Some (Inl (WorkersInvalid errs))
      | Some (Inr reg) \<Rightarrow> Some (case su_database su of
        None \<Rightarrow> Inl DatabaseFailed
      | Some db \<Rightarrow> (case validateNotifyTarget (c_Notify cfg) reg of
        Some e \<Rightarrow> Inl e
      | None \<Rightarrow> (case New_fleet (su_parse_url su) (su_outside su) (c_Fleet cfg) of
        Inl e \<Rightarrow> Inl (FleetFailed e)
      | Inr aggregate \<Rightarrow> (case buildConsole (su_embedded su) cfg of
        Inl e \<Rightarrow> Inl e
      | Inr console \<Rightarrow>
          if \<not> su_log_dir su then Inl LogDirFailed
          else Inr \<lparr>dm_world = new_world cfg reg db,
            dm_logs = NewLogs (c_LogDir cfg) (lg_MaxBytesPerStream (c_Logs cfg)),
            dm_notifier = NewNotifier (c_Notify cfg) (nodeName (su_hostname su)),
            dm_fleet = aggregate, dm_console = console, dm_replan = False\<rparr>)))))"

section \<open>Running\<close>

text \<open>A failed reload leaves the running set untouched. The answer is the error.\<close>

definition Reload :: "Libs \<Rightarrow> Worker option list option list \<Rightarrow> Daemon \<Rightarrow> (worker_err list option \<times> Daemon) option" where
  "Reload lib ws d =
     (case LoadWorkers lib ws of
        None \<Rightarrow> None
      | Some (Inl errs) \<Rightarrow> Some (Some errs, d)
      | Some (Inr reg) \<Rightarrow> Some (None, d\<lparr>dm_world := SetRegistry reg (dm_world d), dm_replan := True\<rparr>))"

text \<open>What Run does before its loops, and in which order it ends; the requests of the API have stopped by then.\<close>

definition Run_boot :: "Probe \<Rightarrow> (string \<Rightarrow> Inputs) \<Rightarrow> Daemon \<Rightarrow> Daemon" where
  "Run_boot pr i d = d\<lparr>dm_world := Notify_wake (snd (Reconcile pr i (dm_world d)))\<rparr>"

definition Run_shutdown :: "string list \<Rightarrow> World \<Rightarrow> World" where
  "Run_shutdown ids w = Shutdown ids (c_ShutdownGrace (s_cfg w)) (Drain w)"

definition Run_close :: "Daemon \<Rightarrow> Daemon" where
  "Run_close d = d\<lparr>dm_notifier := Close_notifier (dm_notifier d)\<rparr>"

text \<open>\<open>clock\<close> and \<open>later\<close> are the two readings of the clock; \<open>entries\<close> is the walk of the log directory.\<close>

definition purgeOnce ::
  "gtime \<Rightarrow> gtime \<Rightarrow> os_error + (os_error + string) list \<Rightarrow> Daemon \<times> Files \<Rightarrow> Daemon \<times> Files" where
  "purgeOnce clock later entries df =
     (let (d, fs) = df; cfg = s_cfg (dm_world d);
          d = (if hi_Retention (c_History cfg) > 0
               then d\<lparr>dm_world := purge clock (clock - hi_Retention (c_History cfg)) (hi_MaxRows (c_History cfg)) (dm_world d)\<rparr>
               else d)
      in (d, if lg_Retention (c_Logs cfg) > 0
             then snd (Purge entries (later - lg_Retention (c_Logs cfg)) (dm_logs d) fs) else fs))"

section \<open>What the limit allows\<close>

text \<open>
  The descriptor limit in the diagnostic. Whatever the limit, the number of executions it is said to
  support is exactly the largest that fits beside the reserve, and none when the reserve does not fit; so
  once the limit covers what \<^verbatim>\<open>max_processes\<close> needs, with a need that fits 64 bits, that number is no less.
\<close>

theorem supported_processes_fit:
  shows "0 \<le> supportedProcesses limit \<and>
    (if uint limit \<le> 256 then supportedProcesses limit = 0
     else supportedProcesses limit * 5 + 256 \<le> uint limit \<and> uint limit < (supportedProcesses limit + 1) * 5 + 256) \<and>
    (0 < maxProcesses \<and> maxProcesses * 5 + 256 < 2 ^ 64 \<and> fds_needed maxProcesses \<le> limit \<longrightarrow>
       maxProcesses \<le> supportedProcesses limit)"
proof -
  have reserve: "limit \<le> fdReserve \<longleftrightarrow> uint limit \<le> 256" by (simp add: word_le_def fdReserve_def)
  have big: "supportedProcesses limit = (uint limit - 256) div 5" if "\<not> uint limit \<le> 256"
  proof -
    have "uint (limit - fdReserve) = uint limit - 256"
      using that by (simp add: uint_sub_if' fdReserve_def)
    then show ?thesis using that reserve by (simp add: supportedProcesses_def uint_div fdsPerProcess_def)
  qed
  have small: "supportedProcesses limit = 0" if "uint limit \<le> 256"
    using that reserve by (simp add: supportedProcesses_def)
  have need: "maxProcesses * 5 + 256 \<le> uint limit"
    if "0 < maxProcesses" "maxProcesses * 5 + 256 < 2 ^ 64" "fds_needed maxProcesses \<le> limit"
  proof -
    have "fds_needed maxProcesses = word_of_int (maxProcesses * 5 + 256)"
      by (simp add: fds_needed_def fdsPerProcess_def fdReserve_def)
    moreover have "uint (word_of_int (maxProcesses * 5 + 256) :: 64 word) = maxProcesses * 5 + 256"
      using that(1,2) by (subst uint_word_of_int, subst mod_pos_pos_trivial) simp_all
    ultimately show ?thesis using that(3) by (simp only: word_le_def)
  qed
  show ?thesis
  proof (cases "uint limit \<le> 256")
    case True
    then show ?thesis using small need by auto
  next
    case False
    then show ?thesis using big need by auto
  qed
qed

theorem supported_processes_fit_witness:
  "supportedProcesses 64 = 0 \<and> 50 \<le> supportedProcesses (fds_needed 50)"
proof -
  have "supportedProcesses 64 = 0" using supported_processes_fit [of 64 1] by simp
  moreover have "50 \<le> supportedProcesses (fds_needed 50)" using supported_processes_fit [of "fds_needed 50" 50] by simp
  ultimately show ?thesis by simp
qed

section \<open>A shutdown is final\<close>

text \<open>No attempt is added, and a drain is not undone.\<close>

definition winds_down :: "World \<Rightarrow> World \<Rightarrow> bool" where
  "winds_down w w' \<longleftrightarrow> dom (s_running w') \<subseteq> dom (s_running w) \<and>
     (s_draining w \<longrightarrow> s_draining w') \<and> (s_sup_draining w \<longrightarrow> s_sup_draining w')"

named_theorems winding

lemma winds_down_refl [winding]: "winds_down w w"
  by (simp add: winds_down_def)

lemma winds_down_trans: "winds_down a b \<Longrightarrow> winds_down b c \<Longrightarrow> winds_down a c"
  unfolding winds_down_def by (blast intro: subset_trans)

lemma winds_down_parts [winding]:
  "winds_down w (w\<lparr>s_db := db\<rparr>)" "winds_down w (w\<lparr>s_running := (s_running w)(pid := None)\<rparr>)"
  "winds_down w (OnExecutionSettled p w)" "winds_down w (Drain w)" "winds_down w (SetRegistry reg w)"
  by (auto simp: winds_down_def OnExecutionSettled_def Notify_wake_def Drain_def SetRegistry_def)

lemma winds_down_finish: "winds_down w (finish OnExecutionSettled i exec result truncated w)"
proof -
  obtain event p db where c: "classify i ((e_process exec)\<lparr>p_FinishedAt := Some (in_FinishedAt i), p_ExitCode := Some (rs_ExitCode result),
      p_Signal := rs_Signal result, p_LogTruncated := truncated\<rparr>) (e_worker exec) (e_intent exec) result (s_db w) = (event, p, db)"
    using prod_cases3 by blast
  then show ?thesis
    by (auto simp: finish_def Let_def winds_down_def OnExecutionSettled_def Notify_wake_def)
qed

lemma winds_down_supervise: "winds_down w (supervise OnExecutionSettled i pid result truncated w)"
  using winds_down_trans [OF winds_down_parts(2) winds_down_finish]
  by (auto simp: supervise_def intro: winds_down_refl split: option.splits)

lemma winds_down_stop_running: "winds_down w (stop_running reason grace pid w)"
  by (auto simp: stop_running_def setIntent_def beginStop_def Let_def winds_down_def on_db_eq split: option.splits if_splits prod.splits)

lemma winds_down_Stop: "winds_down w (snd (Stop OnExecutionSettled pid grace w))"
proof (cases "s_running w pid")
  case None
  obtain r db where g: "GetProcess pid (s_db w) = (r, db)" by fastforce
  have settled: "winds_down w (OnExecutionSettled q (w\<lparr>s_db := db'\<rparr>))" for q db'
    using winds_down_trans [OF winds_down_parts(1,3)] .
  have written: "winds_down w (snd (on_ok (x, w\<lparr>s_db := db'\<rparr>) (\<lambda>w. (None, OnExecutionSettled q w))))" for x q db'
    by (cases x) (simp_all add: settled winding)
  have "winds_down w (snd (cancelPending OnExecutionSettled pid w))"
    by (cases r) (auto simp: cancelPending_def on_db_eq g Let_def written winding split: sum.splits if_splits option.splits)
  then show ?thesis using None by (simp add: Stop_def)
next
  case (Some exec)
  then show ?thesis by (simp add: Stop_def winds_down_stop_running)
qed

lemma winds_down_Shutdown: "winds_down w (Shutdown ids grace w)"
proof -
  have "winds_down w (fold (stop_running ReasonShutdown grace) ids w)" for w
    by (induction ids arbitrary: w) (auto simp: winding intro: winds_down_trans winds_down_stop_running)
  from this [of "w\<lparr>s_sup_draining := True\<rparr>"] show ?thesis by (auto simp: Shutdown_def winds_down_def)
qed

lemma winds_down_step:
  assumes "step w w'" and "s_draining w"
  shows "winds_down w w'"
  using assms
proof (cases rule: step.cases)
  case (timeout pid)
  then show ?thesis by (auto simp: timeout_fires_def winding winds_down_stop_running split: option.splits)
next
  case (signal deliver pid sig)
  then show ?thesis by (auto simp: Signal_def on_db_eq winding split: option.splits sum.splits)
qed (auto simp: Submit_def dispatch_def winding winds_down_supervise winds_down_Stop winds_down_Shutdown)

lemma winds_down_steps:
  assumes "step\<^sup>*\<^sup>* w w'" and "s_draining w"
  shows "winds_down w w'"
  using assms
proof (induction rule: rtranclp_induct)
  case (step b c)
  then have "winds_down w b" by blast
  moreover from this have "winds_down b c" using winds_down_step [OF step(2)] step.prems by (simp add: winds_down_def)
  ultimately show ?case by (rule winds_down_trans)
qed (simp add: winding)

lemma asked_to_stop:
  assumes "pid \<in> set ids" and "s_running w pid \<noteq> None" and reason: "reason \<noteq> ReasonNone"
  shows "\<exists>e. s_running (fold (stop_running reason grace) ids w) pid = Some e \<and> e_intent e \<noteq> ReasonNone"
proof -
  have keeps: "\<exists>e'. s_running (fold (stop_running reason grace) ids w) pid = Some e' \<and> e_intent e' \<noteq> ReasonNone"
    if "s_running w pid = Some e" "e_intent e \<noteq> ReasonNone" for e w ids
    using that
  proof (induction ids arbitrary: w e)
    case (Cons x ids)
    have "\<exists>e'. s_running (stop_running reason grace x w) pid = Some e' \<and> e_intent e' \<noteq> ReasonNone"
      using Cons.prems reason
      by (auto simp: stop_running_def setIntent_def beginStop_def Let_def on_db_eq split: option.splits if_splits prod.splits)
    then show ?case using Cons.IH by auto
  qed auto
  show ?thesis using assms(1,2)
  proof (induction ids arbitrary: w)
    case (Cons x ids)
    obtain e where e: "s_running w pid = Some e" using Cons.prems(2) by auto
    show ?case
    proof (cases "x = pid")
      case True
      have "\<exists>e'. s_running (stop_running reason grace x w) pid = Some e' \<and> e_intent e' \<noteq> ReasonNone"
        using e True reason
        by (auto simp: stop_running_def setIntent_def beginStop_def Let_def on_db_eq split: option.splits if_splits prod.splits)
      then show ?thesis using keeps by auto
    next
      case False
      have "s_running (stop_running reason grace x w) pid \<noteq> None"
        using e False
        by (auto simp: stop_running_def setIntent_def beginStop_def Let_def on_db_eq split: option.splits if_splits prod.splits)
      then show ?thesis using Cons False by auto
    qed
  qed simp
qed

text \<open>
  C9. A shutdown is final, when the handlers run one after the other. Once the daemon has drained and asked its attempts to stop, every attempt that
  runs carries an intent to stop, and whatever happens afterwards, requests, dispatch passes, timers and
  reloads included, no execution that was not running then ever runs.
\<close>

theorem shutdown_is_final:
  assumes "dom (s_running w) \<subseteq> set ids" and "step\<^sup>*\<^sup>* (Run_shutdown ids w) w'"
  shows "dom (s_running w') \<subseteq> dom (s_running w) \<and>
    (\<forall>pid e. s_running (Run_shutdown ids w) pid = Some e \<longrightarrow> e_intent e \<noteq> ReasonNone)"
proof -
  have down: "winds_down w (Run_shutdown ids w)"
    unfolding Run_shutdown_def by (rule winds_down_trans [OF _ winds_down_Shutdown]) (simp add: winding)
  have "s_draining (Run_shutdown ids w)"
    using winds_down_Shutdown [of "Drain w" ids] by (simp add: Run_shutdown_def winds_down_def Drain_def)
  then have "winds_down (Run_shutdown ids w) w'" using winds_down_steps [OF assms(2)] by blast
  then have "dom (s_running w') \<subseteq> dom (s_running w)" using down by (auto simp: winds_down_def)
  moreover have "e_intent e \<noteq> ReasonNone" if "s_running (Run_shutdown ids w) pid = Some e" for pid e
  proof -
    have "pid \<in> dom (s_running w)" using down that by (auto simp: winds_down_def)
    then have "pid \<in> set ids" "s_running ((Drain w)\<lparr>s_sup_draining := True\<rparr>) pid \<noteq> None"
      using assms(1) by (auto simp: Drain_def)
    from asked_to_stop [OF this, of ReasonShutdown "c_ShutdownGrace (s_cfg w)"] that
    show ?thesis by (auto simp: Run_shutdown_def Shutdown_def)
  qed
  ultimately show ?thesis by blast
qed

theorem shutdown_is_final_witness:
  "dom (s_running (snd (Submit (supervisor_start quiet) 0 nightly (Run_shutdown [''a''] one_running)))) \<subseteq> {''a''}"
proof -
  have d: "dom (s_running one_running) = {''a''}"
    unfolding one_running_def booted_eq
    by (simp add: Submit_def supervisor_start_def Start_def admit_def admit_claimed_def launch_def
      nightly_def zero_Process_def new_world_def SetRegistry_def Scheduler.queueDepth_def PendingCount_def
      on_db_def empty_db_def CreateProcess_def Let_def Default_def TryAcquire_def NewSlots_def
      AcquireLock_def row_ids_def lookup_def exec_fails_def ticked_def TransitionTo_def ClearAttempt_def
      UpdateProcess_def upsertAttempt_def replace_row_def worker_of_def sched_worker_def lockConflict_def
      quiet_def killGrace_def)
  have s: "step\<^sup>*\<^sup>* (Run_shutdown [''a''] one_running)
      (snd (Submit (supervisor_start quiet) 0 nightly (Run_shutdown [''a''] one_running)))"
    by (rule r_into_rtranclp) (rule step.submit)
  have "dom (s_running one_running) \<subseteq> set [''a'']" using d by simp
  from shutdown_is_final [OF this s] d show ?thesis by simp
qed

section \<open>The daemon-wide notification target\<close>

definition page_worker :: Worker where
  "page_worker = zero_Worker\<lparr>w_Name := ''page'', w_Type := TypeService,
     w_Params := [(''channel'', \<lparr>pm_Required = True, pm_Pattern = '''', pm_Enum = [], pm_Default = ''''\<rparr>)]\<rparr>"

text \<open>
  The daemon-wide target is checked for less than a worker's own: a service, or a worker that requires a
  param no notification carries, is refused as the target of a worker and accepted for the whole daemon.
\<close>

lemma daemon_target_is_checked_less:
  "validateNotifyTarget (zero_Notify\<lparr>n_Exec := Some \<lparr>x_Worker = ''page''\<rparr>\<rparr>) [(''page'', page_worker)] = None"
  "notify_target_errors [(''page'', page_worker)]
     (zero_Worker\<lparr>w_Name := ''job'', w_Notify := zero_Notify\<lparr>n_Exec := Some \<lparr>x_Worker = ''page''\<rparr>\<rparr>\<rparr>) =
     [NotifyTargetService ''job'', NotifyTargetRequires ''job'' ''channel'']"
  by (simp_all add: validateNotifyTarget_def Registry_Get_def page_worker_def zero_values Notify_IsSet_def
      notify_target_errors_def err_if_def NotifyParams_def)

end
