(* ===== verification/Routes.thy ===== *)
theory Routes
  imports FleetApi MetricsApi Streams Daemon
begin

text \<open>
  \<^verbatim>\<open>internal/api/routes.go\<close>: the routing tree and the middleware chain, and with them the whole path of a
  request from its line to its handler. Matching follows \<^verbatim>\<open>http.ServeMux\<close>: on the segments of the path
  as they were sent, each decoded on its own.

  The access log is left out. What the handlers take from outside the daemon is one record, \<open>Server\<close>.
\<close>

section \<open>Paths\<close>

definition hex_val :: "char \<Rightarrow> nat option" where
  "hex_val c =
     (let n = of_char c :: nat
      in if 48 \<le> n \<and> n \<le> 57 then Some (n - 48)
         else if 65 \<le> n \<and> n \<le> 70 then Some (n - 55)
         else if 97 \<le> n \<and> n \<le> 102 then Some (n - 87)
         else None)"

text \<open>Percent decoding; \<open>None\<close> for a broken escape, which \<^verbatim>\<open>net/http\<close> refuses by itself.\<close>

fun unescape :: "string \<Rightarrow> string option" where
  "unescape [] = Some []"
| "unescape (c # s) =
     (if c \<noteq> CHR ''%'' then map_option ((#) c) (unescape s)
      else case s of
             a # b # rest \<Rightarrow>
               (case (hex_val a, hex_val b) of
                  (Some x, Some y) \<Rightarrow> map_option ((#) (char_of (16 * x + y))) (unescape rest)
                | _ \<Rightarrow> None)
           | _ \<Rightarrow> None)"

fun url_path :: "string list \<Rightarrow> string option" where
  "url_path [] = Some []"
| "url_path (s # ss) =
     Option.bind (unescape s) (\<lambda>d. map_option (\<lambda>rest. CHR ''/'' # d @ rest) (url_path ss))"

text \<open>What the mux redirects instead of matching: empty, dot and dot-dot segments, but for a final slash.\<close>

definition canonical :: "string list \<Rightarrow> bool" where
  "canonical segs \<longleftrightarrow> segs \<noteq> [] \<and> '''' \<notin> set (butlast segs) \<and> ''.'' \<notin> set segs \<and> ''..'' \<notin> set segs"

datatype segment = Lit string | Wild | Rest

text \<open>The values of the wildcards.\<close>

fun match_path :: "segment list \<Rightarrow> string list \<Rightarrow> string list option" where
  "match_path [] [] = Some []"
| "match_path (Lit l # ps) (s # ss) = (if unescape s = Some l then match_path ps ss else None)"
| "match_path (Wild # ps) (s # ss) =
     (if s = '''' then None
      else Option.bind (unescape s) (\<lambda>d. if d = ''/'' then None else map_option ((#) d) (match_path ps ss)))"
| "match_path [Rest] (s # ss) = map_option (\<lambda>p. [tl p]) (url_path (s # ss))"
| "match_path _ _ = None"

section \<open>Routes\<close>

datatype route =
    RouteCreate | RouteList | RouteGet | RouteDelete | RouteSignal | RouteLogs | RouteStream
  | RouteWorkers | RouteReload
  | RouteNodes | RouteProxy
  | RouteHealth | RouteStats | RouteMetrics
  | RouteConsole | RouteRedirect

definition process_routes :: "(string \<times> segment list \<times> route) list" where
  "process_routes =
     [(''POST'', [Lit ''v1'', Lit ''processes''], RouteCreate),
      (''GET'', [Lit ''v1'', Lit ''processes''], RouteList),
      (''GET'', [Lit ''v1'', Lit ''processes'', Wild], RouteGet),
      (''DELETE'', [Lit ''v1'', Lit ''processes'', Wild], RouteDelete),
      (''POST'', [Lit ''v1'', Lit ''processes'', Wild, Lit ''signal''], RouteSignal),
      (''GET'', [Lit ''v1'', Lit ''processes'', Wild, Lit ''logs''], RouteLogs),
      (''GET'', [Lit ''v1'', Lit ''processes'', Wild, Lit ''logs'', Lit ''stream''], RouteStream),
      (''GET'', [Lit ''v1'', Lit ''workers''], RouteWorkers),
      (''POST'', [Lit ''v1'', Lit ''reload''], RouteReload)]"

definition mountFleet :: "bool \<Rightarrow> (string \<times> segment list \<times> route) list" where
  "mountFleet hub =
     (if \<not> hub then []
      else (''GET'', [Lit ''v1'', Lit ''fleet'', Lit ''nodes''], RouteNodes) #
        map (\<lambda>method. (method, [Lit ''v1'', Lit ''fleet'', Lit ''nodes'', Wild, Rest], RouteProxy))
          [''GET'', ''POST'', ''DELETE''])"

definition state_routes :: "(string \<times> segment list \<times> route) list" where
  "state_routes =
     [(''GET'', [Lit ''v1'', Lit ''health''], RouteHealth),
      (''GET'', [Lit ''v1'', Lit ''stats''], RouteStats),
      (''GET'', [Lit ''v1'', Lit ''metrics''], RouteMetrics)]"

definition mountUI :: "bool \<Rightarrow> (string \<times> segment list \<times> route) list" where
  "mountUI ui =
     (if \<not> ui then []
      else [(''GET'', [Lit ''ui'', Rest], RouteConsole), (''GET'', [Lit ''ui''], RouteRedirect),
        (''GET'', [Lit ''''], RouteRedirect)])"

definition routes :: "bool \<Rightarrow> bool \<Rightarrow> (string \<times> segment list \<times> route) list" where
  "routes hub ui = process_routes @ mountFleet hub @ state_routes @ mountUI ui"

text \<open>A pattern for \<^verbatim>\<open>GET\<close> takes \<^verbatim>\<open>HEAD\<close> too. No two patterns of one method match the same path.\<close>

definition method_matches :: "string \<Rightarrow> string \<Rightarrow> bool" where
  "method_matches pattern method \<longleftrightarrow> method = pattern \<or> (pattern = ''GET'' \<and> method = ''HEAD'')"

definition route_of :: "bool \<Rightarrow> bool \<Rightarrow> string \<Rightarrow> string list \<Rightarrow> (route \<times> string list) option" where
  "route_of hub ui method segs =
     (if \<not> canonical segs then None
      else case find (\<lambda>(m, ps, _). method_matches m method \<and> match_path ps segs \<noteq> None) (routes hub ui) of
             None \<Rightarrow> None
           | Some (_, ps, h) \<Rightarrow> Some (h, the (match_path ps segs)))"

section \<open>Requests\<close>

record Request =
  hr_Method :: string
  hr_Segments :: "string list"
  hr_Query :: query
  hr_Headers :: "(string \<times> string) list"
  hr_Body :: "string option"
  hr_Now :: gtime

record Server =
  sv_env :: Env
  sv_fleet :: "(Node list \<times> Hub) option"
  sv_ui :: bool
  sv_rfc3339 :: "string \<Rightarrow> gtime option"
  sv_cursor :: "string \<Rightarrow> Cursor"
  sv_sample :: "int \<Rightarrow> nat \<Rightarrow> usageResponse option"
  sv_signal_of :: "string \<Rightarrow> string option"
  sv_kill :: "int \<Rightarrow> string \<Rightarrow> error option"
  sv_libs :: Libs
  sv_workers_d :: "Worker option list option list"
  sv_schedules :: "(string \<Rightarrow> Status option) option"
  sv_logs :: LogStore
  sv_files :: Files
  sv_moments :: "Moment list"
  sv_room :: "nat option"
  sv_float :: "float64 \<Rightarrow> string"
  sv_bound :: "float64 \<Rightarrow> string"
  sv_metrics :: MetricsRegistry
  sv_worker_order :: "string list"
  sv_running_order :: "string list"
  sv_fetch :: "string \<Rightarrow> query \<Rightarrow> fleet_err + fleetListing"
  sv_arrival :: "string list \<Rightarrow> string list"
  sv_nano :: "string \<Rightarrow> gtime option"
  sv_parse_object :: "string \<Rightarrow> item option"
  sv_encode_object :: "item \<Rightarrow> string"

definition call_of :: "Request \<Rightarrow> Call" where
  "call_of r = \<lparr>ca_method = hr_Method r, ca_scheme = '''', ca_host = '''',
     ca_path = (case url_path (hr_Segments r) of None \<Rightarrow> '''' | Some p \<Rightarrow> p), ca_query = '''',
     ca_headers = hr_Headers r, ca_body = (case hr_Body r of None \<Rightarrow> '''' | Some b \<Rightarrow> b)\<rparr>"

text \<open>A handler that panics answers 500, by \<^verbatim>\<open>recoverPanics\<close>.\<close>

definition panicked :: api_error where
  "panicked = ApiError 500 ''internal_error''"

text \<open>
  The node a submission names. Without a fleet the handler reads a field of a nil pointer.
\<close>

definition forward_to :: "Server \<Rightarrow> Request \<Rightarrow> string \<Rightarrow> string \<Rightarrow> handled" where
  "forward_to sv r name body =
     (case sv_fleet sv of
        None \<Rightarrow> refusal panicked
      | Some (ns, f) \<Rightarrow> dispatchToNode (sv_parse_object sv) (sv_encode_object sv) ns f name body (call_of r))"

text \<open>The error of a reload is none of the sentinels.\<close>

definition api_reload :: "Server \<Rightarrow> World \<Rightarrow> api_error option \<times> World" where
  "api_reload sv w =
     (case LoadWorkers (sv_libs sv) (sv_workers_d sv) of
        None \<Rightarrow> (Some panicked, w)
      | Some (Inl _) \<Rightarrow> (Some (Domain ErrIO), w)
      | Some (Inr reg) \<Rightarrow> (None, SetRegistry reg w))"

datatype reply =
    BadTarget
  | Denied int string
  | Unrouted
  | CreateReply "handled + createProcessResponse answer"
  | ListReply "fleetResponse answer listed"
  | ProcessReply "processResponse answer"
  | DoneReply "unit answer"
  | LogsReply "logsResponse answer option"
  | StreamReply "unit answer + streaming \<times> event list"
  | WorkersReply "workerResponse list"
  | ReloadReply "nat answer"
  | NodesReply "NodeStatus list answer"
  | ProxyReply handled
  | HealthReply "healthResponse answer"
  | StatsReply "statsResponse answer"
  | MetricsReply "string answer"
  | ConsoleReply string
  | RedirectReply

definition list_handler :: "Server \<Rightarrow> Request \<Rightarrow> World \<Rightarrow> fleetResponse answer listed \<times> World" where
  "list_handler sv r w =
     listProcesses
       (map_option (\<lambda>(ns, _) node q.
          listFleetProcesses (sv_rfc3339 sv) (sv_cursor sv) (sv_nano sv) (sv_fetch sv) ns (sv_arrival sv) q node) (sv_fleet sv))
       (sv_rfc3339 sv) (sv_cursor sv) (sv_sample sv) (sv_env sv) (hr_Query r) w"

definition logs_handler :: "Server \<Rightarrow> Request \<Rightarrow> string \<Rightarrow> World \<Rightarrow> logsResponse answer option \<times> World" where
  "logs_handler sv r pid w =
     (case processLogs (sv_logs sv) (hr_Query r) pid w (sv_files sv) of
        None \<Rightarrow> (None, w)
      | Some (a, w, _) \<Rightarrow> (Some a, w))"

fun handle :: "Server \<Rightarrow> route \<Rightarrow> string list \<Rightarrow> Token \<Rightarrow> Request \<Rightarrow> World \<Rightarrow> reply \<times> World" where
  "handle sv RouteCreate vals token r w =
     apfst CreateReply (createProcess (forward_to sv r) (sv_env sv) token (query_get (hr_Headers r) ''Idempotency-Key'') (hr_Body r) w)"
| "handle sv RouteList vals token r w = apfst ListReply (list_handler sv r w)"
| "handle sv RouteGet vals token r w = apfst ProcessReply (getProcess (sv_sample sv) (sv_env sv) (hd vals) w)"
| "handle sv RouteDelete vals token r w =
     apfst DoneReply (deleteProcess OnExecutionSettled (sv_env sv) token (hr_Query r) (hd vals) w)"
| "handle sv RouteSignal vals token r w =
     apfst DoneReply (signalProcess (sv_signal_of sv) (sv_kill sv) (sv_env sv) token (hr_Body r) (hd vals) w)"
| "handle sv RouteLogs vals token r w = apfst LogsReply (logs_handler sv r (hd vals) w)"
| "handle sv RouteStream vals token r w =
     (StreamReply (streamProcessLogs (sv_logs sv) (hr_Query r) (hd vals) w (sv_files sv) (hr_Now r) (sv_moments sv) (sv_room sv)),
      snd (on_db (GetProcess (hd vals)) w))"
| "handle sv RouteWorkers vals token r w = (WorkersReply (listWorkers (sv_schedules sv) token w), w)"
| "handle sv RouteReload vals token r w = apfst ReloadReply (reloadWorkers (api_reload sv) w)"
| "handle sv RouteNodes vals token r w =
     ((case sv_fleet sv of None \<Rightarrow> Unrouted | Some (ns, f) \<Rightarrow> NodesReply (listFleetNodes ns f)), w)"
| "handle sv RouteProxy vals token r w =
     ((case (sv_fleet sv, vals) of
         (Some (ns, f), [name, path_tail]) \<Rightarrow> ProxyReply (proxyToNode ns f name path_tail (call_of r))
       | _ \<Rightarrow> Unrouted), w)"
| "handle sv RouteHealth vals token r w = apfst HealthReply (health (hr_Query r) w)"
| "handle sv RouteStats vals token r w = apfst StatsReply (stats w)"
| "handle sv RouteMetrics vals token r w =
     apfst MetricsReply (metrics_page (sv_float sv) (sv_bound sv) (sv_sample sv) (sv_metrics sv) (sv_worker_order sv)
       (sv_running_order sv) w)"
| "handle sv RouteConsole vals token r w = (ConsoleReply (hd vals), w)"
| "handle sv RouteRedirect vals token r w = (RedirectReply, w)"

text \<open>The chain: the token, then the route, then its handler.\<close>

definition serve :: "Server \<Rightarrow> Request \<Rightarrow> World \<Rightarrow> reply \<times> World" where
  "serve sv r w =
     (case url_path (hr_Segments r) of
        None \<Rightarrow> (BadTarget, w)
      | Some p \<Rightarrow>
          (case admit_request (en_digest (sv_env sv)) (c_Tokens (s_cfg w)) (sv_ui sv) (hr_Method r) p
              (query_get (hr_Headers r) ''Authorization'') of
             Inl e \<Rightarrow> (case statusFor e of (status, code) \<Rightarrow> (Denied status code, w))
           | Inr token \<Rightarrow>
               (case route_of (sv_fleet sv \<noteq> None) (sv_ui sv) (hr_Method r) (hr_Segments r) of
                  None \<Rightarrow> (Unrouted, w)
                | Some (h, vals) \<Rightarrow> handle sv h vals token r w)))"

end
