(* ===== verification/RoutesProps.thy ===== *)
theory RoutesProps
  imports Routes ApiProps
begin

text \<open>
  What holds of every request: which handlers are reached without a token, that a token which may only read
  changes nothing, and that a request is at most one step of the daemon.
\<close>

section \<open>A server for the examples\<close>

definition viewer :: Token where
  "viewer = \<lparr>t_Name = ''viewer'', t_Hash = ''sha256:v'', t_Workers = [], t_ReadOnly = True\<rparr>"

definition operator_token :: Token where
  "operator_token = \<lparr>t_Name = ''operator'', t_Hash = ''sha256:o'', t_Workers = [], t_ReadOnly = False\<rparr>"

definition demo_world :: World where
  "demo_world = new_world (raw_config\<lparr>c_Tokens := [viewer, operator_token]\<rparr>) [] empty_db"

definition demo_server :: Server where
  "demo_server = \<lparr>sv_env = echo_env ''a'', sv_fleet = None, sv_ui = True, sv_rfc3339 = (\<lambda>_. None), sv_cursor = (\<lambda>_. CursorBad ''''),
     sv_sample = (\<lambda>_ _. None), sv_signal_of = (\<lambda>_. None), sv_kill = (\<lambda>_ _. None),
     sv_libs = \<lparr>lib_compile = (\<lambda>_. None), lib_location = (\<lambda>_. None), lib_url = (\<lambda>_. None)\<rparr>, sv_workers_d = [],
     sv_schedules = None, sv_logs = NewLogs ''/var/log'' 0, sv_files = no_files, sv_moments = [], sv_room = None,
     sv_float = (\<lambda>_. ''''), sv_bound = (\<lambda>_. ''''), sv_metrics = NewRegistry, sv_worker_order = [], sv_running_order = [],
     sv_fetch = (\<lambda>_ _. Inl UnknownNode), sv_arrival = id, sv_nano = (\<lambda>_. None), sv_parse_object = (\<lambda>_. None),
     sv_encode_object = (\<lambda>_. '''')\<rparr>"

definition demo_request :: "string \<Rightarrow> string list \<Rightarrow> string \<Rightarrow> Request" where
  "demo_request method segs secret = \<lparr>hr_Method = method, hr_Segments = segs, hr_Query = [],
     hr_Headers = [(''Authorization'', ''Bearer '' @ secret)], hr_Body = Some ''body'', hr_Now = 0\<rparr>"

lemma demo_tokens: "c_Tokens (s_cfg demo_world) = [viewer, operator_token]"
  by (simp add: demo_world_def new_world_def SetRegistry_def)

lemma demo_inv: "runtime_inv demo_world"
  by (simp add: demo_world_def new_world_inv store_inv_empty)

lemma demo_authenticate:
  "authenticate (en_digest (sv_env demo_server)) (c_Tokens (s_cfg demo_world))
     (query_get (hr_Headers (demo_request method segs ''v'')) ''Authorization'') = Some viewer"
  by (simp add: demo_tokens demo_request_def demo_server_def echo_env_def authenticate_def HasPrefix_def TrimSpace_def is_space_def
      HashToken_def hashPrefix_def viewer_def query_get_def)

section \<open>Which routes are public\<close>

lemma url_path_Cons:
  "url_path (s # ss) = Some p \<longleftrightarrow> (\<exists>d rest. unescape s = Some d \<and> url_path ss = Some rest \<and> p = CHR ''/'' # d @ rest)"
  by (auto simp: bind_eq_Some_conv)

definition anonymous :: "route \<Rightarrow> bool" where
  "anonymous h \<longleftrightarrow> h = RouteHealth \<or> h = RouteConsole \<or> h = RouteRedirect"

lemma versioned_not_public:
  assumes "match_path (Lit ''v1'' # Lit x # ps) segs \<noteq> None" and "url_path segs = Some p"
    and "x \<noteq> ''health''" and "\<forall>c \<in> set x. c \<noteq> CHR ''/''" and "length x \<ge> 5"
    and "take 5 x \<noteq> take 5 ''health''"
  shows "\<not> isPublic ui p"
proof -
  obtain s t ss where segs: "segs = s # t # ss" "unescape s = Some ''v1''" "unescape t = Some x"
    using assms(1) by (cases segs; cases "tl segs") (auto split: if_splits)
  then obtain rest where p: "p = ''/v1/'' @ x @ rest" using assms(2) by (auto simp: bind_eq_Some_conv)
  have "take 5 (drop 4 p) = take 5 x" using assms(5) p by simp
  then have "p \<noteq> ''/v1/health''" using assms(6) by auto
  moreover have "\<not> HasPrefix p uiPrefix" "p \<noteq> ''/''" "p \<noteq> ''/ui''" using p by (auto simp: HasPrefix_def uiPrefix_def)
  ultimately show ?thesis by (simp add: isPublic_def)
qed

lemma find_member: "find P xs = Some x \<Longrightarrow> x \<in> set xs \<and> P x"
  by (induction xs) (auto split: if_splits)

fun private_pattern :: "segment list \<Rightarrow> bool" where
  "private_pattern (Lit v # Lit x # ps) \<longleftrightarrow>
     v = ''v1'' \<and> x \<in> set [''processes'', ''workers'', ''reload'', ''fleet'', ''stats'', ''metrics'']"
| "private_pattern ps \<longleftrightarrow> False"

definition guarded :: "string \<times> segment list \<times> route \<Rightarrow> bool" where
  "guarded e = (case e of (_, ps, h) \<Rightarrow> anonymous h \<or> private_pattern ps)"

lemma guarded_tables:
  "list_all guarded process_routes" "list_all guarded (mountFleet True)" "list_all guarded state_routes" "list_all guarded (mountUI True)"
  by code_simp+

lemma routes_private: "list_all guarded (routes hub ui)"
  using guarded_tables by (cases hub; cases ui) (simp_all add: routes_def, simp_all add: mountFleet_def mountUI_def)

lemma private_not_public:
  assumes "private_pattern ps" and "match_path ps segs \<noteq> None" and "url_path segs = Some p"
  shows "\<not> isPublic ui p"
proof -
  obtain x qs where ps: "ps = Lit ''v1'' # Lit x # qs"
    and x: "x \<in> {''processes'', ''workers'', ''reload'', ''fleet'', ''stats'', ''metrics''}"
    using assms(1) by (cases ps rule: private_pattern.cases) auto
  have "x \<noteq> ''health'' \<and> (\<forall>c \<in> set x. c \<noteq> CHR ''/'') \<and> length x \<ge> 5 \<and> take 5 x \<noteq> take 5 ''health''"
    using x by (elim insertE emptyE) simp_all
  then show ?thesis using versioned_not_public [OF assms(2) [unfolded ps] assms(3)] by blast
qed

lemma public_routes:
  assumes "url_path segs = Some p" and "isPublic ui p" and "route_of hub ui method segs = Some (h, vals)"
  shows "anonymous h"
proof -
  obtain m ps where r: "(m, ps, h) \<in> set (routes hub ui)" "match_path ps segs \<noteq> None"
    using assms(3) by (auto simp: route_of_def split: if_splits option.splits dest!: find_member)
  then have "anonymous h \<or> private_pattern ps" using routes_private [of hub ui] by (fastforce simp: list_all_iff guarded_def)
  then show ?thesis using private_not_public [OF _ r(2) assms(1)] assms(2) by blast
qed

lemma authenticate_token:
  "authenticate hex_digest tokens presented = Some t \<Longrightarrow>
     t \<in> set tokens \<and> HasPrefix presented ''Bearer '' \<and> t_Hash t = HashToken hex_digest (TrimSpace (drop 7 presented))"
  by (auto simp: authenticate_def Let_def split: if_splits dest!: find_member)

text \<open>
  C11. Nothing without a token. A request is answered by a handler only if it carries the token of an entry of
  the configuration, whose digest it matches, or if it asks for the liveness endpoint, the console or the
  redirect to it; escapes, dots and doubled slashes in the path do not change that.
\<close>

theorem handlers_need_a_token:
  assumes "serve sv r w = (answer, w')"
  shows "answer \<in> {BadTarget, Unrouted, RedirectReply} \<or> (\<exists>status code. answer = Denied status code) \<or>
    (\<exists>a. answer = HealthReply a) \<or> (\<exists>a. answer = ConsoleReply a) \<or>
    (\<exists>t \<in> set (c_Tokens (s_cfg w)).
       let presented = query_get (hr_Headers r) ''Authorization''
       in HasPrefix presented ''Bearer '' \<and> t_Hash t = HashToken (en_digest (sv_env sv)) (TrimSpace (drop 7 presented)))"
proof (cases "url_path (hr_Segments r)")
  case None
  then show ?thesis using assms by (simp add: serve_def)
next
  case (Some p)
  let ?hub = "sv_fleet sv \<noteq> None" and ?ui = "sv_ui sv"
  consider (public) "isPublic ?ui p" | (known) t where "\<not> isPublic ?ui p"
      "authenticate (en_digest (sv_env sv)) (c_Tokens (s_cfg w)) (query_get (hr_Headers r) ''Authorization'') = Some t"
    | (unknown) "\<not> isPublic ?ui p"
      "authenticate (en_digest (sv_env sv)) (c_Tokens (s_cfg w)) (query_get (hr_Headers r) ''Authorization'') = None"
    by (cases "authenticate (en_digest (sv_env sv)) (c_Tokens (s_cfg w)) (query_get (hr_Headers r) ''Authorization'')") auto
  then show ?thesis
  proof cases
    case public
    show ?thesis
    proof (cases "route_of ?hub ?ui (hr_Method r) (hr_Segments r)")
      case None
      then show ?thesis using assms Some public by (simp add: serve_def admit_request_def)
    next
      case route: (Some hv)
      obtain h vals where hv: "hv = (h, vals)" by fastforce
      have "anonymous h" by (rule public_routes [OF Some public route [unfolded hv]])
      then show ?thesis
        using assms Some public route hv by (auto simp: serve_def admit_request_def anonymous_def apfst_def map_prod_def split: prod.splits)
    qed
  next
    case known
    then show ?thesis using authenticate_token [OF known(2)] by (auto simp: Let_def)
  next
    case unknown
    then show ?thesis using assms Some by (auto simp: serve_def admit_request_def split: prod.splits)
  qed
qed

theorem handlers_need_a_token_witness:
  "(\<exists>a. fst (serve demo_server (demo_request ''GET'' [''v1'', ''stat%73''] ''o'') demo_world) = StatsReply a) \<and>
   (\<exists>t \<in> set (c_Tokens (s_cfg demo_world)). t_Hash t = ''sha256:o'')"
proof -
  let ?r = "demo_request ''GET'' [''v1'', ''stat%73''] ''o''"
  have p: "url_path (hr_Segments ?r) = Some ''/v1/stats''" unfolding demo_request_def Request.select_convs by code_simp
  have auth: "authenticate (en_digest (sv_env demo_server)) (c_Tokens (s_cfg demo_world))
      (query_get (hr_Headers ?r) ''Authorization'') = Some operator_token"
    by (simp add: demo_tokens demo_request_def demo_server_def echo_env_def authenticate_def HasPrefix_def TrimSpace_def is_space_def
        HashToken_def hashPrefix_def viewer_def operator_token_def query_get_def)
  have "admit_request (en_digest (sv_env demo_server)) (c_Tokens (s_cfg demo_world)) (sv_ui demo_server) (hr_Method ?r)
      ''/v1/stats'' (query_get (hr_Headers ?r) ''Authorization'') = Inr operator_token"
    by (simp only: admit_request_def auth) (simp add: isPublic_def HasPrefix_def uiPrefix_def operator_token_def demo_server_def)
  moreover have "route_of False True ''GET'' [''v1'', ''stat%73''] = Some (RouteStats, [])" by code_simp
  ultimately have "serve demo_server ?r demo_world = handle demo_server RouteStats [] operator_token ?r demo_world"
    using p by (simp add: serve_def) (simp add: demo_request_def demo_server_def)
  then obtain a w' where s: "serve demo_server ?r demo_world = (StatsReply a, w')"
    by (cases "stats demo_world") simp
  from handlers_need_a_token [OF s] s show ?thesis
    by (auto simp: demo_request_def query_get_def demo_server_def echo_env_def HashToken_def hashPrefix_def TrimSpace_def is_space_def Let_def)
qed

section \<open>What a reader can change\<close>

text \<open>Nothing but the schedule of faults, which every statement consumes.\<close>

definition untouched :: "World \<Rightarrow> World \<Rightarrow> bool" where
  "untouched w w' \<longleftrightarrow> (\<exists>fs. w' = w\<lparr>s_db := (s_db w)\<lparr>d_faults := fs\<rparr>\<rparr>)"

lemma untouched_refl [simp, intro]: "untouched w w"
  by (auto simp: untouched_def intro!: exI [of _ "d_faults (s_db w)"])

lemma untouched_db:
  "\<exists>fs. snd (f (s_db w)) = (s_db w)\<lparr>d_faults := fs\<rparr> \<Longrightarrow> untouched w (snd (on_db f w))"
  by (auto simp: untouched_def)

lemma self_faults: "\<exists>fs. db = db\<lparr>d_faults := fs\<rparr>"
  by (rule exI [of _ "d_faults db"]) simp

named_theorems reading

lemma reading_rules [reading]:
  "untouched w (snd (on_db (GetProcess pid) w))" "untouched w (snd (on_db (ListProcesses f) w))"
  "untouched w (snd (on_db Ping w))" "untouched w (snd (on_db CountActiveByTypeAndState w))"
  "untouched w (snd (on_db CountRestarts w))" "untouched w (snd (on_db CountByState w))"
  "untouched w (snd (on_db CountPendingByWorker w))"
  by (rule untouched_db;
      auto simp: GetProcess_def ListProcesses_def Ping_def CountActiveByTypeAndState_def CountRestarts_def CountByState_def
        CountPendingByWorker_def ticked_def Let_def self_faults split: option.splits Cursor.splits)+

lemma untouched_trans: "untouched a b \<Longrightarrow> untouched b c \<Longrightarrow> untouched a c"
  by (auto simp: untouched_def)

text \<open>A handler that makes one statement and then only looks at the state.\<close>

lemma untouched_case:
  assumes "untouched w (snd (on_db f w))"
    and "\<And>e w'. untouched w w' \<Longrightarrow> untouched w (snd (g e w'))" and "\<And>a w'. untouched w w' \<Longrightarrow> untouched w (snd (h a w'))"
  shows "untouched w (snd (case on_db f w of (Inl e, w) \<Rightarrow> g e w | (Inr a, w) \<Rightarrow> h a w))"
  using assms by (cases "on_db f w"; cases "fst (on_db f w)") auto

definition reads_only :: "route \<Rightarrow> bool" where
  "reads_only h \<longleftrightarrow> h \<notin> {RouteCreate, RouteDelete, RouteSignal, RouteReload}"

lemma apfst_snd [simp]: "snd (apfst f x) = snd x"
  by (cases x) simp

lemma untouched_list: "untouched w (snd (list_handler sv r w))"
proof -
  have "untouched w (snd (case on_db (ListProcesses f) w of (Inl e, w) \<Rightarrow> (g e, w) | (Inr a, w) \<Rightarrow> (h a w, w)))"
    for f g and h :: "Page \<Rightarrow> World \<Rightarrow> fleetResponse answer listed"
    by (rule untouched_case [OF reading_rules(2)]) simp_all
  then show ?thesis by (auto simp: list_handler_def listProcesses_def Let_def split: sum.splits)
qed

lemma untouched_get: "untouched w (snd (getProcess u env pid w))"
  unfolding getProcess_def by (rule untouched_case [OF reading_rules(1)]) simp_all

lemma untouched_logs: "untouched w (snd (logs_handler sv r pid w))"
proof -
  obtain res w1 where g: "on_db (GetProcess pid) w = (res, w1)" by fastforce
  have "untouched w w1" using reading_rules(1) [of w pid] g by simp
  then show ?thesis
    by (cases res) (auto simp: logs_handler_def processLogs_def g split: sum.splits option.splits)
qed

lemma untouched_stats: "untouched w (snd (stats w))"
proof -
  obtain a w1 where one: "on_db CountActiveByTypeAndState w = (a, w1)" by fastforce
  obtain b w2 where two: "on_db CountRestarts w1 = (b, w2)" by fastforce
  have "untouched w w1" "untouched w1 w2" using reading_rules(4) [of w] reading_rules(5) [of w1] one two by simp_all
  then have "untouched w w1" "untouched w w2" using untouched_trans by blast+
  then show ?thesis by (auto simp: stats_def one two Let_def split: sum.splits prod.splits)
qed

lemma untouched_metrics: "untouched w (snd (metrics_page g b u m ws ids w))"
proof -
  obtain a w1 where one: "on_db CountByState w = (a, w1)" by fastforce
  obtain c w2 where two: "on_db CountPendingByWorker w1 = (c, w2)" by fastforce
  have "untouched w w1" "untouched w1 w2" using reading_rules(6) [of w] reading_rules(7) [of w1] one two by simp_all
  then have "untouched w w1" "untouched w w2" using untouched_trans by blast+
  then show ?thesis by (auto simp: metrics_page_def one two split: sum.splits prod.splits)
qed

lemma untouched_health: "untouched w (snd (health q w))"
proof -
  obtain e w1 where one: "on_db Ping w = (e, w1)" by fastforce
  have "untouched w w1" using reading_rules(3) [of w] one by simp
  then show ?thesis by (auto simp: health_def one split: option.splits)
qed

lemma untouched_handle: "reads_only h \<Longrightarrow> untouched w (snd (handle sv h vals token r w))"
  by (cases h)
    (simp_all add: reads_only_def untouched_list untouched_get untouched_logs untouched_stats untouched_metrics untouched_health
      reading del: on_db_simps)

lemma safe_methods_read:
  assumes "route_of hub ui method segs = Some (h, vals)" and "isSafeMethod method"
  shows "reads_only h"
proof -
  obtain m ps where "(m, ps, h) \<in> set (routes hub ui)" "method_matches m method"
    using assms(1) by (auto simp: route_of_def split: if_splits option.splits dest!: find_member)
  then show ?thesis using assms(2)
    by (auto simp: routes_def process_routes_def mountFleet_def state_routes_def mountUI_def reads_only_def
        method_matches_def isSafeMethod_def split: if_splits)
qed

lemma anonymous_reads: "anonymous h \<Longrightarrow> reads_only h"
  by (auto simp: anonymous_def reads_only_def)

text \<open>
  C10. A reader changes nothing. A request without a token of the configuration, or with a read-only one,
  leaves everything the daemon keeps as it is, whatever its method, path, headers and body: executions,
  locks, slots, running attempts, idempotency keys, the audit trail, the workers and the wake-up of the
  dispatch loop.
\<close>

theorem reader_changes_nothing:
  assumes "\<And>t. authenticate (en_digest (sv_env sv)) (c_Tokens (s_cfg w)) (query_get (hr_Headers r) ''Authorization'') = Some t
      \<Longrightarrow> t_ReadOnly t"
  shows "untouched w (snd (serve sv r w))"
proof (cases "url_path (hr_Segments r)")
  case None
  then show ?thesis by (simp add: serve_def)
next
  case (Some p)
  let ?hub = "sv_fleet sv \<noteq> None" and ?ui = "sv_ui sv"
  show ?thesis
  proof (cases "route_of ?hub ?ui (hr_Method r) (hr_Segments r)")
    case None
    then show ?thesis using Some by (auto simp: serve_def split: sum.splits prod.splits)
  next
    case route: (Some hv)
    obtain h vals where hv: "hv = (h, vals)" by fastforce
    show ?thesis
    proof (cases "reads_only h")
      case True
      then show ?thesis using Some route hv untouched_handle by (auto simp: serve_def split: sum.splits prod.splits)
    next
      case False
      then have "\<not> isPublic ?ui p" "\<not> isSafeMethod (hr_Method r)"
        using public_routes [OF Some _ route [unfolded hv]] safe_methods_read [OF route [unfolded hv]] anonymous_reads by blast+
      then show ?thesis using Some assms
        by (auto simp: serve_def admit_request_def split: option.splits prod.splits)
    qed
  qed
qed

theorem reader_changes_nothing_witness:
  "untouched demo_world (snd (serve demo_server (demo_request ''DELETE'' [''v1'', ''processes'', ''a''] ''v'') demo_world))"
  by (rule reader_changes_nothing) (simp add: demo_authenticate viewer_def)

section \<open>A request is at most one step\<close>

lemma untouched_same_rows: "untouched w w' \<Longrightarrow> same_rows w w'"
  by (auto simp: untouched_def same_rows_def)

text \<open>One step of the daemon between statements on keys and the audit trail.\<close>

definition one_step :: "World \<Rightarrow> World \<Rightarrow> bool" where
  "one_step w w' \<longleftrightarrow> (\<exists>a b. same_rows w a \<and> (b = a \<or> step a b) \<and> same_rows b w')"

lemma one_step_none: "same_rows w w' \<Longrightarrow> one_step w w'"
  unfolding one_step_def by blast

lemma one_step_some: "same_rows w a \<Longrightarrow> step a b \<Longrightarrow> same_rows b w' \<Longrightarrow> one_step w w'"
  unfolding one_step_def by blast

lemma create_one_step:
  assumes "en_start env = supervisor_start i"
  shows "one_step w (snd (createProcess fw env token key body w))"
proof -
  have "one_step w w'" if c: "createProcess fw env token key body w = (answer, w')" for answer w'
  proof (cases body)
    case None
    then show ?thesis using c by (auto simp: createProcess_def intro: one_step_none)
  next
    case (Some body')
    obtain r1 w1 where rp: "replayIdempotent env key body' w = (r1, w1)" by fastforce
    have s1: "same_rows w w1" using replay_same_rows [of w env key body'] rp by simp
    show ?thesis
    proof (cases "en_decode env body'")
      case None
      then show ?thesis using c Some by (auto simp: createProcess_def intro: one_step_none)
    next
      case req: (Some req)
      show ?thesis
      proof (cases "rq_Node req = '''' \<and> r1 = Inr None")
        case False
        then show ?thesis using c Some req rp s1
          by (auto simp: createProcess_def intro: one_step_none split: sum.splits option.splits if_splits)
      next
        case new: True
        show ?thesis
        proof (cases "buildProcess env (s_cfg w1) (s_registry w1) token req")
          case (Inl e)
          then show ?thesis using c Some req rp new s1 by (auto simp: createProcess_def intro: one_step_none)
        next
          case (Inr p)
          obtain r2 w2 where cl: "claimIdempotent env key body' (p_ID p) w1 = (r2, w2)" by fastforce
          have s2: "same_rows w w2" using same_rows_trans [OF s1] claim_same_rows [of w1 env key body' "p_ID p"] cl by simp
          show ?thesis
          proof (cases "r2 = Inr None")
            case False
            then show ?thesis using c Some req rp new Inr cl s2
              by (auto simp: createProcess_def intro: one_step_none split: sum.splits option.splits)
          next
            case True
            obtain r3 w3 where sb: "Submit (en_start env) (en_now env) p w2 = (r3, w3)" by fastforce
            have st: "step w2 w3" using step.submit [of w2 i "en_now env" p] sb assms by simp
            have "same_rows w3 w'"
              using c Some req rp new Inr cl True sb release_same_rows audit_same_rows
              by (auto simp: createProcess_def Let_def split: option.splits if_splits)
            then show ?thesis using one_step_some [OF s2 st] by blast
          qed
        qed
      qed
    qed
  qed
  then show ?thesis by (metis prod.collapse)
qed

lemma delete_one_step: "one_step w (snd (deleteProcess OnExecutionSettled env token q pid w))"
proof -
  have st: "step w w'" if "Stop OnExecutionSettled pid grace w = (e, w')" for grace e w'
    using step.stop [of w pid grace] that by simp
  have "one_step w (snd (case Stop OnExecutionSettled pid grace w of
      (Some e, w) \<Rightarrow> (writeError (Domain e), w)
    | (None, w) \<Rightarrow> (Answered 202 False (), audit env token ''stop'' pid (en_duration_text env grace) w)))" for grace
    using one_step_some [OF same_rows_refl st] audit_same_rows
    by (cases "Stop OnExecutionSettled pid grace w"; cases "fst (Stop OnExecutionSettled pid grace w)") auto
  then show ?thesis by (auto simp: deleteProcess_def Let_def intro: one_step_none split: option.splits)
qed

lemma signal_one_step: "one_step w (snd (signalProcess decode kill env token body pid w))"
proof -
  have st: "step w w'" if "Signal kill pid sig w = (e, w')" for sig e w'
    using step.signal [of w kill pid sig] that by simp
  have "one_step w (snd (case Signal kill pid sig w of
      (Some e, w) \<Rightarrow> (writeError (Domain e), w)
    | (None, w) \<Rightarrow> (Answered 202 False (), audit env token ''signal'' pid sig w)))" for sig
    using one_step_some [OF same_rows_refl st] audit_same_rows
    by (cases "Signal kill pid sig w"; cases "fst (Signal kill pid sig w)") auto
  then show ?thesis by (auto simp: signalProcess_def intro: one_step_none split: option.splits)
qed

lemma reload_one_step: "one_step w (snd (reloadWorkers (api_reload sv) w))"
  by (auto simp: reloadWorkers_def api_reload_def intro: one_step_none one_step_some [OF same_rows_refl step.reload same_rows_refl]
      split: option.splits sum.splits)

lemma handle_one_step:
  assumes "en_start (sv_env sv) = supervisor_start i"
  shows "one_step w (snd (handle sv h vals token r w))"
proof (cases "reads_only h")
  case True
  then show ?thesis using untouched_handle untouched_same_rows one_step_none by blast
next
  case False
  then show ?thesis
    by (auto simp: reads_only_def create_one_step [OF assms] delete_one_step signal_one_step reload_one_step)
qed

text \<open>
  C7. The API refines the daemon. Whatever a request is, its effect is that of at most one step of the daemon
  (a submission, a stop, a signal or a reload) between statements that touch only idempotency keys and the
  audit trail; so requests keep the invariant of the runtime, and rows only move along the state machine.
\<close>

theorem request_refines_step:
  assumes "en_start (sv_env sv) = supervisor_start i" and "runtime_inv w"
  shows "(\<exists>a b. same_rows w a \<and> (b = a \<or> step a b) \<and> same_rows b (snd (serve sv r w))) \<and>
    runtime_inv (snd (serve sv r w)) \<and> moves w (snd (serve sv r w))"
proof -
  have one: "one_step w (snd (serve sv r w))"
    using handle_one_step [OF assms(1)]
    by (auto simp: serve_def intro: one_step_none split: option.splits sum.splits prod.splits)
  then obtain a b where ab: "same_rows w a" "b = a \<or> step a b" "same_rows b (snd (serve sv r w))"
    unfolding one_step_def by blast
  have a: "runtime_inv a" "moves w a" using same_rows_inv [OF ab(1) assms(2)] by simp_all
  have b: "runtime_inv b" "moves a b" using ab(2) a(1) step_preserves [of a b] by auto
  have "runtime_inv (snd (serve sv r w))" "moves b (snd (serve sv r w))" using same_rows_inv [OF ab(3) b(1)] by simp_all
  then show ?thesis using one a(2) b(2) unfolding one_step_def by (blast intro: moves_trans)
qed

theorem request_refines_step_witness:
  "runtime_inv (snd (serve demo_server (demo_request ''POST'' [''v1'', ''processes''] ''o'') demo_world))"
  using request_refines_step [OF _ demo_inv, of demo_server quiet] by (simp add: demo_server_def echo_env_def)

section \<open>A node named where there is no fleet\<close>

text \<open>
  A submission that names a node, sent to a daemon that is not a hub, is answered as a failure of the
  daemon: the handler reads a field of a nil pointer, and the panic becomes 500 and no word about the node,
  where a hub answers 404 for a node it does not know.
\<close>

theorem dispatch_without_a_fleet:
  assumes "hr_Body r = Some body" and "en_decode (sv_env sv) body = Some req" and "rq_Node req \<noteq> ''''"
  shows "(sv_fleet sv = None \<longrightarrow>
      handle sv RouteCreate vals token r w = (CreateReply (Inl (Local 500 ''internal_error'')), w)) \<and>
    (\<forall>ns f. sv_fleet sv = Some (ns, f) \<longrightarrow> byName ns (rq_Node req) = None \<longrightarrow>
      handle sv RouteCreate vals token r w = (CreateReply (Inl (Local 404 ''node_unknown'')), w))"
  using assms
  by (simp add: createProcess_def forward_to_def refusal_def panicked_def statusFor_def dispatchToNode_def)

theorem dispatch_without_a_fleet_witness:
  "handle (demo_server\<lparr>sv_env := (echo_env ''a'')\<lparr>en_decode := (\<lambda>_. Some (echo_request\<lparr>rq_Node := ''eu''\<rparr>))\<rparr>\<rparr>) RouteCreate []
     operator_token (demo_request ''POST'' [''v1'', ''processes''] ''o'') demo_world =
   (CreateReply (Inl (Local 500 ''internal_error'')), demo_world)"
  using dispatch_without_a_fleet [of "demo_request ''POST'' [''v1'', ''processes''] ''o''" "''body''"
      "demo_server\<lparr>sv_env := (echo_env ''a'')\<lparr>en_decode := (\<lambda>_. Some (echo_request\<lparr>rq_Node := ''eu''\<rparr>))\<rparr>\<rparr>"]
  by (simp add: demo_request_def demo_server_def)

end
