(* ===== verification/FleetProps.thy ===== *)
theory FleetProps
  imports Fleet
begin

text \<open>
  What the hub promises: a proxied path stays inside the API, the polls of a pass do not disturb each
  other, and a node that stops answering is shown as it was last seen.
\<close>

section \<open>Paths\<close>

definition plain :: "string \<Rightarrow> bool" where
  "plain s \<longleftrightarrow> s \<notin> {[], ''.'', ''..''} \<and> CHR ''/'' \<notin> set s"

lemma Split_parts: "s \<in> set (Split x c) \<Longrightarrow> c \<notin> set s"
proof (induction x c arbitrary: s rule: Split.induct)
  case (2 a cs sep)
  then show ?case by (cases "a = sep") (auto split: list.splits)
qed auto

lemma Split_join: "ss \<noteq> [] \<Longrightarrow> \<forall>s \<in> set ss. CHR ''/'' \<notin> set s \<Longrightarrow> Split (join_segs ss) CHR ''/'' = ss"
  by (induction ss rule: join_segs.induct) (simp_all add: Split_no_sep Split_append_sep)

lemma clean_segs_plain:
  "\<forall>s \<in> set ss. CHR ''/'' \<notin> set s \<Longrightarrow> \<forall>s \<in> set out. plain s \<Longrightarrow> \<forall>s \<in> set (clean_segs True out ss). plain s"
proof (induction ss arbitrary: out)
  case (Cons s ss)
  have rest: "\<forall>s \<in> set ss. CHR ''/'' \<notin> set s" and slash: "CHR ''/'' \<notin> set s" using Cons.prems(1) by simp_all
  have tl: "\<forall>s \<in> set (tl out). plain s" using Cons.prems(2) by (cases out) simp_all
  note ih = Cons.IH [OF rest]
  consider "s = [] \<or> s = ''.''" | "s \<noteq> []" "s \<noteq> ''.''" "s \<noteq> ''..''" | "s = ''..''" by blast
  then show ?case
  proof cases
    case 1
    then show ?thesis using ih [OF Cons.prems(2)] by (simp only: clean_segs.simps if_True)
  next
    case 2
    then have "\<forall>s \<in> set (s # out). plain s" using slash Cons.prems(2) by (simp add: plain_def)
    from ih [OF this] show ?thesis using 2 by (simp only: clean_segs.simps) simp
  next
    case 3
    then have "clean_segs True out (s # ss) \<in> {clean_segs True (tl out) ss, clean_segs True out ss}" by simp
    then show ?thesis using ih [OF tl] ih [OF Cons.prems(2)] by (elim insertE emptyE) (simp_all only:)
  qed
qed simp

definition resolved :: "string \<Rightarrow> string list" where
  "resolved tail = clean_segs True [] (''v1'' # Split (TrimPrefix tail ''/'') CHR ''/'')"

lemma resolved_plain: "\<forall>s \<in> set (resolved tail). plain s"
  unfolding resolved_def by (rule clean_segs_plain) (auto dest: Split_parts)

lemma path_Clean_tail: "path_Clean (''/v1/'' @ TrimPrefix tail ''/'') = CHR ''/'' # join_segs (resolved tail)"
proof -
  have "Split (''/v1/'' @ t) CHR ''/'' = [] # ''v1'' # Split t CHR ''/''" for t
    using Split_append_sep [of "''v1''" "CHR ''/''" t] by (simp add: Split_no_sep)
  then show ?thesis by (simp add: path_Clean_def resolved_def HasPrefix_def)
qed

lemma HasPrefix_iff: "HasPrefix x p \<longleftrightarrow> (\<exists>y. x = p @ y)"
  by (auto simp: HasPrefix_def) (metis append_take_drop_id)

lemma Split_root: "Split (CHR ''/'' # x) CHR ''/'' = [] # Split x CHR ''/''"
  by simp

lemma inside_v1:
  assumes "\<forall>s \<in> set ss. plain s"
  shows "(CHR ''/'' # join_segs ss = ''/v1'' \<or> HasPrefix (CHR ''/'' # join_segs ss) ''/v1/'') \<longleftrightarrow>
    (\<exists>rest. ss = ''v1'' # rest)"
proof
  assume a: "CHR ''/'' # join_segs ss = ''/v1'' \<or> HasPrefix (CHR ''/'' # join_segs ss) ''/v1/''"
  then have "ss \<noteq> []" by (cases ss) (simp_all add: HasPrefix_def)
  then have split: "Split (join_segs ss) CHR ''/'' = ss"
    using assms by (intro Split_join) (simp_all add: plain_def)
  have v1: "Split (''v1/'' @ y) CHR ''/'' = ''v1'' # Split y CHR ''/''" for y
    using Split_append_sep [of "''v1''" "CHR ''/''" y] by (simp add: Split_no_sep)
  from a have "join_segs ss = ''v1'' \<or> (\<exists>y. join_segs ss = ''v1/'' @ y)" by (simp add: HasPrefix_iff)
  then show "\<exists>rest. ss = ''v1'' # rest"
  proof
    assume "join_segs ss = ''v1''"
    then have "ss = [''v1'']" using split Split_no_sep [of "CHR ''/''" "''v1''"] by simp
    then show ?thesis by blast
  next
    assume "\<exists>y. join_segs ss = ''v1/'' @ y"
    then obtain y where "join_segs ss = ''v1/'' @ y" by blast
    then have "ss = ''v1'' # Split y CHR ''/''" using split v1 by simp
    then show ?thesis by blast
  qed
next
  assume "\<exists>rest. ss = ''v1'' # rest"
  then obtain rest where r: "ss = ''v1'' # rest" by blast
  show "CHR ''/'' # join_segs ss = ''/v1'' \<or> HasPrefix (CHR ''/'' # join_segs ss) ''/v1/''"
    unfolding r by (cases rest) (simp_all add: HasPrefix_def)
qed

text \<open>
  C34. Where a proxied call may go. Whatever tail a client sends, the path the hub asks for is \<^verbatim>\<open>/v1\<close> followed
  by segments none of which is empty, a dot or two dots; and the tail is refused exactly when its dot-dot
  segments take it out of \<^verbatim>\<open>/v1\<close>.
\<close>

theorem target_stays_inside:
  "(\<forall>p. TargetPath tail = Some p \<longrightarrow>
      (\<exists>segs. Split p CHR ''/'' = [] # ''v1'' # segs \<and> (\<forall>s \<in> set segs. s \<notin> {[], ''.'', ''..''}))) \<and>
   (TargetPath tail = None \<longleftrightarrow>
      (\<forall>rest. clean_segs True [] (''v1'' # Split (TrimPrefix tail ''/'') CHR ''/'') \<noteq> ''v1'' # rest))"
proof -
  note inside = inside_v1 [OF resolved_plain [of tail]]
  have t: "TargetPath tail = (if \<exists>rest. resolved tail = ''v1'' # rest then Some (CHR ''/'' # join_segs (resolved tail)) else None)"
    using inside unfolding TargetPath_def path_Clean_tail Let_def by auto
  have "\<exists>segs. Split p CHR ''/'' = [] # ''v1'' # segs \<and> (\<forall>s \<in> set segs. s \<notin> {[], ''.'', ''..''})"
    if p: "TargetPath tail = Some p" for p
  proof -
    obtain rest where r: "resolved tail = ''v1'' # rest" "p = CHR ''/'' # join_segs (''v1'' # rest)"
      using p unfolding t by (auto split: if_splits)
    then have "Split p CHR ''/'' = [] # ''v1'' # rest"
      using Split_join [of "''v1'' # rest"] resolved_plain [of tail] by (simp add: plain_def)
    then show ?thesis using resolved_plain [of tail] r(1) by (auto simp: plain_def)
  qed
  then show ?thesis unfolding resolved_def [symmetric] using t by auto
qed

theorem target_stays_inside_witness:
  "TargetPath ''processes/../stats'' = Some ''/v1/stats'' \<and> TargetPath ''../v2/x'' = None"
  using target_stays_inside [of "''../v2/x''"]
  by (simp add: TrimPrefix_def HasPrefix_def TargetPath_def path_Clean_def)

section \<open>Polls\<close>

text \<open>What a poll learns of a node, on its own: the status it is about to record.\<close>

definition asked :: "Outside \<Rightarrow> string \<Rightarrow> string \<Rightarrow> (string \<Rightarrow> 'a option) \<Rightarrow> fleet_err + 'a" where
  "asked env url token parse =
     (case ou_get env url (''Bearer '' @ token) of
        None \<Rightarrow> Inl CallFailed
      | Some (status, body) \<Rightarrow>
          if status \<ge> 400 then Inl (AnswerStatus status)
          else case parse body of None \<Rightarrow> Inl DecodeFailed | Some x \<Rightarrow> Inr x)"

definition learned :: "Outside \<Rightarrow> Node \<Rightarrow> NodeStatus" where
  "learned env n =
     (let status = zero_NodeStatus\<lparr>ns_Name := nd_name n, ns_URL := nd_url n\<rparr>
      in case read_token env (nd_tokenFile n) of
           Inl e \<Rightarrow> status\<lparr>ns_Error := Some e\<rparr>
         | Inr token \<Rightarrow>
             (case asked env (nd_url n @ ''/v1/health'') token (ou_version env) of
                Inl e \<Rightarrow> status\<lparr>ns_Error := Some e\<rparr>
              | Inr version \<Rightarrow>
                  (case asked env (nd_url n @ ''/v1/stats'') token (ou_stats env) of
                     Inl e \<Rightarrow> status\<lparr>ns_Error := Some e, ns_Version := version\<rparr>
                   | Inr stats \<Rightarrow> status\<lparr>ns_Reachable := True, ns_Version := version,
                       ns_LastSeen := Some (ou_now env), ns_Stats := stats\<rparr>)))"

definition with_token :: "Outside \<Rightarrow> Node \<Rightarrow> nat \<Rightarrow> Hub \<Rightarrow> Hub" where
  "with_token env n k f =
     (case read_token env (nd_tokenFile n) of
        Inl _ \<Rightarrow> f
      | Inr token \<Rightarrow> f\<lparr>hub_token := (hub_token f)(k := token)\<rparr>)"

lemma byName_distinct:
  assumes "distinct (Names ns)" and "k < length ns"
  shows "byName ns (nd_name (ns ! k)) = Some k"
proof -
  have "distinct (map (\<lambda>i. nd_name (ns ! i)) (rev [0..<length ns]))"
    using assms(1) unfolding rev_map [symmetric] distinct_rev
    by (auto simp: Names_def distinct_map inj_on_def distinct_conv_nth)
  then show ?thesis unfolding byName_def using assms(2)
    by (intro find_Some_iff_distinct [THEN iffD2]) auto
qed

lemma poll_learned:
  assumes "distinct (Names ns)" and "k < length ns"
  shows "poll env ns k f = record_status (learned env (ns ! k)) (with_token env (ns ! k) k f)"
  using byName_distinct [OF assms]
  by (simp add: poll_def learned_def with_token_def decode_from_def Get_def asked_def Let_def
      split: sum.splits option.splits prod.splits)


lemma learned_name [simp]: "ns_Name (learned env n) = nd_name n"
  by (simp add: learned_def zero_NodeStatus_def Let_def split: sum.splits)

lemma learned_seen: "ns_LastSeen (learned env n) = (if ns_Reachable (learned env n) then Some (ou_now env) else None)"
  by (simp add: learned_def zero_NodeStatus_def Let_def split: sum.splits)

lemma with_token_status [simp]: "hub_status (with_token env n k f) = hub_status f"
  by (simp add: with_token_def split: sum.splits)

definition kept :: "NodeStatus \<Rightarrow> NodeStatus option \<Rightarrow> NodeStatus" where
  "kept s previous =
     (case previous of
        Some p \<Rightarrow> if ns_LastSeen s = None
                  then s\<lparr>ns_Version := ns_Version p, ns_LastSeen := ns_LastSeen p, ns_Stats := ns_Stats p\<rparr> else s
      | None \<Rightarrow> s)"

lemma poll_status:
  assumes "distinct (Names ns)" and "k < length ns"
  shows "hub_status (poll env ns k f) =
    (hub_status f)(nd_name (ns ! k) \<mapsto> kept (learned env (ns ! k)) (hub_status f (nd_name (ns ! k))))"
  by (simp add: poll_learned [OF assms] record_status_def kept_def)

lemma poll_eq:
  assumes "distinct (Names ns)" and "k < length ns"
  shows "poll env ns k f = f\<lparr>
    hub_token := (case read_token env (nd_tokenFile (ns ! k)) of Inl _ \<Rightarrow> hub_token f | Inr token \<Rightarrow> (hub_token f)(k := token)),
    hub_status := (hub_status f)(nd_name (ns ! k) \<mapsto> kept (learned env (ns ! k)) (hub_status f (nd_name (ns ! k))))\<rparr>"
  by (simp add: poll_learned [OF assms] record_status_def kept_def with_token_def split: sum.splits)

lemma names_differ: "distinct (Names ns) \<Longrightarrow> j < length ns \<Longrightarrow> k < length ns \<Longrightarrow> j \<noteq> k \<Longrightarrow> nd_name (ns ! j) \<noteq> nd_name (ns ! k)"
  by (auto simp: Names_def distinct_conv_nth)

lemma polls_commute:
  assumes "distinct (Names ns)" and "j < length ns" and "k < length ns"
  shows "poll (env j) ns j \<circ> poll (env k) ns k = poll (env k) ns k \<circ> poll (env j) ns j"
proof (cases "j = k")
  case False
  note n = names_differ [OF assms False]
  show ?thesis
    using n False
    by (auto simp: fun_eq_iff poll_eq [OF assms(1,2)] poll_eq [OF assms(1,3)] fun_upd_twist split: sum.splits)
qed simp

text \<open>A fleet of two nodes, and what is around the hub when the first answers and when it does not.\<close>

definition two_nodes :: "Node list" where
  "two_nodes = map (\<lambda>(name, host). \<lparr>nd_name = name, nd_url = ''http://'' @ host, nd_scheme = ''http'', nd_host = host,
     nd_tokenFile = ''/etc/t''\<rparr>) [(''a'', ''10.0.0.1''), (''b'', ''10.0.0.2'')]"

definition around :: "int option \<Rightarrow> Outside" where
  "around status = \<lparr>ou_file = (\<lambda>_. Some ''secret''), ou_get = (\<lambda>_ _. map_option (\<lambda>s. (s, ''{}'')) status),
     ou_version = (\<lambda>_. Some ''1.0''), ou_stats = (\<lambda>_. Some []), ou_now = 5\<rparr>"

lemma around_simps [simp]:
  "read_token (around s) x = Inr ''secret''"
  "asked (around None) url token p = Inl CallFailed"
  "asked (around (Some 200)) url token p = (case p ''{}'' of None \<Rightarrow> Inl DecodeFailed | Some x \<Rightarrow> Inr x)"
  "ou_version (around s) = (\<lambda>_. Some ''1.0'')" "ou_stats (around s) = (\<lambda>_. Some [])" "ou_now (around s) = 5"
  by (simp_all add: read_token_def asked_def around_def TrimSpace_def is_space_def)

text \<open>
  Polling in parallel. Whatever the order in which the polls of a pass take effect, the hub ends up
  knowing the same: one node that is slow or down changes nothing of what is recorded for the others.
\<close>

theorem polls_in_any_order:
  assumes "distinct (Names ns)" and "mset order = mset [0..<length ns]"
  shows "pollAll env ns order f = pollAll env ns [0..<length ns] f"
proof -
  have m: "set order = {0..<length ns}" using arg_cong [OF assms(2), of set_mset] by simp
  have "fold (\<lambda>k. poll (env k) ns k) order = fold (\<lambda>k. poll (env k) ns k) [0..<length ns]"
    by (rule fold_multiset_equiv [OF _ assms(2)]) (use m assms(1) polls_commute in auto)
  then show ?thesis by (simp add: pollAll_def)
qed

theorem polls_in_any_order_witness:
  "pollAll (\<lambda>_. around None) two_nodes [1, 0] \<lparr>hub_token = (\<lambda>_. []), hub_status = Map.empty\<rparr> =
   pollAll (\<lambda>_. around None) two_nodes [0, 1] \<lparr>hub_token = (\<lambda>_. []), hub_status = Map.empty\<rparr>"
proof -
  have "[0..<length two_nodes] = [0, 1]" by (simp add: two_nodes_def upt_rec)
  moreover have "distinct (Names two_nodes)" by (simp add: Names_def two_nodes_def)
  ultimately show ?thesis
    using polls_in_any_order [of two_nodes "[1, 0]"] by (simp add: add_mset_commute)
qed

text \<open>
  What a hub shows of a node, after any number of polls of all its nodes in any order. Whether the node
  is reachable, and the error, are those of its last poll; the version, the counters and the time it was
  last seen are those of the last poll it answered, or what was known before when it answered none.
\<close>

theorem node_is_shown_as_last_seen:
  fixes events :: "(nat \<times> Outside) list"
  assumes "distinct (Names ns)" and "\<forall>(k, _) \<in> set events. k < length ns" and "j < length ns"
    and "hub_status f (nd_name (ns ! j)) = Some before"
    and "mine = map snd (filter (\<lambda>(k, _). k = j) events)" and "mine \<noteq> []"
    and "answered = filter (\<lambda>env. ns_Reachable (learned env (ns ! j))) mine"
  shows "\<exists>s. hub_status (fold (\<lambda>(k, env). poll env ns k) events f) (nd_name (ns ! j)) = Some s \<and>
    ns_Reachable s = ns_Reachable (learned (last mine) (ns ! j)) \<and>
    ns_Error s = ns_Error (learned (last mine) (ns ! j)) \<and>
    (ns_LastSeen s, ns_Version s, ns_Stats s) =
      (if answered = [] then (ns_LastSeen before, ns_Version before, ns_Stats before)
       else let seen = learned (last answered) (ns ! j)
            in (Some (ou_now (last answered)), ns_Version seen, ns_Stats seen))"
proof -
  define shown :: "Outside list \<Rightarrow> NodeStatus \<Rightarrow> bool" where
    "shown xs s \<longleftrightarrow> (if xs = [] then s = before else
        ns_Reachable s = ns_Reachable (learned (last xs) (ns ! j)) \<and> ns_Error s = ns_Error (learned (last xs) (ns ! j))) \<and>
      (let as = filter (\<lambda>env. ns_Reachable (learned env (ns ! j))) xs in
       (ns_LastSeen s, ns_Version s, ns_Stats s) =
      (if as = [] then (ns_LastSeen before, ns_Version before, ns_Stats before)
       else let seen = learned (last as) (ns ! j) in (Some (ou_now (last as)), ns_Version seen, ns_Stats seen)))" for xs s
  have "\<exists>s. hub_status (fold (\<lambda>(k, env). poll env ns k) es f) (nd_name (ns ! j)) = Some s \<and>
      shown (map snd (filter (\<lambda>(k, _). k = j) es)) s" if "\<forall>(k, _) \<in> set es. k < length ns" for es
    using that
  proof (induction es rule: rev_induct)
    case Nil
    then show ?case using assms(4) by (simp add: shown_def)
  next
    case (snoc e es)
    obtain k env where e: "e = (k, env)" by (cases e)
    have k: "k < length ns" using snoc.prems e by simp
    obtain s where s: "hub_status (fold (\<lambda>(k, env). poll env ns k) es f) (nd_name (ns ! j)) = Some s"
      "shown (map snd (filter (\<lambda>(k, _). k = j) es)) s" using snoc by auto
    show ?case
    proof (cases "k = j")
      case False
      then show ?thesis using s names_differ [OF assms(1) k assms(3)]
        by (simp add: e poll_status [OF assms(1) k])
    next
      case True
      have "shown (xs @ [env]) (kept (learned env (ns ! j)) (Some s))" if "shown xs s" for xs
        using that learned_seen [of env "ns ! j"] by (auto simp: shown_def kept_def Let_def split: if_splits)
      then show ?thesis using s True by (simp add: e poll_status [OF assms(1,3)])
    qed
  qed
  from this [OF assms(2)] obtain s where
    s: "hub_status (fold (\<lambda>(k, env). poll env ns k) events f) (nd_name (ns ! j)) = Some s" "shown mine s"
    unfolding assms(5) by blast
  from s(2) assms(6) show ?thesis unfolding s(1) shown_def assms(7) [symmetric] Let_def by simp
qed


theorem node_is_shown_as_last_seen_witness:
  "\<exists>s. hub_status (fold (\<lambda>(k, env). poll env two_nodes k) [(0, around (Some 200)), (1, around None), (0, around None)]
        \<lparr>hub_token = (\<lambda>_. []), hub_status = [''a'' \<mapsto> zero_NodeStatus]\<rparr>) ''a'' = Some s \<and>
     \<not> ns_Reachable s \<and> ns_Error s = Some CallFailed \<and> ns_LastSeen s = Some 5"
proof -
  have up: "learned (around (Some 200)) (two_nodes ! 0) = \<lparr>ns_Name = ''a'', ns_URL = ''http://10.0.0.1'', ns_Reachable = True,
      ns_Error = None, ns_Version = ''1.0'', ns_LastSeen = Some 5, ns_Stats = []\<rparr>"
    by (simp add: learned_def two_nodes_def zero_NodeStatus_def)
  have down: "\<not> ns_Reachable (learned (around None) (two_nodes ! 0))" "ns_Error (learned (around None) (two_nodes ! 0)) = Some CallFailed"
    by (simp_all add: learned_def two_nodes_def zero_NodeStatus_def)
  have names: "nd_name (two_nodes ! 0) = ''a''" "distinct (Names two_nodes)" "length two_nodes = 2"
    by (simp_all add: two_nodes_def Names_def)
  show ?thesis
    using node_is_shown_as_last_seen [of two_nodes "[(0, around (Some 200)), (1, around None), (0, around None)]" 0
        "\<lparr>hub_token = (\<lambda>_. []), hub_status = [''a'' \<mapsto> zero_NodeStatus]\<rparr>" zero_NodeStatus
        "[around (Some 200), around None]" "[around (Some 200)]"] names down
    by (auto simp: up)
qed

end
