(* ===== verification/FleetApiProps.thy ===== *)
theory FleetApiProps
  imports FleetApi FleetProps
begin

text \<open>
  The hub's answers: a merged page is the newest of what the nodes hold, an unreachable node degrades it and
  nothing else, and a dispatch that had no answer never reads as a refusal.
\<close>

section \<open>Merging\<close>

lemma gather_one_simps [simp]:
  "gather_one (name, Inl e) g = g\<lparr>ga_failures := AList.update name e (ga_failures g)\<rparr>"
  "gather_one (name, Inr l) g =
     g\<lparr>ga_items := ga_items g @ map (tag name) (li_Items l), ga_cursor := li_NextCursor l\<rparr>"
  by (simp_all add: gather_one_def)

definition items_of :: "string \<Rightarrow> fleet_err + fleetListing \<Rightarrow> item list" where
  "items_of name r = (case r of Inl _ \<Rightarrow> [] | Inr l \<Rightarrow> map (tag name) (li_Items l))"

lemma gather_items:
  "ga_items (fold gather_one (map (\<lambda>name. (name, fetch name)) names) g) =
     ga_items g @ concat (map (\<lambda>name. items_of name (fetch name)) names)"
  by (induction names arbitrary: g) (auto simp: items_of_def split: sum.splits)

lemma gather_failures:
  "ga_failures (fold gather_one (map (\<lambda>name. (name, fetch name)) names) g) =
     fold (\<lambda>name fs. case fetch name of Inl e \<Rightarrow> AList.update name e fs | Inr _ \<Rightarrow> fs) names (ga_failures g)"
  by (induction names arbitrary: g) (auto split: sum.splits)

lemma failure_names:
  "fst ` set (fold (\<lambda>name fs. case fetch name of Inl e \<Rightarrow> AList.update name e fs | Inr _ \<Rightarrow> fs) names fs) =
     fst ` set fs \<union> {name \<in> set names. \<exists>e. fetch name = Inl e}"
proof (induction names arbitrary: fs)
  case (Cons name names)
  show ?case
  proof (cases "fetch name")
    case (Inl e)
    then have "fst ` set (fold (\<lambda>name fs. case fetch name of Inl e \<Rightarrow> AList.update name e fs | Inr _ \<Rightarrow> fs) (name # names) fs) =
        fst ` set (AList.update name e fs) \<union> {name \<in> set names. \<exists>e. fetch name = Inl e}"
      by (simp add: Cons.IH)
    then show ?thesis using Inl by (auto simp: dom_update)
  next
    case (Inr l)
    then have "fst ` set (fold (\<lambda>name fs. case fetch name of Inl e \<Rightarrow> AList.update name e fs | Inr _ \<Rightarrow> fs) (name # names) fs) =
        fst ` set fs \<union> {name \<in> set names. \<exists>e. fetch name = Inl e}"
      by (simp add: Cons.IH)
    then show ?thesis using Inr by auto
  qed
qed simp

lemma failure_names_distinct:
  "distinct (map fst fs) \<Longrightarrow> distinct (map fst
     (fold (\<lambda>name fs. case fetch name of Inl e \<Rightarrow> AList.update name e fs | Inr _ \<Rightarrow> fs) names fs))"
  by (induction names arbitrary: fs) (auto simp: distinct_update split: sum.splits)

section \<open>Dispatch\<close>

lemma dw_done: "dw_written d \<Longrightarrow> fold dw_WriteHeader ss d = d"
  by (induction ss) (simp_all add: dw_WriteHeader_def)

lemma dw_writes:
  "dw_written d \<Longrightarrow> \<not> dw_replaced d \<Longrightarrow> re_status (dw_response d) = Some s \<Longrightarrow>
     fold dw_Write chunks d = d\<lparr>dw_response := (dw_response d)\<lparr>re_body := re_body (dw_response d) @ concat chunks\<rparr>\<rparr>"
proof (induction chunks arbitrary: d)
  case (Cons c cs)
  have "dw_Write c d = d\<lparr>dw_response := rw_Write c (dw_response d)\<rparr>" using Cons.prems by (simp add: dw_Write_def)
  then show ?case using Cons by (simp add: rw_Write_def)
qed simp

lemma dw_swallows: "dw_written d \<Longrightarrow> dw_replaced d \<Longrightarrow> fold dw_Write chunks d = d"
  by (induction chunks) (simp_all add: dw_Write_def)

lemma dw_informed:
  assumes "infos \<noteq> []" and "\<forall>i \<in> set infos. informational i"
  shows "fold dw_WriteHeader infos new_dispatchWriter = \<lparr>dw_written = True, dw_replaced = False,
    dw_response = \<lparr>re_informational = [hd infos], re_status = None, re_body = ''''\<rparr>\<rparr>"
proof -
  obtain x rest where infos: "infos = x # rest" "informational x" using assms by (cases infos) auto
  have "x \<noteq> 502" using infos(2) by (auto simp: informational_def)
  then show ?thesis
    using infos by (simp add: dw_WriteHeader_def [of x] new_dispatchWriter_def no_response_def rw_WriteHeader_def dw_done)
qed

lemma dw_implicit:
  assumes "dw_written d" and "\<not> dw_replaced d" and "re_status (dw_response d) = None"
  shows "dw_response (fold dw_Write chunks d) = (dw_response d)\<lparr>re_status := (if chunks = [] then None else Some 200),
    re_body := re_body (dw_response d) @ concat chunks\<rparr>"
proof (cases chunks)
  case Nil
  then show ?thesis using assms(3) by simp
next
  case (Cons c rest)
  let ?d = "d\<lparr>dw_response := rw_Write c (dw_response d)\<rparr>"
  have "dw_Write c d = ?d" using assms by (simp add: dw_Write_def)
  then show ?thesis using Cons dw_writes [of ?d 200 rest] assms by (simp add: rw_Write_def)
qed

text \<open>
  C35. The answer of a dispatch. A node that answers is passed on as it is, status and body, unless it answers 502
  itself: that answer is replaced, although the documentation says the answer is the node's own, and reads like
  that of a node that did not answer, 504 \<^verbatim>\<open>dispatch_unknown\<close> in one JSON document. And informational statuses
  spend the writer, however many there are: the first one is passed on, the status after them is lost, so that
  every answer with a body, and the error of a node that then does not answer, reads as 200.
\<close>

theorem dispatch_answer:
  assumes "\<not> informational status" and "infos \<noteq> []" and "\<forall>i \<in> set infos. informational i"
  shows "dispatched (Answer [] status chunks) =
      (if status = 502 then \<lparr>re_informational = [], re_status = Some 504, re_body = dispatch_unknown\<rparr>
       else \<lparr>re_informational = [], re_status = Some status, re_body = concat chunks\<rparr>) \<and>
    dispatched (NoAnswer []) = \<lparr>re_informational = [], re_status = Some 504, re_body = dispatch_unknown\<rparr> \<and>
    dispatched (Answer infos status chunks) =
      \<lparr>re_informational = [hd infos], re_status = (if chunks = [] then None else Some 200), re_body = concat chunks\<rparr> \<and>
    dispatched (NoAnswer infos) = \<lparr>re_informational = [hd infos], re_status = Some 200, re_body = node_unreachable\<rparr>"
proof (intro conjI)
  have g: "\<not> informational 504" by (simp add: informational_def)
  have h: "dw_WriteHeader status new_dispatchWriter =
      (if status = 502 then \<lparr>dw_written = True, dw_replaced = True,
          dw_response = \<lparr>re_informational = [], re_status = Some 504, re_body = dispatch_unknown\<rparr>\<rparr>
       else \<lparr>dw_written = True, dw_replaced = False,
          dw_response = \<lparr>re_informational = [], re_status = Some status, re_body = ''''\<rparr>\<rparr>)"
    using assms(1) g by (simp add: dw_WriteHeader_def new_dispatchWriter_def no_response_def rw_WriteHeader_def rw_Write_def)
  show "dispatched (Answer [] status chunks) =
      (if status = 502 then \<lparr>re_informational = [], re_status = Some 504, re_body = dispatch_unknown\<rparr>
       else \<lparr>re_informational = [], re_status = Some status, re_body = concat chunks\<rparr>)"
  proof (cases "status = 502")
    case True
    then show ?thesis using h by (simp add: dispatched_def dw_swallows)
  next
    case False
    then show ?thesis by (simp add: dispatched_def h dw_writes)
  qed
  show "dispatched (NoAnswer []) = \<lparr>re_informational = [], re_status = Some 504, re_body = dispatch_unknown\<rparr>"
    using g by (simp add: dispatched_def dw_Write_def dw_WriteHeader_def new_dispatchWriter_def no_response_def
        rw_WriteHeader_def rw_Write_def)
  note informed = dw_informed [OF assms(2,3)]
  have spent: "dw_WriteHeader s (fold dw_WriteHeader infos new_dispatchWriter) = fold dw_WriteHeader infos new_dispatchWriter" for s
    by (simp add: informed dw_WriteHeader_def)
  show "dispatched (Answer infos status chunks) =
      \<lparr>re_informational = [hd infos], re_status = (if chunks = [] then None else Some 200), re_body = concat chunks\<rparr>"
    unfolding dispatched_def node_answer.case spent by (subst dw_implicit) (simp_all add: informed)
  show "dispatched (NoAnswer infos) = \<lparr>re_informational = [hd infos], re_status = Some 200, re_body = node_unreachable\<rparr>"
    unfolding dispatched_def node_answer.case spent using dw_implicit [of _ "[node_unreachable]"] by (simp add: informed)
qed

theorem dispatch_answer_witness:
  "dispatched (Answer [] 201 [''{}'']) = \<lparr>re_informational = [], re_status = Some 201, re_body = ''{}''\<rparr> \<and>
   dispatched (Answer [103, 100] 201 [''{}'']) = \<lparr>re_informational = [103], re_status = Some 200, re_body = ''{}''\<rparr>"
  using dispatch_answer [of 201 "[103, 100]" "[''{}'']"] by (simp add: informational_def)

text \<open>A refusal of the node's own gateway is turned into the answer that says nobody knows.\<close>

theorem node_502_reads_as_unknown:
  "dispatched (Answer [] 502 [body]) = dispatched (NoAnswer []) \<and> re_status (dispatched (Answer [] 502 [body])) = Some 504"
  by (simp add: dispatched_def dw_Write_def dw_WriteHeader_def new_dispatchWriter_def no_response_def
      rw_WriteHeader_def rw_Write_def informational_def)

section \<open>The merged page\<close>

lemma keys_of_tag: "map_of (tag name item) ''created_at'' = map_of item ''created_at''"
  by (simp add: tag_def update_conv')

lemma createdAtOf_tag [simp]: "createdAtOf nano (tag name item) = createdAtOf nano item"
  by (simp add: createdAtOf_def keys_of_tag)

text \<open>
  The newest \<open>L\<close> of some stamps, newest first. Keeping the newest \<open>L\<close> of every part first changes nothing of the
  newest \<open>L\<close> of the whole: a list in descending order is known by how many of its elements are at least
  \<open>t\<close>, for every \<open>t\<close>, and taking \<open>L\<close> of them caps that number at \<open>L\<close>.
\<close>

definition newest :: "nat \<Rightarrow> gtime list \<Rightarrow> gtime list" where
  "newest L ts = take L (sort_key uminus ts)"

definition since :: "gtime \<Rightarrow> gtime list \<Rightarrow> nat" where
  "since t ts = length (filter (\<lambda>x. t \<le> x) ts)"

abbreviation descending :: "gtime list \<Rightarrow> bool" where
  "descending ts \<equiv> sorted (map uminus ts)"

lemma since_simps [simp]:
  "since t [] = 0" "since t (x # xs) = (if t \<le> x then 1 else 0) + since t xs" "since t (xs @ ys) = since t xs + since t ys"
  by (simp_all add: since_def)

lemma since_0: "descending (x # xs) \<Longrightarrow> x < t \<Longrightarrow> since t xs = 0"
  by (auto simp: since_def filter_empty_conv)

lemma since_take: "descending ts \<Longrightarrow> since t (take L ts) = min L (since t ts)"
proof (induction ts arbitrary: L)
  case (Cons x xs)
  then show ?case
  proof (cases L)
    case (Suc n)
    have "since t (take n xs) = min n (since t xs)" using Cons by simp
    then show ?thesis using Suc since_0 [OF Cons.prems, of t] by (cases "t \<le> x") auto
  qed simp
qed simp

lemma since_unique: "descending xs \<Longrightarrow> descending ys \<Longrightarrow> \<forall>t. since t xs = since t ys \<Longrightarrow> xs = ys"
proof (induction xs arbitrary: ys)
  case Nil
  then show ?case by (cases ys) (auto dest: spec [of _ "hd ys"])
next
  case (Cons x xs)
  have "0 < since x ys" using spec [OF Cons.prems(3), of x] by simp
  then obtain y zs where ys: "ys = y # zs" by (cases ys) auto
  have xy: "x \<le> y"
    by (rule ccontr) (use since_0 [of y zs x] Cons.prems(2) \<open>0 < since x ys\<close> in \<open>simp add: ys\<close>)
  have "0 < since y (x # xs)" using Cons.prems(3) ys by simp
  then have "y \<le> x"
    by (intro ccontr [of "y \<le> x"]) (use since_0 [of x xs y] Cons.prems(1) in simp)
  with xy have "x = y" by simp
  moreover have "\<forall>t. since t xs = since t zs" using Cons.prems(3) unfolding ys \<open>x = y\<close> by simp
  ultimately show ?case using Cons.IH [of zs] Cons.prems(1,2) ys by simp
qed

lemma descending_sort: "descending (sort_key uminus ts)"
  by simp

lemma since_sort [simp]: "since t (sort_key uminus ts) = since t ts"
  unfolding since_def by (metis filter_sort length_sort)

lemma since_newest: "since t (newest L ts) = min L (since t ts)"
  unfolding newest_def using since_take [OF descending_sort] by simp

lemma descending_newest: "descending (newest L ts)"
  unfolding newest_def take_map [symmetric] by (rule sorted_wrt_take) simp

lemma newest_concat: "newest L (concat (map (\<lambda>x. newest L (f x)) xs)) = newest L (concat (map f xs))"
proof (rule since_unique [OF descending_newest descending_newest], rule)
  fix t
  have "min L (since t (concat (map (\<lambda>x. newest L (f x)) xs))) = min L (since t (concat (map f xs)))"
    by (induction xs) (auto simp: since_newest)
  then show "since t (newest L (concat (map (\<lambda>x. newest L (f x)) xs))) = since t (newest L (concat (map f xs)))"
    by (simp add: since_newest)
qed

lemma since_size: "since t ts = size (filter_mset (\<lambda>x. t \<le> x) (mset ts))"
  unfolding since_def by (simp flip: mset_filter)

lemma newest_mset: "mset ts = mset us \<Longrightarrow> newest L ts = newest L us"
  by (rule since_unique [OF descending_newest descending_newest]) (simp add: since_newest, simp add: since_size)

lemma mset_concat_map: "mset (concat (map f xs)) = \<Sum>\<^sub># (image_mset (\<lambda>x. mset (f x)) (mset xs))"
  by (induction xs) simp_all

lemma map_key_sort: "map f (sort_key (\<lambda>x. - f x) xs) = sort_key uminus (map f xs)" for f :: "'a \<Rightarrow> gtime"
proof (rule since_unique)
  show "descending (map f (sort_key (\<lambda>x. - f x) xs))" using sorted_sort_key [of "\<lambda>x. - f x" xs] by (simp add: comp_def)
  show "descending (sort_key uminus (map f xs))" by (rule descending_sort)
  show "\<forall>t. since t (map f (sort_key (\<lambda>x. - f x) xs)) = since t (sort_key uminus (map f xs))"
    by (simp add: since_size)
qed

text \<open>One node that has an execution to show and one that does not answer.\<close>

definition one_answers :: "string \<Rightarrow> query \<Rightarrow> fleet_err + fleetListing" where
  "one_answers name q =
     (if name = ''a'' then Inr \<lparr>li_Items = [[(''created_at'', AnyString ''now'')]], li_NextCursor = ''''\<rparr> else Inl CallFailed)"

text \<open>
  C36. A merged listing. When every node that answers gives the newest of its executions, up to the limit of
  the request, the page is the newest of what all of them hold together, in whatever order they answer;
  every row is tagged with the node it came from; and the nodes that did not answer are named, in order,
  and cost nothing but their own rows.
\<close>

theorem merged_page:
  assumes "parseFilter rfc3339 cursor_of q = Inr f" and "distinct (Names ns)"
    and "mset (arrival (Names ns)) = mset (Names ns)"
    and "\<forall>name l. fetch name (filter (\<lambda>(k, _). k \<noteq> ''node'') q) = Inr l \<longrightarrow>
      map (createdAtOf nano) (li_Items l) = newest (nat (f_Limit f)) (stamps name)"
    and "up = (\<lambda>name. \<exists>l. fetch name (filter (\<lambda>(k, _). k \<noteq> ''node'') q) = Inr l)"
  shows "\<exists>r. listFleetProcesses rfc3339 cursor_of nano fetch ns arrival q allNodes = Answered 200 False r \<and>
    map (createdAtOf nano) (fr_items r) = newest (nat (f_Limit f)) (concat (map stamps (filter up (Names ns)))) \<and>
    (\<forall>item \<in> set (fr_items r). \<exists>name \<in> set (Names ns). \<exists>l.
       fetch name (filter (\<lambda>(k, _). k \<noteq> ''node'') q) = Inr l \<and> item \<in> tag name ` set (li_Items l)) \<and>
    fr_unreachable r = (let down = sort (filter (\<lambda>name. \<not> up name) (Names ns)) in if down = [] then None else Some down)"
proof -
  define q' where "q' = filter (\<lambda>(k, _). k \<noteq> ''node'') q"
  define order where "order = arrival (Names ns)"
  define L where "L = nat (f_Limit f)"
  define merged where "merged = gather (\<lambda>name. fetch name q') order"
  note [simp] = q'_def [symmetric] order_def [symmetric] L_def [symmetric]
  have set_order: "set order = set (Names ns)" using arg_cong [OF assms(3), of set_mset] by simp
  have items: "ga_items merged = concat (map (\<lambda>name. items_of name (fetch name q')) order)"
    by (simp add: merged_def gather_def gather_items)
  have failures: "ga_failures merged = fold (\<lambda>name fs. case fetch name q' of Inl e \<Rightarrow> AList.update name e fs | Inr _ \<Rightarrow> fs) order []"
    by (simp add: merged_def gather_def gather_failures)
  have up: "up name \<longleftrightarrow> (\<exists>l. fetch name q' = Inr l)" for name by (simp add: assms(5))
  define r where "r = \<lparr>fr_items = take L (sort_key (\<lambda>item. - createdAtOf nano item) (ga_items merged)),
      fr_next_cursor = None,
      fr_unreachable = (if ga_failures merged \<noteq> [] then Some (sort (map fst (ga_failures merged))) else None)\<rparr>"
  have "listFleetProcesses rfc3339 cursor_of nano fetch ns arrival q allNodes = Answered 200 False r"
    using assms(1) by (simp add: listFleetProcesses_def r_def Let_def merged_def)
  moreover have "map (createdAtOf nano) (fr_items r) = newest L (concat (map stamps (filter up (Names ns))))"
  proof -
    have "map (createdAtOf nano) (items_of name (fetch name q')) = (if up name then newest L (stamps name) else [])" for name
      using assms(4) by (auto simp: up items_of_def comp_def split: sum.splits)
    then have "map (createdAtOf nano) (ga_items merged) = concat (map (\<lambda>name. if up name then newest L (stamps name) else []) order)"
      by (simp add: items map_concat comp_def)
    also have "\<dots> = concat (map (\<lambda>name. newest L (stamps name)) (filter up order))"
      by (induction order) simp_all
    finally have "map (createdAtOf nano) (fr_items r) = newest L (concat (map stamps (filter up order)))"
      using newest_concat [of L stamps "filter up order"]
      by (simp add: r_def map_key_sort newest_def flip: take_map)
    moreover have "mset (concat (map stamps (filter up order))) = mset (concat (map stamps (filter up (Names ns))))"
      using assms(3) by (simp add: mset_concat_map)
    ultimately show ?thesis using newest_mset by metis
  qed
  moreover have "\<exists>name \<in> set (Names ns). \<exists>l. fetch name q' = Inr l \<and> item \<in> tag name ` set (li_Items l)"
    if "item \<in> set (fr_items r)" for item
  proof -
    have "item \<in> set (ga_items merged)" using in_set_takeD that by (fastforce simp: r_def)
    then obtain name where name: "name \<in> set order" "item \<in> set (items_of name (fetch name q'))"
      unfolding items by auto
    then obtain l where "fetch name q' = Inr l" "item \<in> tag name ` set (li_Items l)"
      by (cases "fetch name q'") (auto simp: items_of_def)
    then show ?thesis using name(1) set_order by blast
  qed
  moreover have "fr_unreachable r = (let down = sort (filter (\<lambda>name. \<not> up name) (Names ns)) in if down = [] then None else Some down)"
  proof -
    have names: "set (map fst (ga_failures merged)) = set (filter (\<lambda>name. \<not> up name) (Names ns))"
      unfolding failures using set_order by (auto simp: failure_names up) (metis obj_sumE)
    have "distinct (map fst (ga_failures merged))" unfolding failures by (rule failure_names_distinct) simp
    then have "sort (map fst (ga_failures merged)) = sort (filter (\<lambda>name. \<not> up name) (Names ns))"
      using names assms(2) by (intro sorted_distinct_set_unique) simp_all
    moreover have "ga_failures merged = [] \<longleftrightarrow> sort (filter (\<lambda>name. \<not> up name) (Names ns)) = []"
      using calculation by (metis length_0_conv length_map length_sort)
    ultimately show ?thesis by (simp add: r_def Let_def)
  qed
  ultimately show ?thesis unfolding q'_def [symmetric] L_def [symmetric] by blast
qed


theorem merged_page_witness:
  "\<exists>r. listFleetProcesses (\<lambda>_. None) (\<lambda>_. CursorNone) (\<lambda>_. Some 7) one_answers two_nodes rev [(''node'', ''*'')] allNodes =
      Answered 200 False r \<and>
    map (createdAtOf (\<lambda>_. Some 7)) (fr_items r) = [7] \<and> fr_unreachable r = Some [''b'']"
proof -
  have f: "\<exists>f. parseFilter (\<lambda>_. None) (\<lambda>_. CursorNone) [(''node'', ''*'')] = Inr f \<and> f_Limit f = 50"
    by (simp add: parseFilter_def query_get_def query_all_def parseTime_def parseLimit_def defaultListLimit_def Let_def)
  then obtain f where f: "parseFilter (\<lambda>_. None) (\<lambda>_. CursorNone) [(''node'', ''*'')] = Inr f" "f_Limit f = 50" by blast
  have names: "Names two_nodes = [''a'', ''b'']" by (simp add: Names_def two_nodes_def)
  have seven: "newest 50 [7] = [7]" by (simp add: newest_def)
  have item: "createdAtOf (\<lambda>_. Some 7) [(''created_at'', AnyString ''now'')] = 7" by (simp add: createdAtOf_def)
  have pages: "\<forall>name l. one_answers name (filter (\<lambda>(k, _). k \<noteq> ''node'') [(''node'', ''*'')]) = Inr l \<longrightarrow>
      map (createdAtOf (\<lambda>_. Some 7)) (li_Items l) = newest (nat (f_Limit f)) [7]"
  proof (intro allI impI)
    fix name l
    assume "one_answers name (filter (\<lambda>(k, _). k \<noteq> ''node'') [(''node'', ''*'')]) = Inr l"
    then show "map (createdAtOf (\<lambda>_. Some 7)) (li_Items l) = newest (nat (f_Limit f)) [7]"
      by (cases "name = ''a''") (auto simp: one_answers_def item f(2) seven)
  qed
  have up: "(\<lambda>name. name = ''a'') = (\<lambda>name. \<exists>l. one_answers name (filter (\<lambda>(k, _). k \<noteq> ''node'') [(''node'', ''*'')]) = Inr l)"
    by (rule ext, simp add: one_answers_def)
  have m: "mset (rev (Names two_nodes)) = mset (Names two_nodes)" "distinct (Names two_nodes)" by (simp_all add: names)
  show ?thesis
    using merged_page [where stamps = "\<lambda>_. [7]" and arrival = rev and ns = two_nodes and fetch = one_answers, OF f(1) m(2) m(1) pages up] by (auto simp: names f(2) seven Let_def)
qed

end
