(* ===== verification/StreamsProps.thy ===== *)
theory StreamsProps
  imports Streams
begin

text \<open>
  What a client of a followed log gets: the complete lines of each stream, in order and once each, up to
  the end of the attempt.
\<close>

section \<open>A connection that holds\<close>

lemma writeEvent_holds [simp]: "cn_room c = None \<Longrightarrow> writeEvent e c = (True, c\<lparr>cn_out := cn_out c @ [e]\<rparr>)"
  by (simp add: writeEvent_def conn_call_def)

lemma flush_holds [simp]: "cn_room c = None \<Longrightarrow> flush c = (True, c)"
  by (simp add: flush_def conn_call_def)

definition line_event :: "Line \<Rightarrow> event" where
  "line_event l = LineEvent (l_Stream l) (l_Text l)"

lemma send_lines_holds [simp]:
  "cn_room c = None \<Longrightarrow> send_lines ls c = (True, c\<lparr>cn_out := cn_out c @ map line_event ls\<rparr>)"
  by (induction ls arbitrary: c) (simp_all add: line_event_def)

text \<open>The lines of one stream among the events.\<close>

fun texts :: "Stream \<Rightarrow> event list \<Rightarrow> string list" where
  "texts s [] = []"
| "texts s (LineEvent s' x # es) = (if s' = s then x # texts s es else texts s es)"
| "texts s (e # es) = texts s es"

lemma texts_append [simp]: "texts s (a @ b) = texts s a @ texts s b"
  by (induction s a rule: texts.induct) auto

lemma texts_lines: "texts s (map line_event ls) = map l_Text (filter (\<lambda>l. l_Stream l = s) ls)"
  by (induction ls) (auto simp: line_event_def)

section \<open>One poll of every file\<close>

lemma read_source_clean:
  assumes "fs_faults fs = []"
  obtains lines t' where "read_source t fs = (Inr lines, t', fs)" "ts_stream t' = ts_stream t"
    "\<forall>l \<in> set lines. l_Stream l = ts_stream t"
proof -
  have [simp]: "called fs = fs" using assms by (simp add: called_def)
  have "\<exists>lines t'. read_source t fs = (Inr lines, t', fs) \<and> ts_stream t' = ts_stream t \<and>
      (\<forall>l \<in> set lines. l_Stream l = ts_stream t)"
    using assms by (auto simp: read_source_def os_open_def os_call_def fault_def rewindIfRotated_def split_lines_def Let_def
        split: option.splits)
  then show ?thesis using that by blast
qed

definition reads :: "Files \<Rightarrow> tailSource \<Rightarrow> Line list" where
  "reads fs t = (case read_source t fs of (Inr lines, _, _) \<Rightarrow> lines | (Inl _, _, _) \<Rightarrow> [])"

definition moved_on :: "Files \<Rightarrow> tailSource \<Rightarrow> tailSource" where
  "moved_on fs t = fst (snd (read_source t fs))"

lemma read_source_reads:
  assumes "fs_faults fs = []"
  shows "read_source t fs = (Inr (reads fs t), moved_on fs t, fs)" and "ts_stream (moved_on fs t) = ts_stream t"
    and "\<forall>l \<in> set (reads fs t). l_Stream l = ts_stream t"
  by (rule read_source_clean [OF assms, of t]; simp add: reads_def moved_on_def)+

lemma Tailer_Read_clean:
  "fs_faults fs = [] \<Longrightarrow> Tailer_Read ts fs = (Inr (concat (map (reads fs) ts)), map (moved_on fs) ts, fs)"
  by (induction ts) (simp_all add: read_source_reads)

lemma follow_clean:
  "fs_faults fs = [] \<Longrightarrow> follow t (fs # fss) = (reads fs t @ fst (follow (moved_on fs t) fss), snd (follow (moved_on fs t) fss))"
  by (simp add: read_source_reads split: prod.splits)

lemma of_stream_concat:
  assumes "fs_faults fs = []" and "distinct (map ts_stream ts)" and "t \<in> set ts"
  shows "filter (\<lambda>l. l_Stream l = ts_stream t) (concat (map (reads fs) ts)) = reads fs t"
  using assms(2,3)
proof (induction ts)
  case (Cons u ts)
  have whole: "filter (\<lambda>l. l_Stream l = ts_stream v) (reads fs v) = reads fs v" for v
    using read_source_reads(3) [OF assms(1), of v] by (simp add: filter_id_conv)
  have none: "filter (\<lambda>l. l_Stream l = ts_stream t) (reads fs v) = []" if "ts_stream v \<noteq> ts_stream t" for v
    using read_source_reads(3) [OF assms(1), of v] that by (auto simp: filter_empty_conv)
  show ?case
  proof (cases "t = u")
    case True
    have "l_Stream l \<noteq> ts_stream u" if "v \<in> set ts" "l \<in> set (reads fs v)" for v l
      using Cons.prems(1) read_source_reads(3) [OF assms(1), of v] that by (auto simp: image_iff)
    then have "filter (\<lambda>l. l_Stream l = ts_stream u) (concat (map (reads fs) ts)) = []"
      by (auto simp: filter_empty_conv)
    then show ?thesis using True whole by simp
  next
    case False
    then have "ts_stream u \<noteq> ts_stream t" using Cons.prems by auto
    then show ?thesis using Cons False none by simp
  qed
qed simp

lemma pump_clean:
  assumes "fs_faults fs = []" and "cn_room c = None"
  shows "pump ts fs c = (Some (length (concat (map (reads fs) ts))), map (moved_on fs) ts,
    c\<lparr>cn_out := cn_out c @ map line_event (concat (map (reads fs) ts))\<rparr>)"
  using assms by (simp add: pump_def Tailer_Read_clean)

section \<open>A stream that is closed\<close>

text \<open>The files a stream reads while it goes on, and the last ones.\<close>

definition polls :: "Moment list \<Rightarrow> Files list" where
  "polls ms = concat (map (\<lambda>m. [mo_files m, mo_end_files m]) ms)"

lemma closed_stream_follows:
  assumes "serveStream pid attempt ts silent ms c = (Closed, c')" and "cn_room c = None"
    and "\<forall>m \<in> set ms. fs_faults (mo_files m) = [] \<and> fs_faults (mo_end_files m) = []"
    and "distinct (map ts_stream ts)"
  shows "\<exists>before m after. ms = before @ m # after \<and> \<not> attemptLive pid attempt (mo_world m) \<and>
    (\<exists>status truncated. last (cn_out c') = EndEvent attempt status truncated) \<and>
    (\<forall>t \<in> set ts. reads (mo_files m) (snd (follow t (map mo_files before))) = [] \<and>
       texts (ts_stream t) (cn_out c') = texts (ts_stream t) (cn_out c) @
         map l_Text (fst (follow t (map mo_files before @ [mo_files m, mo_end_files m]))))"
  using assms
proof (induction ms arbitrary: ts silent c)
  case (Cons m ms)
  let ?ts = "map (moved_on (mo_files m)) ts"
  let ?ls = "concat (map (reads (mo_files m)) ts)"
  let ?c = "c\<lparr>cn_out := cn_out c @ map line_event ?ls\<rparr>"
  have clean: "fs_faults (mo_files m) = []" "fs_faults (mo_end_files m) = []" using Cons.prems(3) by simp_all
  have pumped: "pump ts (mo_files m) c = (Some (length ?ls), ?ts, ?c)"
    by (rule pump_clean [OF clean(1) Cons.prems(2)])
  have str: "ts_stream (moved_on (mo_files m) t) = ts_stream t" for t using read_source_reads(2) [OF clean(1)] .
  then have dist: "distinct (map ts_stream ?ts)" using Cons.prems(4) by (simp add: comp_def)
  have mine: "texts (ts_stream t) (map line_event ?ls) = map l_Text (reads (mo_files m) t)" if "t \<in> set ts" for t
    using of_stream_concat [OF clean(1) Cons.prems(4) that] by (simp add: texts_lines)
  show ?case
  proof (cases "?ls = [] \<and> \<not> attemptLive pid attempt (mo_world m)")
    case True
    let ?es = "concat (map (reads (mo_end_files m)) ?ts)"
    have none: "reads (mo_files m) t = []" if "t \<in> set ts" for t using True that by auto
    have "pump ?ts (mo_end_files m) ?c = (Some (length ?es), map (moved_on (mo_end_files m)) ?ts,
        ?c\<lparr>cn_out := cn_out ?c @ map line_event ?es\<rparr>)"
      by (rule pump_clean [OF clean(2)]) (simp add: Cons.prems(2))
    moreover have "c' = closeStream pid attempt ?ts (mo_end_files m) (mo_end_world m) ?c"
      using Cons.prems(1) True pumped by (simp add: stream_round_def del: concat_eq_Nil_conv)
    ultimately obtain status truncated where c': "cn_out c' = cn_out c @ map line_event ?es @ [EndEvent attempt status truncated]"
      using True Cons.prems(2) by (auto simp: closeStream_def split: prod.splits)
    have "texts (ts_stream t) (cn_out c') = texts (ts_stream t) (cn_out c) @ map l_Text (fst (follow t [mo_files m, mo_end_files m]))"
      if "t \<in> set ts" for t
    proof -
      have "filter (\<lambda>l. l_Stream l = ts_stream (moved_on (mo_files m) t)) ?es = reads (mo_end_files m) (moved_on (mo_files m) t)"
        by (rule of_stream_concat [OF clean(2) dist]) (use that in simp)
      then have "texts (ts_stream t) (map line_event ?es) = map l_Text (reads (mo_end_files m) (moved_on (mo_files m) t))"
        by (simp add: texts_lines str)
      then show ?thesis unfolding c' by (simp add: follow_clean clean none [OF that] del: follow.simps(2))
    qed
    then show ?thesis using True c' none by (intro exI [of _ "[]"] exI [of _ m] exI [of _ ms]) simp
  next
    case False
    then obtain silent' c1 where went: "serveStream pid attempt ?ts silent' ms c1 = (Closed, c')" "cn_room c1 = None"
      "cn_out c1 = cn_out ?c \<or> cn_out c1 = cn_out ?c @ [KeepAlive]"
      using Cons.prems(1,2) pumped
      by (auto simp: stream_round_def keep_alive_def Let_def split: if_splits prod.splits)
    obtain before n after where IH: "ms = before @ n # after" "\<not> attemptLive pid attempt (mo_world n)"
      "\<exists>status truncated. last (cn_out c') = EndEvent attempt status truncated"
      "\<And>t. t \<in> set ?ts \<Longrightarrow> reads (mo_files n) (snd (follow t (map mo_files before))) = [] \<and>
         texts (ts_stream t) (cn_out c') = texts (ts_stream t) (cn_out c1) @
           map l_Text (fst (follow t (map mo_files before @ [mo_files n, mo_end_files n])))"
    proof -
      have "\<forall>m \<in> set ms. fs_faults (mo_files m) = [] \<and> fs_faults (mo_end_files m) = []" using Cons.prems(3) by simp
      from Cons.IH [OF went(1,2) this dist] that show ?thesis by blast
    qed
    have c1: "texts s (cn_out c1) = texts s (cn_out c) @ texts s (map line_event ?ls)" for s
      using went(3) by auto
    have "reads (mo_files n) (snd (follow t (map mo_files (m # before)))) = [] \<and>
        texts (ts_stream t) (cn_out c') = texts (ts_stream t) (cn_out c) @
          map l_Text (fst (follow t (map mo_files (m # before) @ [mo_files n, mo_end_files n])))" if "t \<in> set ts" for t
      using IH(4) [of "moved_on (mo_files m) t"] that
      by (simp add: str c1 mine [OF that] follow_clean clean del: follow.simps(2))
    then show ?thesis using IH(1-3) by (intro exI [of _ "m # before"] exI [of _ n] exI [of _ after]) simp
  qed
qed simp


section \<open>Up to the end of the log\<close>

lemma grows_weaken: "grows file ino (d @ e) fss \<Longrightarrow> grows file ino d fss"
  by (cases fss) auto

lemma grows_append:
  "grows file ino d (a @ b) \<longleftrightarrow> grows file ino d a \<and> grows file ino (final ino d a) b"
  by (induction a arbitrary: d) (simp_all add: final_def)

lemma grows_polls:
  assumes "grows file ino d (polls ms @ rest)"
  shows "grows file ino d (map mo_files ms @ rest)"
  using assms
proof (induction ms arbitrary: d)
  case (Cons m ms)
  then have g: "grows file ino (fs_data (mo_end_files m) ino) (polls ms @ rest)"
    and e: "\<exists>e. fs_data (mo_end_files m) ino = fs_data (mo_files m) ino @ e"
    by (auto simp: polls_def)
  then have "grows file ino (fs_data (mo_files m) ino) (polls ms @ rest)" using grows_weaken by metis
  then show ?case using Cons by (auto simp: polls_def)
qed (simp add: polls_def)

lemma follow_append:
  "follow t (a @ b) = (fst (follow t a) @ fst (follow (snd (follow t a)) b), snd (follow (snd (follow t a)) b))"
proof (induction a arbitrary: t)
  case (Cons fs a)
  then show ?case by (cases "read_source t fs"; cases "fst (read_source t fs)") (auto split: prod.splits)
qed simp

lemma split_lines_keeps:
  "ts_path (snd (split_lines t x)) = ts_path t" "ts_info (snd (split_lines t x)) = ts_info t"
  by (simp_all add: split_lines_def Let_def)

lemma rewindIfRotated_keeps:
  "ts_path (rewindIfRotated inode x t) = ts_path t" "ts_info (rewindIfRotated inode x t) = Some inode"
  by (simp_all add: rewindIfRotated_def Let_def)

lemma moved_on_keeps:
  assumes "fs_names fs (ts_path t) = Some ino" and "fs_faults fs = []"
  shows "ts_path (moved_on fs t) = ts_path t" and "ts_info (moved_on fs t) = Some ino"
proof -
  let ?r = "rewindIfRotated ino (fs_data fs ino) t"
  let ?chunk = "take maxPollBytes (drop (ts_offset ?r) (fs_data fs ino))"
  have "moved_on fs t = snd (split_lines (?r\<lparr>ts_offset := ts_offset ?r + length ?chunk\<rparr>) ?chunk)"
    using assms by (simp add: moved_on_def read_source_def os_open_def os_call_def fault_def called_def Let_def case_prod_beta)
  then show "ts_path (moved_on fs t) = ts_path t" "ts_info (moved_on fs t) = Some ino"
    by (simp_all add: split_lines_keeps rewindIfRotated_keeps)
qed

lemma follow_keeps:
  assumes "grows (ts_path t) ino d fss" and "ts_info t = None \<or> ts_info t = Some ino"
  shows "ts_path (snd (follow t fss)) = ts_path t \<and> (ts_info (snd (follow t fss)) = None \<or> ts_info (snd (follow t fss)) = Some ino)"
  using assms
proof (induction fss arbitrary: t d)
  case (Cons fs fss)
  have fs: "fs_names fs (ts_path t) = Some ino" "fs_faults fs = []" using Cons.prems(1) by auto
  note step = moved_on_keeps [OF fs]
  then show ?case
    using Cons.IH [of "moved_on fs t" "fs_data fs ino"] Cons.prems(1) by (simp add: follow_clean [OF fs(2)] del: follow.simps(2))
qed simp

text \<open>What a poll that reports nothing has read: everything.\<close>

lemma length_Split: "length x = sum_list (map (\<lambda>l. length l + 1) (butlast (Split x sep))) + length (last (Split x sep))"
proof (induction x)
  case (Cons c x)
  obtain p ps where "Split x sep = p # ps" by (cases "Split x sep") auto
  then show ?case using Cons by (cases ps) auto
qed simp

lemma pieces_prefix:
  assumes "\<forall>l \<in> set (Split (x @ y) sep). length l < n"
  shows "\<forall>l \<in> set (Split x sep). length l < n"
proof
  fix l assume l: "l \<in> set (Split x sep)"
  have whole: "Split x sep = butlast (Split x sep) @ [last (Split x sep)]"
    by (rule append_butlast_last_id [symmetric]) (cases x; simp split: list.splits)
  have "l \<in> set (butlast (Split x sep)) \<or> l = last (Split x sep)"
  proof -
    have "l \<in> set (butlast (Split x sep) @ [last (Split x sep)])" using l by (simp only: whole [symmetric])
    then show ?thesis by (simp only: set_append Un_iff list.set) blast
  qed
  moreover have "set (butlast (Split x sep)) \<subseteq> set (Split (x @ y) sep)" by (subst Split_resume) simp
  ultimately show "length l < n" using assms last_piece_bound [OF assms] by blast
qed

lemma final_Nil [simp]: "final ino d [] = d"
  by (simp add: final_def)

lemma quiet_poll_is_at_the_end:
  assumes "grows (ts_path t) ino d [fs]" and "ts_info t = None \<or> ts_info t = Some ino"
    and "a \<le> ts_offset t" and "ts_offset t \<le> length d"
    and "ts_partial t = last (Split (between a (ts_offset t) d) newline)"
    and "\<forall>l \<in> set (Split (drop a (fs_data fs ino)) newline). length l < maxLineBytes"
    and "follow t [fs] = ([], t')"
  shows "ts_offset t' = length (fs_data fs ino)"
proof (rule ccontr)
  assume behind: "ts_offset t' \<noteq> length (fs_data fs ino)"
  let ?x = "between a (ts_offset t) d" and ?y = "between a (ts_offset t') (fs_data fs ino)"
  have inv: "ts_offset t' \<le> length (fs_data fs ino)" "butlast (Split ?y newline) = butlast (Split ?x newline)"
    "ts_offset t + maxPollBytes \<le> ts_offset t'"
    using follow_inv [OF assms(1-5), unfolded final_Cons final_Nil, OF assms(6,7)] behind by simp_all
  have "length ?y - length ?x = ts_offset t' - ts_offset t"
    using assms(3,4) inv(1,3) by (simp add: between_def)
  moreover have "length ?y - length ?x \<le> length (last (Split ?y newline))"
    using length_Split [of ?x newline] length_Split [of ?y newline] inv(2) by simp
  moreover have "length (last (Split ?y newline)) < maxLineBytes"
    using assms(6) between_prefix [of a "fs_data fs ino" "ts_offset t'"] last_piece_bound by metis
  ultimately show False using inv(3) by (simp add: maxPollBytes_def maxLineBytes_def)
qed

text \<open>
  C31. What a followed log delivers while it is not rotated. Take a connection that held, reads that
  succeed, and the log of a stream that is only appended to from the first poll to the last, with no line of
  1 MiB or more from the offset on where the follower started. When the stream of the attempt closes, the client has
  received for it exactly the complete lines from that offset up to the end of the log, in order and
  once each, and then the end event; what was written more than 1 MiB past the last poll of the
  running attempt can be missing. What follows the last newline is never sent, though a full read
  returns it. A rotation is left out: what the follower had not read of the rotated file is not chased.
\<close>

theorem closed_stream_is_complete:
  assumes "serveStream pid attempt ts silent ms \<lparr>cn_out = [], cn_room = None\<rparr> = (Closed, c)"
    and "\<forall>m \<in> set ms. fs_faults (mo_files m) = [] \<and> fs_faults (mo_end_files m) = []"
    and "distinct (map ts_stream ts)" and "t \<in> set ts"
    and "ts_info t = None" and "ts_partial t = []" and "ts_offset t \<le> length d"
    and "grows (ts_path t) ino d (polls ms)"
    and "\<forall>m \<in> set ms. \<forall>l \<in> set (Split (drop (ts_offset t) (fs_data (mo_end_files m) ino)) newline). length l < maxLineBytes"
  shows "\<exists>m \<in> set ms. \<exists>upto. let log = fs_data (mo_end_files m) ino; seen = between (ts_offset t) upto log in
    \<not> attemptLive pid attempt (mo_world m) \<and> texts (ts_stream t) (cn_out c) = butlast (Split seen newline) \<and>
    (\<exists>status truncated. last (cn_out c) = EndEvent attempt status truncated) \<and>
    (upto = length log \<or> length (fs_data (mo_files m) ino) + maxPollBytes \<le> upto)"
proof -
  obtain before m after where ms: "ms = before @ m # after" "\<not> attemptLive pid attempt (mo_world m)"
    "\<exists>status truncated. last (cn_out c) = EndEvent attempt status truncated"
    "reads (mo_files m) (snd (follow t (map mo_files before))) = []"
    "texts (ts_stream t) (cn_out c) = map l_Text (fst (follow t (map mo_files before @ [mo_files m, mo_end_files m])))"
    using closed_stream_follows [OF assms(1) _ assms(2,3)] assms(4) by auto
  let ?a = "ts_offset t" and ?A = "map mo_files before" and ?F = "fs_data (mo_files m) ino" and ?E = "fs_data (mo_end_files m) ino"
  have clean: "fs_faults (mo_files m) = []" "fs_faults (mo_end_files m) = []" using assms(2) ms(1) by auto
  have "polls ms = polls before @ [mo_files m, mo_end_files m] @ polls after" by (simp add: polls_def ms(1))
  then have "grows (ts_path t) ino d (?A @ [mo_files m, mo_end_files m])"
    using grows_polls [of "ts_path t" ino d before "[mo_files m, mo_end_files m] @ polls after"] assms(8)
    by (simp only: grows_append)
  then have g: "grows (ts_path t) ino d ?A" "grows (ts_path t) ino (final ino d ?A) [mo_files m]"
    "grows (ts_path t) ino ?F [mo_end_files m]"
    by (auto simp: grows_append)
  have short: "\<forall>l \<in> set (Split (drop ?a ?E) newline). length l < maxLineBytes" using assms(9) ms(1) by auto
  obtain e where e: "final ino d ?A = d @ e" using final_grows [OF g(1)] by blast
  obtain e' where e': "?F = final ino d ?A @ e'" using g(2) by auto
  obtain e'' where e'': "?E = ?F @ e''" using g(3) by auto
  have shortF: "\<forall>l \<in> set (Split (drop ?a ?F) newline). length l < maxLineBytes"
    using pieces_prefix [of "drop ?a ?F" e''] short e'' e' e assms(7) by simp
  have shortA: "\<forall>l \<in> set (Split (drop ?a (final ino d ?A)) newline). length l < maxLineBytes"
    using pieces_prefix [of "drop ?a (final ino d ?A)" e'] shortF e' e assms(7) by simp
  obtain ls t1 where f1: "follow t ?A = (ls, t1)" by fastforce
  have i1: "?a \<le> ts_offset t1" "ts_offset t1 \<le> length (final ino d ?A)"
    "ts_partial t1 = last (Split (between ?a (ts_offset t1) (final ino d ?A)) newline)"
    "butlast (Split (between ?a (ts_offset t1) (final ino d ?A)) newline) = map l_Text ls"
    using follow_inv [OF g(1) _ order.refl assms(7) _ shortA f1] assms(5,6) by (simp_all add: between_def)
  have k1: "ts_path t1 = ts_path t" "ts_info t1 = None \<or> ts_info t1 = Some ino"
    using follow_keeps [OF g(1)] assms(5) f1 by auto
  obtain t2 where f2: "follow t1 [mo_files m] = ([], t2)"
    using ms(4) f1 by (simp add: follow_clean [OF clean(1)] del: follow.simps(2))
  have g2: "grows (ts_path t1) ino (final ino d ?A) [mo_files m]" using g(2) k1(1) by simp
  have i2: "?a \<le> ts_offset t2" "ts_offset t2 \<le> length ?F" "ts_partial t2 = last (Split (between ?a (ts_offset t2) ?F) newline)"
    "butlast (Split (between ?a (ts_offset t2) ?F) newline) = map l_Text ls"
    using follow_inv [OF g2 k1(2) i1(1,2,3), unfolded final_Cons final_Nil, OF shortF f2] i1(1,4) by simp_all
  have at_end: "ts_offset t2 = length ?F" by (rule quiet_poll_is_at_the_end [OF g2 k1(2) i1(1,2,3) shortF f2])
  have k2: "ts_path t2 = ts_path t" "ts_info t2 = None \<or> ts_info t2 = Some ino"
    using follow_keeps [OF g2 k1(2)] f2 k1(1) by auto
  obtain rest t3 where f3: "follow t2 [mo_end_files m] = (rest, t3)" by fastforce
  have g3: "grows (ts_path t2) ino ?F [mo_end_files m]" using g(3) k2(1) by simp
  have i3: "butlast (Split (between ?a (ts_offset t3) ?E) newline) = map l_Text (ls @ rest)"
    "ts_offset t3 = length ?E \<or> length ?F + maxPollBytes \<le> ts_offset t3"
    using follow_inv [OF g3 k2(2) i2(1,2,3), unfolded final_Cons final_Nil, OF short f3] i2(4) at_end by simp_all
  have "fst (follow t (?A @ [mo_files m] @ [mo_end_files m])) = ls @ rest"
    unfolding follow_append [of t ?A] follow_append [of _ "[mo_files m]"] by (simp add: f1 f2 f3 del: follow.simps(2))
  then have "texts (ts_stream t) (cn_out c) = butlast (Split (between ?a (ts_offset t3) ?E) newline)"
    using ms(5) i3(1) by simp
  then show ?thesis using ms(1-3) i3(2) by (intro bexI [of _ m] exI [of _ "ts_offset t3"]) (simp_all add: Let_def)
qed

text \<open>What a rotation costs: the line that the rotated file got after the last poll is never seen.\<close>

theorem rotation_is_not_chased:
  "let first = log_at (''a'' @ [newline]);
       rotated = no_files\<lparr>fs_names := [''out'' \<mapsto> 1, ''out.1'' \<mapsto> 0],
         fs_data := (\<lambda>_. [])(0 := ''a'' @ newline # ''b'' @ [newline], 1 := ''c'' @ [newline])\<rparr>
   in map l_Text (fst (follow follower [first, rotated])) = [''a'', ''c'']"
  by (simp add: follower_def log_at_def no_files_def read_source_def os_open_def os_call_def fault_def
      called_def rewindIfRotated_def split_lines_def maxPollBytes_def maxLineBytes_def newline_def Let_def)

text \<open>An attempt that is over: the first round reads a line, the second none, and the rest comes at the end.\<close>

definition finished_moment :: "string \<Rightarrow> string \<Rightarrow> Moment" where
  "finished_moment before after = \<lparr>mo_files = log_at before, mo_world = new_world Default [] empty_db, mo_now = 0,
     mo_gone = False, mo_end_files = log_at after, mo_end_world = new_world Default [] empty_db\<rparr>"

definition last_rounds :: "Moment list" where
  "last_rounds =
     [finished_moment (''a'' @ newline # ''b'') (''a'' @ newline # ''b''),
      finished_moment (''a'' @ newline # ''b'') (''a'' @ newline # ''bc'' @ newline # ''d'')]"

lemma nobody_live: "attemptLive ''p'' 1 (new_world Default [] empty_db) = False"
  by (simp add: attemptLive_def RunningAttempt_def new_world_def SetRegistry_def GetProcess_def empty_db_def lookup_def exec_fails_def)

lemma last_rounds_close:
  "\<exists>c. serveStream ''p'' 1 [follower] 0 last_rounds \<lparr>cn_out = [], cn_room = None\<rparr> = (Closed, c)"
  by (simp add: last_rounds_def stream_round_def finished_moment_def nobody_live pump_def keep_alive_def
      streamHeartbeat_def follower_def log_at_def no_files_def read_source_def os_open_def os_call_def fault_def called_def
      rewindIfRotated_def split_lines_def maxPollBytes_def maxLineBytes_def newline_def Let_def)

theorem closed_stream_is_complete_witness:
  "\<exists>c m upto. serveStream ''p'' 1 [follower] 0 last_rounds \<lparr>cn_out = [], cn_room = None\<rparr> = (Closed, c) \<and> m \<in> set last_rounds \<and>
     texts StreamStdout (cn_out c) = butlast (Split (between 0 upto (fs_data (mo_end_files m) 0)) newline)"
proof -
  obtain c where c: "serveStream ''p'' 1 [follower] 0 last_rounds \<lparr>cn_out = [], cn_room = None\<rparr> = (Closed, c)"
    using last_rounds_close by blast
  have "\<exists>m \<in> set last_rounds. \<exists>upto. let log = fs_data (mo_end_files m) 0; seen = between (ts_offset follower) upto log in
      \<not> attemptLive ''p'' 1 (mo_world m) \<and> texts (ts_stream follower) (cn_out c) = butlast (Split seen newline) \<and>
      (\<exists>status truncated. last (cn_out c) = EndEvent 1 status truncated) \<and>
      (upto = length log \<or> length (fs_data (mo_files m) 0) + maxPollBytes \<le> upto)"
    by (rule closed_stream_is_complete [OF c, where d = "[]"])
      (simp_all add: last_rounds_def finished_moment_def follower_def log_at_def no_files_def polls_def newline_def maxLineBytes_def)
  then show ?thesis using c by (auto simp: Let_def follower_def)
qed

end
