(* ===== verification/Runner.thy ===== *)
theory Runner
  imports Supervisor Workers "HOL-Library.Word"
begin

text \<open>
  \<^verbatim>\<open>internal/runner\<close>: what the daemon asks of Linux. \<^verbatim>\<open>procfs_linux.go\<close> reads \<^verbatim>\<open>/proc/<pid>/stat\<close> to
  recognise a process and to sample it; \<^verbatim>\<open>exec_linux.go\<close> decides as whom a command runs and with which
  environment, what its end means, and how its group is asked to stop; \<^verbatim>\<open>signals_linux.go\<close> names signals.

  Files, accounts, \<^verbatim>\<open>fork\<close> and \<^verbatim>\<open>kill\<close> are given: as functions, or as what they answered.
\<close>

section \<open>Reading /proc\<close>

definition statFieldPgrp :: nat where "statFieldPgrp = 5"
definition statFieldUTime :: nat where "statFieldUTime = 14"
definition statFieldSTime :: nat where "statFieldSTime = 15"
definition statFieldThreads :: nat where "statFieldThreads = 20"
definition statFieldStartTime :: nat where "statFieldStartTime = 22"
definition statFieldRSS :: nat where "statFieldRSS = 24"

lemmas stat_fields = statFieldPgrp_def statFieldUTime_def statFieldSTime_def statFieldThreads_def
  statFieldStartTime_def statFieldRSS_def

definition userHZ :: rat where "userHZ = 100"

text \<open>\<^verbatim>\<open>ParseUint(s, 10, 64)\<close>.\<close>

definition ParseUint64 :: "string \<Rightarrow> 64 word option" where
  "ParseUint64 s =
     (if s = [] \<or> \<not> list_all is_digit s then None
      else let n = digits_val 0 s in if n < 2 ^ 64 then Some (word_of_int n) else None)"

text \<open>What follows the last occurrence of a byte.\<close>

fun after_last :: "char \<Rightarrow> string \<Rightarrow> string option" where
  "after_last c [] = None"
| "after_last c (x # xs) =
     (case after_last c xs of
        Some rest \<Rightarrow> Some rest
      | None \<Rightarrow> if x = c then Some xs else None)"

text \<open>The content of \<^verbatim>\<open>/proc/<pid>/stat\<close>, for the processes that have one.\<close>

type_synonym procfs = "int \<Rightarrow> string option"

definition processStat :: "procfs \<Rightarrow> int \<Rightarrow> string list option" where
  "processStat proc pid = Option.bind (proc pid) (\<lambda>raw. map_option Fields (after_last (CHR '')'') raw))"

definition statValue :: "string list \<Rightarrow> nat \<Rightarrow> 64 word option" where
  "statValue columns field =
     (let index = int field - 3
      in if index < 0 \<or> int (length columns) \<le> index then None else ParseUint64 (columns ! nat index))"

definition statField :: "procfs \<Rightarrow> int \<Rightarrow> nat \<Rightarrow> 64 word option" where
  "statField proc pid field = Option.bind (processStat proc pid) (\<lambda>columns. statValue columns field)"

definition processStartTime :: "procfs \<Rightarrow> int \<Rightarrow> 64 word option" where
  "processStartTime proc pid = statField proc pid statFieldStartTime"

definition processGroup :: "procfs \<Rightarrow> int \<Rightarrow> int option" where
  "processGroup proc pid =
     Option.bind (statField proc pid statFieldPgrp) (\<lambda>pgrp. if uint pgrp > 2147483647 then None else Some (uint pgrp))"

definition runner_SameProcess :: "procfs \<Rightarrow> int \<Rightarrow> 64 word \<Rightarrow> bool" where
  "runner_SameProcess proc pid startTime =
     (if pid \<le> 0 \<or> startTime = 0 then False
      else case processStartTime proc pid of None \<Rightarrow> False | Some current \<Rightarrow> current = startTime)"

text \<open>\<open>ha_child\<close>: started by this daemon, so that \<^verbatim>\<open>Wait\<close> can reap it.\<close>

record Handle =
  ha_PID :: int
  ha_PIDStartTime :: "64 word"
  ha_pgid :: int
  ha_child :: bool

text \<open>The two reads of \<^verbatim>\<open>Adopt\<close> can meet different tables.\<close>

definition Adopt :: "procfs \<Rightarrow> procfs \<Rightarrow> int \<Rightarrow> 64 word \<Rightarrow> Handle option" where
  "Adopt proc later pid startTime =
     (if \<not> runner_SameProcess proc pid startTime then None
      else map_option (\<lambda>pgid. \<lparr>ha_PID = pid, ha_PIDStartTime = startTime, ha_pgid = pgid, ha_child = False\<rparr>)
             (processGroup later pid))"

record ProcUsage =
  pu_CPUSeconds :: float64
  pu_RSSBytes :: int
  pu_Threads :: int

text \<open>A float64 divided by the clock tick.\<close>

fun ticks_to_seconds :: "float64 \<Rightarrow> float64" where
  "ticks_to_seconds (Num x) = rnd (x / userHZ)"
| "ticks_to_seconds x = x"

definition ProcessUsage :: "procfs \<Rightarrow> int \<Rightarrow> int \<Rightarrow> 64 word \<Rightarrow> ProcUsage option" where
  "ProcessUsage proc page pid startTime =
     Option.bind (processStat proc pid) (\<lambda>columns.
     Option.bind (statValue columns statFieldStartTime) (\<lambda>sampled.
     if startTime \<noteq> 0 \<and> sampled \<noteq> startTime then None
     else
     Option.bind (statValue columns statFieldUTime) (\<lambda>utime.
     Option.bind (statValue columns statFieldSTime) (\<lambda>stime.
     Option.bind (statValue columns statFieldThreads) (\<lambda>threads.
     Option.bind (statValue columns statFieldRSS) (\<lambda>rssPages.
     Some \<lparr>pu_CPUSeconds = ticks_to_seconds (rnd (of_int (uint (utime + stime)))),
       pu_RSSBytes = sint (rssPages * word_of_int page), pu_Threads = sint threads\<rparr>))))))"

section \<open>Signals\<close>

definition allowedSignals :: "(string \<times> int) list" where
  "allowedSignals =
     [(''SIGTERM'', 15), (''SIGINT'', 2), (''SIGQUIT'', 3), (''SIGHUP'', 1), (''SIGUSR1'', 10), (''SIGUSR2'', 12),
      (''SIGKILL'', 9), (''SIGSTOP'', 19), (''SIGCONT'', 18)]"

definition ParseSignal :: "string \<Rightarrow> int option" where
  "ParseSignal name = map_of allowedSignals name"

text \<open>\<open>describe\<close> is \<^verbatim>\<open>Signal.String\<close> of the library.\<close>

definition signalName :: "(int \<Rightarrow> string) \<Rightarrow> int \<Rightarrow> string" where
  "signalName describe sig =
     (case find (\<lambda>(_, candidate). candidate = sig) allowedSignals of
        Some (name, _) \<Rightarrow> name
      | None \<Rightarrow> describe sig)"

datatype kill_answer = Delivered | NoSuchProcess | Errno

text \<open>\<^verbatim>\<open>signalGroup\<close>: what is sent, to the group and never to a bare PID, and whether it is an error.\<close>

definition signalGroup :: "Handle \<Rightarrow> kill_answer \<Rightarrow> int \<Rightarrow> bool \<times> (int \<times> int) list" where
  "signalGroup h answer sig =
     (if ha_pgid h \<le> 0 then (False, []) else (answer \<noteq> Errno, [(- ha_pgid h, sig)]))"

definition runner_Signal :: "Handle \<Rightarrow> kill_answer \<Rightarrow> string \<Rightarrow> bool \<times> (int \<times> int) list" where
  "runner_Signal h answer name = (case ParseSignal name of None \<Rightarrow> (False, []) | Some sig \<Rightarrow> signalGroup h answer sig)"

definition SIGTERM :: int where "SIGTERM = 15"
definition SIGKILL :: int where "SIGKILL = 9"

text \<open>
  What \<^verbatim>\<open>Stop\<close> meets while it waits: \<^verbatim>\<open>Wait\<close> has returned, the context is cancelled, the grace has elapsed,
  or a tick at which some member of the group is alive or none is.
\<close>

datatype wake = Reaped | Cancelled | Elapsed | Ticked bool

fun stop_child :: "wake list \<Rightarrow> bool option" where
  "stop_child [] = None"
| "stop_child (Reaped # _) = Some False"
| "stop_child (Cancelled # _) = Some True"
| "stop_child (Elapsed # _) = Some True"
| "stop_child (Ticked _ # ws) = stop_child ws"

fun stop_adopted :: "wake list \<Rightarrow> bool option" where
  "stop_adopted [] = None"
| "stop_adopted (Cancelled # _) = Some True"
| "stop_adopted (Elapsed # _) = Some True"
| "stop_adopted (Ticked alive # ws) = (if \<not> alive then Some False else stop_adopted ws)"
| "stop_adopted (Reaped # ws) = stop_adopted ws"

text \<open>\<open>None\<close> while it waits; then whether it is an error, and what was sent.\<close>

definition runner_Stop :: "Handle \<Rightarrow> kill_answer \<Rightarrow> kill_answer \<Rightarrow> wake list \<Rightarrow> (bool \<times> (int \<times> int) list) option" where
  "runner_Stop h asked forced ws =
     (case signalGroup h asked SIGTERM of
        (False, sent) \<Rightarrow> Some (False, sent)
      | (True, sent) \<Rightarrow>
          (case (if ha_child h then stop_child ws else stop_adopted ws) of
             None \<Rightarrow> None
           | Some False \<Rightarrow> Some (True, sent)
           | Some True \<Rightarrow> (case signalGroup h forced SIGKILL of (ok, kill) \<Rightarrow> Some (ok, sent @ kill))))"

section \<open>As whom, and with what\<close>

record Spec =
  sp_Command :: string
  sp_Args :: "string list"
  sp_Cwd :: string
  sp_Env :: "(string \<times> string) list"
  sp_EnvPassthrough :: "string list"
  sp_User :: string
  sp_Group :: string
  sp_AllowRoot :: bool

record Account =
  ac_Uid :: string
  ac_Gid :: string

record Credential =
  cd_Uid :: nat
  cd_Gid :: nat
  cd_Groups :: "nat list"

text \<open>The user database: accounts, groups by name, and the groups of a user.\<close>

record Accounts =
  au_euid :: int
  au_user :: "string \<Rightarrow> Account option"
  au_group :: "string \<Rightarrow> string option"
  au_groups_of :: "string \<Rightarrow> string list option"

definition resolveGID :: "Accounts \<Rightarrow> Spec \<Rightarrow> Account \<Rightarrow> nat option" where
  "resolveGID au spec account =
     Option.bind (if sp_Group spec \<noteq> '''' then au_group au (sp_Group spec) else Some (ac_Gid account)) ParseUint32"

fun parse_gids :: "string list \<Rightarrow> nat list option" where
  "parse_gids [] = Some []"
| "parse_gids (raw # raws) =
     Option.bind (ParseUint32 raw) (\<lambda>gid. map_option (\<lambda>gids. gid # gids) (parse_gids raws))"

definition supplementaryGroups :: "Accounts \<Rightarrow> string \<Rightarrow> nat list option" where
  "supplementaryGroups au user = Option.bind (au_groups_of au user) parse_gids"

text \<open>\<open>None\<close> is an error, \<open>Some None\<close> the identity of the daemon.\<close>

definition resolveCredential :: "Accounts \<Rightarrow> Spec \<Rightarrow> Credential option option" where
  "resolveCredential au spec =
     (if sp_User spec = '''' then (if au_euid au = 0 \<and> \<not> sp_AllowRoot spec then None else Some None)
      else
      Option.bind (au_user au (sp_User spec)) (\<lambda>account.
      Option.bind (ParseUint32 (ac_Uid account)) (\<lambda>uid.
      Option.bind (resolveGID au spec account) (\<lambda>gid.
      Option.bind (supplementaryGroups au (sp_User spec)) (\<lambda>groups.
      Some (Some \<lparr>cd_Uid = uid, cd_Gid = gid, cd_Groups = groups\<rparr>))))))"

definition buildEnv :: "(string \<Rightarrow> string option) \<Rightarrow> Spec \<Rightarrow> string list" where
  "buildEnv lookup_env spec =
     concat (map (\<lambda>name. case lookup_env name of Some v \<Rightarrow> [name @ ''='' @ v] | None \<Rightarrow> []) (sp_EnvPassthrough spec)) @
     map (\<lambda>(name, v). name @ ''='' @ v) (sp_Env spec)"

text \<open>What is handed to \<^verbatim>\<open>fork\<close>: the command itself, no shell, in a group of its own.\<close>

record Launched =
  la_Command :: string
  la_Args :: "string list"
  la_Dir :: string
  la_Env :: "string list"
  la_Credential :: "Credential option"

text \<open>\<open>dev_null\<close>: whether \<^verbatim>\<open>/dev/null\<close> opens; \<open>spawn\<close>: the PID, or no process.\<close>

definition runner_Start ::
  "bool \<Rightarrow> Accounts \<Rightarrow> (string \<Rightarrow> string option) \<Rightarrow> bool \<Rightarrow> (Launched \<Rightarrow> int option) \<Rightarrow> procfs \<Rightarrow> Spec \<Rightarrow> Handle option" where
  "runner_Start cancelled au lookup_env dev_null spawn proc spec =
     (if cancelled \<or> \<not> IsAbs (sp_Command spec) then None
      else
      Option.bind (resolveCredential au spec) (\<lambda>credential.
      if \<not> dev_null then None
      else
      map_option (\<lambda>pid. \<lparr>ha_PID = pid,
          ha_PIDStartTime = (case processStartTime proc pid of None \<Rightarrow> 0 | Some t \<Rightarrow> t),
          ha_pgid = pid, ha_child = True\<rparr>)
        (spawn \<lparr>la_Command = sp_Command spec, la_Args = sp_Args spec, la_Dir = sp_Cwd spec,
           la_Env = buildEnv lookup_env spec, la_Credential = credential\<rparr>)))"

text \<open>How a process ended, as \<^verbatim>\<open>waitpid\<close> says.\<close>

datatype wait_status = Exited int | Signaled int | Unwaitable

definition runner_Wait :: "(int \<Rightarrow> string) \<Rightarrow> Handle \<Rightarrow> wait_status \<Rightarrow> Result option" where
  "runner_Wait describe h status =
     (if \<not> ha_child h then None
      else case status of
             Exited code \<Rightarrow> Some \<lparr>rs_ExitCode = code, rs_Signal = ''''\<rparr>
           | Signaled sig \<Rightarrow> Some \<lparr>rs_ExitCode = 128 + sig, rs_Signal = signalName describe sig\<rparr>
           | Unwaitable \<Rightarrow> None)"

section \<open>A line of /proc read back\<close>

text \<open>How the kernel writes the line: the name is the program's own and can hold anything.\<close>

fun spaced :: "string list \<Rightarrow> string" where
  "spaced [] = ''''"
| "spaced (f # fs) = CHR '' '' # f @ spaced fs"

definition stat_line :: "int \<Rightarrow> string \<Rightarrow> string list \<Rightarrow> string" where
  "stat_line pid name columns = Itoa pid @ '' ('' @ name @ '')'' @ spaced columns @ [CHR ''\<newline>'']"

definition plain_field :: "string \<Rightarrow> bool" where
  "plain_field f \<longleftrightarrow> f \<noteq> '''' \<and> (\<forall>c \<in> set f. \<not> is_space c \<and> c \<noteq> CHR '')'')"

lemma after_last_None: "after_last c s = None \<longleftrightarrow> c \<notin> set s"
  by (induction s) (auto split: option.splits)

lemma after_last_append: "c \<notin> set s \<Longrightarrow> after_last c (a @ c # s) = Some s"
proof (induction a)
  case Nil
  then show ?case using after_last_None [of c s] by (auto split: option.splits)
qed simp

lemma Fields_spaced: "list_all plain_field fs \<Longrightarrow> Fields (spaced fs @ [CHR ''\<newline>'']) = fs"
proof (induction fs)
  case Nil
  then show ?case by (simp add: Fields.simps is_space_def)
next
  case (Cons f fs)
  then obtain c cs where f: "f = c # cs" by (cases f) (auto simp: plain_field_def)
  have clean: "\<forall>x \<in> set f. \<not> is_space x" using Cons.prems by (simp add: plain_field_def)
  let ?rest = "spaced fs @ [CHR ''\<newline>'']"
  have hd_rest: "\<exists>x xs. ?rest = x # xs \<and> is_space x" by (cases fs) (auto simp: is_space_def)
  have drop: "dropWhile is_space (spaced (f # fs) @ [CHR ''\<newline>'']) = f @ ?rest"
    using clean f by (simp add: is_space_def)
  obtain x xs where rest: "?rest = x # xs" "is_space x" using hd_rest by blast
  have "takeWhile (\<lambda>x. \<not> is_space x) (f @ ?rest) = f" "dropWhile (\<lambda>x. \<not> is_space x) (f @ ?rest) = ?rest"
    using clean rest(2) unfolding rest(1) by (simp_all add: takeWhile_append2 dropWhile_append2)
  then show ?case
    using Cons drop f by (subst Fields.simps) (simp only: list.case append_Cons, simp)
qed

lemma spaced_plain: "list_all plain_field fs \<Longrightarrow> CHR '')'' \<notin> set (spaced fs @ [CHR ''\<newline>''])"
  by (induction fs) (auto simp: plain_field_def)

lemma processStat_line:
  assumes "proc pid = Some (stat_line pid name columns)" and "list_all plain_field columns"
  shows "processStat proc pid = Some columns"
proof -
  have "stat_line pid name columns = (Itoa pid @ '' ('' @ name) @ CHR '')'' # (spaced columns @ [CHR ''\<newline>''])"
    by (simp add: stat_line_def)
  then have "after_last (CHR '')'') (stat_line pid name columns) = Some (spaced columns @ [CHR ''\<newline>''])"
    by (simp only: after_last_append [OF spaced_plain [OF assms(2)]])
  then show ?thesis using assms by (simp add: processStat_def Fields_spaced)
qed

lemma ParseUint64_Itoa: "0 \<le> n \<Longrightarrow> n < 2 ^ 64 \<Longrightarrow> ParseUint64 (Itoa n) = Some (word_of_int n)"
  using nat_digits_props [of n] by (simp add: ParseUint64_def Itoa_def Let_def)

text \<open>
  C37. A process is recognised by its fingerprint whatever it is called. On a table the kernel writes, a PID
  and a start time are taken for a live process exactly when that process is there with that start time; no
  program name, however many parentheses, spaces or digits it holds, changes what is read.
\<close>

theorem fingerprint_is_exact:
  assumes "\<And>p. proc p = map_option (\<lambda>(name, columns). stat_line p name columns) (table p)"
    and "\<And>p name columns. table p = Some (name, columns) \<Longrightarrow>
      list_all plain_field columns \<and> length columns \<ge> 20 \<and> columns ! 19 = Itoa (started p) \<and> 0 \<le> started p \<and> started p < 2 ^ 64"
  shows "runner_SameProcess proc pid startTime \<longleftrightarrow>
    0 < pid \<and> startTime \<noteq> 0 \<and> table pid \<noteq> None \<and> startTime = word_of_int (started pid)"
proof (cases "table pid")
  case None
  then show ?thesis
    using assms(1) [of pid] by (simp add: runner_SameProcess_def processStartTime_def statField_def processStat_def)
next
  case (Some entry)
  obtain name columns where e: "entry = (name, columns)" by fastforce
  have p: "proc pid = Some (stat_line pid name columns)" using assms(1) [of pid] Some e by simp
  have f: "list_all plain_field columns" "length columns \<ge> 20" "columns ! 19 = Itoa (started pid)" "0 \<le> started pid" "started pid < 2 ^ 64"
    using assms(2) [OF Some [unfolded e]] by auto
  have "processStartTime proc pid = Some (word_of_int (started pid))"
    using processStat_line [where proc = proc and pid = pid, OF p f(1)] f(2-5)
    by (simp add: processStartTime_def statField_def statValue_def Let_def stat_fields ParseUint64_Itoa)
  then show ?thesis using Some by (auto simp: runner_SameProcess_def)
qed

text \<open>A program that names itself after another one's line.\<close>

definition lookalike :: "int \<Rightarrow> (string \<times> string list) option" where
  "lookalike p = (if p = 7 then Some ('') S 1 7 7 0 -1 0 0 0 0 0 0 0 0 0 0 0 0 0 99 ('', ''S'' # replicate 18 ''0'' @ [''42'', ''0''])
     else None)"

theorem fingerprint_is_exact_witness:
  "runner_SameProcess (\<lambda>p. map_option (\<lambda>(name, columns). stat_line p name columns) (lookalike p)) 7 42 \<and>
   \<not> runner_SameProcess (\<lambda>p. map_option (\<lambda>(name, columns). stat_line p name columns) (lookalike p)) 7 99"
proof -
  have itoa: "Itoa 42 = ''42''" by code_simp
  have plain: "list_all plain_field columns \<and> length columns \<ge> 20 \<and> columns ! 19 = Itoa 42 \<and> 0 \<le> (42::int) \<and> (42::int) < 2 ^ 64"
    if "lookalike p = Some (name, columns)" for p name columns
    using that by (auto simp: lookalike_def plain_field_def is_space_def itoa numeral_eq_Suc split: if_splits)
  note exact = fingerprint_is_exact [of _ lookalike "\<lambda>_. 42", OF refl plain]
  show ?thesis by (simp only: exact) (simp add: lookalike_def)
qed

section \<open>The environment of a child\<close>

text \<open>What the child finds under a name: \<^verbatim>\<open>os/exec\<close> keeps the last of several entries with one name.\<close>

definition entry_name :: "string \<Rightarrow> string" where
  "entry_name e = fst (Cut e (CHR ''=''))"

definition entry_value :: "string \<Rightarrow> string" where
  "entry_value e = fst (snd (Cut e (CHR ''='')))"

definition child_getenv :: "string list \<Rightarrow> string \<Rightarrow> string option" where
  "child_getenv env name = map_option entry_value (find (\<lambda>e. entry_name e = name) (rev env))"

lemma Cut_entry: "CHR ''='' \<notin> set name \<Longrightarrow> Cut (name @ CHR ''='' # v) (CHR ''='') = (name, v, True)"
  by (induction name) auto

lemma entry [simp]: "CHR ''='' \<notin> set name \<Longrightarrow> entry_name (name @ CHR ''='' # v) = name \<and> entry_value (name @ CHR ''='' # v) = v"
  by (simp add: entry_name_def entry_value_def Cut_entry)

lemma find_append: "find P (a @ b) = (case find P a of Some x \<Rightarrow> Some x | None \<Rightarrow> find P b)"
  by (induction a) auto

lemma find_None: "find P xs = None \<longleftrightarrow> (\<forall>x \<in> set xs. \<not> P x)"
  by (induction xs) auto

lemma child_explicit:
  assumes "\<forall>(n, v) \<in> set env. CHR ''='' \<notin> set n" and "distinct (map fst env)"
  shows "map_option entry_value (find (\<lambda>e. entry_name e = name) (rev (map (\<lambda>(n, v). n @ ''='' @ v) env))) = map_of env name"
  using assms
proof (induction env)
  case (Cons e env)
  obtain n v where e: "e = (n, v)" by fastforce
  have IH: "map_option entry_value (find (\<lambda>e. entry_name e = name) (rev (map (\<lambda>(n, v). n @ ''='' @ v) env))) = map_of env name"
    using Cons by simp
  show ?case
  proof (cases "map_of env name")
    case None
    then have "find (\<lambda>e. entry_name e = name) (rev (map (\<lambda>(n, v). n @ ''='' @ v) env)) = None" using IH by simp
    then show ?thesis using Cons.prems(1) e None by (simp add: find_append)
  next
    case (Some x)
    then have "n \<noteq> name" using Cons.prems(2) e by (auto dest: map_of_SomeD intro: rev_image_eqI)
    moreover obtain y where "find (\<lambda>e. entry_name e = name) (rev (map (\<lambda>(n, v). n @ ''='' @ v) env)) = Some y"
      using IH Some by auto
    ultimately show ?thesis using IH Some e by (simp add: find_append)
  qed
qed simp

lemma child_inherited:
  assumes "\<forall>n \<in> set names. CHR ''='' \<notin> set n"
  shows "map_option entry_value (find (\<lambda>e. entry_name e = name)
      (rev (concat (map (\<lambda>n. case lookup_env n of Some v \<Rightarrow> [n @ ''='' @ v] | None \<Rightarrow> []) names)))) =
    (if name \<in> set names then lookup_env name else None)"
  using assms
proof (induction names)
  case (Cons n names)
  let ?rest = "rev (concat (map (\<lambda>n. case lookup_env n of Some v \<Rightarrow> [n @ ''='' @ v] | None \<Rightarrow> []) names))"
  have IH: "map_option entry_value (find (\<lambda>e. entry_name e = name) ?rest) = (if name \<in> set names then lookup_env name else None)"
    using Cons by simp
  show ?case
  proof (cases "find (\<lambda>e. entry_name e = name) ?rest")
    case None
    then have "(if name \<in> set names then lookup_env name else None) = None" using IH by simp
    then show ?thesis using Cons.prems None by (cases "lookup_env n") (auto simp: find_append split: if_splits)
  next
    case (Some y)
    then show ?thesis using IH by (cases "lookup_env n") (auto simp: find_append split: if_splits)
  qed
qed simp

text \<open>
  Nothing else crosses over. What a child finds under a name is the explicit value of its worker or its
  request; if there is none, the value the daemon has for that name, provided the worker passes it through;
  and otherwise nothing, whatever else the daemon has in its own environment.
\<close>

theorem child_environment:
  assumes "\<forall>(n, v) \<in> set (sp_Env spec). CHR ''='' \<notin> set n" and "distinct (map fst (sp_Env spec))"
    and "\<forall>n \<in> set (sp_EnvPassthrough spec). CHR ''='' \<notin> set n"
  shows "child_getenv (buildEnv lookup_env spec) name =
    (case map_of (sp_Env spec) name of
       Some v \<Rightarrow> Some v
     | None \<Rightarrow> if name \<in> set (sp_EnvPassthrough spec) then lookup_env name else None)"
proof -
  note own = child_explicit [OF assms(1,2), of name]
  note inherited = child_inherited [OF assms(3), of name lookup_env]
  show ?thesis
  proof (cases "find (\<lambda>e. entry_name e = name) (rev (map (\<lambda>(n, v). n @ ''='' @ v) (sp_Env spec)))")
    case None
    then show ?thesis using own inherited by (simp add: child_getenv_def buildEnv_def find_append)
  next
    case (Some y)
    then have "map_of (sp_Env spec) name = Some (entry_value y)" using own by simp
    then show ?thesis using Some by (simp add: child_getenv_def buildEnv_def find_append)
  qed
qed

definition probe_spec :: Spec where
  "probe_spec = \<lparr>sp_Command = ''/bin/true'', sp_Args = [], sp_Cwd = ''/'', sp_Env = [(''A'', ''1'')],
     sp_EnvPassthrough = [''A'', ''HOME''], sp_User = '''', sp_Group = '''', sp_AllowRoot = False\<rparr>"

theorem child_environment_witness:
  "child_getenv (buildEnv (\<lambda>_. Some ''daemon'') probe_spec) ''A'' = Some ''1'' \<and>
   child_getenv (buildEnv (\<lambda>_. Some ''daemon'') probe_spec) ''HOME'' = Some ''daemon'' \<and>
   child_getenv (buildEnv (\<lambda>_. Some ''daemon'') probe_spec) ''PROCESSD_TOKEN'' = None"
proof -
  have "\<forall>(n, v) \<in> set (sp_Env probe_spec). CHR ''='' \<notin> set n" "distinct (map fst (sp_Env probe_spec))"
    "\<forall>n \<in> set (sp_EnvPassthrough probe_spec). CHR ''='' \<notin> set n"
    by (simp_all add: probe_spec_def)
  note env = child_environment [OF this, of "\<lambda>_. Some ''daemon''"]
  show ?thesis by (simp only: env) (simp add: probe_spec_def)
qed

section \<open>Stopping a group\<close>

text \<open>
  How a group is stopped. Nothing is ever sent to a single process. A stop of a child ends without force
  when the child has been reaped, of an adopted group when it was seen empty, and otherwise with a SIGKILL
  once the grace has elapsed or the context is cancelled; so whatever members of the group are left when the
  child itself is reaped in time are left running.
\<close>

theorem stop_escalates:
  assumes "runner_Stop h asked forced ws = Some (ok, sent)"
  shows "(\<forall>(target, sig) \<in> set sent. target = - ha_pgid h \<and> target < 0) \<and>
    (if ha_pgid h \<le> 0 then \<not> ok \<and> sent = []
     else if asked = Errno then \<not> ok \<and> sent = [(- ha_pgid h, SIGTERM)]
     else \<exists>waited wake rest. ws = waited @ wake # rest \<and> set waited \<inter> {Cancelled, Elapsed} = {} \<and>
       (if wake \<in> {Cancelled, Elapsed}
        then sent = [(- ha_pgid h, SIGTERM), (- ha_pgid h, SIGKILL)] \<and> (ok \<longleftrightarrow> forced \<noteq> Errno)
        else ok \<and> sent = [(- ha_pgid h, SIGTERM)] \<and> wake = (if ha_child h then Reaped else Ticked False)))"
proof -
  have child: "\<exists>waited wake rest. ws = waited @ wake # rest \<and> set waited \<inter> {Cancelled, Elapsed} = {} \<and>
      (b \<longleftrightarrow> wake \<in> {Cancelled, Elapsed}) \<and> (\<not> b \<longrightarrow> wake = Reaped)" if "stop_child ws = Some b" for b ws
    using that
  proof (induction ws rule: stop_child.induct)
    case (5 alive ws)
    then obtain waited wake rest where IH: "ws = waited @ wake # rest" "set waited \<inter> {Cancelled, Elapsed} = {}"
      "b \<longleftrightarrow> wake \<in> {Cancelled, Elapsed}" "\<not> b \<longrightarrow> wake = Reaped" by auto
    then show ?case by (intro exI [of _ "Ticked alive # waited"] exI [of _ wake] exI [of _ rest]) simp
  qed (simp, (rule exI [of _ "[]"], simp)+)
  have adopted: "\<exists>waited wake rest. ws = waited @ wake # rest \<and> set waited \<inter> {Cancelled, Elapsed} = {} \<and>
      (b \<longleftrightarrow> wake \<in> {Cancelled, Elapsed}) \<and> (\<not> b \<longrightarrow> wake = Ticked False)" if "stop_adopted ws = Some b" for b ws
    using that
  proof (induction ws rule: stop_adopted.induct)
    case (4 alive ws)
    show ?case
    proof (cases alive)
      case True
      with 4 obtain waited wake rest where IH: "ws = waited @ wake # rest" "set waited \<inter> {Cancelled, Elapsed} = {}"
        "b \<longleftrightarrow> wake \<in> {Cancelled, Elapsed}" "\<not> b \<longrightarrow> wake = Ticked False" by auto
      then show ?thesis by (intro exI [of _ "Ticked alive # waited"] exI [of _ wake] exI [of _ rest]) simp
    qed (use 4 in \<open>simp, intro exI [of _ "[]"], simp\<close>)
  next
    case (5 ws)
    then obtain waited wake rest where IH: "ws = waited @ wake # rest" "set waited \<inter> {Cancelled, Elapsed} = {}"
      "b \<longleftrightarrow> wake \<in> {Cancelled, Elapsed}" "\<not> b \<longrightarrow> wake = Ticked False" by auto
    then show ?case by (intro exI [of _ "Reaped # waited"] exI [of _ wake] exI [of _ rest]) simp
  qed (simp, (rule exI [of _ "[]"], simp)+)
  show ?thesis
  proof (cases "ha_pgid h \<le> 0 \<or> asked = Errno")
    case True
    then show ?thesis using assms by (auto simp: runner_Stop_def signalGroup_def)
  next
    case False
    then obtain b where b: "(if ha_child h then stop_child ws else stop_adopted ws) = Some b"
      "sent = (- ha_pgid h, SIGTERM) # (if b then [(- ha_pgid h, SIGKILL)] else [])" "ok \<longleftrightarrow> \<not> b \<or> forced \<noteq> Errno"
      using assms by (auto simp: runner_Stop_def signalGroup_def split: option.splits bool.splits)
    then obtain waited wake rest where "ws = waited @ wake # rest" "set waited \<inter> {Cancelled, Elapsed} = {}"
      "b \<longleftrightarrow> wake \<in> {Cancelled, Elapsed}" "\<not> b \<longrightarrow> wake = (if ha_child h then Reaped else Ticked False)"
      using child adopted by (cases "ha_child h") (auto, blast+)
    then have "\<exists>waited wake rest. ws = waited @ wake # rest \<and> set waited \<inter> {Cancelled, Elapsed} = {} \<and>
        (if wake \<in> {Cancelled, Elapsed}
         then sent = [(- ha_pgid h, SIGTERM), (- ha_pgid h, SIGKILL)] \<and> (ok \<longleftrightarrow> forced \<noteq> Errno)
         else ok \<and> sent = [(- ha_pgid h, SIGTERM)] \<and> wake = (if ha_child h then Reaped else Ticked False))"
      using b(2,3) by (intro exI [of _ waited] exI [of _ wake] exI [of _ rest]) simp
    moreover have "\<forall>(target, sig) \<in> set sent. target = - ha_pgid h \<and> target < 0" using False b(2) by (cases b) auto
    ultimately show ?thesis using False by simp
  qed
qed

theorem stop_escalates_witness:
  "\<exists>waited wake rest. [Reaped, Elapsed] = waited @ wake # rest \<and> wake = Reaped \<and>
     runner_Stop \<lparr>ha_PID = 7, ha_PIDStartTime = 42, ha_pgid = 7, ha_child = True\<rparr> Delivered Delivered [Reaped, Elapsed] =
       Some (True, [(- 7, SIGTERM)])"
proof -
  let ?h = "\<lparr>ha_PID = 7, ha_PIDStartTime = 42, ha_pgid = 7, ha_child = True\<rparr>"
  have s: "runner_Stop ?h Delivered Delivered [Reaped, Elapsed] = Some (True, [(- 7, SIGTERM)])"
    by (simp add: runner_Stop_def signalGroup_def)
  show ?thesis using stop_escalates [OF s] s by (auto simp: SIGTERM_def SIGKILL_def split: if_splits)
qed

end
