(* ===== verification/Sqlite.thy ===== *)
theory Sqlite
  imports Store Notifier GoTime GoStrings "HOL-Library.Word"
begin

text \<open>
  \<^verbatim>\<open>internal/store/sqlite/sqlite.go\<close> and the columns of \<^verbatim>\<open>processes.go\<close>: timestamps, cursors and JSON as the text
  that is stored, the listing as SQL computes it on that text, and the migrations. \<open>Store\<close> works on the
  values; \<open>SqliteProps\<close> shows why it may.
\<close>

section \<open>Timestamps as text\<close>

definition formatTime :: "gtime \<Rightarrow> string" where
  "formatTime t =
     pad 4 (Year UTC t) @ ''-'' @ pad 2 (Month UTC t) @ ''-'' @ pad 2 (Day UTC t) @ ''T'' @
     pad 2 (Hour UTC t) @ '':'' @ pad 2 (Minute UTC t) @ '':'' @ pad 2 (Second UTC t) @ ''.'' @
     pad 9 (Nanosecond t) @ ''Z''"

definition formatTimePtr :: "gtime option \<Rightarrow> string option" where
  "formatTimePtr t = map_option formatTime t"

text \<open>
  \<^verbatim>\<open>time.Parse\<close> with the RFC 3339 layout: numbers at fixed places and in their range, digits after a dot of
  which nine count, and a zone. \<open>lenient\<close> is what the general parser still accepts (a one-digit hour, a comma
  for the dot).
\<close>

definition number_in :: "int \<Rightarrow> int \<Rightarrow> string \<Rightarrow> int option" where
  "number_in lo hi s =
     (if s = '''' \<or> \<not> list_all is_digit s then None
      else let n = digits_val 0 s in if lo \<le> n \<and> n \<le> hi then Some n else None)"

definition parseNanoseconds :: "string \<Rightarrow> int" where
  "parseNanoseconds digits = digits_val 0 (take 9 (digits @ replicate 9 (CHR ''0'')))"

text \<open>The zone, as seconds east of UTC.\<close>

definition parse_zone :: "string \<Rightarrow> int option" where
  "parse_zone s =
     (if s = ''Z'' then Some 0
      else if length s = 6 \<and> s ! 0 \<in> set ''+-'' \<and> s ! 3 = CHR '':'' then
        (case (number_in 0 23 (take 2 (drop 1 s)), number_in 0 59 (drop 4 s)) of
           (Some hh, Some mm) \<Rightarrow> Some ((if s ! 0 = CHR ''-'' then -1 else 1) * (hh * 3600 + mm * 60))
         | _ \<Rightarrow> None)
      else None)"

definition parse_fraction :: "string \<Rightarrow> int \<times> string" where
  "parse_fraction s =
     (if length s \<ge> 2 \<and> s ! 0 = CHR ''.'' \<and> is_digit (s ! 1)
      then (parseNanoseconds (takeWhile is_digit (tl s)), dropWhile is_digit (tl s))
      else (0, s))"

definition parseRFC3339 :: "string \<Rightarrow> gtime option" where
  "parseRFC3339 s =
     (if length s < 19 \<or> s ! 4 \<noteq> CHR ''-'' \<or> s ! 7 \<noteq> CHR ''-'' \<or> s ! 10 \<noteq> CHR ''T'' \<or> s ! 13 \<noteq> CHR '':'' \<or> s ! 16 \<noteq> CHR '':''
      then None
      else
        (case (number_in 0 9999 (take 4 s), number_in 1 12 (take 2 (drop 5 s))) of
           (Some y, Some mo) \<Rightarrow>
             (case (number_in 1 (month_lens y ! nat (mo - 1)) (take 2 (drop 8 s)), number_in 0 23 (take 2 (drop 11 s)),
                    number_in 0 59 (take 2 (drop 14 s)), number_in 0 59 (take 2 (drop 17 s))) of
                (Some d, Some h, Some mi, Some sec) \<Rightarrow>
                  (case parse_fraction (drop 19 s) of (ns, zone) \<Rightarrow>
                     map_option (\<lambda>off. Date y mo d h mi sec ns UTC - off * second) (parse_zone zone))
              | _ \<Rightarrow> None)
         | _ \<Rightarrow> None))"

definition parseTime :: "(string \<Rightarrow> gtime option) \<Rightarrow> string \<Rightarrow> gtime option" where
  "parseTime lenient raw = (case parseRFC3339 raw of None \<Rightarrow> lenient raw | Some t \<Rightarrow> Some t)"

text \<open>\<open>None\<close> is an error, \<open>Some None\<close> a null column.\<close>

definition parseTimePtr :: "(string \<Rightarrow> gtime option) \<Rightarrow> string option \<Rightarrow> gtime option option" where
  "parseTimePtr lenient raw =
     (case raw of
        None \<Rightarrow> Some None
      | Some s \<Rightarrow> if s = '''' then Some None else map_option Some (parseTime lenient s))"

section \<open>Cursors as text\<close>

definition cursor_text :: "(string \<Rightarrow> string) \<Rightarrow> gtime \<Rightarrow> string \<Rightarrow> string" where
  "cursor_text base64 t pid = base64 (formatTime t @ ''|'' @ pid)"

definition decodeCursor ::
  "(string \<Rightarrow> string option) \<Rightarrow> (string \<Rightarrow> gtime option) \<Rightarrow> string \<Rightarrow> (gtime \<times> string) option" where
  "decodeCursor unbase64 lenient cursor =
     (case unbase64 cursor of
        None \<Rightarrow> None
      | Some raw \<Rightarrow>
          (case Cut raw (CHR ''|'') of
             (timestamp, pid, found) \<Rightarrow>
               if \<not> found then None else map_option (\<lambda>t. (t, pid)) (parseTime lenient timestamp)))"

section \<open>Rows of the table of executions\<close>

text \<open>A Go string type is its text; \<open>State_text\<close> and \<open>Reason_text\<close> are those of \<open>Notifier\<close>.\<close>

fun Type_text :: "Type \<Rightarrow> string" where
  "Type_text TypeTask = ''task''"
| "Type_text TypeService = ''service''"
| "Type_text (TypeOther s) = s"

definition Type_of :: "string \<Rightarrow> Type" where
  "Type_of s = (if s = ''task'' then TypeTask else if s = ''service'' then TypeService else TypeOther s)"

definition State_of :: "string \<Rightarrow> State" where
  "State_of s =
     (case find (\<lambda>st. State_text st = s)
        [StateCreated, StateQueued, StateStarting, StateRunning, StateStopping, StateCrashed, StateRetrying,
         StateCompleted, StateFailed, StateCanceled] of
        Some st \<Rightarrow> st | None \<Rightarrow> StateOther s)"

text \<open>Only reasons of the program are stored: another text is outside the model.\<close>

definition Reason_of :: "string \<Rightarrow> Reason option" where
  "Reason_of s =
     find (\<lambda>r. Reason_text r = s)
       [ReasonNone, ReasonUserRequest, ReasonTimeout, ReasonMaxAttempts, ReasonQueueTimeout, ReasonShutdown,
        ReasonDaemonRestart, ReasonStartError, ReasonNoRetryExit, ReasonLockConflict, ReasonOrphaned, ReasonNoCapacity]"

text \<open>\<^verbatim>\<open>encoding/json\<close> on the two types of the columns that hold JSON.\<close>

record JSON =
  js_list :: "string list \<Rightarrow> string option"
  js_map :: "(string \<times> string) list \<Rightarrow> string option"
  js_unlist :: "string \<Rightarrow> string list option"
  js_unmap :: "string \<Rightarrow> (string \<times> string) list option"

definition decodeJSON :: "(string \<Rightarrow> 'a list option) \<Rightarrow> string \<Rightarrow> 'a list option" where
  "decodeJSON unmarshal raw = (if raw = '''' then Some [] else unmarshal raw)"

record ProcessRow =
  c_id :: string
  c_worker :: string
  c_type :: string
  c_state :: string
  c_reason :: string
  c_attempt :: int
  c_max_attempts :: int
  c_restarts :: int
  c_lock_key :: string
  c_command :: string
  c_args :: string
  c_env :: string
  c_cwd :: string
  c_run_user :: string
  c_run_group :: string
  c_timeout_ns :: int
  c_metadata :: string
  c_pid :: int
  c_pid_start_time :: int
  c_exit_code :: "int option"
  c_signal :: string
  c_log_truncated :: bool
  c_created_at :: string
  c_queued_at :: "string option"
  c_started_at :: "string option"
  c_finished_at :: "string option"
  c_retry_at :: "string option"

text \<open>What \<^verbatim>\<open>CreateProcess\<close> binds to the columns; \<open>None\<close> when a value has no JSON.\<close>

definition insert_row :: "JSON \<Rightarrow> Process \<Rightarrow> ProcessRow option" where
  "insert_row js p =
     (case (js_list js (p_Args p), js_map js (p_Env p), js_map js (p_Metadata p)) of
        (Some args, Some env, Some metadata) \<Rightarrow>
          Some \<lparr>c_id = p_ID p, c_worker = p_Worker p, c_type = Type_text (p_Type p), c_state = State_text (p_State p),
            c_reason = Reason_text (p_Reason p), c_attempt = p_Attempt p, c_max_attempts = p_MaxAttempts p,
            c_restarts = p_Restarts p, c_lock_key = p_Lock p, c_command = p_Command p, c_args = args, c_env = env,
            c_cwd = p_Cwd p, c_run_user = p_User p, c_run_group = p_Group p, c_timeout_ns = p_Timeout p,
            c_metadata = metadata, c_pid = p_PID p,
            c_pid_start_time = sint (word_of_nat (p_PIDStartTime p) :: 64 word),
            c_exit_code = p_ExitCode p, c_signal = p_Signal p, c_log_truncated = p_LogTruncated p,
            c_created_at = formatTime (p_CreatedAt p), c_queued_at = formatTimePtr (p_QueuedAt p),
            c_started_at = formatTimePtr (p_StartedAt p), c_finished_at = formatTimePtr (p_FinishedAt p),
            c_retry_at = formatTimePtr (p_RetryAt p)\<rparr>
      | _ \<Rightarrow> None)"

definition scanProcess :: "JSON \<Rightarrow> (string \<Rightarrow> gtime option) \<Rightarrow> ProcessRow \<Rightarrow> Process option" where
  "scanProcess js lenient r =
     (case (Reason_of (c_reason r), decodeJSON (js_unlist js) (c_args r), decodeJSON (js_unmap js) (c_env r),
            decodeJSON (js_unmap js) (c_metadata r)) of
        (Some reason, Some args, Some env, Some metadata) \<Rightarrow>
          (case (parseTime lenient (c_created_at r), parseTimePtr lenient (c_queued_at r),
                 parseTimePtr lenient (c_started_at r), parseTimePtr lenient (c_finished_at r),
                 parseTimePtr lenient (c_retry_at r)) of
             (Some created, Some queued_at, Some started, Some finished, Some retry) \<Rightarrow>
               Some \<lparr>p_ID = c_id r, p_Worker = c_worker r, p_Type = Type_of (c_type r), p_State = State_of (c_state r),
                 p_Reason = reason, p_Attempt = c_attempt r, p_Lock = c_lock_key r, p_Metadata = metadata,
                 p_Restarts = c_restarts r, p_Command = c_command r, p_Args = args, p_Env = env, p_Cwd = c_cwd r,
                 p_User = c_run_user r, p_Group = c_run_group r, p_Timeout = c_timeout_ns r,
                 p_MaxAttempts = c_max_attempts r, p_PID = c_pid r,
                 p_PIDStartTime = unat (word_of_int (c_pid_start_time r) :: 64 word),
                 p_ExitCode = c_exit_code r, p_Signal = c_signal r, p_LogTruncated = c_log_truncated r,
                 p_CreatedAt = created, p_QueuedAt = queued_at, p_StartedAt = started, p_FinishedAt = finished,
                 p_RetryAt = retry\<rparr>
           | _ \<Rightarrow> None)
      | _ \<Rightarrow> None)"

definition queryProcesses ::
  "JSON \<Rightarrow> (string \<Rightarrow> gtime option) \<Rightarrow> ProcessRow list \<Rightarrow> Process list option" where
  "queryProcesses js lenient rows = those (map (scanProcess js lenient) rows)"

section \<open>The listing, as SQL computes it on text\<close>

definition where_filter :: "Filter \<Rightarrow> ProcessRow \<Rightarrow> bool" where
  "where_filter f r \<longleftrightarrow>
     (Type_text (f_Type f) \<noteq> '''' \<longrightarrow> c_type r = Type_text (f_Type f)) \<and>
     (f_States f \<noteq> [] \<longrightarrow> c_state r \<in> set (map State_text (f_States f))) \<and>
     (f_Worker f \<noteq> '''' \<longrightarrow> c_worker r = f_Worker f) \<and>
     (f_Lock f \<noteq> '''' \<longrightarrow> c_lock_key r = f_Lock f) \<and>
     (case f_CreatedAfter f of None \<Rightarrow> True | Some t \<Rightarrow> formatTime t < c_created_at r) \<and>
     (case f_CreatedBefore f of None \<Rightarrow> True | Some t \<Rightarrow> c_created_at r < formatTime t)"

definition where_cursor :: "(gtime \<times> string) option \<Rightarrow> ProcessRow \<Rightarrow> bool" where
  "where_cursor bound r =
     (case bound of
        None \<Rightarrow> True
      | Some (t, pid) \<Rightarrow> c_created_at r < formatTime t \<or> (c_created_at r = formatTime t \<and> c_id r < pid))"

definition newest_first :: "ProcessRow list \<Rightarrow> ProcessRow list" where
  "newest_first rows = rev (sort_key (\<lambda>r. (c_created_at r, c_id r)) rows)"

text \<open>The items of a page and the text of its next cursor, empty on the last page.\<close>

definition list_rows ::
  "JSON \<Rightarrow> (string \<Rightarrow> string) \<Rightarrow> (string \<Rightarrow> string option) \<Rightarrow> (string \<Rightarrow> gtime option) \<Rightarrow>
   Filter \<Rightarrow> string \<Rightarrow> ProcessRow list \<Rightarrow> (Process list \<times> string) option" where
  "list_rows js base64 unbase64 lenient f cursor table =
     (case (if cursor = '''' then Some None else map_option Some (decodeCursor unbase64 lenient cursor)) of
        None \<Rightarrow> None
      | Some bound \<Rightarrow>
          let limit = nat (if f_Limit f \<le> 0 then 50 else f_Limit f);
              rows = take (limit + 1) (newest_first (filter (\<lambda>r. where_filter f r \<and> where_cursor bound r) table))
          in map_option
               (\<lambda>items. if limit < length items
                  then (take limit items, cursor_text base64 (p_CreatedAt (last (take limit items))) (p_ID (last (take limit items))))
                  else (items, ''''))
               (queryProcesses js lenient rows))"

section \<open>Migrations\<close>

text \<open>
  The migrations recorded in the database and, in order, those whose statements were committed. A call can fail,
  one entry of \<open>sc_faults\<close> per call; a transaction that does not commit changes nothing.
\<close>

record Schema =
  sc_table :: bool
  sc_recorded :: "string set"
  sc_ran :: "string list"
  sc_faults :: "bool list"

definition sc_fails :: "Schema \<Rightarrow> bool" where
  "sc_fails s = (case sc_faults s of [] \<Rightarrow> False | f # _ \<Rightarrow> f)"

definition sc_called :: "Schema \<Rightarrow> Schema" where
  "sc_called s = s\<lparr>sc_faults := tl (sc_faults s)\<rparr>"

definition applyMigration :: "string \<Rightarrow> Schema \<Rightarrow> bool \<times> Schema" where
  "applyMigration name s =
     (if sc_fails s then (False, sc_called s)
      else let s = sc_called s in
        if name \<in> sc_recorded s then (True, s)
        else if sc_fails s then (False, sc_called s)
        else let s = sc_called s in
          if sc_fails s then (False, sc_called s)
          else let s = sc_called s in
            if sc_fails s then (False, sc_called s)
            else let s = sc_called s in
              if sc_fails s then (False, sc_called s)
              else (True, (sc_called s)\<lparr>sc_recorded := insert name (sc_recorded s), sc_ran := sc_ran s @ [name]\<rparr>))"

fun apply_each :: "string list \<Rightarrow> Schema \<Rightarrow> bool \<times> Schema" where
  "apply_each [] s = (True, s)"
| "apply_each (name # names) s =
     (case applyMigration name s of (False, s) \<Rightarrow> (False, s) | (True, s) \<Rightarrow> apply_each names s)"

definition migrate :: "string list \<Rightarrow> Schema \<Rightarrow> bool \<times> Schema" where
  "migrate entries s =
     (if sc_fails s then (False, sc_called s)
      else apply_each (sort entries) ((sc_called s)\<lparr>sc_table := True\<rparr>))"

definition Open :: "string list \<Rightarrow> Schema \<Rightarrow> bool \<times> Schema" where
  "Open entries s = (if sc_fails s then (False, sc_called s) else migrate entries (sc_called s))"

end
