(* ===== verification/SqliteProps.thy ===== *)
theory SqliteProps
  imports Sqlite StoreProps CronSearch
begin

text \<open>
  Stored timestamps sort like the instants and read back as them, so the listing that \<open>Store\<close> models on instants
  is the one SQL computes on text; and a database is migrated by each migration once, in order.
\<close>

section \<open>Numbers of fixed width\<close>

lemma digits_val_bounds:
  "list_all is_digit s \<Longrightarrow> a * 10 ^ length s \<le> digits_val a s \<and> digits_val a s < (a + 1) * 10 ^ length s"
proof (induction s arbitrary: a)
  case (Cons c s)
  from Cons.prems have c: "0 \<le> digit_val c" "digit_val c \<le> 9" using digit_val_bounds [of c] by auto
  let ?p = "10 ^ length s :: int"
  have "(10 * a + digit_val c) * ?p \<le> digits_val (10 * a + digit_val c) s"
      "digits_val (10 * a + digit_val c) s < (10 * a + digit_val c + 1) * ?p"
    using Cons by auto
  moreover have "10 * a * ?p \<le> (10 * a + digit_val c) * ?p" by (rule mult_right_mono) (use c in simp_all)
  moreover have "(10 * a + digit_val c + 1) * ?p \<le> (10 * a + 10) * ?p" by (rule mult_right_mono) (use c in simp_all)
  ultimately have "10 * a * ?p \<le> digits_val (10 * a + digit_val c) s" "digits_val (10 * a + digit_val c) s < (10 * a + 10) * ?p"
    by linarith+
  then show ?case by (simp add: algebra_simps)
qed simp

lemma digit_order: "is_digit c \<Longrightarrow> is_digit d \<Longrightarrow> c < d \<longleftrightarrow> digit_val c < digit_val d"
proof -
  have "c < d \<longleftrightarrow> int (of_char c) < int (of_char d)" by (simp only: less_char_def of_nat_less_iff)
  then show ?thesis by (simp only: of_nat_of_char digit_val_def) simp
qed

lemma digit_val_inj: "is_digit c \<Longrightarrow> is_digit d \<Longrightarrow> digit_val c = digit_val d \<Longrightarrow> c = d"
  using digit_order by (metis less_irrefl linorder_neqE)

lemma digits_order:
  "length x = length y \<Longrightarrow> list_all is_digit x \<Longrightarrow> list_all is_digit y \<Longrightarrow> x < y \<longleftrightarrow> digits_val a x < digits_val a y"
proof (induction x y arbitrary: a rule: list_induct2)
  case (Cons c xs d ys)
  have far: "digits_val (10 * a + digit_val c) xs < digits_val (10 * a + digit_val d) ys"
    if "digit_val c < digit_val d" "list_all is_digit xs" "list_all is_digit ys" "length xs = length ys" for c d xs ys
  proof -
    have "digits_val (10 * a + digit_val c) xs < (10 * a + digit_val c + 1) * 10 ^ length xs"
      using digits_val_bounds that(2) by blast
    also have "\<dots> \<le> (10 * a + digit_val d) * 10 ^ length ys" using that(1,4) by (simp add: mult_right_mono)
    also have "\<dots> \<le> digits_val (10 * a + digit_val d) ys" using digits_val_bounds that(3) by blast
    finally show ?thesis .
  qed
  consider "digit_val c < digit_val d" | "digit_val d < digit_val c" | "c = d"
    using Cons.prems digit_val_inj by fastforce
  then show ?case
  proof cases
    case 1
    then show ?thesis using far [of c d xs ys] Cons.prems Cons.hyps digit_order [of c d] by simp
  next
    case 2
    then show ?thesis using far [of d c ys xs] Cons.prems Cons.hyps digit_order [of d c] by auto
  next
    case 3
    then show ?thesis using Cons by simp
  qed
qed simp

lemma length_nat_digits: "0 \<le> v \<Longrightarrow> v < 10 ^ n \<Longrightarrow> 0 < n \<Longrightarrow> length (nat_digits v) \<le> n"
proof (induction v arbitrary: n rule: nat_digits.induct)
  case (1 v)
  show ?case
  proof (cases "v < 10")
    case True
    then show ?thesis using 1(4) by (simp add: nat_digits.simps [of v])
  next
    case False
    then obtain k where n: "n = Suc k" "0 < k"
      using 1(3,4) by (cases n; cases "n - 1") auto
    then have "v div 10 < 10 ^ k" using 1(3) by simp
    then show ?thesis using 1(1) [OF False, of k] 1(2) False n by (simp add: nat_digits.simps [of v])
  qed
qed

lemma digits_val_zeros: "digits_val 0 (replicate k (CHR ''0'')) = 0"
  by (induction k) (simp_all add: digit_val_def)

lemma pad_props:
  assumes "0 \<le> v" "v < 10 ^ n" "0 < n"
  shows "length (pad n v) = n" "list_all is_digit (pad n v)" "digits_val 0 (pad n v) = v"
  using length_nat_digits [OF assms] nat_digits_props [OF assms(1)] assms(1)
  by (auto simp: pad_def Itoa_def Let_def digits_val_append digits_val_zeros list_all_iff is_digit_def)

lemma pad_order:
  "0 \<le> v \<Longrightarrow> v < 10 ^ n \<Longrightarrow> 0 \<le> w \<Longrightarrow> w < 10 ^ n \<Longrightarrow> 0 < n \<Longrightarrow> pad n v < pad n w \<longleftrightarrow> v < w"
  using digits_order [of "pad n v" "pad n w" 0] by (simp add: pad_props)

lemma pad_inj:
  "0 \<le> v \<Longrightarrow> v < 10 ^ n \<Longrightarrow> 0 \<le> w \<Longrightarrow> w < 10 ^ n \<Longrightarrow> 0 < n \<Longrightarrow> pad n v = pad n w \<longleftrightarrow> v = w"
  using pad_props(3) by metis

lemma append_less:
  fixes x y :: string
  shows "length x = length y \<Longrightarrow> x @ u < y @ v \<longleftrightarrow> x < y \<or> (x = y \<and> u < v)"
  by (induction x y rule: list_induct2) auto

section \<open>Fields of an instant\<close>

lemma by_quotient: "0 < k \<Longrightarrow> t < u \<longleftrightarrow> t div k < u div k \<or> (t div k = u div k \<and> t mod k < u mod k)" for t u k :: int
proof -
  assume k: "0 < k"
  have "t div k < u div k \<or> (t div k = u div k \<and> t mod k < u mod k)" if "t < u" for t u
  proof (cases "t div k = u div k")
    case True
    have "k * (t div k) = k * (u div k)" using True by simp
    moreover have "k * (t div k) + t mod k = t" "k * (u div k) + u mod k = u" by simp_all
    ultimately show ?thesis using that True by linarith
  next
    case False
    then show ?thesis using zdiv_mono1 [of t u k] that k by simp
  qed
  then show ?thesis
    by (metis order_less_asym order_less_irrefl linorder_neqE)
qed

lemma wall_UTC: "wall UTC t = unix t"
  by (simp add: wall_def offset_at_def loc_lookup_def UTC_def)

lemma date_bound:
  assumes "1 \<le> m" "m \<le> 12" "1 \<le> d" "d \<le> month_lens y ! nat (m - 1)"
  shows "days_before_year y \<le> days_from_civil y m d + epoch_day"
    "days_from_civil y m d + epoch_day < days_before_year (y + 1)"
proof -
  have "nat (m - 1) < 12" using assms by linarith
  note b = take_month_bound [OF this assms(4,3)] days_before_year_Suc [of y]
  show "days_before_year y \<le> days_from_civil y m d + epoch_day" "days_from_civil y m d + epoch_day < days_before_year (y + 1)"
    using b by (simp_all add: days_from_civil_def days_before_month_def)
qed

lemma days_before_month_mono:
  assumes "1 \<le> m" "m < m'" "m' \<le> 12"
  shows "days_before_month y m + month_lens y ! nat (m - 1) \<le> days_before_month y m'"
proof -
  let ?ls = "month_lens y" and ?i = "nat (m - 1)" and ?j = "nat (m' - 1)"
  have ij: "Suc ?i \<le> ?j" "?i < length ?ls" using assms by (auto simp: month_lens_facts)
  have "take ?j ?ls = take (Suc ?i) ?ls @ drop (Suc ?i) (take ?j ?ls)"
    using ij(1) by (metis append_take_drop_id min.absorb1 take_take)
  moreover have "0 \<le> sum_list (drop (Suc ?i) (take ?j ?ls))"
    using month_lens_facts(3) [of y] by (intro sum_list_nonneg) (auto dest!: in_set_dropD in_set_takeD intro: less_imp_le)
  ultimately have "sum_list (take (Suc ?i) ?ls) \<le> sum_list (take ?j ?ls)" by (metis le_add_same_cancel1 sum_list_append)
  then show ?thesis
    using ij(2) by (simp add: days_before_month_def take_Suc_conv_app_nth)
qed

lemma civil_order:
  assumes "civil a = (y, m, d)" "civil b = (y', m', d')"
  shows "a < b \<longleftrightarrow> y < y' \<or> (y = y' \<and> (m < m' \<or> (m = m' \<and> d < d')))"
proof -
  have one: "y < y' \<or> (y = y' \<and> (m < m' \<or> (m = m' \<and> d < d')))"
    if "a < b" "civil a = (y, m, d)" "civil b = (y', m', d')" for a b y m d y' m' d'
  proof -
    note A = civil_props [OF that(2)] and B = civil_props [OF that(3)]
    have "\<not> y' < y"
      using days_before_year_mono [of "y' + 1" y] date_bound [of m d y] date_bound [of m' d' y'] A B that(1) by auto
    moreover have "\<not> m' < m" if "y = y'"
      using days_before_month_mono [of m' m y] A B that \<open>a < b\<close> by (auto simp: days_from_civil_def)
    moreover have "d < d'" if "y = y'" "m = m'"
      using A B that \<open>a < b\<close> by (auto simp: days_from_civil_def)
    ultimately show ?thesis by linarith
  qed
  consider "a < b" | "b < a" | "a = b" by linarith
  then show ?thesis
  proof cases
    case 2
    then show ?thesis using one [OF 2 assms(2,1)] by auto
  qed (use one [OF _ assms] assms in auto)
qed

definition in_range :: "gtime \<Rightarrow> bool" where
  "in_range t \<longleftrightarrow> 0 \<le> Year UTC t \<and> Year UTC t \<le> 9999"

lemma field_bounds:
  "1 \<le> Month UTC t" "Month UTC t \<le> 12" "1 \<le> Day UTC t" "Day UTC t \<le> month_lens (Year UTC t) ! nat (Month UTC t - 1)"
  "Day UTC t \<le> 31"
  "0 \<le> Hour UTC t" "Hour UTC t \<le> 23" "0 \<le> Minute UTC t" "Minute UTC t \<le> 59" "0 \<le> Second UTC t" "Second UTC t \<le> 59"
  "0 \<le> Nanosecond t" "Nanosecond t < 1000000000"
proof -
  obtain y m d where c: "civil (unix t div 86400) = (y, m, d)" by (rule prod_cases3)
  note p = civil_props [OF c]
  show "1 \<le> Month UTC t" "Month UTC t \<le> 12" "1 \<le> Day UTC t" "Day UTC t \<le> month_lens (Year UTC t) ! nat (Month UTC t - 1)"
    using p c by (simp_all add: Month_def Day_def Year_def wall_UTC)
  have "month_lens y ! nat (m - 1) \<in> set (month_lens y)"
    using p by (intro nth_mem) (simp add: month_lens_facts, linarith)
  then have "month_lens y ! nat (m - 1) \<le> 31" by (auto simp: month_lens_def split: if_splits)
  then show "Day UTC t \<le> 31" using p c by (simp add: Day_def wall_UTC)
qed (simp_all add: Hour_def Minute_def Second_def Nanosecond_def second_def)

lemma unix_order:
  "a < b \<longleftrightarrow> a div 86400 < b div 86400 \<or> (a div 86400 = b div 86400 \<and>
     (a mod 86400 div 3600 < b mod 86400 div 3600 \<or> (a mod 86400 div 3600 = b mod 86400 div 3600 \<and>
       (a mod 3600 div 60 < b mod 3600 div 60 \<or> (a mod 3600 div 60 = b mod 3600 div 60 \<and> a mod 60 < b mod 60)))))"
  for a b :: int
proof -
  have quot: "x div 60 div 60 = x div 3600" "x div 3600 div 24 = x div 86400" for x :: int
    using zdiv_zmult2_eq [of 60 x 60] zdiv_zmult2_eq [of 24 x 3600] by simp_all
  have products: "(3600 :: int) = 60 * 60" "(86400 :: int) = 3600 * 24" by simp_all
  have "x mod 3600 div 60 = x div 60 mod 60" for x :: int
    unfolding products(1) by (rule mod_div_factor) simp_all
  moreover have "x mod 86400 div 3600 = x div 3600 mod 24" for x :: int
    unfolding products(2) by (rule mod_div_factor) simp_all
  ultimately have rest: "x mod 3600 div 60 = x div 60 mod 60" "x mod 86400 div 3600 = x div 3600 mod 24" for x :: int
    by blast+
  have "a < b \<longleftrightarrow> a div 60 < b div 60 \<or> (a div 60 = b div 60 \<and> a mod 60 < b mod 60)"
    by (rule by_quotient) simp
  moreover have "a div 60 < b div 60 \<longleftrightarrow>
      a div 3600 < b div 3600 \<or> (a div 3600 = b div 3600 \<and> a mod 3600 div 60 < b mod 3600 div 60)"
    using by_quotient [of 60 "a div 60" "b div 60"] unfolding quot rest by simp
  moreover have "a div 3600 < b div 3600 \<longleftrightarrow>
      a div 86400 < b div 86400 \<or> (a div 86400 = b div 86400 \<and> a mod 86400 div 3600 < b mod 86400 div 3600)"
    using by_quotient [of 24 "a div 3600" "b div 3600"] unfolding quot rest by simp
  moreover have "a div 60 = b div 60 \<longleftrightarrow> a div 3600 = b div 3600 \<and> a mod 3600 div 60 = b mod 3600 div 60"
    unfolding quot(1) [symmetric] rest(1) by (metis mult_div_mod_eq)
  moreover have "a div 3600 = b div 3600 \<longleftrightarrow> a div 86400 = b div 86400 \<and> a mod 86400 div 3600 = b mod 86400 div 3600"
    unfolding quot(2) [symmetric] rest(2) by (metis mult_div_mod_eq)
  ultimately show ?thesis by argo
qed

lemma unix_eq:
  "a = b \<longleftrightarrow> a div 86400 = b div 86400 \<and> a mod 86400 div 3600 = b mod 86400 div 3600 \<and>
     a mod 3600 div 60 = b mod 3600 div 60 \<and> a mod 60 = b mod 60" for a b :: int
proof
  assume "a div 86400 = b div 86400 \<and> a mod 86400 div 3600 = b mod 86400 div 3600 \<and>
     a mod 3600 div 60 = b mod 3600 div 60 \<and> a mod 60 = b mod 60"
  then have "\<not> a < b" "\<not> b < a" unfolding unix_order [of a b] unix_order [of b a] by simp_all
  then show "a = b" by simp
qed simp

text \<open>The order of instants, field by field.\<close>

lemma fields_order:
  "t < u \<longleftrightarrow> Year UTC t < Year UTC u \<or> (Year UTC t = Year UTC u \<and>
     (Month UTC t < Month UTC u \<or> (Month UTC t = Month UTC u \<and>
     (Day UTC t < Day UTC u \<or> (Day UTC t = Day UTC u \<and>
     (Hour UTC t < Hour UTC u \<or> (Hour UTC t = Hour UTC u \<and>
     (Minute UTC t < Minute UTC u \<or> (Minute UTC t = Minute UTC u \<and>
     (Second UTC t < Second UTC u \<or> (Second UTC t = Second UTC u \<and> Nanosecond t < Nanosecond u)))))))))))"
proof -
  obtain y m d where a: "civil (unix t div 86400) = (y, m, d)" by (rule prod_cases3)
  obtain y' m' d' where b: "civil (unix u div 86400) = (y', m', d')" by (rule prod_cases3)
  have same: "unix t div 86400 = unix u div 86400 \<longleftrightarrow> y = y' \<and> m = m' \<and> d = d'"
    using civil_order [OF a b] civil_order [OF b a] by auto
  have "t < u \<longleftrightarrow> unix t < unix u \<or> (unix t = unix u \<and> Nanosecond t < Nanosecond u)"
    using by_quotient [of second t u] by (simp add: unix_def Nanosecond_def second_def)
  then show ?thesis
    unfolding unix_order [of "unix t" "unix u"] unix_eq [of "unix t" "unix u"] civil_order [OF a b] same
      Year_def Month_def Day_def Hour_def Minute_def Second_def wall_UTC a b fst_conv snd_conv by argo
qed

lemma formatTime_order:
  assumes "in_range t" "in_range u"
  shows "formatTime t < formatTime u \<longleftrightarrow> t < u"
proof -
  have w: "\<lbrakk>0 \<le> v; v < 10 ^ n; 0 \<le> v'; v' < 10 ^ n; 0 < n\<rbrakk> \<Longrightarrow>
      pad n v @ x < pad n v' @ x' \<longleftrightarrow> v < v' \<or> (v = v' \<and> x < x')" for n v v' x x'
    using append_less [of "pad n v" "pad n v'"] by (simp add: pad_props pad_order pad_inj)
  note B = field_bounds [of t] field_bounds [of u]
  have Y: "0 \<le> Year UTC t" "Year UTC t < 10 ^ 4" "0 \<le> Year UTC u" "Year UTC u < 10 ^ 4"
    using assms by (simp_all add: in_range_def)
  have "formatTime t < formatTime u \<longleftrightarrow> Year UTC t < Year UTC u \<or> (Year UTC t = Year UTC u \<and>
     (Month UTC t < Month UTC u \<or> (Month UTC t = Month UTC u \<and>
     (Day UTC t < Day UTC u \<or> (Day UTC t = Day UTC u \<and>
     (Hour UTC t < Hour UTC u \<or> (Hour UTC t = Hour UTC u \<and>
     (Minute UTC t < Minute UTC u \<or> (Minute UTC t = Minute UTC u \<and>
     (Second UTC t < Second UTC u \<or> (Second UTC t = Second UTC u \<and> Nanosecond t < Nanosecond u)))))))))))"
    unfolding formatTime_def using B Y by (simp add: w)
  then show ?thesis using fields_order [of t u] by simp
qed

lemma formatTime_inj: "in_range t \<Longrightarrow> in_range u \<Longrightarrow> formatTime t = formatTime u \<longleftrightarrow> t = u"
  using formatTime_order by (metis order_less_irrefl linorder_neqE)

section \<open>Reading back\<close>

lemma number_in_pad: "\<lbrakk>0 \<le> v; v < 10 ^ n; 0 < n; lo \<le> v; v \<le> hi\<rbrakk> \<Longrightarrow> number_in lo hi (pad n v) = Some v"
  using pad_props [of v n] by (auto simp: number_in_def Let_def)

lemma UTC_fixed: "fixed UTC"
  by (simp add: fixed_def UTC_def)

lemma clock_sum:
  "x div 86400 * 86400 + x mod 86400 div 3600 * 3600 + x mod 3600 div 60 * 60 + x mod 60 = x" for x :: int
proof -
  have "x mod 86400 mod 3600 = x mod 3600" "x mod 3600 mod 60 = x mod 60"
    by (rule mod_mod_cancel, simp)+
  then show ?thesis
    using div_mult_mod_eq [of x 86400] div_mult_mod_eq [of "x mod 86400" 3600] div_mult_mod_eq [of "x mod 3600" 60] by linarith
qed

lemma Date_of_fields:
  "Date (Year UTC t) (Month UTC t) (Day UTC t) (Hour UTC t) (Minute UTC t) (Second UTC t) (Nanosecond t) UTC = t"
proof -
  obtain y m d where c: "civil (unix t div 86400) = (y, m, d)" by (rule prod_cases3)
  note p = civil_props [OF c]
  have "from_wall UTC x = x" for x using fixed_from_wall [OF UTC_fixed] by (simp add: UTC_def)
  moreover have "(m - 1) div 12 = 0" "(m - 1) mod 12 + 1 = m" using p by auto
  moreover have "unix t div 86400 * 86400 + unix t mod 86400 div 3600 * 3600 + unix t mod 3600 div 60 * 60 + unix t mod 60 = unix t"
    by (rule clock_sum)
  moreover have "unix t * second + Nanosecond t = t" by (simp add: unix_def Nanosecond_def)
  ultimately show ?thesis
    using p c by (simp add: Date_def Let_def Year_def Month_def Day_def Hour_def Minute_def Second_def wall_UTC)
qed

lemma parse_fraction_pad:
  "0 \<le> ns \<Longrightarrow> ns < 10 ^ 9 \<Longrightarrow> parse_fraction (CHR ''.'' # pad 9 ns @ ''Z'') = (ns, ''Z'')"
proof -
  assume ns: "0 \<le> ns" "ns < 10 ^ 9"
  note p = pad_props [OF ns, simplified]
  obtain c cs where cs: "pad 9 ns = c # cs" using p(1) by (cases "pad 9 ns") auto
  have "\<not> is_digit (CHR ''Z'')" by (simp add: is_digit_def)
  then have "takeWhile is_digit (pad 9 ns @ ''Z'') = pad 9 ns" "dropWhile is_digit (pad 9 ns @ ''Z'') = ''Z''"
    using p(2) by (simp_all add: takeWhile_append dropWhile_append list_all_iff)
  moreover have "parseNanoseconds (pad 9 ns) = ns" using p by (simp add: parseNanoseconds_def)
  moreover have "is_digit ((pad 9 ns @ ''Z'') ! 0)" using p(2) cs by simp
  ultimately show ?thesis using p(1) by (simp add: parse_fraction_def)
qed

lemma parse_formatTime:
  assumes "in_range t"
  shows "parseRFC3339 (formatTime t) = Some t"
proof -
  note B = field_bounds [of t]
  have Y: "0 \<le> Year UTC t" "Year UTC t < 10 ^ 4" "Year UTC t \<le> 9999" using assms by (simp_all add: in_range_def)
  have len: "length (pad 4 (Year UTC t)) = 4" "length (pad 2 (Month UTC t)) = 2" "length (pad 2 (Day UTC t)) = 2"
    "length (pad 2 (Hour UTC t)) = 2" "length (pad 2 (Minute UTC t)) = 2" "length (pad 2 (Second UTC t)) = 2"
    "length (pad 9 (Nanosecond t)) = 9"
    using B Y by (simp_all add: pad_props)
  have num: "number_in 0 9999 (pad 4 (Year UTC t)) = Some (Year UTC t)"
    "number_in 1 12 (pad 2 (Month UTC t)) = Some (Month UTC t)"
    "number_in 1 (month_lens (Year UTC t) ! nat (Month UTC t - 1)) (pad 2 (Day UTC t)) = Some (Day UTC t)"
    "number_in 0 23 (pad 2 (Hour UTC t)) = Some (Hour UTC t)" "number_in 0 59 (pad 2 (Minute UTC t)) = Some (Minute UTC t)"
    "number_in 0 59 (pad 2 (Second UTC t)) = Some (Second UTC t)"
    using B Y by (simp_all add: number_in_pad)
  have frac: "parse_fraction (CHR ''.'' # pad 9 (Nanosecond t) @ ''Z'') = (Nanosecond t, ''Z'')"
    by (rule parse_fraction_pad) (use B in simp_all)
  show ?thesis
    unfolding parseRFC3339_def formatTime_def
    by (simp add: len num frac nth_append parse_zone_def Date_of_fields)
qed

lemma parseTime_formatTime [simp]: "in_range t \<Longrightarrow> parseTime lenient (formatTime t) = Some t"
  by (simp add: parseTime_def parse_formatTime)

lemma formatTime_not_empty: "formatTime t \<noteq> ''''"
  by (simp add: formatTime_def)

lemma parseTimePtr_formatTimePtr [simp]:
  "(\<And>t. v = Some t \<Longrightarrow> in_range t) \<Longrightarrow> parseTimePtr lenient (formatTimePtr v) = Some v"
  by (cases v) (simp_all add: parseTimePtr_def formatTimePtr_def formatTime_not_empty)

lemma Cut_at: "c \<notin> set a \<Longrightarrow> Cut (a @ c # b) c = (a, b, True)"
  by (induction a) auto

lemma pad_no_bar: "0 \<le> v \<Longrightarrow> v < 10 ^ n \<Longrightarrow> 0 < n \<Longrightarrow> CHR ''|'' \<notin> set (pad n v)"
  using pad_props(2) [of v n] by (auto simp: list_all_iff is_digit_def)

lemma formatTime_no_bar: "in_range t \<Longrightarrow> CHR ''|'' \<notin> set (formatTime t)"
  using field_bounds [of t] by (simp add: formatTime_def in_range_def pad_no_bar)

lemma decodeCursor_text:
  "\<lbrakk>in_range t; \<And>s. unbase64 (base64 s) = Some s\<rbrakk> \<Longrightarrow>
     decodeCursor unbase64 lenient (cursor_text base64 t pid) = Some (t, pid)"
  by (simp add: decodeCursor_def cursor_text_def Cut_at formatTime_no_bar)

section \<open>Rows read back\<close>

lemma Type_of_text: "p \<noteq> TypeOther ''task'' \<Longrightarrow> p \<noteq> TypeOther ''service'' \<Longrightarrow> Type_of (Type_text p) = p"
  by (cases p) (auto simp: Type_of_def)

lemma Reason_of_text [simp]: "Reason_of (Reason_text r) = Some r"
  by (cases r) (simp_all add: Reason_of_def)

lemma State_of_text: "\<forall>s. st \<noteq> StateOther s \<Longrightarrow> State_of (State_text st) = st"
  by (cases st) (simp_all add: State_of_def)

lemma uint64_column: "n < 2 ^ 64 \<Longrightarrow> unat (word_of_int (sint (word_of_nat n :: 64 word)) :: 64 word) = n"
  by (simp add: unat_of_nat)

text \<open>An execution whose columns say what it is, and that JSON carries.\<close>

definition storable :: "JSON \<Rightarrow> Process \<Rightarrow> bool" where
  "storable js p \<longleftrightarrow>
     Type_of (Type_text (p_Type p)) = p_Type p \<and> State_of (State_text (p_State p)) = p_State p \<and>
     p_PIDStartTime p < 2 ^ 64 \<and>
     in_range (p_CreatedAt p) \<and> (\<forall>v \<in> {p_QueuedAt p, p_StartedAt p, p_FinishedAt p, p_RetryAt p}. \<forall>t. v = Some t \<longrightarrow> in_range t) \<and>
     (\<exists>s. js_list js (p_Args p) = Some s \<and> s \<noteq> '''' \<and> js_unlist js s = Some (p_Args p)) \<and>
     (\<forall>m \<in> {p_Env p, p_Metadata p}. \<exists>s. js_map js m = Some s \<and> s \<noteq> '''' \<and> js_unmap js s = Some m)"

lemma scan_inserted:
  assumes "storable js p" "insert_row js p = Some r"
  shows "scanProcess js lenient r = Some p"
proof -
  obtain args env meta where j: "js_list js (p_Args p) = Some args" "js_map js (p_Env p) = Some env"
      "js_map js (p_Metadata p) = Some meta"
      "args \<noteq> ''''" "env \<noteq> ''''" "meta \<noteq> ''''"
      "js_unlist js args = Some (p_Args p)" "js_unmap js env = Some (p_Env p)" "js_unmap js meta = Some (p_Metadata p)"
    using assms(1) by (auto simp: storable_def)
  note s = assms(1) [unfolded storable_def]
  have times: "parseTime lenient (formatTime (p_CreatedAt p)) = Some (p_CreatedAt p)"
      "parseTimePtr lenient (formatTimePtr (p_QueuedAt p)) = Some (p_QueuedAt p)"
      "parseTimePtr lenient (formatTimePtr (p_StartedAt p)) = Some (p_StartedAt p)"
      "parseTimePtr lenient (formatTimePtr (p_FinishedAt p)) = Some (p_FinishedAt p)"
      "parseTimePtr lenient (formatTimePtr (p_RetryAt p)) = Some (p_RetryAt p)"
    using s by simp_all
  have n: "unat (word_of_int (sint (word_of_nat (p_PIDStartTime p) :: 64 word)) :: 64 word) = p_PIDStartTime p"
    using s uint64_column by blast
  have known: "Type_of (Type_text (p_Type p)) = p_Type p" "State_of (State_text (p_State p)) = p_State p"
    using s by simp_all
  obtain pst where pst: "pst = sint (word_of_nat (p_PIDStartTime p) :: 64 word)" by simp
  note n' = n [folded pst]
  note r = assms(2) [unfolded insert_row_def j(1-3) option.case prod.case option.inject pst [symmetric], symmetric]
  show ?thesis
    unfolding r scanProcess_def decodeJSON_def by (simp add: j times n' known)
qed

lemma insert_row_columns:
  "insert_row js p = Some r \<Longrightarrow>
     c_created_at r = formatTime (p_CreatedAt p) \<and> c_id r = p_ID p \<and> c_type r = Type_text (p_Type p) \<and>
     c_state r = State_text (p_State p) \<and> c_worker r = p_Worker p \<and> c_lock_key r = p_Lock p"
  by (auto simp: insert_row_def split: option.splits)

section \<open>The listing on text\<close>

lemma insort_key_image: "insort_key k (h x) (map h xs) = map h (insort_key (\<lambda>x. k (h x)) x xs)"
  by (induction xs) auto

lemma sort_key_image: "sort_key k (map h xs) = map h (sort_key (\<lambda>x. k (h x)) xs)"
  by (induction xs) (simp_all add: insort_key_image)

lemma insort_key_agree:
  "\<forall>b \<in> set xs. k x \<le> k b \<longleftrightarrow> l x \<le> l b \<Longrightarrow> insort_key k x xs = insort_key l x xs"
  by (induction xs) simp_all

lemma sort_key_agree:
  "\<forall>a \<in> set xs. \<forall>b \<in> set xs. k a \<le> k b \<longleftrightarrow> l a \<le> l b \<Longrightarrow> sort_key k xs = sort_key l xs"
proof (induction xs)
  case (Cons x xs)
  then have "sort_key k xs = sort_key l xs" by simp
  moreover have "insort_key k x (sort_key l xs) = insort_key l x (sort_key l xs)"
    by (rule insort_key_agree) (use Cons.prems in simp)
  ultimately show ?case by simp
qed simp

lemma formatTime_le: "in_range t \<Longrightarrow> in_range u \<Longrightarrow> formatTime t \<le> formatTime u \<longleftrightarrow> t \<le> u"
  using formatTime_order [of u t] by (simp add: linorder_not_less [symmetric])

lemma rows_of_processes:
  assumes "map (insert_row js) ps = map Some table"
  shows "table = map (the \<circ> insert_row js) ps" "\<forall>p \<in> set ps. insert_row js p = Some (the (insert_row js p))"
proof -
  show "\<forall>p \<in> set ps. insert_row js p = Some (the (insert_row js p))"
  proof
    fix p assume "p \<in> set ps"
    then have "insert_row js p \<in> set (map Some table)" unfolding assms [symmetric] by simp
    then show "insert_row js p = Some (the (insert_row js p))" by auto
  qed
  have "map the (map (insert_row js) ps) = map the (map Some table)" using assms by simp
  then show "table = map (the \<circ> insert_row js) ps" by (simp add: comp_def)
qed

text \<open>A filter whose values are those of rows: known types and states, bounds that the text can show.\<close>

definition askable :: "Filter \<Rightarrow> bool" where
  "askable f \<longleftrightarrow>
     Type_of (Type_text (f_Type f)) = f_Type f \<and> (\<forall>st \<in> set (f_States f). State_of (State_text st) = st) \<and>
     (\<forall>v \<in> {f_CreatedAfter f, f_CreatedBefore f}. \<forall>t. v = Some t \<longrightarrow> in_range t)"

lemma where_filter_row:
  assumes "storable js p" "insert_row js p = Some r" "askable f"
  shows "where_filter f r \<longleftrightarrow> filter_matches f p"
proof -
  note c = insert_row_columns [OF assms(2)]
  have t: "Type_text (p_Type p) = Type_text (f_Type f) \<longleftrightarrow> p_Type p = f_Type f"
    using assms(1,3) unfolding storable_def askable_def by metis
  have e: "Type_text (f_Type f) \<noteq> '''' \<longleftrightarrow> f_Type f \<noteq> TypeOther ''''" by (cases "f_Type f") auto
  have "State_text (p_State p) = State_text st \<longleftrightarrow> p_State p = st" if "st \<in> set (f_States f)" for st
    using assms(1,3) that unfolding storable_def askable_def by metis
  then have st: "State_text (p_State p) \<in> set (map State_text (f_States f)) \<longleftrightarrow> p_State p \<in> set (f_States f)" by auto
  have created: "in_range (p_CreatedAt p)" using assms(1) by (simp add: storable_def)
  have a: "(case f_CreatedAfter f of None \<Rightarrow> True | Some t \<Rightarrow> formatTime t < formatTime (p_CreatedAt p)) \<longleftrightarrow>
      (case f_CreatedAfter f of None \<Rightarrow> True | Some t \<Rightarrow> t < p_CreatedAt p)"
    using assms(3) created by (auto simp: askable_def formatTime_order split: option.split)
  have b: "(case f_CreatedBefore f of None \<Rightarrow> True | Some t \<Rightarrow> formatTime (p_CreatedAt p) < formatTime t) \<longleftrightarrow>
      (case f_CreatedBefore f of None \<Rightarrow> True | Some t \<Rightarrow> p_CreatedAt p < t)"
    using assms(3) created by (auto simp: askable_def formatTime_order split: option.split)
  have cols: "c_type r = Type_text (p_Type p)" "c_state r = State_text (p_State p)" "c_worker r = p_Worker p"
    "c_lock_key r = p_Lock p" "c_created_at r = formatTime (p_CreatedAt p)"
    using c by simp_all
  show ?thesis unfolding where_filter_def filter_matches_def cols t e st a b ..
qed

text \<open>What the code keeps of a cursor between two pages.\<close>

definition cursor_string :: "(string \<Rightarrow> string) \<Rightarrow> Cursor \<Rightarrow> string" where
  "cursor_string base64 c = (case c of CursorAt t pid \<Rightarrow> cursor_text base64 t pid | _ \<Rightarrow> '''')"

definition cursor_bound :: "Cursor \<Rightarrow> (gtime \<times> string) option" where
  "cursor_bound c = (case c of CursorAt t pid \<Rightarrow> Some (t, pid) | _ \<Rightarrow> None)"

lemma cursor_string_bound:
  assumes "\<And>s. unbase64 (base64 s) = Some s" "\<And>s. s \<noteq> '''' \<Longrightarrow> base64 s \<noteq> ''''"
    and "\<And>t pid. c = CursorAt t pid \<Longrightarrow> in_range t"
  shows "(if cursor_string base64 c = '''' then Some None
      else map_option Some (decodeCursor unbase64 lenient (cursor_string base64 c))) = Some (cursor_bound c)"
proof (cases c)
  case (CursorAt t pid)
  have "cursor_text base64 t pid \<noteq> ''''" unfolding cursor_text_def by (rule assms(2)) (simp add: formatTime_not_empty)
  then show ?thesis
    using decodeCursor_text [of t unbase64 base64 lenient pid, OF assms(3) [OF CursorAt] assms(1)] CursorAt by (simp add: cursor_string_def cursor_bound_def)
qed (simp_all add: cursor_string_def cursor_bound_def)

lemma where_cursor_row:
  assumes "storable js p" "insert_row js p = Some r" "\<And>t pid. c = CursorAt t pid \<Longrightarrow> in_range t"
  shows "where_cursor (cursor_bound c) r \<longleftrightarrow> before_cursor c p"
  using insert_row_columns [OF assms(2)] assms(1,3)
  by (cases c) (auto simp: where_cursor_def cursor_bound_def storable_def formatTime_order formatTime_inj)

lemma newest_first_rows:
  assumes "\<forall>p \<in> set ps. storable js p \<and> insert_row js p = Some (h p)"
  shows "newest_first (map h ps) = map h (order_desc ps)"
proof -
  have "sort_key (\<lambda>p. (c_created_at (h p), c_id (h p))) ps = sort_key row_key ps"
  proof (rule sort_key_agree, intro ballI)
    fix a b assume ab: "a \<in> set ps" "b \<in> set ps"
    then have "in_range (p_CreatedAt a)" "in_range (p_CreatedAt b)" using assms by (auto simp: storable_def)
    moreover have "c_created_at (h a) = formatTime (p_CreatedAt a)" "c_created_at (h b) = formatTime (p_CreatedAt b)"
      "c_id (h a) = p_ID a" "c_id (h b) = p_ID b" using assms ab insert_row_columns by blast+
    ultimately show "(c_created_at (h a), c_id (h a)) \<le> (c_created_at (h b), c_id (h b)) \<longleftrightarrow> row_key a \<le> row_key b"
      by (simp add: row_key_def less_eq_prod_def formatTime_order formatTime_le)
  qed
  then show ?thesis by (simp add: newest_first_def order_desc_def sort_key_image rev_map)
qed

lemma queryProcesses_rows:
  "\<forall>p \<in> set ps. storable js p \<and> insert_row js p = Some (h p) \<Longrightarrow> queryProcesses js lenient (map h ps) = Some ps"
proof (induction ps)
  case (Cons p ps)
  then have "scanProcess js lenient (h p) = Some p" using scan_inserted by simp
  then show ?case using Cons by (simp add: queryProcesses_def)
qed (simp add: queryProcesses_def)

lemma CursorAt_of_page:
  assumes "\<forall>p \<in> set (d_processes db). storable js p" "ListProcesses f db = (Inr page, db')" "pg_NextCursor page = CursorAt t pid"
  shows "in_range t"
proof -
  define limit where "limit = nat (if f_Limit f \<le> 0 then 50 else f_Limit f)"
  define rows where "rows = take (limit + 1) (order_desc (filter (\<lambda>p. filter_matches f p \<and> before_cursor (f_Cursor f) p) (d_processes db)))"
  have lim: "0 < limit" by (simp add: limit_def)
  have "limit < length rows" "pg_NextCursor page = encodeCursor (last (take limit rows))"
    using assms(2,3) unfolding ListProcesses_def limit_def [symmetric] rows_def
    by (auto simp: Let_def limit_def split: Cursor.splits if_splits)
  moreover from this(1) lim have "last (take limit rows) \<in> set rows"
    by (metis in_set_takeD last_in_set length_greater_0_conv less_trans take_eq_Nil nat_neq_iff)
  moreover have "set rows \<subseteq> set (d_processes db)"
    unfolding rows_def using set_take_subset by fastforce
  ultimately show ?thesis using assms(1,3) by (auto simp: encodeCursor_def storable_def)
qed

text \<open>
  C24. The listing that SQL computes on the stored text is the one on executions: for rows and bounds of the
  years 0 to 9999, whatever the filter, the cursor and the size of the page, comparing, ordering, cutting and
  reading back the text columns gives the same executions and the same next cursor, and that cursor is again one
  the next page can be asked with.
\<close>

theorem listing_on_text:
  assumes "\<forall>p \<in> set (d_processes db). storable js p" and "map (insert_row js) (d_processes db) = map Some table"
    and "askable f" and "\<forall>x. f_Cursor f \<noteq> CursorBad x" and "\<forall>t pid. f_Cursor f = CursorAt t pid \<longrightarrow> in_range t"
    and "\<forall>s. unbase64 (base64 s) = Some s" and "\<forall>s. s \<noteq> '''' \<longrightarrow> base64 s \<noteq> ''''" and "d_faults db = []"
  shows "\<exists>page. ListProcesses f db = (Inr page, db) \<and>
     list_rows js base64 unbase64 lenient f (cursor_string base64 (f_Cursor f)) table =
       Some (pg_Items page, cursor_string base64 (pg_NextCursor page)) \<and>
     (\<forall>t pid. pg_NextCursor page = CursorAt t pid \<longrightarrow> in_range t)"
proof -
  define h where "h p = the (insert_row js p)" for p
  define limit where "limit = nat (if f_Limit f \<le> 0 then 50 else f_Limit f)"
  define rest where "rest = order_desc (filter (\<lambda>p. filter_matches f p \<and> before_cursor (f_Cursor f) p) (d_processes db))"
  have rows: "table = map h (d_processes db)" "\<forall>p \<in> set (d_processes db). storable js p \<and> insert_row js p = Some (h p)"
    using rows_of_processes [OF assms(2)] assms(1) by (simp_all add: h_def comp_def)
  have "where_filter f (h p) \<and> where_cursor (cursor_bound (f_Cursor f)) (h p) \<longleftrightarrow>
      filter_matches f p \<and> before_cursor (f_Cursor f) p" if "p \<in> set (d_processes db)" for p
    using where_filter_row [of js p "h p" f] where_cursor_row [of js p "h p" "f_Cursor f"] rows(2) that assms(3,5) by blast
  then have "filter (\<lambda>r. where_filter f r \<and> where_cursor (cursor_bound (f_Cursor f)) r) table =
      map h (filter (\<lambda>p. filter_matches f p \<and> before_cursor (f_Cursor f) p) (d_processes db))"
    unfolding rows(1) filter_map comp_def by (simp cong: filter_cong)
  then have newest: "newest_first (filter (\<lambda>r. where_filter f r \<and> where_cursor (cursor_bound (f_Cursor f)) r) table) = map h rest"
    using newest_first_rows [of _ js h] rows(2) by (simp add: rest_def)
  have "queryProcesses js lenient (map h (take (limit + 1) rest)) = Some (take (limit + 1) rest)"
    by (rule queryProcesses_rows) (use rows(2) in \<open>auto simp: rest_def dest!: in_set_takeD\<close>)
  then have query: "queryProcesses js lenient (take (limit + 1) (map h rest)) = Some (take (limit + 1) rest)"
    by (simp only: take_map)
  note page = ListProcesses_page [OF assms(4,8) limit_def rest_def]
  have bound: "(if cursor_string base64 (f_Cursor f) = '''' then Some None
      else map_option Some (decodeCursor unbase64 lenient (cursor_string base64 (f_Cursor f)))) = Some (cursor_bound (f_Cursor f))"
    by (rule cursor_string_bound) (use assms(5-7) in auto)
  have sizes: "limit < length (take (limit + 1) rest) \<longleftrightarrow> limit < length rest"
    "take limit (take (limit + 1) rest) = take limit rest"
    "\<not> limit < length rest \<Longrightarrow> take (limit + 1) rest = rest" by auto
  have listed: "list_rows js base64 unbase64 lenient f (cursor_string base64 (f_Cursor f)) table =
     Some (if limit < length rest
           then (take limit rest, cursor_text base64 (p_CreatedAt (last (take limit rest))) (p_ID (last (take limit rest))))
           else (rest, ''''))"
    unfolding list_rows_def bound option.case limit_def [symmetric] Let_def newest query option.map sizes(1,2)
    using sizes(3) by simp
  show ?thesis
    using CursorAt_of_page [OF assms(1) page] unfolding page listed
    by (auto simp: cursor_string_def encodeCursor_def)
qed

text \<open>Two executions of the same second, in the order that a fraction without trailing zeros would lose.\<close>

definition two_rows :: "Process list" where
  "two_rows =
     [zero_Process\<lparr>p_ID := ''a'', p_Type := TypeTask, p_State := StateQueued, p_CreatedAt := 36000 * second\<rparr>,
      zero_Process\<lparr>p_ID := ''b'', p_Type := TypeTask, p_State := StateQueued, p_CreatedAt := 36000 * second + 500000000\<rparr>]"

definition nil_JSON :: JSON where
  "nil_JSON = \<lparr>js_list = (\<lambda>_. Some ''null''), js_map = (\<lambda>_. Some ''null''), js_unlist = (\<lambda>_. Some []), js_unmap = (\<lambda>_. Some [])\<rparr>"

definition queued_page :: Filter where
  "queued_page = \<lparr>f_States = [StateQueued], f_Type = TypeTask, f_Worker = '''', f_Lock = '''',
     f_CreatedAfter = Some (35999 * second), f_CreatedBefore = None, f_Limit = 1, f_Cursor = CursorNone\<rparr>"

definition two_db :: Db where
  "two_db = \<lparr>d_processes = two_rows, d_attempts = Map.empty, d_locks = Map.empty, d_idempotency = Map.empty,
     d_schedules = Map.empty, d_audit = [], d_faults = []\<rparr>"

theorem listing_on_text_witness:
  "\<exists>page. ListProcesses queued_page two_db = (Inr page, two_db) \<and>
     list_rows nil_JSON id Some (\<lambda>_. None) queued_page (cursor_string id CursorNone) (map (the \<circ> insert_row nil_JSON) two_rows) =
       Some (pg_Items page, cursor_string id (pg_NextCursor page)) \<and>
     (\<forall>t pid. pg_NextCursor page = CursorAt t pid \<longrightarrow> in_range t)"
proof -
  have r: "in_range (36000 * second)" "in_range (36000 * second + 500000000)" "in_range (35999 * second)"
    by code_simp+
  have s: "\<forall>p \<in> set two_rows. storable nil_JSON p"
    using r by (auto simp: two_rows_def storable_def zero_Process_def nil_JSON_def Type_of_def State_of_def)
  have m: "map (insert_row nil_JSON) two_rows = map Some (map (the \<circ> insert_row nil_JSON) two_rows)"
    by (simp add: two_rows_def insert_row_def nil_JSON_def)
  have a: "askable queued_page"
    using r by (auto simp: askable_def queued_page_def Type_of_def State_of_def)
  show ?thesis
    using listing_on_text [of two_db nil_JSON "map (the \<circ> insert_row nil_JSON) two_rows" queued_page Some id "\<lambda>_. None"]
      s m a by (simp add: two_db_def queued_page_def)
qed

section \<open>Migrations\<close>

lemma applyMigration_cases:
  assumes "applyMigration name s = (ok, s')"
  shows "(ok \<and> name \<in> sc_recorded s' \<and>
      (sc_recorded s' = insert name (sc_recorded s)) \<and> sc_ran s' = sc_ran s @ (if name \<in> sc_recorded s then [] else [name])) \<or>
    (\<not> ok \<and> sc_recorded s' = sc_recorded s \<and> sc_ran s' = sc_ran s)"
  using assms by (auto simp: applyMigration_def Let_def sc_called_def insert_absorb split: if_splits)

text \<open>
  Whatever fails while a database is opened, the migrations that ran are recorded and were missing, each runs
  once, and they are the first missing ones in the order of their names; all of them when it opens.
\<close>

lemma apply_each_prefix:
  assumes "apply_each names s = (ok, s')" "distinct names"
  shows "\<exists>n. n \<le> length names \<and> (ok \<longrightarrow> n = length names) \<and>
    sc_ran s' = sc_ran s @ filter (\<lambda>x. x \<notin> sc_recorded s) (take n names) \<and>
    sc_recorded s' = sc_recorded s \<union> set (take n names)"
  using assms
proof (induction names arbitrary: s)
  case Nil
  then show ?case by auto
next
  case (Cons name names)
  obtain b s1 where a: "applyMigration name s = (b, s1)" by fastforce
  note c = applyMigration_cases [OF a]
  show ?case
  proof (cases b)
    case False
    then show ?thesis using Cons.prems(1) a c by (intro exI [of _ 0]) auto
  next
    case True
    then have "apply_each names s1 = (ok, s')" using Cons.prems(1) a by simp
    from Cons.IH [OF this] Cons.prems(2) obtain n where n: "n \<le> length names" "ok \<longrightarrow> n = length names"
      "sc_ran s' = sc_ran s1 @ filter (\<lambda>x. x \<notin> sc_recorded s1) (take n names)"
      "sc_recorded s' = sc_recorded s1 \<union> set (take n names)" by auto
    have "filter (\<lambda>x. x \<notin> sc_recorded s1) (take n names) = filter (\<lambda>x. x \<notin> sc_recorded s) (take n names)"
      using c True Cons.prems(2) by (intro filter_cong refl) (auto dest: in_set_takeD)
    then show ?thesis using n c True by (intro exI [of _ "Suc n"]) auto
  qed
qed

lemma Open_migrates_once:
  assumes "Open entries s = (ok, s')" "distinct entries"
  shows "\<exists>n. (ok \<longrightarrow> n = length entries) \<and>
    sc_ran s' = sc_ran s @ filter (\<lambda>x. x \<notin> sc_recorded s) (take n (sort entries)) \<and>
    sc_recorded s' = sc_recorded s \<union> set (take n (sort entries))"
proof (cases "sc_fails s \<or> sc_fails (sc_called s)")
  case True
  then have "\<not> ok" "sc_ran s' = sc_ran s" "sc_recorded s' = sc_recorded s"
    using assms(1) by (auto simp: Open_def migrate_def sc_called_def split: if_splits)
  then show ?thesis by (intro exI [of _ 0]) simp
next
  case False
  then have "apply_each (sort entries) ((sc_called (sc_called s))\<lparr>sc_table := True\<rparr>) = (ok, s')"
    using assms(1) by (simp add: Open_def migrate_def)
  from apply_each_prefix [OF this] assms(2) show ?thesis by (auto simp: sc_called_def)
qed

end
