(* ===== verification/Setup.thy ===== *)
theory Setup
  imports Api Fleet
begin

text \<open>
  \<^verbatim>\<open>internal/setup\<close>: the one-step installation of a node. \<^verbatim>\<open>setup.go\<close> writes the directories, the configuration
  and the file that holds the plaintext of the API token; \<^verbatim>\<open>unit.go\<close> writes the systemd unit and hands it
  over; \<^verbatim>\<open>token.go\<close> mints a token.

  The YAML codec, the random source, \<^verbatim>\<open>SplitHostPort\<close>, the text of a duration and of an instant, and what
  systemctl answers are given. Permissions and owners of files are left out.
\<close>

section \<open>The disk\<close>

text \<open>
  Files by path, directories, and the systemctl commands that were run. Calls can fail, one entry of
  \<open>dk_faults\<close> per call; a failing write leaves the first so many bytes.
\<close>

record Disk =
  dk_files :: "string \<rightharpoonup> string"
  dk_dirs :: "string list"
  dk_faults :: "nat option list"
  dk_ran :: "string list list"

definition dk_fault :: "Disk \<Rightarrow> nat option" where
  "dk_fault d = (case dk_faults d of f # _ \<Rightarrow> f | [] \<Rightarrow> None)"

definition dk_called :: "Disk \<Rightarrow> Disk" where
  "dk_called d = d\<lparr>dk_faults := tl (dk_faults d)\<rparr>"

text \<open>\<open>None\<close> is an error, \<open>Some None\<close> a file that is not there.\<close>

definition ReadFile :: "string \<Rightarrow> Disk \<Rightarrow> string option option \<times> Disk" where
  "ReadFile p d = (if dk_fault d = None then Some (dk_files d p) else None, dk_called d)"

definition WriteFile :: "string \<Rightarrow> string \<Rightarrow> Disk \<Rightarrow> bool \<times> Disk" where
  "WriteFile p content d =
     (case dk_fault d of
        None \<Rightarrow> (True, (dk_called d)\<lparr>dk_files := (dk_files d)(p \<mapsto> content)\<rparr>)
      | Some k \<Rightarrow> (False, (dk_called d)\<lparr>dk_files := (dk_files d)(p \<mapsto> take k content)\<rparr>))"

definition MkdirAll :: "string \<Rightarrow> Disk \<Rightarrow> bool \<times> Disk" where
  "MkdirAll p d =
     (if dk_fault d = None then (True, (dk_called d)\<lparr>dk_dirs := p # dk_dirs d\<rparr>) else (False, dk_called d))"

text \<open>\<^verbatim>\<open>os.Stat\<close> finds a directory, and with it the directories above it.\<close>

definition dir_there :: "string \<Rightarrow> Disk \<Rightarrow> bool" where
  "dir_there p d \<longleftrightarrow> p \<in> {''/'', ''.''} \<or> list_ex (\<lambda>q. q = p \<or> HasPrefix q (p @ ''/'')) (dk_dirs d)"

definition Chmod :: "string \<Rightarrow> Disk \<Rightarrow> bool \<times> Disk" where
  "Chmod p d = (dk_fault d = None, dk_called d)"

section \<open>Paths and addresses\<close>

text \<open>\<^verbatim>\<open>filepath.Dir\<close> and \<^verbatim>\<open>filepath.Join\<close> of two elements.\<close>

definition path_Dir :: "string \<Rightarrow> string" where
  "path_Dir p = path_Clean (rev (dropWhile (\<lambda>c. c \<noteq> CHR ''/'') (rev p)))"

definition path_Join :: "string \<Rightarrow> string \<Rightarrow> string" where
  "path_Join a b =
     (if a = '''' then (if b = '''' then '''' else path_Clean b)
      else path_Clean (a @ (if b = '''' then '''' else CHR ''/'' # b)))"

definition JoinHostPort :: "string \<Rightarrow> string \<Rightarrow> string" where
  "JoinHostPort host port =
     (if CHR '':'' \<in> set host then ''['' @ host @ '']:'' @ port else host @ '':'' @ port)"

definition baseURL :: "(string \<Rightarrow> (string \<times> string) option) \<Rightarrow> string \<Rightarrow> string" where
  "baseURL split listen =
     (case split listen of
        None \<Rightarrow> ''http://'' @ listen
      | Some (host, port) \<Rightarrow>
          ''http://'' @ JoinHostPort (if host \<in> {'''', ''0.0.0.0'', ''::''} then ''127.0.0.1'' else host) port)"

section \<open>Options and result\<close>

definition DefaultConfigPath :: string where "DefaultConfigPath = ''/etc/processd/processd.yaml''"
definition DefaultTokenName :: string where "DefaultTokenName = ''admin''"
definition DefaultService :: string where "DefaultService = ''processd''"
definition DefaultUnitDir :: string where "DefaultUnitDir = ''/etc/systemd/system''"
definition DefaultBinary :: string where "DefaultBinary = ''/usr/local/bin/processd''"

record Options =
  op_ConfigPath :: string
  op_Listen :: string
  op_TokenName :: string
  op_Binary :: string
  op_UnitPath :: string
  op_Service :: string
  op_InstallUnit :: bool
  op_StartUnit :: bool
  op_Rotate :: bool
  op_DryRun :: bool

record Outcome =
  so_ConfigPath :: string
  so_ConfigBackup :: string
  so_TokenPath :: string
  so_TokenName :: string
  so_Token :: string
  so_TokenReused :: bool
  so_WorkersDir :: string
  so_DataDir :: string
  so_LogDir :: string
  so_Listen :: string
  so_BaseURL :: string
  so_UIURL :: string
  so_MetricsURL :: string
  so_UnitPath :: string
  so_Service :: string
  so_ServiceState :: string
  so_Steps :: "string list"
  so_Warnings :: "string list"
  so_DryRun :: bool

text \<open>What is around an installation.\<close>

record Installer =
  in_libs :: Libs
  in_decode :: "string \<Rightarrow> Config \<Rightarrow> Config option"
  in_encode :: "Config \<Rightarrow> string option"
  in_digest :: "string \<Rightarrow> string"
  in_random :: "(nat \<Rightarrow> char) option"
  in_executable :: "string option"
  in_resolved :: "string option"
  in_split :: "string \<Rightarrow> (string \<times> string) option"
  in_duration_text :: "duration \<Rightarrow> string"
  in_stamp :: string
  in_systemd :: bool
  in_systemctl :: "string list \<Rightarrow> bool"

definition currentBinary :: "Installer \<Rightarrow> string" where
  "currentBinary env =
     (case in_executable env of
        None \<Rightarrow> DefaultBinary
      | Some p \<Rightarrow> (case in_resolved env of None \<Rightarrow> p | Some resolved \<Rightarrow> resolved))"

definition withDefaults :: "Installer \<Rightarrow> Options \<Rightarrow> Options" where
  "withDefaults env opts =
     (let opts = (if op_ConfigPath opts = '''' then opts\<lparr>op_ConfigPath := DefaultConfigPath\<rparr> else opts);
          opts = (if op_TokenName opts = '''' then opts\<lparr>op_TokenName := DefaultTokenName\<rparr> else opts);
          opts = (if op_Service opts = '''' then opts\<lparr>op_Service := DefaultService\<rparr> else opts);
          opts = (if op_Binary opts = '''' then opts\<lparr>op_Binary := currentBinary env\<rparr> else opts)
      in if op_UnitPath opts = ''''
         then opts\<lparr>op_UnitPath := path_Join DefaultUnitDir (op_Service opts @ ''.service'')\<rparr> else opts)"

definition TokenPath :: "string \<Rightarrow> string" where
  "TokenPath configPath = path_Join (path_Dir (if configPath = '''' then DefaultConfigPath else configPath)) ''token''"

definition note_step :: "string \<Rightarrow> Outcome \<Rightarrow> Outcome" where
  "note_step message r = r\<lparr>so_Steps := so_Steps r @ [message]\<rparr>"

definition note_warning :: "string \<Rightarrow> Outcome \<Rightarrow> Outcome" where
  "note_warning message r = r\<lparr>so_Warnings := so_Warnings r @ [message]\<rparr>"

section \<open>The token\<close>

definition tokenBytes :: nat where "tokenBytes = 32"

definition hex_digit :: "nat \<Rightarrow> char" where
  "hex_digit n = ''0123456789abcdef'' ! n"

fun EncodeToString :: "string \<Rightarrow> string" where
  "EncodeToString [] = []"
| "EncodeToString (b # bs) =
     hex_digit (of_char b div 16) # hex_digit (of_char b mod 16) # EncodeToString bs"

text \<open>The random source answers the byte at each position of the buffer, or fails.\<close>

definition GenerateToken :: "(nat \<Rightarrow> char) option \<Rightarrow> string option" where
  "GenerateToken random = map_option (\<lambda>byte. EncodeToString (map byte [0..<tokenBytes])) random"

text \<open>An empty text for a file that is not there; \<open>None\<close> is an error.\<close>

definition ReadToken :: "string \<Rightarrow> Disk \<Rightarrow> string option \<times> Disk" where
  "ReadToken configPath d =
     (case ReadFile (TokenPath configPath) d of
        (None, d) \<Rightarrow> (None, d)
      | (Some None, d) \<Rightarrow> (Some '''', d)
      | (Some (Some raw), d) \<Rightarrow> (Some (TrimSpace raw), d))"

definition tokenMatches :: "(string \<Rightarrow> string) \<Rightarrow> Config \<Rightarrow> string \<Rightarrow> string \<Rightarrow> bool" where
  "tokenMatches digest cfg name token =
     (case find (\<lambda>e. t_Name e = name) (c_Tokens cfg) of
        None \<Rightarrow> False
      | Some e \<Rightarrow> t_Hash e = HashToken digest token)"

fun upsertToken :: "Token list \<Rightarrow> string \<Rightarrow> string \<Rightarrow> Token list" where
  "upsertToken [] name hash = [\<lparr>t_Name = name, t_Hash = hash, t_Workers = [], t_ReadOnly = False\<rparr>]"
| "upsertToken (e # es) name hash =
     (if t_Name e = name then e\<lparr>t_Hash := hash\<rparr> # es else e # upsertToken es name hash)"

text \<open>The secret, and whether it was there already.\<close>

definition resolveToken :: "Installer \<Rightarrow> Options \<Rightarrow> Config \<Rightarrow> Disk \<Rightarrow> (string \<times> bool) option \<times> Disk" where
  "resolveToken env opts cfg d =
     (let mint = map_option (\<lambda>token. (token, False)) (GenerateToken (in_random env))
      in if op_Rotate opts then (mint, d)
         else case ReadToken (op_ConfigPath opts) d of
                (None, d) \<Rightarrow> (None, d)
              | (Some existing, d) \<Rightarrow>
                  if existing \<noteq> '''' \<and> tokenMatches (in_digest env) cfg (op_TokenName opts) existing
                  then (Some (existing, True), d)
                  else (mint, d))"

section \<open>The steps\<close>

text \<open>A step reports on the result; whether it went well.\<close>

type_synonym setup_step = "Outcome \<times> Disk \<Rightarrow> bool \<times> Outcome \<times> Disk"

fun ensure_each :: "bool \<Rightarrow> string list \<Rightarrow> setup_step" where
  "ensure_each dry [] (r, d) = (True, r, d)"
| "ensure_each dry (dir # dirs) (r, d) =
     (if dir = '''' \<or> dir_there dir d then ensure_each dry dirs (r, d)
      else if dry then ensure_each dry dirs (note_step (''would create '' @ dir) r, d)
      else case MkdirAll dir d of
             (False, d) \<Rightarrow> (False, r, d)
           | (True, d) \<Rightarrow> ensure_each dry dirs (note_step (''created '' @ dir) r, d))"

definition ensureDirs :: "Options \<Rightarrow> Config \<Rightarrow> setup_step" where
  "ensureDirs opts cfg =
     ensure_each (op_DryRun opts) [path_Dir (op_ConfigPath opts), c_WorkersDir cfg, c_DataDir cfg, c_LogDir cfg]"

definition config_header :: string where
  "config_header =
     ''# Written by `processd setup`. See docs/SPEC.md '' @ [CHR 0xC2, CHR 0xA7] @ ''20 for every key.'' @ [CHR ''\<newline>''] @
     ''# auth.tokens[].hash is a digest: the secret lives in the token file'' @ [CHR ''\<newline>''] @
     ''# next to this one, and cannot be recovered from here.'' @ [CHR ''\<newline>'']"

definition renderConfig :: "Installer \<Rightarrow> Config \<Rightarrow> string option" where
  "renderConfig env cfg = map_option (\<lambda>encoded. config_header @ encoded) (in_encode env cfg)"

definition backupPath :: "Installer \<Rightarrow> Options \<Rightarrow> string" where
  "backupPath env opts = op_ConfigPath opts @ ''.bak-'' @ in_stamp env"

fun save_previous :: "Installer \<Rightarrow> Options \<Rightarrow> string \<Rightarrow> setup_step" where
  "save_previous env opts current (r, d) =
     (if current = '''' then (True, r, d)
      else case WriteFile (backupPath env opts) current d of
             (False, d) \<Rightarrow> (False, r, d)
           | (True, d) \<Rightarrow>
               (True, note_step (''saved the previous configuration to '' @ backupPath env opts)
                        (r\<lparr>so_ConfigBackup := backupPath env opts\<rparr>), d))"

fun writeConfig :: "Installer \<Rightarrow> Options \<Rightarrow> Config \<Rightarrow> setup_step" where
  "writeConfig env opts cfg (r, d) =
     (case renderConfig env cfg of
        None \<Rightarrow> (False, r, d)
      | Some rendered \<Rightarrow>
         (case ReadFile (op_ConfigPath opts) d of
            (None, d) \<Rightarrow> (False, r, d)
          | (Some found, d) \<Rightarrow>
             let current = (case found of None \<Rightarrow> '''' | Some c \<Rightarrow> c)
             in if current = rendered
                then (True, note_step (''configuration already current: '' @ op_ConfigPath opts) r, d)
                else if op_DryRun opts then (True, note_step (''would write '' @ op_ConfigPath opts) r, d)
                else case save_previous env opts current (r, d) of
                       (False, r, d) \<Rightarrow> (False, r, d)
                     | (True, r, d) \<Rightarrow>
                        (case WriteFile (op_ConfigPath opts) rendered d of
                           (False, d) \<Rightarrow> (False, r, d)
                         | (True, d) \<Rightarrow> (True, note_step (''wrote '' @ op_ConfigPath opts) r, d))))"

fun writeToken :: "Options \<Rightarrow> setup_step" where
  "writeToken opts (r, d) =
     (let p = TokenPath (op_ConfigPath opts)
      in if op_DryRun opts then (True, note_step (''would write '' @ p) r, d)
         else case WriteFile p (so_Token r @ [CHR ''\<newline>'']) d of
                (False, d) \<Rightarrow> (False, r, d)
              | (True, d) \<Rightarrow>
                  (case Chmod p d of
                     (False, d) \<Rightarrow> (False, r, d)
                   | (True, d) \<Rightarrow>
                       (True, note_step ((if so_TokenReused r then ''kept the existing token in '' else ''wrote a new token to '') @ p) r, d)))"

section \<open>The unit\<close>

definition unitStopMargin :: duration where "unitStopMargin = 15 * second"

definition systemDirs :: "string list" where
  "systemDirs = [''/usr/local/bin'', ''/usr/bin'', ''/usr/sbin'', ''/opt'']"

definition unitTemplate :: "string \<Rightarrow> string \<Rightarrow> string \<Rightarrow> string list" where
  "unitTemplate binary configPath timeout = [
      ''[Unit]'',
      ''Description=Processd process manager'',
      ''Documentation=https://github.com/curruwilla/processd'',
      ''After=network.target'',
      '''',
      ''[Service]'',
      ''Type=exec'',
      ''ExecStart='' @ binary @ '' serve --config '' @ configPath,
      ''ExecReload=/bin/kill -HUP $MAINPID'',
      ''Restart=on-failure'',
      ''RestartSec=5s'',
      '''',
      ''# Must exceed shutdown_grace, otherwise systemd kills the daemon in the middle'',
      ''# of stopping the processes it supervises.'',
      ''TimeoutStopSec='' @ timeout,
      '''',
      ''# mixed: systemd signals the daemon only, leaving it to terminate the process'',
      ''# groups it owns in the right order.'',
      ''KillMode=mixed'',
      ''KillSignal=SIGTERM'',
      '''',
      ''# Each supervised execution costs about five descriptors: two log files and both'',
      ''# ends of the stdout and stderr pipes.'',
      ''LimitNOFILE=524288'',
      '''',
      ''# The daemon needs privileges to drop them: it starts each process as the user'',
      ''# the worker declares.'',
      ''User=root'',
      ''StateDirectory=processd'',
      ''LogsDirectory=processd'',
      '''',
      ''NoNewPrivileges=false'',
      ''ProtectSystem=full'',
      ''ProtectHome=true'',
      ''PrivateTmp=true'',
      '''',
      ''[Install]'',
      ''WantedBy=multi-user.target'']"

definition unlines :: "string list \<Rightarrow> string" where
  "unlines ls = concat (map (\<lambda>l. l @ [CHR ''\<newline>'']) ls)"

text \<open>The sum of two durations wraps at 64 bits.\<close>

definition renderUnit :: "(duration \<Rightarrow> string) \<Rightarrow> string \<Rightarrow> string \<Rightarrow> duration \<Rightarrow> string" where
  "renderUnit duration_text binary configPath grace =
     unlines (unitTemplate binary configPath (duration_text (signed_take_bit 63 (grace + unitStopMargin))))"

definition warnAboutBinary :: "Options \<Rightarrow> Outcome \<Rightarrow> Outcome" where
  "warnAboutBinary opts r =
     (let dir = path_Dir (op_Binary opts)
      in if list_ex (\<lambda>pre. dir = pre \<or> HasPrefix dir (pre @ ''/'')) systemDirs then r
         else note_warning
           (''the unit starts '' @ op_Binary opts @ '', which is outside the system paths; install it first with: '' @
            ''sudo install -m 0755 '' @ op_Binary opts @ '' /usr/local/bin/processd'') r)"

fun writeUnit :: "Installer \<Rightarrow> Options \<Rightarrow> Config \<Rightarrow> setup_step" where
  "writeUnit env opts cfg (r, d) =
     (let unit_text = renderUnit (in_duration_text env) (op_Binary opts) (op_ConfigPath opts) (c_ShutdownGrace cfg)
      in case ReadFile (op_UnitPath opts) d of
           (None, d) \<Rightarrow> (False, r, d)
         | (Some found, d) \<Rightarrow>
             if op_DryRun opts then (True, note_step (''would write '' @ op_UnitPath opts) r, d)
             else if (case found of None \<Rightarrow> '''' | Some c \<Rightarrow> c) = unit_text
             then (True, note_step (''unit already current: '' @ op_UnitPath opts) r, d)
             else case MkdirAll (path_Dir (op_UnitPath opts)) d of
                    (False, d) \<Rightarrow> (False, r, d)
                  | (True, d) \<Rightarrow>
                     (case WriteFile (op_UnitPath opts) unit_text d of
                        (False, d) \<Rightarrow> (False, r, d)
                      | (True, d) \<Rightarrow> (True, note_step (''wrote '' @ op_UnitPath opts) r, d)))"

fun words_line :: "string list \<Rightarrow> string" where
  "words_line [] = ''''"
| "words_line [x] = x"
| "words_line (x # xs) = x @ '' '' @ words_line xs"

fun run_commands :: "Installer \<Rightarrow> bool \<Rightarrow> string list list \<Rightarrow> setup_step" where
  "run_commands env dry [] (r, d) = (True, r, d)"
| "run_commands env dry (args # commands) (r, d) =
     (if dry then run_commands env dry commands (note_step (''would run systemctl '' @ words_line args) r, d)
      else let d = d\<lparr>dk_ran := dk_ran d @ [args]\<rparr>
           in if \<not> in_systemctl env args then (False, r, d)
              else run_commands env dry commands (note_step (''ran systemctl '' @ words_line args) r, d))"

fun enableService :: "Installer \<Rightarrow> Options \<Rightarrow> setup_step" where
  "enableService env opts (r, d) =
     (if op_StartUnit opts
      then run_commands env (op_DryRun opts) [[''daemon-reload''], [''enable'', ''--now'', op_Service opts]]
             (r\<lparr>so_ServiceState := ''started''\<rparr>, d)
      else run_commands env (op_DryRun opts) [[''daemon-reload''], [''enable'', op_Service opts]]
             (r\<lparr>so_ServiceState := ''enabled''\<rparr>, d))"

fun installService :: "Installer \<Rightarrow> Options \<Rightarrow> Config \<Rightarrow> setup_step" where
  "installService env opts cfg (r, d) =
     (let r = r\<lparr>so_Service := op_Service opts, so_UnitPath := op_UnitPath opts\<rparr>
      in if \<not> op_InstallUnit opts
         then (True, note_step ''left systemd alone'' (r\<lparr>so_ServiceState := ''skipped''\<rparr>), d)
         else if \<not> in_systemd env
         then (True, note_warning
                (''systemd is not running here, so no service was installed; start the daemon with: processd serve --config '' @
                 op_ConfigPath opts) (r\<lparr>so_ServiceState := ''unavailable''\<rparr>), d)
         else case writeUnit env opts cfg (warnAboutBinary opts r, d) of
                (False, r, d) \<Rightarrow> (False, r, d)
              | (True, r, d) \<Rightarrow> enableService env opts (r, d))"

section \<open>The run\<close>

definition describe :: "Installer \<Rightarrow> Config \<Rightarrow> Outcome \<Rightarrow> Outcome" where
  "describe env cfg r =
     (let base = baseURL (in_split env) (c_Listen cfg)
      in r\<lparr>so_Listen := c_Listen cfg, so_DataDir := c_DataDir cfg, so_LogDir := c_LogDir cfg,
           so_WorkersDir := c_WorkersDir cfg, so_BaseURL := base, so_MetricsURL := base @ ''/v1/metrics'',
           so_UIURL := (if c_UIEnabled cfg then base @ ''/ui/'' else so_UIURL r)\<rparr>)"

definition zero_Outcome :: Outcome where
  "zero_Outcome = \<lparr>so_ConfigPath = '''', so_ConfigBackup = '''', so_TokenPath = '''', so_TokenName = '''',
     so_Token = '''', so_TokenReused = False, so_WorkersDir = '''', so_DataDir = '''', so_LogDir = '''',
     so_Listen = '''', so_BaseURL = '''', so_UIURL = '''', so_MetricsURL = '''', so_UnitPath = '''',
     so_Service = '''', so_ServiceState = '''', so_Steps = [], so_Warnings = [], so_DryRun = False\<rparr>"

text \<open>The loop over \<^verbatim>\<open>ensureDirs\<close>, \<^verbatim>\<open>writeConfig\<close> and \<^verbatim>\<open>writeToken\<close> ends at the first that fails.\<close>

fun each_step :: "setup_step list \<Rightarrow> setup_step" where
  "each_step [] (r, d) = (True, r, d)"
| "each_step (f # fs) (r, d) =
     (case f (r, d) of (False, r, d) \<Rightarrow> (False, r, d) | (True, r, d) \<Rightarrow> each_step fs (r, d))"

definition listen_override :: "Options \<Rightarrow> Config \<Rightarrow> Config" where
  "listen_override opts cfg = (if op_Listen opts = '''' then cfg else cfg\<lparr>c_Listen := op_Listen opts\<rparr>)"

definition carry_out :: "Installer \<Rightarrow> Options \<Rightarrow> Config \<Rightarrow> setup_step" where
  "carry_out env opts cfg s =
     (case each_step [ensureDirs opts cfg, writeConfig env opts cfg, writeToken opts] s of
        (False, r, d) \<Rightarrow> (False, r, d)
      | (True, r, d) \<Rightarrow>
         (case installService env opts cfg (r, d) of
            (False, r, d) \<Rightarrow> (False, r, d)
          | (True, r, d) \<Rightarrow> (True, describe env cfg r, d)))"

definition install :: "Installer \<Rightarrow> Options \<Rightarrow> Config \<Rightarrow> Disk \<Rightarrow> bool \<times> Outcome \<times> Disk" where
  "install env opts cfg d =
     (let cfg = listen_override opts cfg;
          r = zero_Outcome\<lparr>so_ConfigPath := op_ConfigPath opts, so_TokenPath := TokenPath (op_ConfigPath opts),
                so_TokenName := op_TokenName opts, so_DryRun := op_DryRun opts\<rparr>
      in case resolveToken env opts cfg d of
           (None, d) \<Rightarrow> (False, r, d)
         | (Some (token, reused), d) \<Rightarrow>
             let r = r\<lparr>so_Token := token, so_TokenReused := reused\<rparr>;
                 cfg = cfg\<lparr>c_Tokens := upsertToken (c_Tokens cfg) (op_TokenName opts) (HashToken (in_digest env) token)\<rparr>
             in if Config_Validate (in_libs env) cfg \<noteq> [] then (False, r, d)
                else carry_out env opts cfg (r, d))"

definition Setup_Run :: "Installer \<Rightarrow> Options \<Rightarrow> Disk \<Rightarrow> bool \<times> Outcome \<times> Disk" where
  "Setup_Run env opts d =
     (let opts = withDefaults env opts
      in case ReadFile (op_ConfigPath opts) d of
           (None, d) \<Rightarrow> (False, zero_Outcome, d)
         | (Some found, d) \<Rightarrow>
            (case Load (in_libs env) (map_option (in_decode env) found) of
               Some (Inr cfg) \<Rightarrow> install env opts cfg d
             | _ \<Rightarrow> (False, zero_Outcome, d)))"

end
