(* ===== verification/Cli.thy ===== *)
theory Cli
  imports Setup Routes
begin

text \<open>
  \<^verbatim>\<open>internal/cli\<close>: the client commands. \<^verbatim>\<open>client.go\<close> makes a call and reads its answer or a stream of events;
  the other files hold one command each. A command talks to a peer it knows nothing about: a function from
  a request and the state of the world to an answer.

  The flags come parsed (cobra, pflag and viper), JSON is written and read by given functions, and the
  columns of a table are laid out by \<^verbatim>\<open>tabwriter\<close>.
\<close>

section \<open>Addresses\<close>

definition is_unreserved :: "char \<Rightarrow> bool" where
  "is_unreserved c \<longleftrightarrow>
     (let n = of_char c :: nat
      in (48 \<le> n \<and> n \<le> 57) \<or> (65 \<le> n \<and> n \<le> 90) \<or> (97 \<le> n \<and> n \<le> 122)) \<or> c \<in> set ''-_.~''"

definition upper_hex :: "nat \<Rightarrow> char" where
  "upper_hex n = ''0123456789ABCDEF'' ! n"

definition percent :: "char \<Rightarrow> string" where
  "percent c = [CHR ''%'', upper_hex (of_char c div 16), upper_hex (of_char c mod 16)]"

text \<open>\<^verbatim>\<open>url.PathEscape\<close> and \<^verbatim>\<open>url.QueryEscape\<close>.\<close>

definition PathEscape :: "string \<Rightarrow> string" where
  "PathEscape s = concat (map (\<lambda>c. if is_unreserved c \<or> c \<in> set ''$&+:=@'' then [c] else percent c) s)"

definition QueryEscape :: "string \<Rightarrow> string" where
  "QueryEscape s =
     concat (map (\<lambda>c. if is_unreserved c then [c] else if c = CHR '' '' then ''+'' else percent c) s)"

text \<open>\<^verbatim>\<open>url.Values\<close>, in the order of its keys, which is the order \<^verbatim>\<open>Encode\<close> writes them in.\<close>

type_synonym url_values = "(string \<times> string) list"

fun Encode :: "url_values \<Rightarrow> string" where
  "Encode [] = ''''"
| "Encode [(k, v)] = QueryEscape k @ ''='' @ QueryEscape v"
| "Encode ((k, v) # kvs) = QueryEscape k @ ''='' @ QueryEscape v @ ''&'' @ Encode kvs"

definition with_query :: "string \<Rightarrow> url_values \<Rightarrow> string" where
  "with_query p kvs = (if kvs = [] then p else p @ ''?'' @ Encode kvs)"

definition nodePath :: "string \<Rightarrow> string \<Rightarrow> string" where
  "nodePath node p =
     (if node = '''' then p else ''/v1/fleet/nodes/'' @ PathEscape node @ TrimPrefix p ''/v1'')"

section \<open>A call\<close>

record HttpReq =
  hq_Method :: string
  hq_URL :: string
  hq_Headers :: "(string \<times> string) list"
  hq_Body :: "string option"

record HttpResp =
  hp_Status :: int
  hp_Body :: string

text \<open>
  The world of a command: what answers its calls (\<open>None\<close> when nothing does), the clock, and a sleep, which
  says whether it was not cut short.
\<close>

record 's Peer =
  pe_call :: "HttpReq \<Rightarrow> 's \<Rightarrow> HttpResp option \<times> 's"
  pe_now :: "'s \<Rightarrow> int"
  pe_sleep :: "duration \<Rightarrow> 's \<Rightarrow> bool \<times> 's"

type_synonym exchange = "HttpReq \<times> HttpResp option"

text \<open>What has been said so far, and the world.\<close>

type_synonym 's talk = "exchange list \<times> 's"

datatype cli_err =
    Usage string
  | Calling
  | Decoding
  | StatusOnly int
  | Reported string string
  | Declined string
  | Interrupted

record client =
  cl_baseURL :: string
  cl_token :: string

definition request_to :: "client \<Rightarrow> string \<Rightarrow> string \<Rightarrow> string option \<Rightarrow> HttpReq" where
  "request_to cl method p body = \<lparr>hq_Method = method, hq_URL = cl_baseURL cl @ p,
     hq_Headers = [(''Accept'', ''application/json'')] @
       (if body \<noteq> None then [(''Content-Type'', ''application/json'')] else []) @
       (if cl_token cl \<noteq> '''' then [(''Authorization'', ''Bearer '' @ cl_token cl)] else []),
     hq_Body = body\<rparr>"

text \<open>The error contract: \<open>decode\<close> reads the code and the message of an error body.\<close>

definition apiFailure :: "(string \<Rightarrow> (string \<times> string) option) \<Rightarrow> HttpResp \<Rightarrow> cli_err" where
  "apiFailure decode resp =
     (case decode (hp_Body resp) of
        None \<Rightarrow> StatusOnly (hp_Status resp)
      | Some (code, message) \<Rightarrow> if code = '''' then StatusOnly (hp_Status resp) else Reported code message)"

definition hasCode :: "cli_err \<Rightarrow> string \<Rightarrow> bool" where
  "hasCode e code \<longleftrightarrow> (case e of Reported c _ \<Rightarrow> c = code | _ \<Rightarrow> False)"

definition answer_of :: "(string \<Rightarrow> (string \<times> string) option) \<Rightarrow> HttpResp option \<Rightarrow> cli_err + string" where
  "answer_of decode resp =
     (case resp of
        None \<Rightarrow> Inl Calling
      | Some resp \<Rightarrow> if hp_Status resp \<ge> 400 then Inl (apiFailure decode resp) else Inr (hp_Body resp))"

definition exchange_with :: "'s Peer \<Rightarrow> HttpReq \<Rightarrow> 's talk \<Rightarrow> HttpResp option \<times> 's talk" where
  "exchange_with peer q t =
     (case t of (said, w) \<Rightarrow> case pe_call peer q w of (resp, w) \<Rightarrow> (resp, said @ [(q, resp)], w))"

text \<open>\<^verbatim>\<open>do\<close> without and with a value to decode the answer into.\<close>

definition do_call ::
  "'s Peer \<Rightarrow> (string \<Rightarrow> (string \<times> string) option) \<Rightarrow> client \<Rightarrow> string \<Rightarrow> string \<Rightarrow> string option \<Rightarrow> 's talk
     \<Rightarrow> (cli_err + string) \<times> 's talk" where
  "do_call peer errors cl method p body t =
     (case exchange_with peer (request_to cl method p body) t of (resp, t) \<Rightarrow> (answer_of errors resp, t))"

definition decoded :: "(string \<Rightarrow> 'a option) \<Rightarrow> cli_err + string \<Rightarrow> cli_err + 'a" where
  "decoded decode r =
     (case r of
        Inl e \<Rightarrow> Inl e
      | Inr body \<Rightarrow> (case decode body of None \<Rightarrow> Inl Decoding | Some a \<Rightarrow> Inr a))"

section \<open>Where the token comes from\<close>

record Globals =
  gl_server :: string
  gl_token :: string
  gl_config :: string

definition resolve_cli_token :: "Globals \<Rightarrow> Disk \<Rightarrow> string" where
  "resolve_cli_token g d =
     (if gl_token g \<noteq> '''' then gl_token g
      else case fst (ReadToken (gl_config g) d) of None \<Rightarrow> '''' | Some token \<Rightarrow> token)"

definition newClient :: "Globals \<Rightarrow> Disk \<Rightarrow> client" where
  "newClient g d = \<lparr>cl_baseURL = gl_server g, cl_token = resolve_cli_token g d\<rparr>"

section \<open>Streams of events\<close>

definition maxEventBytes :: nat where "maxEventBytes = 1048576"

text \<open>
  The lines of \<^verbatim>\<open>bufio.Scanner\<close>: without their newline and a carriage return before it; a line that does not
  fit the buffer with its newline ends the scan with an error.
\<close>

definition dropCR :: "string \<Rightarrow> string" where
  "dropCR s = (if s \<noteq> [] \<and> last s = CHR 0x0D then butlast s else s)"

fun scan_lines :: "nat \<Rightarrow> string list \<Rightarrow> string list \<times> bool" where
  "scan_lines limit [] = ([], True)"
| "scan_lines limit [l] = (if l = [] then ([], True) else if length l < limit then ([dropCR l], True) else ([], False))"
| "scan_lines limit (l # ls) =
     (if length l < limit then (case scan_lines limit ls of (found, ok) \<Rightarrow> (dropCR l # found, ok)) else ([], False))"

record sse =
  ss_event :: string
  ss_data :: string

text \<open>\<^verbatim>\<open>readEvents\<close> over the lines, with what the handler makes of an event: \<open>None\<close> ends the reading.\<close>

fun read_lines :: "(string \<Rightarrow> string \<Rightarrow> 'p \<Rightarrow> 'p option) \<Rightarrow> string list \<Rightarrow> sse \<Rightarrow> 'p \<Rightarrow> bool \<times> 'p" where
  "read_lines fn [] s out = (True, out)"
| "read_lines fn (line # ls) s out =
     (if line = '''' then
        (if ss_data s = '''' then read_lines fn ls \<lparr>ss_event = '''', ss_data = ''''\<rparr> out
         else case fn (ss_event s) (ss_data s) out of
                None \<Rightarrow> (False, out)
              | Some out \<Rightarrow> read_lines fn ls \<lparr>ss_event = '''', ss_data = ''''\<rparr> out)
      else if HasPrefix line ''event: '' then read_lines fn ls (s\<lparr>ss_event := TrimPrefix line ''event: ''\<rparr>) out
      else if HasPrefix line ''data: '' then read_lines fn ls (s\<lparr>ss_data := ss_data s @ TrimPrefix line ''data: ''\<rparr>) out
      else read_lines fn ls s out)"

definition readEvents :: "(string \<Rightarrow> string \<Rightarrow> 'p \<Rightarrow> 'p option) \<Rightarrow> string \<Rightarrow> 'p \<Rightarrow> bool \<times> 'p" where
  "readEvents fn body out =
     (case scan_lines maxEventBytes (Split body CHR ''\<newline>'') of
        (found, whole) \<Rightarrow>
          (case read_lines fn found \<lparr>ss_event = '''', ss_data = ''''\<rparr> out of (ok, out) \<Rightarrow> (ok \<and> whole, out)))"

text \<open>\<^verbatim>\<open>stream\<close>: no timeout, and a failure after the user has cut_short the command is none.\<close>

definition stream_request :: "client \<Rightarrow> string \<Rightarrow> HttpReq" where
  "stream_request cl p = \<lparr>hq_Method = ''GET'', hq_URL = cl_baseURL cl @ p,
     hq_Headers = [(''Accept'', ''text/event-stream'')] @
       (if cl_token cl \<noteq> '''' then [(''Authorization'', ''Bearer '' @ cl_token cl)] else []),
     hq_Body = None\<rparr>"

definition stream_call ::
  "'s Peer \<Rightarrow> (string \<Rightarrow> (string \<times> string) option) \<Rightarrow> bool \<Rightarrow> client \<Rightarrow> string
     \<Rightarrow> (string \<Rightarrow> string \<Rightarrow> 'p \<Rightarrow> 'p option) \<Rightarrow> 'p \<Rightarrow> 's talk \<Rightarrow> (cli_err option \<times> 'p) \<times> 's talk" where
  "stream_call peer errors cut_short cl p fn out t =
     (case exchange_with peer (stream_request cl p) t of (resp, t) \<Rightarrow>
        ((case resp of
            None \<Rightarrow> (if cut_short then None else Some Calling, out)
          | Some resp \<Rightarrow>
              if hp_Status resp \<ge> 400 then (Some (apiFailure errors resp), out)
              else case readEvents fn (hp_Body resp) out of
                     (ok, out) \<Rightarrow> (if ok \<or> cut_short then None else Some Decoding, out)), t))"

end
