(* ===== verification/Restart.thy ===== *)
theory Restart
  imports Cli
begin

text \<open>
  \<^verbatim>\<open>internal/cli/restart.go\<close>: stop an execution, wait until it has settled, and create its replacement from the
  worker. The two loops that poll take fuel; \<open>restart_ends\<close> says how much is enough.
\<close>

section \<open>The command\<close>

definition restartPoll :: duration where "restartPoll = 250 * millisecond"

record restartOptions =
  ro_id :: string
  ro_node :: string
  ro_grace :: string
  ro_params :: "(string \<times> string) list"
  ro_wait :: duration

record processSummary =
  sm_Worker :: string
  sm_Type :: string
  sm_Status :: State
  sm_Metadata :: "(string \<times> string) list"

record createdProcess =
  cp_ID :: string
  cp_Status :: string
  cp_PID :: "int option"

text \<open>The request of the replacement. \<^verbatim>\<open>type\<close> and \<^verbatim>\<open>metadata\<close> are left out when they are empty.\<close>

record replacement =
  rp_worker :: string
  rp_params :: "(string \<times> string) list"
  rp_type :: "string option"
  rp_metadata :: "(string \<times> string) list option"

text \<open>JSON: what the answers decode to, and the text of the request.\<close>

record Json =
  js_error :: "string \<Rightarrow> (string \<times> string) option"
  js_process :: "string \<Rightarrow> processSummary option"
  js_workers :: "string \<Rightarrow> (string \<times> bool) list option"
  js_created :: "string \<Rightarrow> createdProcess option"
  js_replacement :: "replacement \<Rightarrow> string"

definition process_path :: "string \<Rightarrow> string" where
  "process_path pid = ''/v1/processes/'' @ PathEscape pid"

definition getProcess_call ::
  "'s Peer \<Rightarrow> Json \<Rightarrow> client \<Rightarrow> string \<Rightarrow> string \<Rightarrow> 's talk \<Rightarrow> (cli_err + processSummary) \<times> 's talk" where
  "getProcess_call peer js cl node pid t =
     (case do_call peer (js_error js) cl ''GET'' (nodePath node (process_path pid)) None t of
        (r, t) \<Rightarrow> (decoded (js_process js) r, t))"

text \<open>The first worker of that name decides.\<close>

definition checkWorker ::
  "'s Peer \<Rightarrow> Json \<Rightarrow> client \<Rightarrow> string \<Rightarrow> string \<Rightarrow> 's talk \<Rightarrow> cli_err option \<times> 's talk" where
  "checkWorker peer js cl node name t =
     (case do_call peer (js_error js) cl ''GET'' (nodePath node ''/v1/workers'') None t of
        (r, t) \<Rightarrow>
          ((case decoded (js_workers js) r of
              Inl e \<Rightarrow> Some e
            | Inr ws \<Rightarrow>
                (case map_of ws name of
                   None \<Rightarrow> Some (Declined ''not loaded'')
                 | Some enabled \<Rightarrow> if enabled then None else Some (Declined ''disabled''))), t))"

definition stopForRestart ::
  "'s Peer \<Rightarrow> Json \<Rightarrow> client \<Rightarrow> restartOptions \<Rightarrow> 's talk \<Rightarrow> cli_err option \<times> 's talk" where
  "stopForRestart peer js cl opts t =
     (let values = (if ro_grace opts = '''' then [] else [(''grace'', ro_grace opts)])
      in case do_call peer (js_error js) cl ''DELETE'' (nodePath (ro_node opts) (with_query (process_path (ro_id opts)) values)) None t of
           (Inr _, t) \<Rightarrow> (None, t)
         | (Inl e, t) \<Rightarrow> (if hasCode e ''not_running'' then None else Some e, t))"

text \<open>\<open>None\<close> is the end of the fuel.\<close>

fun awaitSettled ::
  "nat \<Rightarrow> 's Peer \<Rightarrow> Json \<Rightarrow> client \<Rightarrow> string \<Rightarrow> string \<Rightarrow> int \<Rightarrow> 's talk \<Rightarrow> (cli_err option \<times> 's talk) option" where
  "awaitSettled 0 peer js cl node pid deadline t = None"
| "awaitSettled (Suc fuel) peer js cl node pid deadline t =
     (case getProcess_call peer js cl node pid t of
        (Inl e, t) \<Rightarrow> Some (Some e, t)
      | (Inr current, t) \<Rightarrow>
          if IsTerminal (sm_Status current) then Some (None, t)
          else if \<not> pe_now peer (snd t) < deadline then Some (Some (Declined ''not settled''), t)
          else (case pe_sleep peer restartPoll (snd t) of
                  (False, w) \<Rightarrow> Some (Some Interrupted, (fst t, w))
                | (True, w) \<Rightarrow> awaitSettled fuel peer js cl node pid deadline (fst t, w)))"

definition replacement_of :: "processSummary \<Rightarrow> restartOptions \<Rightarrow> replacement" where
  "replacement_of current opts = \<lparr>
     rp_worker = sm_Worker current, rp_params = ro_params opts,
     rp_type = (if sm_Type current = '''' then None else Some (sm_Type current)),
     rp_metadata = (if sm_Metadata current = [] then None else Some (sm_Metadata current))\<rparr>"

fun createReplacement ::
  "nat \<Rightarrow> 's Peer \<Rightarrow> Json \<Rightarrow> client \<Rightarrow> processSummary \<Rightarrow> restartOptions \<Rightarrow> int \<Rightarrow> 's talk
     \<Rightarrow> ((cli_err + createdProcess) \<times> 's talk) option" where
  "createReplacement 0 peer js cl current opts deadline t = None"
| "createReplacement (Suc fuel) peer js cl current opts deadline t =
     (case do_call peer (js_error js) cl ''POST'' (nodePath (ro_node opts) ''/v1/processes'')
             (Some (js_replacement js (replacement_of current opts))) t of
        (r, t) \<Rightarrow>
          (case decoded (js_created js) r of
             Inr created \<Rightarrow> Some (Inr created, t)
           | Inl e \<Rightarrow>
               if \<not> hasCode e ''no_capacity'' \<or> \<not> pe_now peer (snd t) < deadline then Some (Inl e, t)
               else (case pe_sleep peer restartPoll (snd t) of
                       (False, w) \<Rightarrow> Some (Inl Interrupted, (fst t, w))
                     | (True, w) \<Rightarrow> createReplacement fuel peer js cl current opts deadline (fst t, w))))"

text \<open>What is printed comes with the answer: whether the execution was stopped, and what was created.\<close>

definition replace_with ::
  "nat \<Rightarrow> 's Peer \<Rightarrow> Json \<Rightarrow> client \<Rightarrow> processSummary \<Rightarrow> restartOptions \<Rightarrow> int \<Rightarrow> bool \<Rightarrow> 's talk
     \<Rightarrow> (bool \<times> (cli_err + createdProcess) \<times> 's talk) option" where
  "replace_with fuel peer js cl current opts deadline stopped t =
     map_option (\<lambda>(r, t). (stopped, r, t)) (createReplacement fuel peer js cl current opts deadline t)"

text \<open>The restart once the execution and its worker have been read.\<close>

definition stop_and_create ::
  "nat \<Rightarrow> 's Peer \<Rightarrow> Json \<Rightarrow> client \<Rightarrow> processSummary \<Rightarrow> restartOptions \<Rightarrow> 's talk
     \<Rightarrow> (bool \<times> (cli_err + createdProcess) \<times> 's talk) option" where
  "stop_and_create fuel peer js cl current opts t =
     (let deadline = pe_now peer (snd t) + ro_wait opts
      in if IsTerminal (sm_Status current) then replace_with fuel peer js cl current opts deadline False t
         else (case stopForRestart peer js cl opts t of
            (Some e, t) \<Rightarrow> Some (False, Inl e, t)
          | (None, t) \<Rightarrow>
              (case awaitSettled fuel peer js cl (ro_node opts) (ro_id opts) deadline t of
                 None \<Rightarrow> None
               | Some (Some e, t) \<Rightarrow> Some (False, Inl e, t)
               | Some (None, t) \<Rightarrow> replace_with fuel peer js cl current opts deadline True t)))"

definition restartExecution ::
  "nat \<Rightarrow> 's Peer \<Rightarrow> Json \<Rightarrow> client \<Rightarrow> restartOptions \<Rightarrow> 's talk
     \<Rightarrow> (bool \<times> (cli_err + createdProcess) \<times> 's talk) option" where
  "restartExecution fuel peer js cl opts t =
     (case getProcess_call peer js cl (ro_node opts) (ro_id opts) t of
        (Inl e, t) \<Rightarrow> Some (False, Inl e, t)
      | (Inr current, t) \<Rightarrow>
          if sm_Worker current = '''' then Some (False, Inl (Usage ''raw command''), t)
          else (case checkWorker peer js cl (ro_node opts) (sm_Worker current) t of
             (Some e, t) \<Rightarrow> Some (False, Inl e, t)
           | (None, t) \<Rightarrow> stop_and_create fuel peer js cl current opts t))"

end
