(* ===== verification/CliCommands.thy ===== *)
theory CliCommands
  imports Restart
begin

text \<open>
  The other commands of \<^verbatim>\<open>internal/cli\<close>: what each asks of the daemon and what it prints. A command answers
  what it printed, in order, and how it ended; \<open>Execute\<close> turns that into the exit code.
\<close>

section \<open>Printing\<close>

text \<open>A line to either stream, and the rows of a table.\<close>

datatype printed = OutLine string | ErrLine string | TableRows "string list list" | OutJson string

type_synonym 's command = "'s talk \<Rightarrow> (printed list \<times> cli_err option) \<times> 's talk"

definition exitOK :: int where "exitOK = 0"
definition exitError :: int where "exitError = 1"
definition exitUsage :: int where "exitUsage = 2"

definition Execute :: "cli_err option \<Rightarrow> int" where
  "Execute result = (case result of None \<Rightarrow> exitOK | Some (Usage _) \<Rightarrow> exitUsage | Some _ \<Rightarrow> exitError)"

definition formatOptionalInt :: "int option \<Rightarrow> string" where
  "formatOptionalInt v = (case v of None \<Rightarrow> ''-'' | Some n \<Rightarrow> Itoa n)"

definition orDash :: "string \<Rightarrow> string" where
  "orDash v = (if v = '''' then ''-'' else v)"

text \<open>A command that makes one call and prints from what it decodes.\<close>

definition call_and_print ::
  "'s Peer \<Rightarrow> (string \<Rightarrow> (string \<times> string) option) \<Rightarrow> client \<Rightarrow> string \<Rightarrow> string \<Rightarrow> string option
     \<Rightarrow> (string \<Rightarrow> 'a option) \<Rightarrow> ('a \<Rightarrow> printed list) \<Rightarrow> 's command" where
  "call_and_print peer errors cl method p body decode print t =
     (case do_call peer errors cl method p body t of (r, t) \<Rightarrow>
        (case decoded decode r of Inl e \<Rightarrow> ([], Some e) | Inr a \<Rightarrow> (print a, None), t))"

section \<open>Running, stopping, signalling\<close>

text \<open>A later value of a name replaces the earlier one.\<close>

fun put_param :: "string \<Rightarrow> string \<Rightarrow> (string \<times> string) list \<Rightarrow> (string \<times> string) list" where
  "put_param n v [] = [(n, v)]"
| "put_param n v ((m, u) # ps) = (if m = n then (n, v) # ps else (m, u) # put_param n v ps)"

fun parse_params :: "string list \<Rightarrow> (string \<times> string) list \<Rightarrow> cli_err + (string \<times> string) list" where
  "parse_params [] params = Inr params"
| "parse_params (entry # raw) params =
     (case Cut entry (CHR ''='') of
        (name, v, found) \<Rightarrow>
          if \<not> found \<or> name = '''' then Inl (Usage entry) else parse_params raw (put_param name v params))"

definition parseParams :: "string list \<Rightarrow> cli_err + (string \<times> string) list" where
  "parseParams raw = parse_params raw []"

text \<open>JSON, as far as these commands need it: the texts of the requests, the answers.\<close>

record runRequest =
  rr_worker :: string
  rr_params :: "(string \<times> string) list"
  rr_lock :: "string option"
  rr_node :: "string option"

record processRow =
  ro_Node :: string
  ro_ID :: string
  ro_Worker :: string
  ro_Type :: string
  ro_Status :: string
  ro_PID :: "int option"
  ro_Attempt :: int
  ro_Restarts :: int
  ro_ExitCode :: "int option"

record processPage =
  pp_Items :: "processRow list"
  pp_NextCursor :: string
  pp_Unreachable :: "string list"

record workerRow =
  wk_Name :: string
  wk_Enabled :: bool
  wk_Type :: string
  wk_Command :: string
  wk_MaxProcesses :: int
  wk_Schedule :: "(string \<times> gtime option \<times> int) option"

record fleetNode =
  fn_NodeName :: string
  fn_NodeURL :: string
  fn_Reachable :: bool
  fn_Error :: string
  fn_Version :: string
  fn_LastSeen :: "gtime option"
  fn_SlotsUsed :: int
  fn_SlotsMax :: int
  fn_Running :: int
  fn_QueueDepth :: int

record daemonStats =
  ds_SlotsUsed :: int
  ds_SlotsMax :: int
  ds_Workers :: int
  ds_Running :: int
  ds_QueueDepth :: int

record logsBody =
  lb_Lines :: "string list"
  lb_Truncated :: bool

record Texts =
  tx_error :: "string \<Rightarrow> (string \<times> string) option"
  tx_run :: "runRequest \<Rightarrow> string"
  tx_signal :: "string \<Rightarrow> string"
  tx_created :: "string \<Rightarrow> createdProcess option"
  tx_health :: "string \<Rightarrow> (string \<times> string) option"
  tx_stats :: "string \<Rightarrow> daemonStats option"
  tx_reload :: "string \<Rightarrow> int option"
  tx_workers :: "string \<Rightarrow> workerRow list option"
  tx_page :: "string \<Rightarrow> processPage option"
  tx_page_text :: "processPage \<Rightarrow> string"
  tx_nodes :: "string \<Rightarrow> fleetNode list option"
  tx_nodes_text :: "fleetNode list \<Rightarrow> string"
  tx_logs :: "string \<Rightarrow> logsBody option"
  tx_line :: "string \<Rightarrow> (string \<times> string) option"
  tx_end :: "string \<Rightarrow> (int \<times> string \<times> bool) option"
  tx_local :: "gtime \<Rightarrow> string"

definition created_line :: "createdProcess \<Rightarrow> printed list" where
  "created_line c = [OutLine (cp_ID c @ '' '' @ cp_Status c @ '' '' @ formatOptionalInt (cp_PID c))]"

definition run_command ::
  "'s Peer \<Rightarrow> Texts \<Rightarrow> client \<Rightarrow> string \<Rightarrow> string list \<Rightarrow> string \<Rightarrow> string \<Rightarrow> 's command" where
  "run_command peer tx cl worker raw lock node t =
     (case parseParams raw of
        Inl e \<Rightarrow> (([], Some e), t)
      | Inr params \<Rightarrow>
          call_and_print peer (tx_error tx) cl ''POST'' ''/v1/processes''
            (Some (tx_run tx \<lparr>rr_worker = worker, rr_params = params,
               rr_lock = (if lock = '''' then None else Some lock), rr_node = (if node = '''' then None else Some node)\<rparr>))
            (tx_created tx) created_line t)"

definition stop_command :: "'s Peer \<Rightarrow> Texts \<Rightarrow> client \<Rightarrow> string \<Rightarrow> string \<Rightarrow> string \<Rightarrow> 's command" where
  "stop_command peer tx cl pid grace node =
     call_and_print peer (tx_error tx) cl ''DELETE''
       (nodePath node (with_query (process_path pid) (if grace = '''' then [] else [(''grace'', grace)]))) None
       Some (\<lambda>_. [OutLine (pid @ '' stopping'')])"

definition signal_command :: "'s Peer \<Rightarrow> Texts \<Rightarrow> client \<Rightarrow> string \<Rightarrow> string \<Rightarrow> string \<Rightarrow> 's command" where
  "signal_command peer tx cl pid name node =
     call_and_print peer (tx_error tx) cl ''POST'' (nodePath node (process_path pid @ ''/signal'')) (Some (tx_signal tx name))
       Some (\<lambda>_. [OutLine (name @ '' sent to '' @ pid)])"

definition reload_command :: "'s Peer \<Rightarrow> Texts \<Rightarrow> client \<Rightarrow> 's command" where
  "reload_command peer tx cl =
     call_and_print peer (tx_error tx) cl ''POST'' ''/v1/reload'' None (tx_reload tx)
       (\<lambda>n. [OutLine (Itoa n @ '' workers loaded'')])"

definition restart_command ::
  "nat \<Rightarrow> 's Peer \<Rightarrow> Json \<Rightarrow> client \<Rightarrow> restartOptions \<Rightarrow> string list \<Rightarrow> 's talk
     \<Rightarrow> ((printed list \<times> cli_err option) \<times> 's talk) option" where
  "restart_command fuel peer js cl opts raw t =
     (case parseParams raw of
        Inl e \<Rightarrow> Some (([], Some e), t)
      | Inr params \<Rightarrow>
          map_option (\<lambda>(stopped, r, t).
              let said = (if stopped then [OutLine (ro_id opts @ '' stopped'')] else [])
              in (case r of Inl e \<Rightarrow> (said, Some e) | Inr created \<Rightarrow> (said @ created_line created, None), t))
            (restartExecution fuel peer js cl (opts\<lparr>ro_params := params\<rparr>) t))"

section \<open>Looking\<close>

definition status_command :: "'s Peer \<Rightarrow> Texts \<Rightarrow> client \<Rightarrow> 's command" where
  "status_command peer tx cl t =
     (case do_call peer (tx_error tx) cl ''GET'' ''/v1/health'' None t of (r, t) \<Rightarrow>
       (case decoded (tx_health tx) r of
          Inl e \<Rightarrow> (([], Some e), t)
        | Inr (status, version) \<Rightarrow>
            call_and_print peer (tx_error tx) cl ''GET'' ''/v1/stats'' None (tx_stats tx)
              (\<lambda>s. [OutLine (''status   '' @ status), OutLine (''version  '' @ version),
                    OutLine (''slots    '' @ Itoa (ds_SlotsUsed s) @ ''/'' @ Itoa (ds_SlotsMax s)),
                    OutLine (''running  '' @ Itoa (ds_Running s)), OutLine (''queued   '' @ Itoa (ds_QueueDepth s)),
                    OutLine (''workers  '' @ Itoa (ds_Workers s))]) t))"

definition worker_cells :: "(gtime \<Rightarrow> string) \<Rightarrow> workerRow \<Rightarrow> string list" where
  "worker_cells local w =
     (let (schedule, nxt) =
        (case wk_Schedule w of
           None \<Rightarrow> (''-'', ''-'')
         | Some (cron, due, missed) \<Rightarrow>
             let nxt = (case due of None \<Rightarrow> ''-'' | Some i \<Rightarrow> local i)
             in (cron, if missed > 0 then nxt @ '' ('' @ Itoa missed @ '' missed)'' else nxt))
      in [wk_Name w, if wk_Enabled w then ''true'' else ''false'', wk_Type w, Itoa (wk_MaxProcesses w), schedule, nxt, wk_Command w])"

definition workers_command :: "'s Peer \<Rightarrow> Texts \<Rightarrow> client \<Rightarrow> 's command" where
  "workers_command peer tx cl =
     call_and_print peer (tx_error tx) cl ''GET'' ''/v1/workers'' None (tx_workers tx)
       (\<lambda>ws. [TableRows ([''NAME'', ''ENABLED'', ''TYPE'', ''MAX'', ''SCHEDULE'', ''NEXT RUN'', ''COMMAND''] #
          map (worker_cells (tx_local tx)) ws)])"

definition fleet_cells :: "(gtime \<Rightarrow> string) \<Rightarrow> fleetNode \<Rightarrow> string list" where
  "fleet_cells local n =
     [fn_NodeName n, if fn_Reachable n then ''yes'' else ''no'', orDash (fn_Version n),
      Itoa (fn_SlotsUsed n) @ ''/'' @ Itoa (fn_SlotsMax n), Itoa (fn_Running n), Itoa (fn_QueueDepth n),
      (case fn_LastSeen n of None \<Rightarrow> ''never'' | Some i \<Rightarrow> local i), fn_NodeURL n]"

definition printFleetTable :: "(gtime \<Rightarrow> string) \<Rightarrow> fleetNode list \<Rightarrow> printed list" where
  "printFleetTable local nodes =
     [TableRows ([''NODE'', ''REACHABLE'', ''VERSION'', ''SLOTS'', ''RUNNING'', ''QUEUED'', ''LAST SEEN'', ''URL''] #
        map (fleet_cells local) nodes)]"

definition fleet_command :: "'s Peer \<Rightarrow> Texts \<Rightarrow> client \<Rightarrow> string \<Rightarrow> 's command" where
  "fleet_command peer tx cl output =
     call_and_print peer (tx_error tx) cl ''GET'' ''/v1/fleet/nodes'' None (tx_nodes tx)
       (\<lambda>nodes. if output = ''json'' then [OutJson (tx_nodes_text tx nodes)]
          else printFleetTable (tx_local tx) nodes @
            map (\<lambda>n. ErrLine (fn_NodeName n @ '': '' @ fn_Error n))
              (filter (\<lambda>n. \<not> fn_Reachable n \<and> fn_Error n \<noteq> '''') nodes))"

record psOptions =
  po_status :: "string list"
  po_worker :: string
  po_type :: string
  po_node :: string
  po_limit :: int
  po_cursor :: string
  po_output :: string

text \<open>The query, in the order of its keys.\<close>

definition ps_values :: "psOptions \<Rightarrow> url_values" where
  "ps_values o1 =
     (let one = (\<lambda>k v. if v = '''' then [] else [(k, v)])
      in one ''cursor'' (po_cursor o1) @ [(''limit'', Itoa (po_limit o1))] @ one ''node'' (po_node o1) @
         map (Pair ''status'') (po_status o1) @ one ''type'' (po_type o1) @ one ''worker'' (po_worker o1))"

definition row_cells :: "bool \<Rightarrow> processRow \<Rightarrow> string list" where
  "row_cells withNode r =
     (if withNode then [orDash (ro_Node r)] else []) @
     [ro_ID r, ro_Worker r, ro_Type r, ro_Status r, formatOptionalInt (ro_PID r), Itoa (ro_Attempt r),
      Itoa (ro_Restarts r), formatOptionalInt (ro_ExitCode r)]"

definition printProcessTable :: "processRow list \<Rightarrow> bool \<Rightarrow> printed list" where
  "printProcessTable rows withNode =
     [TableRows (((if withNode then [''NODE''] else []) @
        [''ID'', ''WORKER'', ''TYPE'', ''STATUS'', ''PID'', ''ATTEMPT'', ''RESTARTS'', ''EXIT'']) #
        map (row_cells withNode) rows)]"

fun comma_list :: "string list \<Rightarrow> string" where
  "comma_list [] = ''''"
| "comma_list [x] = x"
| "comma_list (x # xs) = x @ '', '' @ comma_list xs"

definition print_page :: "Texts \<Rightarrow> psOptions \<Rightarrow> processPage \<Rightarrow> printed list" where
  "print_page tx o1 page =
     (if po_output o1 = ''json'' then [OutJson (tx_page_text tx page)]
      else printProcessTable (pp_Items page) (po_node o1 \<noteq> '''') @
        (if pp_Unreachable page = [] then [] else [ErrLine (''unreachable nodes: '' @ comma_list (pp_Unreachable page))]) @
        (if pp_NextCursor page = '''' then [] else [ErrLine (''more results: --cursor '' @ pp_NextCursor page)]))"

definition ps_command :: "'s Peer \<Rightarrow> Texts \<Rightarrow> client \<Rightarrow> psOptions \<Rightarrow> 's command" where
  "ps_command peer tx cl o1 =
     call_and_print peer (tx_error tx) cl ''GET'' (with_query ''/v1/processes'' (ps_values o1)) None (tx_page tx)
       (print_page tx o1)"

section \<open>Logs\<close>

record logsOptions =
  lo_stream :: string
  lo_attempt :: int
  lo_tail :: int
  lo_node :: string

definition logs_values :: "logsOptions \<Rightarrow> url_values" where
  "logs_values o1 =
     (if lo_attempt o1 > 0 then [(''attempt'', Itoa (lo_attempt o1))] else []) @ [(''stream'', lo_stream o1)] @
     (if lo_tail o1 > 0 then [(''tail'', Itoa (lo_tail o1))] else [])"

definition dropped_notice :: printed where
  "dropped_notice = ErrLine ''some output was dropped: the stream hit its size cap or rotated past max_files''"

definition printLogs :: "'s Peer \<Rightarrow> Texts \<Rightarrow> client \<Rightarrow> logsOptions \<Rightarrow> string \<Rightarrow> 's command" where
  "printLogs peer tx cl o1 pid =
     call_and_print peer (tx_error tx) cl ''GET''
       (nodePath (lo_node o1) (with_query (process_path pid @ ''/logs'') (logs_values o1))) None (tx_logs tx)
       (\<lambda>b. map OutLine (lb_Lines b) @ (if lb_Truncated b then [dropped_notice] else []))"

definition follow_event :: "Texts \<Rightarrow> string \<Rightarrow> string \<Rightarrow> printed list \<Rightarrow> printed list option" where
  "follow_event tx event data out =
     (if event = ''line'' then
        (case tx_line tx data of
           None \<Rightarrow> None
         | Some (stream, line) \<Rightarrow> Some (out @ [if stream = ''stderr'' then ErrLine line else OutLine line]))
      else if event = ''end'' then
        (case tx_end tx data of
           None \<Rightarrow> None
         | Some (attempt, status, truncated) \<Rightarrow>
             Some (out @ (if truncated then [dropped_notice] else []) @
               [ErrLine (''attempt '' @ Itoa attempt @ '' ended: '' @ status)]))
      else Some out)"

definition followLogs ::
  "'s Peer \<Rightarrow> Texts \<Rightarrow> bool \<Rightarrow> client \<Rightarrow> logsOptions \<Rightarrow> string \<Rightarrow> 's command" where
  "followLogs peer tx cut_short cl o1 pid t =
     (case stream_call peer (tx_error tx) cut_short cl
             (nodePath (lo_node o1) (with_query (process_path pid @ ''/logs/stream'') (logs_values o1)))
             (follow_event tx) [] t of
        ((e, out), t) \<Rightarrow> ((out, e), t))"

definition logs_command ::
  "'s Peer \<Rightarrow> Texts \<Rightarrow> bool \<Rightarrow> bool \<Rightarrow> client \<Rightarrow> logsOptions \<Rightarrow> string \<Rightarrow> 's command" where
  "logs_command peer tx cut_short following cl o1 pid =
     (if following then followLogs peer tx cut_short cl o1 pid else printLogs peer tx cl o1 pid)"

section \<open>Tokens and the node itself\<close>

text \<open>\<^verbatim>\<open>token hash\<close> on what standard input holds.\<close>

definition token_hash_command :: "(string \<Rightarrow> string) \<Rightarrow> string \<Rightarrow> printed list \<times> cli_err option" where
  "token_hash_command digest input =
     (case Cut input (CHR ''\<newline>'') of
        (line, _, found) \<Rightarrow>
          if \<not> found \<and> line = '''' then ([], Some (Declined ''reading token from stdin''))
          else if TrimSpace line = '''' then ([], Some (Usage ''no token on stdin''))
          else ([OutLine (HashToken digest (TrimSpace line))], None))"

definition printSetupPaths :: "Outcome \<Rightarrow> printed list" where
  "printSetupPaths r = [TableRows (
     [[''config'', so_ConfigPath r], [''token file'', so_TokenPath r], [''workers'', so_WorkersDir r],
      [''data'', so_DataDir r], [''logs'', so_LogDir r], [''api'', so_BaseURL r]] @
     (if so_UIURL r = '''' then [] else [[''web ui'', so_UIURL r]]) @ [[''metrics'', so_MetricsURL r]] @
     (if so_ConfigBackup r = '''' then [] else [[''backup'', so_ConfigBackup r]]) @
     (if so_UnitPath r \<noteq> '''' \<and> so_ServiceState r \<noteq> ''skipped''
      then [[''unit'', so_UnitPath r], [''service'', so_Service r @ '' ('' @ so_ServiceState r @ '')'']] else []))]"

text \<open>\<open>quoted\<close> is the verb \<^verbatim>\<open>%q\<close>.\<close>

definition printSetupToken :: "(string \<Rightarrow> string) \<Rightarrow> Outcome \<Rightarrow> printed list" where
  "printSetupToken quoted r = [OutLine '''',
     OutLine (''token '' @ quoted (so_TokenName r) @ '' ('' @
       (if so_TokenReused r then ''existing token, unchanged'' else ''new token'') @ '')''),
     OutLine (''  '' @ so_Token r),
     OutLine ''  Paste this into the web UI, or export PROCESSD_TOKEN. The daemon keeps'',
     OutLine (''  only its sha256 digest: '' @ so_TokenPath r @ '' holds the only copy.'')]"

definition printSetupChecks :: "Outcome \<Rightarrow> printed list" where
  "printSetupChecks r = [OutLine '''', OutLine ''check''] @
     (if so_Service r \<noteq> '''' \<and> so_ServiceState r \<noteq> ''skipped'' \<and> so_ServiceState r \<noteq> ''unavailable''
      then [OutLine (''  systemctl status '' @ so_Service r), OutLine (''  journalctl -u '' @ so_Service r @ '' -f'')]
      else []) @
     [OutLine (''  processd status --server '' @ so_BaseURL r), OutLine (''  curl -sS '' @ so_BaseURL r @ ''/v1/health''),
      OutLine (''  curl -sS -H \"Authorization: Bearer $(sudo cat '' @ so_TokenPath r @ '')\" '' @ so_BaseURL r @ ''/v1/workers''),
      OutLine (''  worker definitions go in '' @ so_WorkersDir r @ '', then: processd reload'')]"

definition printSetup :: "(string \<Rightarrow> string) \<Rightarrow> Outcome \<Rightarrow> printed list" where
  "printSetup quoted r =
     (if so_DryRun r then [OutLine ''dry run: nothing was changed''] else []) @
     map (\<lambda>message. OutLine (''  - '' @ message)) (so_Steps r) @ [OutLine ''''] @
     printSetupPaths r @ printSetupToken quoted r @ printSetupChecks r @
     map (\<lambda>warning. OutLine (''warning: '' @ warning)) (so_Warnings r)"

definition setup_command ::
  "Installer \<Rightarrow> (string \<Rightarrow> string) \<Rightarrow> (Outcome \<Rightarrow> string) \<Rightarrow> string \<Rightarrow> Options \<Rightarrow> Disk
     \<Rightarrow> (printed list \<times> cli_err option) \<times> Disk" where
  "setup_command env quoted json output opts d =
     (case Setup_Run env opts d of
        (False, _, d) \<Rightarrow> (([], Some (Declined ''setup'')), d)
      | (True, r, d) \<Rightarrow> ((if output = ''json'' then [OutJson (json r)] else printSetup quoted r, None), d))"

end
