(* ===== verification/SetupProps.thy ===== *)
theory SetupProps
  imports Setup
begin

text \<open>
  What an installation leaves behind: a token that works, the credentials of every client, the previous
  configuration, and nothing at all when it only reports what it would do.
\<close>

section \<open>What each step writes\<close>

named_theorems disk_simps

lemmas [disk_simps] = ReadFile_def WriteFile_def MkdirAll_def Chmod_def dk_called_def note_step_def note_warning_def

text \<open>The token of a result is settled before the first step.\<close>

definition same_token :: "Outcome \<Rightarrow> Outcome \<Rightarrow> bool" where
  "same_token r r' \<longleftrightarrow> so_Token r' = so_Token r \<and> so_TokenReused r' = so_TokenReused r"

lemma same_token_refl [simp]: "same_token r r"
  by (simp add: same_token_def)

lemma same_token_trans: "same_token r r1 \<Longrightarrow> same_token r1 r2 \<Longrightarrow> same_token r r2"
  by (simp add: same_token_def)

lemma same_token_note [simp]: "same_token r (note_step m r)" "same_token r (note_warning m r)"
  by (simp_all add: same_token_def disk_simps)

lemma ensure_each_keeps:
  "ensure_each dry dirs (r, d) = (ok, r', d') \<Longrightarrow>
     dk_files d' = dk_files d \<and> dk_ran d' = dk_ran d \<and> same_token r r' \<and> (dry \<longrightarrow> dk_dirs d' = dk_dirs d)"
proof (induction dry dirs "(r, d)" arbitrary: r d rule: ensure_each.induct)
  case (2 dry dir dirs r d)
  then show ?case
    by (auto simp: disk_simps same_token_def split: if_splits)
qed simp

lemma ensureDirs_keeps:
  "ensureDirs opts cfg (r, d) = (ok, r', d') \<Longrightarrow>
     dk_files d' = dk_files d \<and> dk_ran d' = dk_ran d \<and> same_token r r' \<and> (op_DryRun opts \<longrightarrow> dk_dirs d' = dk_dirs d)"
  unfolding ensureDirs_def by (rule ensure_each_keeps)

lemma save_previous_writes:
  "save_previous env opts current (r, d) = (ok, r', d') \<Longrightarrow>
     same_token r r' \<and> dk_dirs d' = dk_dirs d \<and> dk_ran d' = dk_ran d \<and>
     (\<forall>q. q \<noteq> backupPath env opts \<longrightarrow> dk_files d' q = dk_files d q) \<and>
     (ok \<longrightarrow> current \<noteq> '''' \<longrightarrow> dk_files d' (backupPath env opts) = Some current)"
  by (auto simp: disk_simps same_token_def split: if_splits option.splits)

lemma backup_is_another [simp]: "backupPath env opts \<noteq> op_ConfigPath opts" "op_ConfigPath opts \<noteq> backupPath env opts"
  by (simp_all add: backupPath_def)

lemma rendered_not_empty: "renderConfig env cfg = Some content \<Longrightarrow> content \<noteq> ''''"
  by (auto simp: renderConfig_def config_header_def)

text \<open>Whichever call fails, the previous configuration is in its file or in the copy beside it.\<close>

lemma writeConfig_writes:
  assumes "writeConfig env opts cfg (r, d) = (ok, r', d')"
  shows "same_token r r'" and "dk_dirs d' = dk_dirs d" and "dk_ran d' = dk_ran d"
    and "q \<notin> {op_ConfigPath opts, backupPath env opts} \<Longrightarrow> dk_files d' q = dk_files d q"
    and "op_DryRun opts \<Longrightarrow> dk_files d' = dk_files d"
    and "\<lbrakk>dk_files d (op_ConfigPath opts) = Some old; old \<noteq> ''''\<rbrakk>
      \<Longrightarrow> dk_files d' (op_ConfigPath opts) = Some old \<or> dk_files d' (backupPath env opts) = Some old"
    and "\<lbrakk>ok; \<not> op_DryRun opts\<rbrakk>
      \<Longrightarrow> \<exists>content. renderConfig env cfg = Some content \<and> dk_files d' (op_ConfigPath opts) = Some content"
proof -
  obtain ok1 r1 d1 where s: "save_previous env opts (case dk_files d (op_ConfigPath opts) of None \<Rightarrow> '''' | Some c \<Rightarrow> c)
      (r, dk_called d) = (ok1, r1, d1)"
    by (rule prod_cases3)
  note s' = save_previous_writes [OF s]
  have step: "renderConfig env cfg = None \<and> \<not> ok \<and> r' = r \<and> d' = d \<or>
      (\<exists>content. renderConfig env cfg = Some content \<and>
         (dk_fault d \<noteq> None \<and> \<not> ok \<and> r' = r \<and> d' = dk_called d \<or>
          dk_fault d = None \<and>
            ((case dk_files d (op_ConfigPath opts) of None \<Rightarrow> '''' | Some c \<Rightarrow> c) = content \<and> same_token r r' \<and> d' = dk_called d \<or>
             op_DryRun opts \<and> same_token r r' \<and> d' = dk_called d \<or>
             \<not> op_DryRun opts \<and> (\<not> ok1 \<and> \<not> ok \<and> r' = r1 \<and> d' = d1 \<or>
               ok1 \<and> same_token r1 r' \<and>
                 (\<exists>c. d' = (dk_called d1)\<lparr>dk_files := (dk_files d1)(op_ConfigPath opts \<mapsto> c)\<rparr> \<and> (ok \<longrightarrow> c = content))))))"
    using assms s
    by (auto simp: ReadFile_def WriteFile_def same_token_def note_step_def Let_def
        split: option.splits if_splits prod.splits bool.splits simp del: save_previous.simps)
  show "same_token r r'" "dk_dirs d' = dk_dirs d" "dk_ran d' = dk_ran d"
    using step s' by (auto simp: dk_called_def intro: same_token_trans)
  show "dk_files d' q = dk_files d q" if "q \<notin> {op_ConfigPath opts, backupPath env opts}"
    using step s' that by (auto simp: dk_called_def)
  show "dk_files d' = dk_files d" if "op_DryRun opts"
    using step that by (auto simp: dk_called_def)
  show "dk_files d' (op_ConfigPath opts) = Some old \<or> dk_files d' (backupPath env opts) = Some old"
    if "dk_files d (op_ConfigPath opts) = Some old" "old \<noteq> ''''"
    using step s' that by (auto simp: dk_called_def)
  show "\<exists>content. renderConfig env cfg = Some content \<and> dk_files d' (op_ConfigPath opts) = Some content" if "ok" "\<not> op_DryRun opts"
    using step s' that rendered_not_empty by (fastforce simp: dk_called_def split: option.splits)
qed

lemma writeToken_writes:
  "writeToken opts (r, d) = (ok, r', d') \<Longrightarrow>
     same_token r r' \<and> dk_dirs d' = dk_dirs d \<and> dk_ran d' = dk_ran d \<and> (op_DryRun opts \<longrightarrow> dk_files d' = dk_files d) \<and>
     (\<forall>q. q \<noteq> TokenPath (op_ConfigPath opts) \<longrightarrow> dk_files d' q = dk_files d q) \<and>
     (ok \<longrightarrow> \<not> op_DryRun opts \<longrightarrow> dk_files d' (TokenPath (op_ConfigPath opts)) = Some (so_Token r @ [CHR ''\<newline>'']))"
  by (auto simp: disk_simps same_token_def Let_def split: if_splits option.splits prod.splits bool.splits)

lemma run_commands_keeps:
  "run_commands env dry commands (r, d) = (ok, r', d') \<Longrightarrow>
     dk_files d' = dk_files d \<and> dk_dirs d' = dk_dirs d \<and> same_token r r' \<and> (dry \<longrightarrow> dk_ran d' = dk_ran d)"
proof (induction env dry commands "(r, d)" arbitrary: r d rule: run_commands.induct)
  case (2 env dry args commands r d)
  then show ?case
    by (auto simp: disk_simps same_token_def Let_def split: if_splits)
qed simp

lemma writeUnit_writes:
  "writeUnit env opts cfg (r, d) = (ok, r', d') \<Longrightarrow>
     same_token r r' \<and> dk_ran d' = dk_ran d \<and>
     (op_DryRun opts \<longrightarrow> dk_files d' = dk_files d \<and> dk_dirs d' = dk_dirs d) \<and>
     (\<forall>q. q \<noteq> op_UnitPath opts \<longrightarrow> dk_files d' q = dk_files d q)"
  by (auto simp: disk_simps same_token_def Let_def split: if_splits option.splits prod.splits bool.splits)

lemma warnAboutBinary_token [simp]: "same_token r (warnAboutBinary opts r)"
  by (simp add: warnAboutBinary_def Let_def)

lemma enableService_keeps:
  "enableService env opts (r, d) = (ok, r', d') \<Longrightarrow>
     dk_files d' = dk_files d \<and> dk_dirs d' = dk_dirs d \<and> same_token r r' \<and> (op_DryRun opts \<longrightarrow> dk_ran d' = dk_ran d)"
  by (auto simp: same_token_def simp del: run_commands.simps split: if_splits dest!: run_commands_keeps)

lemma installService_writes:
  assumes "installService env opts cfg (r, d) = (ok, r', d')"
  shows "same_token r r' \<and>
     (op_DryRun opts \<longrightarrow> dk_files d' = dk_files d \<and> dk_dirs d' = dk_dirs d \<and> dk_ran d' = dk_ran d) \<and>
     (\<forall>q. q \<noteq> op_UnitPath opts \<longrightarrow> dk_files d' q = dk_files d q)"
proof -
  let ?r = "r\<lparr>so_Service := op_Service opts, so_UnitPath := op_UnitPath opts\<rparr>"
  have r: "same_token r ?r" by (simp add: same_token_def)
  show ?thesis
  proof (cases "op_InstallUnit opts \<and> in_systemd env")
    case False
    then show ?thesis
      using assms by (auto simp: same_token_def note_step_def note_warning_def Let_def split: if_splits)
  next
    case True
    obtain ok1 r1 d1 where w: "writeUnit env opts cfg (warnAboutBinary opts ?r, d) = (ok1, r1, d1)"
      by (rule prod_cases3)
    have r1: "same_token r r1"
      using same_token_trans [OF r same_token_trans [OF warnAboutBinary_token]] writeUnit_writes [OF w] by blast
    show ?thesis
    proof (cases ok1)
      case False
      then show ?thesis
        using assms w True r1 writeUnit_writes [OF w]
        by (auto simp: Let_def simp del: writeUnit.simps enableService.simps)
    next
      case ok1: True
      then have "enableService env opts (r1, d1) = (ok, r', d')"
        using assms w True by (simp add: Let_def del: writeUnit.simps enableService.simps)
      from enableService_keeps [OF this] writeUnit_writes [OF w] show ?thesis
        using r1 by (auto intro: same_token_trans)
    qed
  qed
qed

lemma carry_out_chain:
  assumes "carry_out env opts cfg (r, d) = (ok, r', d')"
  obtains ok1 r1 d1 ok2 r2 d2 ok3 r3 d3 ok4 r4 d4
  where "ensureDirs opts cfg (r, d) = (ok1, r1, d1)" "writeConfig env opts cfg (r1, d1) = (ok2, r2, d2)"
    "writeToken opts (r2, d2) = (ok3, r3, d3)" "installService env opts cfg (r3, d3) = (ok4, r4, d4)"
    "(ok, r', d') =
       (if \<not> ok1 then (False, r1, d1) else if \<not> ok2 then (False, r2, d2) else if \<not> ok3 then (False, r3, d3)
        else if \<not> ok4 then (False, r4, d4) else (True, describe env cfg r4, d4))"
proof -
  obtain ok1 r1 d1 where 1: "ensureDirs opts cfg (r, d) = (ok1, r1, d1)" by (rule prod_cases3)
  obtain ok2 r2 d2 where 2: "writeConfig env opts cfg (r1, d1) = (ok2, r2, d2)" by (rule prod_cases3)
  obtain ok3 r3 d3 where 3: "writeToken opts (r2, d2) = (ok3, r3, d3)" by (rule prod_cases3)
  obtain ok4 r4 d4 where 4: "installService env opts cfg (r3, d3) = (ok4, r4, d4)" by (rule prod_cases3)
  show thesis
    by (rule that [OF 1 2 3 4])
      (use assms 1 2 3 4 in \<open>simp add: carry_out_def split: bool.splits
         del: writeConfig.simps writeToken.simps installService.simps\<close>)
qed

lemma describe_token [simp]: "same_token r (describe env cfg r)"
  by (simp add: same_token_def describe_def Let_def)

text \<open>What every step keeps is kept by them all, wherever they end.\<close>

lemma carry_out_invariant:
  assumes "carry_out env opts cfg (r, d) = (ok, r', d')" and "Q r d"
    and "\<And>ok r d r' d'. \<lbrakk>Q r d; ensureDirs opts cfg (r, d) = (ok, r', d')\<rbrakk> \<Longrightarrow> Q r' d'"
    and "\<And>ok r d r' d'. \<lbrakk>Q r d; writeConfig env opts cfg (r, d) = (ok, r', d')\<rbrakk> \<Longrightarrow> Q r' d'"
    and "\<And>ok r d r' d'. \<lbrakk>Q r d; writeToken opts (r, d) = (ok, r', d')\<rbrakk> \<Longrightarrow> Q r' d'"
    and "\<And>ok r d r' d'. \<lbrakk>Q r d; installService env opts cfg (r, d) = (ok, r', d')\<rbrakk> \<Longrightarrow> Q r' d'"
    and "\<And>r d. Q r d \<Longrightarrow> Q (describe env cfg r) d"
  shows "Q r' d'"
  using assms(1)
proof (rule carry_out_chain)
  fix ok1 r1 d1 ok2 r2 d2 ok3 r3 d3 ok4 r4 d4
  assume s: "ensureDirs opts cfg (r, d) = (ok1, r1, d1)" "writeConfig env opts cfg (r1, d1) = (ok2, r2, d2)"
    "writeToken opts (r2, d2) = (ok3, r3, d3)" "installService env opts cfg (r3, d3) = (ok4, r4, d4)"
    and r: "(ok, r', d') =
       (if \<not> ok1 then (False, r1, d1) else if \<not> ok2 then (False, r2, d2) else if \<not> ok3 then (False, r3, d3)
        else if \<not> ok4 then (False, r4, d4) else (True, describe env cfg r4, d4))"
  have "Q r1 d1" using assms(2,3) s(1) by blast
  moreover from this have "Q r2 d2" using assms(4) s(2) by blast
  moreover from this have "Q r3 d3" using assms(5) s(3) by blast
  moreover from this have "Q r4 d4" using assms(6) s(4) by blast
  ultimately show "Q r' d'" using r assms(7) by (simp split: if_splits)
qed

lemma carry_out_token:
  "carry_out env opts cfg (r, d) = (ok, r', d') \<Longrightarrow> same_token r r'"
  by (erule carry_out_invariant [where Q = "\<lambda>r' _. same_token r r'"])
    (auto intro: same_token_trans dest: ensureDirs_keeps writeConfig_writes(1) writeToken_writes installService_writes
      simp del: writeConfig.simps writeToken.simps installService.simps)

lemma carry_out_dry:
  assumes "carry_out env opts cfg (r, d) = (ok, r', d')" and "op_DryRun opts"
  shows "dk_files d' = dk_files d \<and> dk_dirs d' = dk_dirs d \<and> dk_ran d' = dk_ran d"
  by (rule carry_out_invariant [OF assms(1), where Q = "\<lambda>_ d'. dk_files d' = dk_files d \<and> dk_dirs d' = dk_dirs d \<and> dk_ran d' = dk_ran d"])
    (use assms(2) in \<open>auto dest: ensureDirs_keeps writeConfig_writes(2,3,5) writeToken_writes installService_writes
      simp del: writeConfig.simps writeToken.simps installService.simps\<close>)

lemma carry_out_keeps_old:
  assumes "carry_out env opts cfg (r, d) = (ok, r', d')"
    and "dk_files d (op_ConfigPath opts) = Some old" "old \<noteq> ''''"
    and "{TokenPath (op_ConfigPath opts), op_UnitPath opts} \<inter> {op_ConfigPath opts, backupPath env opts} = {}"
  shows "dk_files d' (op_ConfigPath opts) = Some old \<or> dk_files d' (backupPath env opts) = Some old"
proof -
  let ?new = "\<lambda>d. dk_files d (backupPath env opts) = Some old"
  show ?thesis
    using assms(1)
  proof (rule carry_out_chain)
    fix ok1 r1 d1 ok2 r2 d2 ok3 r3 d3 ok4 r4 d4
    assume s: "ensureDirs opts cfg (r, d) = (ok1, r1, d1)" "writeConfig env opts cfg (r1, d1) = (ok2, r2, d2)"
      "writeToken opts (r2, d2) = (ok3, r3, d3)" "installService env opts cfg (r3, d3) = (ok4, r4, d4)"
      and r: "(ok, r', d') =
         (if \<not> ok1 then (False, r1, d1) else if \<not> ok2 then (False, r2, d2) else if \<not> ok3 then (False, r3, d3)
          else if \<not> ok4 then (False, r4, d4) else (True, describe env cfg r4, d4))"
    have "dk_files d1 (op_ConfigPath opts) = Some old"
      using ensureDirs_keeps [OF s(1)] assms(2) by simp
    moreover have "dk_files d2 (op_ConfigPath opts) = Some old \<or> ?new d2"
      using writeConfig_writes(6) [OF s(2)] calculation assms(3) by blast
    ultimately show ?thesis
      using r writeToken_writes [OF s(3)] installService_writes [OF s(4)] assms(4) by (auto split: if_splits)
  qed
qed

lemma carry_out_done:
  assumes "carry_out env opts cfg (r, d) = (True, r', d')" and wet: "\<not> op_DryRun opts"
    and "op_ConfigPath opts \<noteq> TokenPath (op_ConfigPath opts)"
    and "op_UnitPath opts \<notin> {op_ConfigPath opts, TokenPath (op_ConfigPath opts)}"
  shows "(\<exists>content. renderConfig env cfg = Some content \<and> dk_files d' (op_ConfigPath opts) = Some content) \<and>
    dk_files d' (TokenPath (op_ConfigPath opts)) = Some (so_Token r @ [CHR ''\<newline>''])"
  using assms(1)
proof (rule carry_out_chain)
  fix ok1 r1 d1 ok2 r2 d2 ok3 r3 d3 ok4 r4 d4
  assume s: "ensureDirs opts cfg (r, d) = (ok1, r1, d1)" "writeConfig env opts cfg (r1, d1) = (ok2, r2, d2)"
    "writeToken opts (r2, d2) = (ok3, r3, d3)" "installService env opts cfg (r3, d3) = (ok4, r4, d4)"
    and r: "(True, r', d') =
       (if \<not> ok1 then (False, r1, d1) else if \<not> ok2 then (False, r2, d2) else if \<not> ok3 then (False, r3, d3)
        else if \<not> ok4 then (False, r4, d4) else (True, describe env cfg r4, d4))"
  have oks: "ok2" "ok3" "d' = d4" using r by (auto split: if_splits)
  have "so_Token r2 = so_Token r"
    using ensureDirs_keeps [OF s(1)] writeConfig_writes(1) [OF s(2)] by (simp add: same_token_def)
  then show ?thesis
    using writeConfig_writes(7) [OF s(2) oks(1) wet] writeToken_writes [OF s(3)] installService_writes [OF s(4)] oks assms(2-4)
    by auto
qed

section \<open>Tokens\<close>

lemma TrimSpace_ends: "TrimSpace s \<noteq> [] \<Longrightarrow> \<not> is_space (hd (TrimSpace s)) \<and> \<not> is_space (last (TrimSpace s))"
proof -
  let ?t = "dropWhile is_space s" and ?u = "dropWhile is_space (rev (dropWhile is_space s))"
  have t: "TrimSpace s = rev ?u" by (simp add: TrimSpace_def)
  assume "TrimSpace s \<noteq> []"
  then have u: "?u \<noteq> []" unfolding t by simp
  then have ne: "?t \<noteq> []" by (metis dropWhile.simps(1) rev.simps(1))
  have "rev ?t = takeWhile is_space (rev ?t) @ ?u" by simp
  then have "?t = rev ?u @ rev (takeWhile is_space (rev ?t))" by (metis rev_append rev_rev_ident)
  then have "hd ?t = hd (TrimSpace s)" using u t by (metis hd_append2 rev_is_Nil_conv)
  then show ?thesis
    using hd_dropWhile [of is_space s] hd_dropWhile [of is_space "rev ?t"] ne u t
    by (simp add: last_rev del: dropWhile_eq_Nil_conv)
qed

lemma TrimSpace_idem [simp]: "TrimSpace (TrimSpace s) = TrimSpace s"
  using TrimSpace_ends [of s] by (cases "TrimSpace s = []") (simp_all add: TrimSpace_no_space, simp add: TrimSpace_def)

lemma TrimSpace_snoc: "is_space c \<Longrightarrow> TrimSpace (s @ [c]) = TrimSpace s"
  by (cases "\<forall>x \<in> set s. is_space x")
    (auto simp: TrimSpace_def dropWhile_append dest: set_dropWhileD)

lemma hex_digit_plain: "n < 16 \<Longrightarrow> \<not> is_space (hex_digit n)"
proof -
  assume "n < 16"
  then have "n \<in> set [0..<16]" by simp
  moreover have "list_all (\<lambda>n. \<not> is_space (hex_digit n)) [0..<16]" by code_simp
  ultimately show ?thesis by (simp add: list_all_iff)
qed

lemma EncodeToString_plain: "x \<in> set (EncodeToString bs) \<Longrightarrow> \<not> is_space x"
proof (induction bs rule: EncodeToString.induct)
  case (2 b bs)
  have "(of_char b :: nat) < 256" by (rule nat_of_char_less_256)
  then have "(of_char b :: nat) div 16 < 16" "(of_char b :: nat) mod 16 < 16"
    by (simp_all add: less_mult_imp_div_less)
  with 2 show ?case using hex_digit_plain by auto
qed simp

lemma GenerateToken_plain: "GenerateToken random = Some token \<Longrightarrow> token \<noteq> [] \<and> TrimSpace token = token"
proof -
  assume "GenerateToken random = Some token"
  then obtain byte where t: "token = EncodeToString (map byte [0..<tokenBytes])" by (auto simp: GenerateToken_def)
  have "map byte [0..<tokenBytes] = byte 0 # map byte [1..<tokenBytes]"
    by (simp add: tokenBytes_def upt_conv_Cons)
  then have ne: "token \<noteq> []" by (simp add: t)
  have "\<not> is_space (hd token)" "\<not> is_space (last token)"
    using EncodeToString_plain hd_in_set [OF ne] last_in_set [OF ne] unfolding t by blast+
  with ne show ?thesis by (simp add: TrimSpace_no_space)
qed

lemma resolveToken_plain:
  assumes "resolveToken env opts cfg d = (Some (token, reused), d')"
  shows "token \<noteq> '''' \<and> TrimSpace token = token" and "dk_files d' = dk_files d"
  using assms GenerateToken_plain
  by (auto simp: resolveToken_def ReadToken_def ReadFile_def dk_called_def Let_def split: if_splits option.splits)

lemma upsertToken_found:
  "\<exists>e. find (\<lambda>e. t_Name e = name) (upsertToken ts name hash) = Some e \<and> t_Hash e = hash"
  by (induction ts) auto

lemma upsertToken_idem [simp]: "upsertToken (upsertToken ts name hash) name hash = upsertToken ts name hash"
  by (induction ts) auto

lemma upsertToken_others: "t \<in> set ts \<Longrightarrow> t_Name t \<noteq> name \<Longrightarrow> t \<in> set (upsertToken ts name hash)"
  by (induction ts) auto

lemma upsertToken_member: "\<exists>e \<in> set (upsertToken ts name hash). t_Name e = name \<and> t_Hash e = hash"
  by (induction ts) auto

lemma tokens_of_Default: "c_Tokens Default = []"
  by (simp add: Default_def)

lemma Load_tokens:
  "Load lib source = Some (Inr cfg) \<Longrightarrow>
     c_Tokens cfg = (case source of None \<Rightarrow> [] | Some decode \<Rightarrow> c_Tokens (the (decode Default)))"
  by (cases source) (auto simp: Load_def Let_def tokens_of_Default neq_Nil_conv split: list.splits)

section \<open>An installation\<close>

lemma Setup_Run_done:
  assumes "Setup_Run env opts d = (True, r, d')"
  obtains cfg0 token reused d1 d2 r1
  where "Load (in_libs env) (map_option (in_decode env) (dk_files d (op_ConfigPath (withDefaults env opts)))) = Some (Inr cfg0)"
    "resolveToken env (withDefaults env opts) (listen_override (withDefaults env opts) cfg0) d1 = (Some (token, reused), d2)"
    "dk_files d1 = dk_files d" "so_Token r1 = token" "so_TokenReused r1 = reused"
    "carry_out env (withDefaults env opts)
       ((listen_override (withDefaults env opts) cfg0)\<lparr>c_Tokens := upsertToken (c_Tokens cfg0)
          (op_TokenName (withDefaults env opts)) (HashToken (in_digest env) token)\<rparr>) (r1, d2) = (True, r, d')"
proof -
  let ?o = "withDefaults env opts"
  from assms obtain cfg0 where l: "Load (in_libs env) (map_option (in_decode env) (dk_files d (op_ConfigPath ?o))) = Some (Inr cfg0)"
    and i: "install env ?o cfg0 (dk_called d) = (True, r, d')"
    by (auto simp: Setup_Run_def ReadFile_def Let_def split: option.splits sum.splits if_splits)
  have t: "c_Tokens (listen_override ?o cfg0) = c_Tokens cfg0" by (simp add: listen_override_def)
  obtain picked d2 where p: "resolveToken env ?o (listen_override ?o cfg0) (dk_called d) = (picked, d2)" by (rule prod.exhaust)
  with i obtain token reused where rt: "picked = Some (token, reused)"
    by (auto simp: install_def Let_def split: option.splits)
  show thesis
    by (rule that [OF l p [unfolded rt]])
      (use i p rt t in \<open>auto simp: install_def Let_def dk_called_def split: if_splits\<close>)
qed

text \<open>
  What is asked of the YAML codec: the tokens of a configuration survive being written and read.
\<close>

definition tokens_survive :: "Installer \<Rightarrow> bool" where
  "tokens_survive env \<longleftrightarrow> (\<forall>cfg content. renderConfig env cfg = Some content \<longrightarrow>
     (\<exists>cfg'. in_decode env content Default = Some cfg' \<and> c_Tokens cfg' = c_Tokens cfg))"

definition separate_files :: "Installer \<Rightarrow> Options \<Rightarrow> bool" where
  "separate_files env opts \<longleftrightarrow>
     distinct [op_ConfigPath opts, TokenPath (op_ConfigPath opts), op_UnitPath opts, backupPath env opts]"

text \<open>The state of the disk after an installation that went well.\<close>

definition installed :: "Installer \<Rightarrow> Options \<Rightarrow> string \<Rightarrow> Token list \<Rightarrow> Disk \<Rightarrow> bool" where
  "installed env opts token tokens d \<longleftrightarrow>
     (\<exists>content cfg. dk_files d (op_ConfigPath opts) = Some content \<and> in_decode env content Default = Some cfg \<and> c_Tokens cfg = tokens) \<and>
     dk_files d (TokenPath (op_ConfigPath opts)) = Some (token @ [CHR ''\<newline>'']) \<and>
     token \<noteq> '''' \<and> TrimSpace token = token"

lemma installed_reads:
  "installed env opts token tokens d \<Longrightarrow> dk_fault d = None \<Longrightarrow> fst (ReadToken (op_ConfigPath opts) d) = Some token"
  by (simp add: installed_def ReadToken_def ReadFile_def TrimSpace_snoc is_space_def)

lemma Setup_Run_installs:
  assumes "Setup_Run env opts d = (True, r, d')" "\<not> op_DryRun opts" "tokens_survive env"
    "separate_files env (withDefaults env opts)"
  obtains cfg0 where
    "Load (in_libs env) (map_option (in_decode env) (dk_files d (op_ConfigPath (withDefaults env opts)))) = Some (Inr cfg0)"
    "installed env (withDefaults env opts) (so_Token r)
       (upsertToken (c_Tokens cfg0) (op_TokenName (withDefaults env opts)) (HashToken (in_digest env) (so_Token r))) d'"
proof (rule Setup_Run_done [OF assms(1)])
  let ?o = "withDefaults env opts"
  fix cfg0 token reused d1 d2 r1
  assume l: "Load (in_libs env) (map_option (in_decode env) (dk_files d (op_ConfigPath ?o))) = Some (Inr cfg0)"
    and p: "resolveToken env ?o (listen_override ?o cfg0) d1 = (Some (token, reused), d2)"
    and r1: "so_Token r1 = token"
    and c: "carry_out env ?o ((listen_override ?o cfg0)\<lparr>c_Tokens := upsertToken (c_Tokens cfg0) (op_TokenName ?o)
          (HashToken (in_digest env) token)\<rparr>) (r1, d2) = (True, r, d')"
  have wet: "\<not> op_DryRun ?o" using assms(2) by (simp add: withDefaults_def Let_def)
  have tok: "so_Token r = token" using carry_out_token [OF c] r1 by (simp add: same_token_def)
  have "installed env ?o token (upsertToken (c_Tokens cfg0) (op_TokenName ?o) (HashToken (in_digest env) token)) d'"
    using carry_out_done [OF c wet] resolveToken_plain(1) [OF p] assms(3,4) r1
    by (fastforce simp: installed_def tokens_survive_def separate_files_def)
  then show thesis using that [OF l] tok by simp
qed

section \<open>Two installations\<close>

text \<open>A fresh node, and the same node with a configuration of the operator's on a disk that fills up.\<close>

definition demo_secret :: string where
  "demo_secret = EncodeToString (replicate 32 (CHR 0x00))"

definition demo_installer :: Installer where
  "demo_installer = \<lparr>
     in_libs = \<lparr>lib_compile = \<lambda>_. None, lib_location = \<lambda>_. None, lib_url = \<lambda>_. None\<rparr>,
     in_decode = \<lambda>text base. Some (if text = config_header @ ''t'' then base\<lparr>c_Tokens :=
        [\<lparr>t_Name = ''admin'', t_Hash = HashToken rev demo_secret, t_Workers = [], t_ReadOnly = False\<rparr>]\<rparr> else base),
     in_encode = \<lambda>cfg. if c_Tokens cfg = [\<lparr>t_Name = ''admin'', t_Hash = HashToken rev demo_secret, t_Workers = [],
        t_ReadOnly = False\<rparr>] then Some ''t'' else None,
     in_digest = rev, in_random = Some (\<lambda>_. CHR 0x00), in_executable = Some ''/usr/bin/processd'', in_resolved = None,
     in_split = \<lambda>_. None, in_duration_text = \<lambda>_. ''45s'', in_stamp = ''20260101T000000Z'',
     in_systemd = True, in_systemctl = \<lambda>_. True\<rparr>"

definition demo_options :: Options where
  "demo_options = \<lparr>op_ConfigPath = '''', op_Listen = '''', op_TokenName = '''', op_Binary = '''', op_UnitPath = '''',
     op_Service = '''', op_InstallUnit = True, op_StartUnit = True, op_Rotate = False, op_DryRun = False\<rparr>"

definition fresh_disk :: Disk where
  "fresh_disk = \<lparr>dk_files = Map.empty, dk_dirs = [], dk_faults = [], dk_ran = []\<rparr>"

definition used_disk :: Disk where
  "used_disk = \<lparr>dk_files = [''/etc/processd/processd.yaml'' \<mapsto> ''listen: here''],
     dk_dirs = [''/etc/processd'', ''/etc/processd/workers.d'', ''/var/lib/processd'', ''/var/log/processd''],
     dk_faults = [None, None, None, None, Some 3], dk_ran = []\<rparr>"

lemma demo_runs: "fst (Setup_Run demo_installer demo_options fresh_disk)"
  by code_simp

lemma demo_runs_again:
  "fst (Setup_Run demo_installer demo_options (snd (snd (Setup_Run demo_installer demo_options fresh_disk))))"
  by code_simp

lemma demo_files: "separate_files demo_installer (withDefaults demo_installer demo_options)"
    "op_ConfigPath (withDefaults demo_installer demo_options) = ''/etc/processd/processd.yaml''"
    "backupPath demo_installer (withDefaults demo_installer demo_options) = ''/etc/processd/processd.yaml.bak-20260101T000000Z''"
  by code_simp+

lemma demo_codec: "tokens_survive demo_installer"
  by (auto simp: tokens_survive_def demo_installer_def renderConfig_def split: if_splits)

lemma demo_outcome:
  obtains r d' where "Setup_Run demo_installer demo_options fresh_disk = (True, r, d')"
  using demo_runs by (metis (full_types) eq_fst_iff prod_cases3)

section \<open>The properties\<close>

lemma authenticate_member:
  assumes "t \<in> set tokens" "t_Hash t = HashToken digest secret" "TrimSpace secret = secret"
  shows "\<exists>t'. authenticate digest tokens (''Bearer '' @ secret) = Some t' \<and> t_Hash t' = t_Hash t"
proof -
  obtain t' where "find (\<lambda>t. HashToken digest secret = t_Hash t) tokens = Some t'"
    using assms(1,2) by (metis (mono_tags, lifting) find_None_iff not_Some_eq)
  moreover from this have "t_Hash t' = HashToken digest secret" by (auto simp: find_Some_iff)
  ultimately show ?thesis using assms by (simp add: authenticate_def HasPrefix_def)
qed

text \<open>
  After a setup that succeeds, the token file and the configuration belong together: the secret in the
  file is the one that was reported, a request that carries it is authenticated by the tokens of the
  configuration the daemon reads back, the named entry holds its digest, and every other token of the
  previous configuration is still there.
\<close>

theorem setup_leaves_a_working_token:
  assumes run: "Setup_Run env opts d = (True, r, d')" and wet: "\<not> op_DryRun opts"
    and codec: "tokens_survive env" and apart: "separate_files env (withDefaults env opts)"
  shows "let o1 = withDefaults env opts; p = op_ConfigPath o1 in
    \<exists>content cfg. dk_files d' p = Some content \<and> in_decode env content Default = Some cfg \<and>
      fst (ReadToken p (d'\<lparr>dk_faults := []\<rparr>)) = Some (so_Token r) \<and>
      (\<exists>t. authenticate (in_digest env) (c_Tokens cfg) (''Bearer '' @ so_Token r) = Some t) \<and>
      (\<exists>t \<in> set (c_Tokens cfg). t_Name t = op_TokenName o1 \<and> t_Hash t = HashToken (in_digest env) (so_Token r)) \<and>
      (\<forall>cfg0 t. Load (in_libs env) (map_option (in_decode env) (dk_files d p)) = Some (Inr cfg0) \<longrightarrow>
         t \<in> set (c_Tokens cfg0) \<longrightarrow> t_Name t \<noteq> op_TokenName o1 \<longrightarrow> t \<in> set (c_Tokens cfg))"
proof (rule Setup_Run_installs [OF run wet codec apart])
  let ?o = "withDefaults env opts" and ?h = "HashToken (in_digest env) (so_Token r)"
  fix cfg0
  assume l: "Load (in_libs env) (map_option (in_decode env) (dk_files d (op_ConfigPath ?o))) = Some (Inr cfg0)"
    and i: "installed env ?o (so_Token r) (upsertToken (c_Tokens cfg0) (op_TokenName ?o) ?h) d'"
  from i obtain content cfg where c: "dk_files d' (op_ConfigPath ?o) = Some content" "in_decode env content Default = Some cfg"
      "c_Tokens cfg = upsertToken (c_Tokens cfg0) (op_TokenName ?o) ?h"
    and plain: "TrimSpace (so_Token r) = so_Token r"
    unfolding installed_def by blast
  obtain t where t: "t \<in> set (c_Tokens cfg)" "t_Name t = op_TokenName ?o" "t_Hash t = ?h"
    using upsertToken_member unfolding c(3) by blast
  have "installed env ?o (so_Token r) (c_Tokens cfg) (d'\<lparr>dk_faults := []\<rparr>)"
    using i unfolding c(3) by (simp add: installed_def)
  from installed_reads [OF this]
  have "fst (ReadToken (op_ConfigPath ?o) (d'\<lparr>dk_faults := []\<rparr>)) = Some (so_Token r)" by (simp add: dk_fault_def)
  moreover have "\<exists>t. authenticate (in_digest env) (c_Tokens cfg) (''Bearer '' @ so_Token r) = Some t"
    using authenticate_member [OF t(1,3) plain] by blast
  ultimately show ?thesis
    unfolding Let_def using c t l upsertToken_others by fastforce
qed

theorem setup_leaves_a_working_token_witness:
  "\<exists>r d' content cfg t. Setup_Run demo_installer demo_options fresh_disk = (True, r, d') \<and>
     dk_files d' ''/etc/processd/processd.yaml'' = Some content \<and> in_decode demo_installer content Default = Some cfg \<and>
     authenticate rev (c_Tokens cfg) (''Bearer '' @ so_Token r) = Some t"
proof (rule demo_outcome)
  fix r d'
  assume run: "Setup_Run demo_installer demo_options fresh_disk = (True, r, d')"
  have "\<not> op_DryRun demo_options" "in_digest demo_installer = rev" by (simp_all add: demo_options_def demo_installer_def)
  with setup_leaves_a_working_token [OF run _ demo_codec demo_files(1)] run show ?thesis
    unfolding Let_def demo_files(2) by fastforce
qed

text \<open>
  C38. Running setup again without asking for a new token gives the same one, says so, and changes neither the
  token file nor a token of the configuration, whatever the other options are and even as a dry run.
\<close>

theorem setup_again_keeps_the_token:
  assumes run: "Setup_Run env opts d = (True, r, d')" and wet: "\<not> op_DryRun opts"
    and codec: "tokens_survive env" and apart: "separate_files env (withDefaults env opts)"
    and again: "Setup_Run env' opts' d' = (True, r', d'')" "\<not> op_Rotate opts'"
    and same: "in_decode env' = in_decode env" "in_encode env' = in_encode env" "in_digest env' = in_digest env"
      "op_ConfigPath (withDefaults env' opts') = op_ConfigPath (withDefaults env opts)"
      "op_TokenName (withDefaults env' opts') = op_TokenName (withDefaults env opts)"
      "separate_files env' (withDefaults env' opts')"
  shows "so_Token r' = so_Token r \<and> so_TokenReused r' \<and>
    (let p = op_ConfigPath (withDefaults env opts) in
     dk_files d'' (TokenPath p) = dk_files d' (TokenPath p) \<and>
     (\<exists>content content' cfg cfg'. dk_files d' p = Some content \<and> in_decode env content Default = Some cfg \<and>
        dk_files d'' p = Some content' \<and> in_decode env content' Default = Some cfg' \<and> c_Tokens cfg' = c_Tokens cfg))"
proof (rule Setup_Run_installs [OF run wet codec apart])
  let ?o = "withDefaults env opts" and ?o' = "withDefaults env' opts'" and ?h = "HashToken (in_digest env) (so_Token r)"
  let ?p = "op_ConfigPath ?o" and ?name = "op_TokenName ?o"
  fix cfg0
  assume i: "installed env ?o (so_Token r) (upsertToken (c_Tokens cfg0) ?name ?h) d'"
  then obtain content cfg where c: "dk_files d' ?p = Some content" "in_decode env content Default = Some cfg"
      "c_Tokens cfg = upsertToken (c_Tokens cfg0) ?name ?h"
    and f: "dk_files d' (TokenPath ?p) = Some (so_Token r @ [CHR ''\<newline>''])"
    and plain: "so_Token r \<noteq> ''''" "TrimSpace (so_Token r) = so_Token r"
    unfolding installed_def by blast
  have codec': "tokens_survive env'"
    using codec same(1,2) by (simp add: tokens_survive_def renderConfig_def)
  show ?thesis
  proof (rule Setup_Run_done [OF again(1)])
    fix cfg1 token reused d1 d2 r1
    assume l: "Load (in_libs env') (map_option (in_decode env') (dk_files d' (op_ConfigPath ?o'))) = Some (Inr cfg1)"
      and p: "resolveToken env' ?o' (listen_override ?o' cfg1) d1 = (Some (token, reused), d2)"
      and d1: "dk_files d1 = dk_files d'" and r1: "so_Token r1 = token" "so_TokenReused r1 = reused"
      and run': "carry_out env' ?o' ((listen_override ?o' cfg1)\<lparr>c_Tokens := upsertToken (c_Tokens cfg1) (op_TokenName ?o')
          (HashToken (in_digest env') token)\<rparr>) (r1, d2) = (True, r', d'')"
    have t1: "c_Tokens cfg1 = c_Tokens cfg"
      using Load_tokens [OF l] c same(1,4) by simp
    then have "tokenMatches (in_digest env') (listen_override ?o' cfg1) ?name (so_Token r)"
      using upsertToken_found [of ?name "c_Tokens cfg0" ?h] c(3) same(3)
      by (auto simp: tokenMatches_def listen_override_def)
    moreover have "\<not> op_Rotate ?o'" using again(2) by (simp add: withDefaults_def Let_def)
    moreover have "ReadToken ?p d1 = (if dk_fault d1 = None then Some (so_Token r) else None, dk_called d1)"
      using f plain(2) d1 by (simp add: ReadToken_def ReadFile_def TrimSpace_snoc is_space_def)
    ultimately have tok: "token = so_Token r" "reused" "dk_files d2 = dk_files d'"
      using p plain(1) d1 same(4,5) by (auto simp: resolveToken_def dk_called_def Let_def split: if_splits)
    have tok': "so_Token r' = so_Token r" "so_TokenReused r'"
      using carry_out_token [OF run'] r1 tok by (simp_all add: same_token_def)
    let ?same = "\<lambda>content' cfg'. dk_files d'' (TokenPath ?p) = dk_files d' (TokenPath ?p) \<and>
      dk_files d'' ?p = Some content' \<and> in_decode env content' Default = Some cfg' \<and> c_Tokens cfg' = c_Tokens cfg"
    have "\<exists>content' cfg'. ?same content' cfg'"
    proof (cases "op_DryRun ?o'")
      case True
      then show ?thesis using carry_out_dry [OF run'] tok(3) c by auto
    next
      case False
      have "c_Tokens cfg = upsertToken (c_Tokens cfg1) ?name (HashToken (in_digest env') token)"
        using t1 c(3) tok(1) same(3) by simp
      moreover obtain content' where w: "renderConfig env' ((listen_override ?o' cfg1)\<lparr>c_Tokens := upsertToken (c_Tokens cfg1)
            (op_TokenName ?o') (HashToken (in_digest env') token)\<rparr>) = Some content'" "dk_files d'' ?p = Some content'"
        "dk_files d'' (TokenPath ?p) = Some (token @ [CHR ''\<newline>''])"
        using carry_out_done [OF run' False] same(4,6) r1(1) by (auto simp: separate_files_def)
      moreover obtain cfg' where "in_decode env content' Default = Some cfg'"
        "c_Tokens cfg' = upsertToken (c_Tokens cfg1) ?name (HashToken (in_digest env') token)"
        using codec' w(1) same(1,5) unfolding tokens_survive_def by fastforce
      ultimately show ?thesis using f tok(1) by auto
    qed
    then show ?thesis using tok' c unfolding Let_def by blast
  qed
qed

theorem setup_again_keeps_the_token_witness:
  "\<exists>r d' r' d''. Setup_Run demo_installer demo_options fresh_disk = (True, r, d') \<and>
     Setup_Run demo_installer demo_options d' = (True, r', d'') \<and> so_Token r' = so_Token r \<and> so_TokenReused r'"
proof (rule demo_outcome)
  fix r d'
  assume run: "Setup_Run demo_installer demo_options fresh_disk = (True, r, d')"
  obtain r' d'' where again: "Setup_Run demo_installer demo_options d' = (True, r', d'')"
    using demo_runs_again run by (metis (full_types) eq_fst_iff prod_cases3 snd_conv)
  have "\<not> op_DryRun demo_options" "\<not> op_Rotate demo_options" by (simp_all add: demo_options_def)
  with setup_again_keeps_the_token [OF run _ demo_codec demo_files(1) again _ refl refl refl refl refl demo_files(1)]
  show ?thesis using run again by blast
qed

text \<open>
  C29. Whatever fails during a setup, and whether or not it reports success, the previous configuration is still
  in its file or, whole, in the copy beside it; and a dry run changes no file, creates no directory and runs
  no command.
\<close>

theorem setup_keeps_the_old_configuration:
  assumes run: "Setup_Run env opts d = (ok, r, d')" and apart: "separate_files env (withDefaults env opts)"
  shows "(\<forall>old. dk_files d (op_ConfigPath (withDefaults env opts)) = Some old \<longrightarrow> old \<noteq> '''' \<longrightarrow>
      dk_files d' (op_ConfigPath (withDefaults env opts)) = Some old \<or>
      dk_files d' (backupPath env (withDefaults env opts)) = Some old) \<and>
    (op_DryRun opts \<longrightarrow> dk_files d' = dk_files d \<and> dk_dirs d' = dk_dirs d \<and> dk_ran d' = dk_ran d)"
proof -
  let ?o = "withDefaults env opts"
  have same: "dk_files d1 = dk_files d \<and> dk_dirs d1 = dk_dirs d \<and> dk_ran d1 = dk_ran d"
    if "resolveToken env ?o cfg (dk_called d) = (x, d1)" for cfg x d1
    using that by (auto simp: resolveToken_def ReadToken_def ReadFile_def dk_called_def Let_def split: if_splits option.splits)
  consider "dk_files d' = dk_files d" "dk_dirs d' = dk_dirs d" "dk_ran d' = dk_ran d"
    | cfg r1 d1 where "carry_out env ?o cfg (r1, d1) = (ok, r, d')" "dk_files d1 = dk_files d" "dk_dirs d1 = dk_dirs d"
        "dk_ran d1 = dk_ran d"
  proof -
    assume unchanged: "dk_files d' = dk_files d \<Longrightarrow> dk_dirs d' = dk_dirs d \<Longrightarrow> dk_ran d' = dk_ran d \<Longrightarrow> thesis"
      and carried: "\<And>cfg r1 d1. carry_out env ?o cfg (r1, d1) = (ok, r, d') \<Longrightarrow> dk_files d1 = dk_files d \<Longrightarrow>
        dk_dirs d1 = dk_dirs d \<Longrightarrow> dk_ran d1 = dk_ran d \<Longrightarrow> thesis"
    show thesis
    proof (cases "\<exists>cfg0. Load (in_libs env) (map_option (in_decode env) (dk_files d (op_ConfigPath ?o))) = Some (Inr cfg0) \<and>
        dk_fault d = None")
      case False
      then have "d' = dk_called d"
        using run by (auto simp: Setup_Run_def ReadFile_def Let_def split: option.splits sum.splits if_splits)
      then show thesis using unchanged by (simp add: dk_called_def)
    next
      case True
      then obtain cfg0 where i: "install env ?o cfg0 (dk_called d) = (ok, r, d')"
        using run by (auto simp: Setup_Run_def ReadFile_def Let_def)
      obtain picked d2 where p: "resolveToken env ?o (listen_override ?o cfg0) (dk_called d) = (picked, d2)" by (rule prod.exhaust)
      show thesis
        using i p same [OF p] unchanged carried
        by (auto simp: install_def Let_def split: option.splits if_splits)
    qed
  qed
  then show ?thesis
  proof cases
    case 2
    have "op_DryRun ?o = op_DryRun opts" by (simp add: withDefaults_def Let_def)
    then show ?thesis
      using carry_out_keeps_old [OF 2(1)] carry_out_dry [OF 2(1)] 2 apart by (auto simp: separate_files_def)
  qed auto
qed

theorem setup_keeps_the_old_configuration_witness:
  "\<exists>r d'. Setup_Run demo_installer demo_options used_disk = (False, r, d') \<and>
     dk_files d' ''/etc/processd/processd.yaml'' = Some ''# W'' \<and>
     dk_files d' ''/etc/processd/processd.yaml.bak-20260101T000000Z'' = Some ''listen: here''"
proof -
  have run: "\<not> fst (Setup_Run demo_installer demo_options used_disk) \<and>
      dk_files (snd (snd (Setup_Run demo_installer demo_options used_disk))) ''/etc/processd/processd.yaml'' = Some ''# W''"
    by code_simp
  obtain ok r d' where eq: "Setup_Run demo_installer demo_options used_disk = (ok, r, d')" by (rule prod_cases3)
  have old: "dk_files used_disk ''/etc/processd/processd.yaml'' = Some ''listen: here''" by (simp add: used_disk_def)
  from setup_keeps_the_old_configuration [OF eq demo_files(1)] run old eq show ?thesis
    unfolding demo_files by fastforce
qed

end
