(* ===== verification/RestartProps.thy ===== *)
theory RestartProps
  imports Restart
begin

text \<open>
  A restart never stops what it could not bring back, never creates a replacement beside an execution that
  still runs, creates at most one, and ends.
\<close>

section \<open>What is said in a restart\<close>

definition ask_process :: "client \<Rightarrow> restartOptions \<Rightarrow> HttpReq" where
  "ask_process cl opts = request_to cl ''GET'' (nodePath (ro_node opts) (process_path (ro_id opts))) None"

definition ask_workers :: "client \<Rightarrow> restartOptions \<Rightarrow> HttpReq" where
  "ask_workers cl opts = request_to cl ''GET'' (nodePath (ro_node opts) ''/v1/workers'') None"

definition ask_stop :: "client \<Rightarrow> restartOptions \<Rightarrow> HttpReq" where
  "ask_stop cl opts = request_to cl ''DELETE'' (nodePath (ro_node opts) (with_query (process_path (ro_id opts))
     (if ro_grace opts = '''' then [] else [(''grace'', ro_grace opts)]))) None"

definition ask_create :: "Json \<Rightarrow> client \<Rightarrow> restartOptions \<Rightarrow> processSummary \<Rightarrow> HttpReq" where
  "ask_create js cl opts current = request_to cl ''POST'' (nodePath (ro_node opts) ''/v1/processes'')
     (Some (js_replacement js (replacement_of current opts)))"

definition shown :: "Json \<Rightarrow> (string \<Rightarrow> 'a option) \<Rightarrow> exchange \<Rightarrow> cli_err + 'a" where
  "shown js decode x = decoded decode (answer_of (js_error js) (snd x))"

text \<open>An exchange that tells the execution is over, and one that is told there is no slot.\<close>

definition tells_over :: "Json \<Rightarrow> exchange \<Rightarrow> bool" where
  "tells_over js x \<longleftrightarrow> (case shown js (js_process js) x of Inr p \<Rightarrow> IsTerminal (sm_Status p) | Inl _ \<Rightarrow> False)"

definition no_slot :: "Json \<Rightarrow> exchange \<Rightarrow> bool" where
  "no_slot js x \<longleftrightarrow> (case shown js (js_created js) x of Inl e \<Rightarrow> hasCode e ''no_capacity'' | Inr _ \<Rightarrow> False)"

lemma do_call_said:
  "do_call peer errors cl method p body (said, w) = (r, t) \<Longrightarrow>
     \<exists>resp w'. t = (said @ [(request_to cl method p body, resp)], w') \<and> r = answer_of errors resp \<and>
       pe_call peer (request_to cl method p body) w = (resp, w')"
  by (auto simp: do_call_def exchange_with_def split: prod.splits)

lemma getProcess_said:
  "getProcess_call peer js cl (ro_node opts) (ro_id opts) (said, w) = (r, t) \<Longrightarrow>
     \<exists>resp w'. t = (said @ [(ask_process cl opts, resp)], w') \<and> r = shown js (js_process js) (ask_process cl opts, resp) \<and>
       w' = snd (pe_call peer (ask_process cl opts) w)"
  by (auto simp: getProcess_call_def ask_process_def shown_def split: prod.splits dest!: do_call_said)

lemma awaitSettled_said:
  "awaitSettled fuel peer js cl (ro_node opts) (ro_id opts) deadline (said, w) = Some (e, xs, w') \<Longrightarrow>
     \<exists>polls. xs = said @ polls \<and> (\<forall>x \<in> set polls. fst x = ask_process cl opts) \<and>
       (e = None \<longrightarrow> polls \<noteq> [] \<and> tells_over js (last polls))"
proof (induction fuel arbitrary: said w)
  case (Suc fuel)
  obtain resp w1 where g: "getProcess_call peer js cl (ro_node opts) (ro_id opts) (said, w) =
      (shown js (js_process js) (ask_process cl opts, resp), said @ [(ask_process cl opts, resp)], w1)"
    using getProcess_said by (metis prod.exhaust)
  let ?x = "(ask_process cl opts, resp)"
  obtain ok w2 where s: "pe_sleep peer restartPoll w1 = (ok, w2)" by (rule prod.exhaust)
  consider "xs = said @ [?x]" "e \<noteq> None" | "xs = said @ [?x]" "tells_over js ?x"
    | "awaitSettled fuel peer js cl (ro_node opts) (ro_id opts) deadline (said @ [?x], w2) = Some (e, xs, w')"
    using Suc.prems g s by (auto simp: tells_over_def split: sum.splits if_splits bool.splits)
  then show ?case
  proof cases
    case 3
    from Suc.IH [OF this] obtain polls where "xs = said @ [?x] @ polls" "\<forall>x \<in> set polls. fst x = ask_process cl opts"
      "e = None \<longrightarrow> polls \<noteq> [] \<and> tells_over js (last polls)" by auto
    then show ?thesis by (intro exI [of _ "?x # polls"]) auto
  qed auto
qed simp

lemma createReplacement_said:
  "createReplacement fuel peer js cl current opts deadline (said, w) = Some (r, xs, w') \<Longrightarrow>
     \<exists>posts. xs = said @ posts \<and> posts \<noteq> [] \<and> (\<forall>x \<in> set posts. fst x = ask_create js cl opts current) \<and>
       (\<forall>x \<in> set (butlast posts). no_slot js x) \<and>
       (\<forall>created. r = Inr created \<longleftrightarrow> shown js (js_created js) (last posts) = Inr created)"
proof (induction fuel arbitrary: said w)
  case (Suc fuel)
  obtain resp w1 where c: "do_call peer (js_error js) cl ''POST'' (nodePath (ro_node opts) ''/v1/processes'')
      (Some (js_replacement js (replacement_of current opts))) (said, w) =
      (answer_of (js_error js) resp, said @ [(ask_create js cl opts current, resp)], w1)"
    unfolding ask_create_def by (metis do_call_said prod.exhaust)
  let ?x = "(ask_create js cl opts current, resp)"
  obtain ok w2 where s: "pe_sleep peer restartPoll w1 = (ok, w2)" by (rule prod.exhaust)
  consider "xs = said @ [?x]" "\<forall>created. r = Inr created \<longleftrightarrow> shown js (js_created js) ?x = Inr created"
    | "createReplacement fuel peer js cl current opts deadline (said @ [?x], w2) = Some (r, xs, w')" "no_slot js ?x"
  proof (cases "decoded (js_created js) (answer_of (js_error js) resp)")
    case (Inl e)
    then have "no_slot js ?x = hasCode e ''no_capacity''" "\<forall>created. shown js (js_created js) ?x \<noteq> Inr created"
      by (simp_all add: no_slot_def shown_def)
    moreover have "(if \<not> hasCode e ''no_capacity'' \<or> \<not> pe_now peer w1 < deadline then Some (Inl e, said @ [?x], w1)
        else if ok then createReplacement fuel peer js cl current opts deadline (said @ [?x], w2)
        else Some (Inl Interrupted, said @ [?x], w2)) = Some (r, xs, w')"
      using Suc.prems c s Inl by (auto split: bool.splits if_splits)
    ultimately show ?thesis using that by (auto split: if_splits)
  next
    case (Inr created)
    then have "shown js (js_created js) ?x = Inr created" by (simp add: shown_def)
    moreover have "r = Inr created \<and> xs = said @ [?x]" using Suc.prems c Inr by simp
    ultimately show ?thesis using that(1) by simp
  qed
  then show ?case
  proof cases
    case 2
    from Suc.IH [OF this(1)] obtain posts where "xs = said @ [?x] @ posts" "posts \<noteq> []"
      "\<forall>x \<in> set posts. fst x = ask_create js cl opts current" "\<forall>x \<in> set (butlast posts). no_slot js x"
      "\<forall>created. r = Inr created \<longleftrightarrow> shown js (js_created js) (last posts) = Inr created" by auto
    then show ?thesis using 2(2) by (intro exI [of _ "?x # posts"]) auto
  qed auto
qed simp

lemma replace_said:
  "replace_with fuel peer js cl current opts deadline st (said, w) = Some (stopped, r, xs, w') \<Longrightarrow>
     \<exists>posts. xs = said @ posts \<and> posts \<noteq> [] \<and> (\<forall>x \<in> set posts. fst x = ask_create js cl opts current) \<and>
       (\<forall>x \<in> set (butlast posts). no_slot js x) \<and>
       (\<forall>created. r = Inr created \<longleftrightarrow> shown js (js_created js) (last posts) = Inr created)"
  by (auto simp: replace_with_def dest!: createReplacement_said)

lemma stop_said:
  "stopForRestart peer js cl opts (said, w) = (e, t) \<Longrightarrow> \<exists>resp w'. t = (said @ [(ask_stop cl opts, resp)], w')"
  by (auto simp: stopForRestart_def ask_stop_def Let_def split: prod.splits sum.splits if_splits dest!: do_call_said)

lemma stop_and_create_said:
  assumes "stop_and_create fuel peer js cl current opts (said, w) = Some (stopped, result, xs, w')"
  shows "\<exists>stops polls posts. xs = said @ stops @ polls @ posts \<and> (\<forall>x \<in> set polls. fst x = ask_process cl opts) \<and>
    (stops = [] \<or> map fst stops = [ask_stop cl opts]) \<and> (polls \<noteq> [] \<longrightarrow> stops \<noteq> []) \<and>
    (stops \<noteq> [] \<longleftrightarrow> \<not> IsTerminal (sm_Status current)) \<and>
    (\<forall>x \<in> set posts. fst x = ask_create js cl opts current) \<and>
    (posts \<noteq> [] \<longrightarrow> (if polls = [] then IsTerminal (sm_Status current) else tells_over js (last polls))) \<and>
    (\<forall>x \<in> set (butlast posts). no_slot js x) \<and>
    (\<forall>created. result = Inr created \<longleftrightarrow> posts \<noteq> [] \<and> shown js (js_created js) (last posts) = Inr created)"
  (is "\<exists>stops polls posts. ?P stops polls posts")
proof (cases "IsTerminal (sm_Status current)")
  case True
  then have "replace_with fuel peer js cl current opts (pe_now peer w + ro_wait opts) False (said, w) = Some (stopped, result, xs, w')"
    using assms by (simp add: stop_and_create_def)
  from replace_said [OF this] obtain posts where "?P [] [] posts" using True by auto
  then show ?thesis by (intro exI)
next
  case False
  let ?deadline = "pe_now peer w + ro_wait opts"
  obtain e resp w1 where s: "stopForRestart peer js cl opts (said, w) = (e, said @ [(ask_stop cl opts, resp)], w1)"
    using stop_said by (metis prod.exhaust)
  let ?z = "(ask_stop cl opts, resp)"
  show ?thesis
  proof (cases e)
    case (Some err)
    then have "result = Inl err \<and> xs = said @ [?z]" using assms s False by (simp add: stop_and_create_def)
    then have "?P [?z] [] []" using False by simp
    then show ?thesis by (intro exI)
  next
    case None
    have "awaitSettled fuel peer js cl (ro_node opts) (ro_id opts) ?deadline (said @ [?z], w1) \<noteq> None"
      using assms s False None by (intro notI) (simp add: stop_and_create_def)
    then obtain e2 ys w2 where a: "awaitSettled fuel peer js cl (ro_node opts) (ro_id opts) ?deadline (said @ [?z], w1) = Some (e2, ys, w2)"
      by (metis option.exhaust prod_cases3)
    from awaitSettled_said [OF this] obtain polls where polls: "ys = said @ [?z] @ polls"
      "\<forall>x \<in> set polls. fst x = ask_process cl opts" "e2 = None \<longrightarrow> polls \<noteq> [] \<and> tells_over js (last polls)" by auto
    show ?thesis
    proof (cases e2)
      case (Some err)
      then have "result = Inl err \<and> xs = ys" using assms s False None a by (simp add: stop_and_create_def)
      then have "?P [?z] polls []" using False polls by simp
      then show ?thesis by (intro exI)
    next
      case none: None
      then have "replace_with fuel peer js cl current opts ?deadline True (ys, w2) = Some (stopped, result, xs, w')"
        using assms s False None a by (simp add: stop_and_create_def)
      from replace_said [OF this] obtain posts where "?P [?z] polls posts" using polls none False by auto
      then show ?thesis by (intro exI)
    qed
  qed
qed

section \<open>How long it takes\<close>

declare awaitSettled.simps [simp del] createReplacement.simps [simp del]

definition clock_moves :: "'s Peer \<Rightarrow> bool" where
  "clock_moves peer \<longleftrightarrow> (\<forall>q w. pe_now peer w \<le> pe_now peer (snd (pe_call peer q w))) \<and>
     (\<forall>d w. fst (pe_sleep peer d w) \<longrightarrow> pe_now peer w + d \<le> pe_now peer (snd (pe_sleep peer d w)))"

lemma do_call_clock:
  "clock_moves peer \<Longrightarrow> do_call peer errors cl method p body (said, w) = (r, said', w') \<Longrightarrow>
     pe_now peer w \<le> pe_now peer w' \<and> length said' = Suc (length said)"
  by (drule do_call_said) (metis Pair_inject clock_moves_def length_append_singleton snd_conv)

lemma getProcess_clock:
  assumes "clock_moves peer" "getProcess_call peer js cl node pid (said, w) = (r, said', w')"
  shows "pe_now peer w \<le> pe_now peer w' \<and> length said' = Suc (length said)"
proof -
  obtain r1 where "do_call peer (js_error js) cl ''GET'' (nodePath node (process_path pid)) None (said, w) = (r1, said', w')"
    using assms(2) by (auto simp: getProcess_call_def split: prod.splits)
  then show ?thesis by (rule do_call_clock [OF assms(1)])
qed

lemma slept:
  "clock_moves peer \<Longrightarrow> pe_sleep peer d w = (True, w') \<Longrightarrow> pe_now peer w + d \<le> pe_now peer w'"
  by (metis clock_moves_def fst_conv snd_conv)

lemma awaitSettled_ends:
  assumes clock: "clock_moves peer"
  shows "deadline - pe_now peer w \<le> int k * restartPoll \<Longrightarrow> k < fuel \<Longrightarrow>
    \<exists>e xs w' m. awaitSettled fuel peer js cl node pid deadline (said, w) = Some (e, xs, w') \<and>
      length xs = length said + m \<and> 1 \<le> m \<and> m \<le> Suc k \<and>
      (e = None \<longrightarrow> deadline - pe_now peer w' \<le> int (Suc k - m) * restartPoll)"
proof (induction fuel arbitrary: k said w)
  case (Suc fuel)
  obtain r said1 w1 where g: "getProcess_call peer js cl node pid (said, w) = (r, said1, w1)" by (rule prod_cases3)
  note c = getProcess_clock [OF clock g]
  obtain ok w2 where s: "pe_sleep peer restartPoll w1 = (ok, w2)" by (rule prod.exhaust)
  have eq: "awaitSettled (Suc fuel) peer js cl node pid deadline (said, w) =
      (case r of
         Inl e \<Rightarrow> Some (Some e, said1, w1)
       | Inr current \<Rightarrow>
           if IsTerminal (sm_Status current) then Some (None, said1, w1)
           else if \<not> pe_now peer w1 < deadline then Some (Some (Declined ''not settled''), said1, w1)
           else if ok then awaitSettled fuel peer js cl node pid deadline (said1, w2) else Some (Some Interrupted, said1, w2))"
    by (simp add: awaitSettled.simps g s cong: if_cong split: sum.splits bool.splits)
  have "(\<exists>e. awaitSettled (Suc fuel) peer js cl node pid deadline (said, w) = Some (e, said1, w1)) \<or>
      awaitSettled (Suc fuel) peer js cl node pid deadline (said, w) = Some (Some Interrupted, said1, w2) \<or>
      awaitSettled (Suc fuel) peer js cl node pid deadline (said, w) = awaitSettled fuel peer js cl node pid deadline (said1, w2) \<and>
        ok \<and> pe_now peer w1 < deadline"
    unfolding eq by (cases r) simp_all
  then consider (fin) e where "awaitSettled (Suc fuel) peer js cl node pid deadline (said, w) = Some (e, said1, w1)"
    | (cut) "awaitSettled (Suc fuel) peer js cl node pid deadline (said, w) = Some (Some Interrupted, said1, w2)"
    | (again) "awaitSettled (Suc fuel) peer js cl node pid deadline (said, w) = awaitSettled fuel peer js cl node pid deadline (said1, w2)"
        "ok" "pe_now peer w1 < deadline"
    by blast
  then show ?case
  proof cases
    case fin
    then show ?thesis using c Suc.prems(1) by (intro exI [of _ 1] exI) auto
  next
    case cut
    then show ?thesis using c by (intro exI [of _ 1] exI) auto
  next
    case again
    have pos: "0 < restartPoll" by (simp add: restartPoll_def millisecond_def)
    have "0 < int k * restartPoll" using again(3) c Suc.prems(1) by linarith
    then obtain k' where k: "k = Suc k'" using pos by (cases k) auto
    have "pe_now peer w1 + restartPoll \<le> pe_now peer w2" using slept [OF clock] s again(2) by simp
    then have "deadline - pe_now peer w2 \<le> int k' * restartPoll"
      using c Suc.prems(1) by (simp add: k algebra_simps)
    from Suc.IH [OF this, of said1] Suc.prems(2) k obtain e xs w' m where
      "awaitSettled fuel peer js cl node pid deadline (said1, w2) = Some (e, xs, w')"
      "length xs = length said1 + m" "1 \<le> m" "m \<le> Suc k'"
      "e = None \<longrightarrow> deadline - pe_now peer w' \<le> int (Suc k' - m) * restartPoll" by auto
    then show ?thesis using again(1) c k by (intro exI [of _ "Suc m"] exI) auto
  qed
qed simp

lemma createReplacement_ends:
  assumes clock: "clock_moves peer"
  shows "deadline - pe_now peer w \<le> int k * restartPoll \<Longrightarrow> k < fuel \<Longrightarrow>
    \<exists>r xs w'. createReplacement fuel peer js cl current opts deadline (said, w) = Some (r, xs, w') \<and>
      length xs \<le> length said + Suc k"
proof (induction fuel arbitrary: k said w)
  case (Suc fuel)
  obtain r said1 w1 where g: "do_call peer (js_error js) cl ''POST'' (nodePath (ro_node opts) ''/v1/processes'')
      (Some (js_replacement js (replacement_of current opts))) (said, w) = (r, said1, w1)" by (rule prod_cases3)
  note c = do_call_clock [OF clock g]
  obtain ok w2 where s: "pe_sleep peer restartPoll w1 = (ok, w2)" by (rule prod.exhaust)
  have eq: "createReplacement (Suc fuel) peer js cl current opts deadline (said, w) =
      (case decoded (js_created js) r of
         Inr created \<Rightarrow> Some (Inr created, said1, w1)
       | Inl e \<Rightarrow>
           if \<not> hasCode e ''no_capacity'' \<or> \<not> pe_now peer w1 < deadline then Some (Inl e, said1, w1)
           else if ok then createReplacement fuel peer js cl current opts deadline (said1, w2)
           else Some (Inl Interrupted, said1, w2))"
    by (simp add: createReplacement.simps g s cong: if_cong split: sum.splits bool.splits)
  have "(\<exists>r' w'. createReplacement (Suc fuel) peer js cl current opts deadline (said, w) = Some (r', said1, w')) \<or>
      createReplacement (Suc fuel) peer js cl current opts deadline (said, w) =
        createReplacement fuel peer js cl current opts deadline (said1, w2) \<and> ok \<and> pe_now peer w1 < deadline"
    unfolding eq by (cases "decoded (js_created js) r") simp_all
  then consider (fin) r' w' where "createReplacement (Suc fuel) peer js cl current opts deadline (said, w) = Some (r', said1, w')"
    | (again) "createReplacement (Suc fuel) peer js cl current opts deadline (said, w) =
          createReplacement fuel peer js cl current opts deadline (said1, w2)" "ok" "pe_now peer w1 < deadline"
    by blast
  then show ?case
  proof cases
    case fin
    then show ?thesis using c by auto
  next
    case again
    have pos: "0 < restartPoll" by (simp add: restartPoll_def millisecond_def)
    have "0 < int k * restartPoll" using again(3) c Suc.prems(1) by linarith
    then obtain k' where k: "k = Suc k'" using pos by (cases k) auto
    have "pe_now peer w1 + restartPoll \<le> pe_now peer w2" using slept [OF clock] s again(2) by simp
    then have "deadline - pe_now peer w2 \<le> int k' * restartPoll"
      using c Suc.prems(1) by (simp add: k algebra_simps)
    from Suc.IH [OF this, of said1] Suc.prems(2) k c again(1) show ?thesis by auto
  qed
qed simp

lemma stop_and_create_ends:
  assumes clock: "clock_moves peer" and wait: "ro_wait opts \<le> int n * restartPoll"
  shows "\<exists>stopped result xs w'. stop_and_create (Suc n) peer js cl current opts (said, w) = Some (stopped, result, xs, w') \<and>
    length xs \<le> length said + (n + 3)"
proof (cases "IsTerminal (sm_Status current)")
  case True
  from createReplacement_ends [OF clock, of "pe_now peer w + ro_wait opts" w n "Suc n" js cl current opts said] wait
  show ?thesis using True by (auto simp: stop_and_create_def replace_with_def)
next
  case False
  let ?deadline = "pe_now peer w + ro_wait opts"
  obtain e said1 w1 where s: "stopForRestart peer js cl opts (said, w) = (e, said1, w1)" by (rule prod_cases3)
  have c: "pe_now peer w \<le> pe_now peer w1" "length said1 = Suc (length said)"
    using s do_call_clock [OF clock] by (auto simp: stopForRestart_def Let_def split: prod.splits sum.splits if_splits)
  show ?thesis
  proof (cases e)
    case (Some err)
    then show ?thesis using s False c by (auto simp: stop_and_create_def)
  next
    case None
    from awaitSettled_ends [OF clock, of ?deadline w1 n "Suc n" js cl "ro_node opts" "ro_id opts" said1] c(1) wait
    obtain e2 xs w2 m where a: "awaitSettled (Suc n) peer js cl (ro_node opts) (ro_id opts) ?deadline (said1, w1) = Some (e2, xs, w2)"
      "length xs = length said1 + m" "1 \<le> m" "m \<le> Suc n"
      "e2 = None \<longrightarrow> ?deadline - pe_now peer w2 \<le> int (Suc n - m) * restartPoll" by auto
    show ?thesis
    proof (cases e2)
      case (Some err)
      then have "stop_and_create (Suc n) peer js cl current opts (said, w) = Some (False, Inl err, xs, w2)"
        using s False None a(1) by (simp add: stop_and_create_def)
      moreover have "length xs \<le> length said + (n + 3)" using a c by simp
      ultimately show ?thesis by blast
    next
      case none: None
      with a(5) have "?deadline - pe_now peer w2 \<le> int (Suc n - m) * restartPoll" by simp
      from createReplacement_ends [OF clock this, of "Suc n" js cl current opts xs] a(3)
      obtain r ys w' where "createReplacement (Suc n) peer js cl current opts ?deadline (xs, w2) = Some (r, ys, w')"
        "length ys \<le> length xs + Suc (Suc n - m)" by auto
      then have "stop_and_create (Suc n) peer js cl current opts (said, w) = Some (True, r, ys, w') \<and> length ys \<le> length said + (n + 3)"
        using s False None none a c by (simp add: stop_and_create_def replace_with_def)
      then show ?thesis by blast
    qed
  qed
qed

section \<open>A scripted daemon\<close>

text \<open>Its world is the answers it has left to give and the clock.\<close>

definition scripted :: "(HttpResp list \<times> int) Peer" where
  "scripted = \<lparr>
     pe_call = \<lambda>q (rs, now). case rs of [] \<Rightarrow> (None, [], now) | r # rs \<Rightarrow> (Some r, rs, now),
     pe_now = snd, pe_sleep = \<lambda>d (rs, now). (True, rs, now + d)\<rparr>"

definition script_json :: Json where
  "script_json = \<lparr>
     js_error = \<lambda>s. if s = ''full'' then Some (''no_capacity'', '''') else None,
     js_process = \<lambda>s. Some \<lparr>sm_Worker = ''w'', sm_Type = ''service'',
       sm_Status = (if s = ''over'' then StateCompleted else StateRunning), sm_Metadata = []\<rparr>,
     js_workers = \<lambda>_. Some [(''w'', True)],
     js_created = \<lambda>s. Some \<lparr>cp_ID = s, cp_Status = ''RUNNING'', cp_PID = None\<rparr>,
     js_replacement = \<lambda>r. rp_worker r\<rparr>"

definition script_options :: restartOptions where
  "script_options = \<lparr>ro_id = ''p1'', ro_node = '''', ro_grace = '''', ro_params = [], ro_wait = second\<rparr>"

definition script_client :: client where
  "script_client = \<lparr>cl_baseURL = ''http://n'', cl_token = ''t''\<rparr>"

definition script :: "HttpResp list" where
  "script = map (\<lambda>(s, b). \<lparr>hp_Status = s, hp_Body = b\<rparr>)
     [(200, ''running''), (200, ''''), (202, ''''), (200, ''running''), (200, ''over''), (409, ''full''), (201, ''p2'')]"

lemma scripted_clock: "clock_moves scripted"
  by (auto simp: clock_moves_def scripted_def split: list.splits)

lemma scripted_restart:
  "\<exists>xs w'. restartExecution 5 scripted script_json script_client script_options ([], script, 0) =
     Some (True, Inr \<lparr>cp_ID = ''p2'', cp_Status = ''RUNNING'', cp_PID = None\<rparr>, xs, w')"
proof -
  have "map_option (\<lambda>(stopped, r, _). (stopped, r)) (restartExecution 5 scripted script_json script_client script_options ([], script, 0)) =
      Some (True, Inr \<lparr>cp_ID = ''p2'', cp_Status = ''RUNNING'', cp_PID = None\<rparr>)"
    by code_simp
  then show ?thesis by auto
qed

section \<open>The properties\<close>

lemma restart_said:
  assumes "restartExecution fuel peer js cl opts ([], w) = Some (stopped, result, xs, w')"
  shows "\<exists>reads stops polls posts. xs = reads @ stops @ polls @ posts \<and>
    map fst reads = take (length reads) [ask_process cl opts, ask_workers cl opts] \<and> reads \<noteq> [] \<and>
    (\<forall>x \<in> set polls. fst x = ask_process cl opts) \<and>
    (stops = [] \<or> map fst stops = [ask_stop cl opts]) \<and> (polls \<noteq> [] \<longrightarrow> stops \<noteq> []) \<and>
    (stops \<noteq> [] \<or> posts \<noteq> [] \<longrightarrow> (\<exists>current ws. length reads = 2 \<and>
       shown js (js_process js) (reads ! 0) = Inr current \<and> sm_Worker current \<noteq> '''' \<and>
       shown js (js_workers js) (reads ! 1) = Inr ws \<and> map_of ws (sm_Worker current) = Some True \<and>
       (stops \<noteq> [] \<longleftrightarrow> \<not> IsTerminal (sm_Status current)) \<and>
       (\<forall>x \<in> set posts. fst x = ask_create js cl opts current))) \<and>
    (posts \<noteq> [] \<longrightarrow> tells_over js (last (reads ! 0 # polls))) \<and>
    (\<forall>x \<in> set (butlast posts). no_slot js x) \<and>
    (\<forall>created. result = Inr created \<longleftrightarrow> posts \<noteq> [] \<and> shown js (js_created js) (last posts) = Inr created)"
  (is "\<exists>reads stops polls posts. ?P reads stops polls posts")
proof -
  obtain resp w1 where g: "getProcess_call peer js cl (ro_node opts) (ro_id opts) ([], w) =
      (shown js (js_process js) (ask_process cl opts, resp), [(ask_process cl opts, resp)], w1)"
    using getProcess_said by (metis append_Nil prod.exhaust)
  let ?x = "(ask_process cl opts, resp)"
  have early: ?thesis if "xs = [?x]" "\<forall>created. result \<noteq> Inr created"
  proof -
    have "?P [?x] [] [] []" using that by simp
    then show ?thesis by (intro exI)
  qed
  show ?thesis
  proof (cases "\<exists>current. shown js (js_process js) ?x = Inr current \<and> sm_Worker current \<noteq> ''''")
    case False
    then have "xs = [?x] \<and> (\<forall>created. result \<noteq> Inr created)"
      using assms g by (auto simp: restartExecution_def split: sum.splits if_splits)
    then show ?thesis by (intro early) auto
  next
    case True
    then obtain current where current: "shown js (js_process js) ?x = Inr current" "sm_Worker current \<noteq> ''''" by blast
    obtain resp2 w2 where k: "do_call peer (js_error js) cl ''GET'' (nodePath (ro_node opts) ''/v1/workers'') None ([?x], w1) =
        (answer_of (js_error js) resp2, [?x, (ask_workers cl opts, resp2)], w2)"
      unfolding ask_workers_def using do_call_said by (metis append_Cons append_Nil prod.exhaust)
    let ?y = "(ask_workers cl opts, resp2)"
    show ?thesis
    proof (cases "\<exists>ws. shown js (js_workers js) ?y = Inr ws \<and> map_of ws (sm_Worker current) = Some True")
      case False
      then have "xs = [?x, ?y] \<and> (\<forall>created. result \<noteq> Inr created)"
        using assms g k current
        by (auto simp: restartExecution_def checkWorker_def shown_def Let_def split: sum.splits option.splits if_splits)
      then have "?P [?x, ?y] [] [] []" by simp
      then show ?thesis by (intro exI)
    next
      case True
      then obtain ws where ws: "shown js (js_workers js) ?y = Inr ws" "map_of ws (sm_Worker current) = Some True" by blast
      then have c: "checkWorker peer js cl (ro_node opts) (sm_Worker current) ([?x], w1) = (None, [?x, ?y], w2)"
        using k by (simp add: checkWorker_def shown_def)
      then have "stop_and_create fuel peer js cl current opts ([?x, ?y], w2) = Some (stopped, result, xs, w')"
        using assms g current by (simp add: restartExecution_def)
      from stop_and_create_said [OF this] obtain stops polls posts where *: "xs = [?x, ?y] @ stops @ polls @ posts"
        "\<forall>x \<in> set polls. fst x = ask_process cl opts" "stops = [] \<or> map fst stops = [ask_stop cl opts]"
        "polls \<noteq> [] \<longrightarrow> stops \<noteq> []" "stops \<noteq> [] \<longleftrightarrow> \<not> IsTerminal (sm_Status current)"
        "\<forall>x \<in> set posts. fst x = ask_create js cl opts current"
        "posts \<noteq> [] \<longrightarrow> (if polls = [] then IsTerminal (sm_Status current) else tells_over js (last polls))"
        "\<forall>x \<in> set (butlast posts). no_slot js x"
        "\<forall>created. result = Inr created \<longleftrightarrow> posts \<noteq> [] \<and> shown js (js_created js) (last posts) = Inr created"
        by (elim exE conjE) (rule that)
      have "IsTerminal (sm_Status current) \<Longrightarrow> tells_over js ?x" using current by (simp add: tells_over_def)
      with * current ws have "?P [?x, ?y] stops polls posts" by auto
      then show ?thesis by (intro exI)
    qed
  qed
qed

lemma restart_total:
  assumes "clock_moves peer" and "ro_wait opts \<le> int n * restartPoll"
  shows "\<exists>stopped result xs w'. restartExecution (Suc n) peer js cl opts ([], w) = Some (stopped, result, xs, w') \<and>
    length xs \<le> n + 5"
proof -
  obtain r said1 w1 where g: "getProcess_call peer js cl (ro_node opts) (ro_id opts) ([], w) = (r, said1, w1)" by (rule prod_cases3)
  have l1: "length said1 = 1" using getProcess_clock [OF assms(1) g] by simp
  show ?thesis
  proof (cases "\<exists>current. r = Inr current \<and> sm_Worker current \<noteq> ''''")
    case False
    then show ?thesis using g l1 by (cases r) (auto simp: restartExecution_def)
  next
    case True
    then obtain current where r: "r = Inr current" "sm_Worker current \<noteq> ''''" by blast
    obtain e said2 w2 where c: "checkWorker peer js cl (ro_node opts) (sm_Worker current) (said1, w1) = (e, said2, w2)"
      by (rule prod_cases3)
    have l2: "length said2 = 2"
      using c do_call_clock [OF assms(1)] l1 by (auto simp: checkWorker_def split: prod.splits)
    show ?thesis
    proof (cases e)
      case (Some err)
      then show ?thesis using g r c l2 by (auto simp: restartExecution_def)
    next
      case None
      have "\<exists>stopped result xs w'. stop_and_create (Suc n) peer js cl current opts (said2, w2) = Some (stopped, result, xs, w') \<and>
          length xs \<le> length said2 + (n + 3)"
        by (rule stop_and_create_ends [OF assms])
      then show ?thesis using g r c None l2 by (simp add: restartExecution_def add.commute)
    qed
  qed
qed

text \<open>
  C15. What a restart says to the daemon, whatever the daemon answers. It reads the execution and the workers
  first; it asks for a stop, or creates, only if the execution came from a worker that is loaded and enabled,
  and asks for a stop only, and at most once, if it had not ended. It creates only after the last answer
  about the execution told that it is over. Every creation asks for the same worker, type and metadata, and is
  repeated only when the daemon had no slot for it. It reports success exactly when it created and the answer
  to the last creation is one, and then reports that answer. This is said of every run that ends within its
  fuel; one does, with one unit more than the polls that fit in the wait, when the clock moves on.
\<close>

theorem restart_order:
  "(clock_moves peer \<and> ro_wait opts \<le> int n * restartPoll \<longrightarrow>
      (\<exists>answer. restartExecution (Suc n) peer js cl opts ([], w) = Some answer)) \<and>
   (\<forall>fuel stopped result xs w'. restartExecution fuel peer js cl opts ([], w) = Some (stopped, result, xs, w') \<longrightarrow>
     (\<exists>reads stops polls posts. xs = reads @ stops @ polls @ posts \<and>
    map fst reads = take (length reads) [ask_process cl opts, ask_workers cl opts] \<and> reads \<noteq> [] \<and>
    (\<forall>x \<in> set polls. fst x = ask_process cl opts) \<and>
    (stops = [] \<or> map fst stops = [ask_stop cl opts]) \<and> (polls \<noteq> [] \<longrightarrow> stops \<noteq> []) \<and>
    (stops \<noteq> [] \<or> posts \<noteq> [] \<longrightarrow> (\<exists>current ws. length reads = 2 \<and>
       shown js (js_process js) (reads ! 0) = Inr current \<and> sm_Worker current \<noteq> '''' \<and>
       shown js (js_workers js) (reads ! 1) = Inr ws \<and> map_of ws (sm_Worker current) = Some True \<and>
       (stops \<noteq> [] \<longleftrightarrow> \<not> IsTerminal (sm_Status current)) \<and>
       (\<forall>x \<in> set posts. fst x = ask_create js cl opts current))) \<and>
    (posts \<noteq> [] \<longrightarrow> tells_over js (last (reads ! 0 # polls))) \<and>
    (\<forall>x \<in> set (butlast posts). no_slot js x) \<and>
    (\<forall>created. result = Inr created \<longleftrightarrow> posts \<noteq> [] \<and> shown js (js_created js) (last posts) = Inr created)))"
  using restart_total [of peer opts n] restart_said [of fuel peer js cl opts w for fuel] by blast

theorem restart_order_witness:
  "\<exists>xs w' posts. restartExecution 5 scripted script_json script_client script_options ([], script, 0) =
     Some (True, Inr \<lparr>cp_ID = ''p2'', cp_Status = ''RUNNING'', cp_PID = None\<rparr>, xs, w') \<and> posts \<noteq> [] \<and>
     shown script_json (js_created script_json) (last posts) = Inr \<lparr>cp_ID = ''p2'', cp_Status = ''RUNNING'', cp_PID = None\<rparr>"
proof -
  obtain xs w' where run: "restartExecution 5 scripted script_json script_client script_options ([], script, 0) =
     Some (True, Inr \<lparr>cp_ID = ''p2'', cp_Status = ''RUNNING'', cp_PID = None\<rparr>, xs, w')"
    using scripted_restart by blast
  let ?result = "Inr \<lparr>cp_ID = ''p2'', cp_Status = ''RUNNING'', cp_PID = None\<rparr> :: cli_err + createdProcess"
  have "\<exists>posts. \<forall>created. ?result = Inr created \<longleftrightarrow>
      posts \<noteq> [] \<and> shown script_json (js_created script_json) (last posts) = Inr created"
    using restart_order [THEN conjunct2, rule_format, OF run] by (elim exE conjE) (rule exI)
  then show ?thesis using run by auto
qed

text \<open>
  C40. A restart ends. When the clock does not go back over a call and moves on over a sleep, a fuel of one more
  than the polls that fit in the time it may wait is enough, and it says at most four things more than
  that: two reads, a stop, and the last poll and the first creation that the deadline no longer bounds.
\<close>

theorem restart_ends:
  assumes "clock_moves peer" and "ro_wait opts \<le> int n * restartPoll"
  shows "\<exists>stopped result xs w'. restartExecution (Suc n) peer js cl opts ([], w) = Some (stopped, result, xs, w') \<and>
    length xs \<le> n + 5"
  by (rule restart_total [OF assms])

theorem restart_ends_witness:
  "\<exists>stopped result xs w'. restartExecution (Suc 4) scripted script_json script_client script_options ([], script, 0) =
     Some (stopped, result, xs, w') \<and> length xs \<le> 4 + 5"
  by (rule restart_ends [OF scripted_clock]) (simp add: script_options_def restartPoll_def second_def millisecond_def)

end
