(* ===== verification/CliProps.thy ===== *)
theory CliProps
  imports CliCommands SetupProps RestartProps
begin

text \<open>
  The command line and the daemon together: a path escaped by a command is the path a node matches, what the
  daemon streams is what the user reads, and a node that was set up accepts its own command line.
\<close>

section \<open>Escaping\<close>

lemma of_char_parts: "(of_char c :: nat) div 16 < 16" "(of_char c :: nat) mod 16 < 16"
  using nat_of_char_less_256 [of c] by (simp_all add: less_mult_imp_div_less)

lemma hex_val_upper: "n < 16 \<Longrightarrow> hex_val (upper_hex n) = Some n"
proof -
  assume "n < 16"
  then have "n \<in> set [0..<16]" by simp
  moreover have "list_all (\<lambda>n. hex_val (upper_hex n) = Some n) [0..<16]" by code_simp
  ultimately show ?thesis by (simp add: list_all_iff)
qed

lemma unescape_percent: "unescape (percent c @ s) = map_option ((#) c) (unescape s)"
proof -
  have "16 * ((of_char c :: nat) div 16) + of_char c mod 16 = of_char c" by simp
  then show ?thesis by (simp add: percent_def hex_val_upper of_char_parts del: mult_div_mod_eq)
qed

lemma plain_not_percent: "is_unreserved c \<or> c \<in> set ''$&+:=@'' \<Longrightarrow> c \<noteq> CHR ''%''"
  by (auto simp: is_unreserved_def Let_def)

lemma unescape_PathEscape: "unescape (PathEscape s) = Some s"
proof (induction s)
  case (Cons c s)
  have "PathEscape (c # s) = (if is_unreserved c \<or> c \<in> set ''$&+:=@'' then [c] else percent c) @ PathEscape s"
    by (simp add: PathEscape_def)
  then show ?case
    using Cons plain_not_percent [of c] by (auto simp: unescape_percent simp del: set_simps)
qed (simp add: PathEscape_def)

lemma upper_hex_plain: "n < 16 \<Longrightarrow> upper_hex n \<noteq> CHR ''/''"
proof -
  assume "n < 16"
  then have "n \<in> set [0..<16]" by simp
  moreover have "list_all (\<lambda>n. upper_hex n \<noteq> CHR ''/'' \<and> CHR ''/'' \<noteq> upper_hex n) [0..<16]" by code_simp
  ultimately show ?thesis by (simp add: list_all_iff)
qed

lemma escaped_no_slash: "CHR ''/'' \<notin> set (if is_unreserved c \<or> c \<in> set ''$&+:=@'' then [c] else percent c)"
proof (cases "c = CHR ''/''")
  case True
  then show ?thesis
    using upper_hex_plain [of 2] upper_hex_plain [of 15] by (simp add: is_unreserved_def percent_def)
next
  case False
  moreover have "CHR ''/'' \<notin> set (percent c)"
    by (simp add: percent_def) (metis of_char_parts upper_hex_plain)
  ultimately show ?thesis by (simp del: set_simps, simp)
qed

lemma PathEscape_no_slash: "CHR ''/'' \<notin> set (PathEscape s)"
  unfolding PathEscape_def set_concat set_map using escaped_no_slash by blast

lemma PathEscape_inj: "PathEscape s = t \<Longrightarrow> unescape t = Some s"
  using unescape_PathEscape by blast

lemma PathEscape_special:
  "s \<noteq> '''' \<Longrightarrow> PathEscape s \<noteq> ''''" "s \<noteq> ''.'' \<Longrightarrow> PathEscape s \<noteq> ''.''" "s \<noteq> ''..'' \<Longrightarrow> PathEscape s \<noteq> ''..''"
  using PathEscape_inj by fastforce+

section \<open>A path through the hub\<close>

text \<open>The segments of a path, as the routes take them, and what may follow the id of an execution.\<close>

definition segments_of :: "string \<Rightarrow> string list" where
  "segments_of p = tl (Split p (CHR ''/''))"

definition process_suffixes :: "string list" where
  "process_suffixes = ['''', ''/signal'', ''/logs'', ''/logs/stream'']"

definition plain_segment :: "string \<Rightarrow> bool" where
  "plain_segment s \<longleftrightarrow> s \<notin> {'''', ''.'', ''..''} \<and> CHR ''/'' \<notin> set s"

lemma Split_segment: "CHR ''/'' \<notin> set s \<Longrightarrow> Split (s @ CHR ''/'' # rest) (CHR ''/'') = s # Split rest (CHR ''/'')"
  by (simp add: Split_append_sep Split_no_sep)

lemma Split_suffix:
  assumes "CHR ''/'' \<notin> set s" "suffix \<in> set process_suffixes"
  shows "Split (s @ suffix) (CHR ''/'') = s # tl (Split suffix (CHR ''/''))"
  using assms by (auto simp: process_suffixes_def Split_segment Split_no_sep)

lemma segments_of_process:
  "suffix \<in> set process_suffixes \<Longrightarrow>
     segments_of (process_path pid @ suffix) = [''v1'', ''processes'', PathEscape pid] @ tl (Split suffix (CHR ''/''))"
  by (simp add: segments_of_def process_path_def Split_suffix PathEscape_no_slash)

lemma segments_of_node:
  "node \<noteq> '''' \<Longrightarrow> suffix \<in> set process_suffixes \<Longrightarrow>
     segments_of (nodePath node (process_path pid @ suffix)) =
       [''v1'', ''fleet'', ''nodes'', PathEscape node, ''processes'', PathEscape pid] @ tl (Split suffix (CHR ''/''))"
  by (simp add: segments_of_def nodePath_def process_path_def TrimPrefix_def HasPrefix_def Split_segment Split_suffix PathEscape_no_slash)

lemma url_path_suffix:
  "suffix \<in> set process_suffixes \<Longrightarrow> url_path (tl (Split suffix (CHR ''/''))) = Some suffix"
  by (auto simp: process_suffixes_def)

lemma url_path_process:
  "suffix \<in> set process_suffixes \<Longrightarrow>
     url_path ([''processes'', PathEscape pid] @ tl (Split suffix (CHR ''/''))) = Some (''/processes/'' @ pid @ suffix)"
  by (simp add: unescape_PathEscape url_path_suffix)

lemma TargetPath_process:
  assumes "plain_segment pid" "suffix \<in> set process_suffixes"
  shows "TargetPath (''processes/'' @ pid @ suffix) = Some (''/v1/processes/'' @ pid @ suffix)"
proof -
  have "Split (pid @ suffix) (CHR ''/'') = pid # tl (Split suffix (CHR ''/''))"
    using assms by (intro Split_suffix) (auto simp: plain_segment_def)
  then have "path_Clean (''/v1/processes/'' @ pid @ suffix) = ''/v1/processes/'' @ pid @ suffix"
    using assms by (auto simp: path_Clean_def HasPrefix_def plain_segment_def process_suffixes_def Let_def)
  then show ?thesis by (simp add: TargetPath_def TrimPrefix_def HasPrefix_def)
qed

lemma canonical_node:
  assumes "node \<notin> {'''', ''.'', ''..''}" "plain_segment pid" "suffix \<in> set process_suffixes"
  shows "canonical (segments_of (nodePath node (process_path pid @ suffix)))" "canonical (segments_of (process_path pid @ suffix))"
  using assms PathEscape_special [of node] PathEscape_special [of pid]
  by (auto simp: segments_of_node segments_of_process canonical_def plain_segment_def process_suffixes_def)

text \<open>The paths the commands ask for, before the flag is looked at.\<close>

definition command_paths :: "string \<Rightarrow> string list" where
  "command_paths pid = [''/v1/workers'', ''/v1/processes''] @ map (\<lambda>suffix. process_path pid @ suffix) process_suffixes"

lemma segments_of_node_path:
  assumes "node \<noteq> ''''" "p \<in> set (command_paths pid)"
  shows "segments_of p = ''v1'' # tl (segments_of p)" "tl (segments_of p) \<noteq> []" "p = ''/v1'' @ drop 3 p"
    "segments_of (nodePath node p) = [''v1'', ''fleet'', ''nodes'', PathEscape node] @ tl (segments_of p)"
  using assms
  by (auto simp: command_paths_def segments_of_process segments_of_node, auto simp: segments_of_def nodePath_def TrimPrefix_def
      HasPrefix_def Split_segment PathEscape_no_slash process_path_def)

lemma url_path_command:
  assumes "p \<in> set (command_paths pid)"
  shows "\<exists>tail. url_path (tl (segments_of p)) = Some (CHR ''/'' # tail) \<and> url_path (segments_of p) = Some (''/v1/'' @ tail)"
proof (cases "p \<in> {''/v1/workers'', ''/v1/processes''}")
  case True
  then show ?thesis by (auto simp: segments_of_def)
next
  case False
  then obtain suffix where s: "suffix \<in> set process_suffixes" "p = process_path pid @ suffix"
    using assms by (auto simp: command_paths_def)
  show ?thesis
    using url_path_process [OF s(1), of pid] unfolding s(2) segments_of_process [OF s(1)] by auto
qed

lemma TargetPath_command:
  assumes "plain_segment pid" "p \<in> set (command_paths pid)" "url_path (segments_of p) = Some (''/v1/'' @ tail)"
  shows "TargetPath tail = Some (''/v1/'' @ tail)"
proof (cases "p \<in> {''/v1/workers'', ''/v1/processes''}")
  case True
  then show ?thesis
    using assms(3)
    by (auto simp: segments_of_def TargetPath_def TrimPrefix_def HasPrefix_def path_Clean_def Let_def)
next
  case False
  then obtain suffix where s: "suffix \<in> set process_suffixes" "p = process_path pid @ suffix"
    using assms(2) by (auto simp: command_paths_def)
  have "tail = ''processes/'' @ pid @ suffix"
    using assms(3) url_path_process [OF s(1), of pid] unfolding s(2) segments_of_process [OF s(1)] by simp
  then show ?thesis using TargetPath_process [OF assms(1) s(1)] by simp
qed

text \<open>
  C39. The \<open>--node\<close> flag. Take a node of any name but ".", ".." and "/", a path that one of the commands asks for
  (the workers, the executions, or an execution, its signal, logs and stream, whose id is one segment and
  not empty or dots). The hub routes the path built for the node to its proxy with exactly that name, and forwards the
  path that the command would have used on the node itself; escaping loses nothing on the way. For the three
  other names, which the configuration accepts, no handler gets the path. Without the flag the path is routed to the handler of
  the execution with exactly that id.
\<close>

theorem node_flag_reaches_the_node:
  assumes "node \<noteq> ''''" "plain_segment pid" "p \<in> set (command_paths pid)" and "m \<in> {''GET'', ''POST'', ''DELETE''}"
  shows "\<exists>tail. route_of True ui m (segments_of (nodePath node p)) =
        (if node \<in> {''.'', ''..'', ''/''} then None else Some (RouteProxy, [node, tail])) \<and>
      TargetPath tail = url_path (segments_of p) \<and> url_path (segments_of p) \<noteq> None \<and>
      route_of hub ui ''GET'' (segments_of (nodePath '''' (process_path pid))) = Some (RouteGet, [pid])"
proof -
  obtain tail where tail: "url_path (tl (segments_of p)) = Some (CHR ''/'' # tail)" "url_path (segments_of p) = Some (''/v1/'' @ tail)"
    using url_path_command [OF assms(3)] by auto
  note segs = segments_of_node_path [OF assms(1,3)]
  obtain x xs where rest: "tl (segments_of p) = x # xs" using segs(2) by (cases "tl (segments_of p)") auto
  have clean: "canonical (''v1'' # x # xs)"
  proof (cases "p \<in> {''/v1/workers'', ''/v1/processes''}")
    case True
    then have "segments_of p \<in> {[''v1'', ''workers''], [''v1'', ''processes'']}" by (auto simp: segments_of_def)
    then show ?thesis using rest by (auto simp: canonical_def)
  next
    case False
    then obtain suffix where "suffix \<in> set process_suffixes" "p = process_path pid @ suffix"
      using assms(3) by (auto simp: command_paths_def)
    then have "canonical (segments_of p)" using canonical_node(2) [of "''n''" pid suffix] assms(2) by simp
    then show ?thesis using segs(1) rest by simp
  qed
  have node: "PathEscape node \<noteq> ''''" "unescape (PathEscape node) = Some node"
    using assms(1) PathEscape_special(1) [of node] unescape_PathEscape by auto
  have "route_of True ui m (segments_of (nodePath node p)) =
      (if node \<in> {''.'', ''..'', ''/''} then None else Some (RouteProxy, [node, tail]))"
  proof (cases "node \<in> {''.'', ''..''}")
    case True
    then have "PathEscape node = node" by (auto simp: PathEscape_def is_unreserved_def)
    then show ?thesis using True unfolding segs(4) by (auto simp: route_of_def canonical_def)
  next
    case False
    then have "canonical (segments_of (nodePath node p))"
      using clean node(1) PathEscape_special(2,3) [of node] unfolding segs(4) rest by (auto simp: canonical_def)
    then show ?thesis
      using False assms(4) node tail(1) unfolding route_of_def segs(4) rest
      by (auto simp: routes_def process_routes_def mountFleet_def state_routes_def mountUI_def method_matches_def
          simp del: url_path.simps)
  qed
  moreover have "TargetPath tail = url_path (segments_of p)" "url_path (segments_of p) \<noteq> None"
    using TargetPath_command [OF assms(2,3) tail(2)] tail(2) by simp_all
  moreover have "route_of hub ui ''GET'' (segments_of (nodePath '''' (process_path pid))) = Some (RouteGet, [pid])"
  proof -
    have "'''' \<in> set process_suffixes" by (simp add: process_suffixes_def)
    from segments_of_process [OF this, of pid] canonical_node(2) [OF _ assms(2) this, of "''n''"]
    show ?thesis
      using PathEscape_special(1) [of pid] assms(2)
      by (auto simp: nodePath_def route_of_def routes_def process_routes_def method_matches_def unescape_PathEscape plain_segment_def)
  qed
  ultimately show ?thesis by blast
qed

theorem node_flag_reaches_the_node_witness:
  "\<exists>tail. route_of True False ''GET'' (segments_of (nodePath ''a b/c'' (process_path ''p1'' @ ''/logs''))) = Some (RouteProxy, [''a b/c'', tail]) \<and>
     TargetPath tail = Some ''/v1/processes/p1/logs''"
proof -
  have "process_path ''p1'' @ ''/logs'' \<in> set (command_paths ''p1'')" by (simp add: command_paths_def process_suffixes_def)
  moreover have "url_path (segments_of (process_path ''p1'' @ ''/logs'')) = Some ''/v1/processes/p1/logs''"
    by (simp add: process_path_def PathEscape_def is_unreserved_def segments_of_def)
  ultimately show ?thesis
    using node_flag_reaches_the_node [of "''a b/c''" "''p1''" "process_path ''p1'' @ ''/logs''" "''GET''" False False]
    by (auto simp: plain_segment_def)
qed

section \<open>A stream on the wire\<close>

abbreviation nl :: char where "nl \<equiv> CHR ''\<newline>''"

text \<open>The frame of an event, as \<^verbatim>\<open>writeEvent\<close> and the heartbeat write it; \<open>enc\<close> is the JSON of its payload.\<close>

definition event_name :: "event \<Rightarrow> string" where
  "event_name e = (case e of LineEvent _ _ \<Rightarrow> ''line'' | EndEvent _ _ _ \<Rightarrow> ''end'' | KeepAlive \<Rightarrow> '''')"

definition wire :: "(event \<Rightarrow> string) \<Rightarrow> event \<Rightarrow> string" where
  "wire enc e =
     (if e = KeepAlive then '': keep-alive'' @ [nl, nl]
      else ''event: '' @ event_name e @ [nl] @ ''data: '' @ enc e @ [nl, nl])"

text \<open>What the user is to see of an event, and whether it fits the buffer of the client.\<close>

definition printed_of :: "event \<Rightarrow> printed list" where
  "printed_of e =
     (case e of
        LineEvent stream line \<Rightarrow> [if Stream_text stream = ''stderr'' then ErrLine line else OutLine line]
      | EndEvent attempt status truncated \<Rightarrow>
          (if truncated then [dropped_notice] else []) @ [ErrLine (''attempt '' @ Itoa attempt @ '' ended: '' @ status)]
      | KeepAlive \<Rightarrow> [])"

definition fits :: "(event \<Rightarrow> string) \<Rightarrow> event \<Rightarrow> bool" where
  "fits enc e \<longleftrightarrow> e = KeepAlive \<or> length (enc e) + 6 < maxEventBytes"

text \<open>JSON: one line without control characters, that decodes to what was encoded.\<close>

definition reads_back :: "Texts \<Rightarrow> (event \<Rightarrow> string) \<Rightarrow> event \<Rightarrow> bool" where
  "reads_back tx enc e \<longleftrightarrow> enc e \<noteq> '''' \<and> nl \<notin> set (enc e) \<and> CHR 0x0D \<notin> set (enc e) \<and>
     (case e of
        LineEvent stream line \<Rightarrow> tx_line tx (enc e) = Some (Stream_text stream, line)
      | EndEvent attempt status truncated \<Rightarrow> tx_end tx (enc e) = Some (attempt, status, truncated)
      | KeepAlive \<Rightarrow> True)"

definition frame :: "(event \<Rightarrow> string) \<Rightarrow> event \<Rightarrow> string list" where
  "frame enc e =
     (if e = KeepAlive then ['': keep-alive'', ''''] else [''event: '' @ event_name e, ''data: '' @ enc e, ''''])"

lemma event_name_plain: "nl \<notin> set (event_name e)" "CHR 0x0D \<notin> set (event_name e)" "length (event_name e) < 5"
  by (cases e; simp add: event_name_def)+

lemma Split_wire:
  assumes "nl \<notin> set (enc e)"
  shows "Split (wire enc e @ rest) nl = frame enc e @ Split rest nl"
proof (cases "e = KeepAlive")
  case True
  then show ?thesis by (simp add: wire_def frame_def)
next
  case False
  have cut: "Split (x @ nl # y) nl = x # Split y nl" if "nl \<notin> set x" for x y
    using that by (simp add: Split_append_sep Split_no_sep)
  have "Split (''event: '' @ event_name e @ nl # ''data: '' @ enc e @ nl # nl # rest) nl =
      (''event: '' @ event_name e) # (''data: '' @ enc e) # [] # Split rest nl"
    using cut [of "''event: '' @ event_name e"] cut [of "''data: '' @ enc e"] event_name_plain(1) [of e] assms by simp
  then show ?thesis using False by (simp add: wire_def frame_def)
qed

lemma Split_wires:
  "\<forall>e \<in> set es. nl \<notin> set (enc e) \<Longrightarrow> Split (concat (map (wire enc) es)) nl = concat (map (frame enc) es) @ [[]]"
  by (induction es) (simp_all add: Split_wire)

lemma scan_lines_ended:
  "scan_lines limit (ls @ [[]]) = (map dropCR (takeWhile (\<lambda>l. length l < limit) ls), \<forall>l \<in> set ls. length l < limit)"
proof (induction ls)
  case (Cons l ls)
  have "\<exists>m ms. ls @ [[]] = m # ms" by (cases ls) auto
  then obtain m ms where ms: "ls @ [[]] = m # ms" by blast
  then have "scan_lines limit ((l # ls) @ [[]]) =
      (if length l < limit then (case scan_lines limit (ls @ [[]]) of (found, ok) \<Rightarrow> (dropCR l # found, ok)) else ([], False))"
    by simp
  then show ?case using Cons.IH by auto
qed simp

lemma dropCR_plain: "CHR 0x0D \<notin> set l \<Longrightarrow> dropCR l = l"
  by (metis dropCR_def last_in_set)

lemma frame_plain: "reads_back tx enc e \<Longrightarrow> map dropCR (frame enc e) = frame enc e"
  using event_name_plain(2) [of e] by (auto simp: frame_def reads_back_def intro!: dropCR_plain)

lemma read_frame:
  assumes "reads_back tx enc e"
  shows "read_lines (follow_event tx) (frame enc e @ rest) \<lparr>ss_event = '''', ss_data = ''''\<rparr> out =
    read_lines (follow_event tx) rest \<lparr>ss_event = '''', ss_data = ''''\<rparr> (out @ printed_of e)"
proof (cases e)
  case (LineEvent stream line)
  then show ?thesis
    using assms by (simp add: frame_def event_name_def HasPrefix_def TrimPrefix_def reads_back_def follow_event_def printed_of_def)
next
  case (EndEvent attempt status truncated)
  then show ?thesis
    using assms by (simp add: frame_def event_name_def HasPrefix_def TrimPrefix_def reads_back_def follow_event_def printed_of_def)
next
  case KeepAlive
  then show ?thesis by (simp add: frame_def HasPrefix_def printed_of_def)
qed

lemma read_frames:
  "\<forall>e \<in> set es. reads_back tx enc e \<Longrightarrow>
     read_lines (follow_event tx) (concat (map (frame enc) es) @ rest) \<lparr>ss_event = '''', ss_data = ''''\<rparr> out =
     read_lines (follow_event tx) rest \<lparr>ss_event = '''', ss_data = ''''\<rparr> (out @ concat (map printed_of es))"
  by (induction es arbitrary: out) (simp_all add: read_frame)

lemma frame_fits: "(\<forall>l \<in> set (frame enc e). length l < maxEventBytes) \<longleftrightarrow> fits enc e"
  using event_name_plain(3) [of e] by (auto simp: frame_def fits_def maxEventBytes_def)

lemma frames_fit: "(\<forall>l \<in> set (concat (map (frame enc) es)). length l < maxEventBytes) \<longleftrightarrow> (\<forall>e \<in> set es. fits enc e)"
  by (induction es) (simp_all add: ball_Un frame_fits)

text \<open>Up to an event that does not fit, and its name.\<close>

lemma frames_cut:
  assumes "\<not> fits enc e" "\<forall>x \<in> set before. fits enc x"
  shows "takeWhile (\<lambda>l. length l < maxEventBytes) (concat (map (frame enc) (before @ e # later))) =
    concat (map (frame enc) before) @ [''event: '' @ event_name e]"
proof -
  let ?fit = "\<lambda>l. length l < maxEventBytes" and ?x = "concat (map (frame enc) before)"
    and ?y = "frame enc e @ concat (map (frame enc) later)"
  have "takeWhile ?fit (?x @ ?y) = ?x @ takeWhile ?fit ?y"
    by (rule takeWhile_append2) (use frames_fit assms(2) in blast)
  moreover have "takeWhile ?fit ?y = [''event: '' @ event_name e]"
    using assms(1) event_name_plain(3) [of e] by (auto simp: frame_def fits_def maxEventBytes_def)
  ultimately show ?thesis by simp
qed

text \<open>
  C28. What the daemon streams is what \<open>logs --follow\<close> prints. The client reads the text of any sequence of events,
  heartbeats between them, and prints each line once, in order, on the stream it was captured from, and
  the end of the attempt; except that an event whose line is a mebibyte or longer on the wire ends the command
  with an error, after everything before it has been printed.
\<close>

theorem followed_stream_is_printed:
  assumes "\<forall>e \<in> set es. reads_back tx enc e"
  shows "readEvents (follow_event tx) (concat (map (wire enc) es)) [] =
    (\<forall>e \<in> set es. fits enc e, concat (map printed_of (takeWhile (fits enc) es)))"
proof -
  let ?short = "\<lambda>l. length l < maxEventBytes" and ?ls = "concat (map (frame enc) es)" and ?zero = "\<lparr>ss_event = '''', ss_data = ''''\<rparr>"
  have plain: "map dropCR (takeWhile ?short ?ls) = takeWhile ?short ?ls"
  proof -
    have "map dropCR ?ls = ?ls" using assms frame_plain by (induction es) auto
    then show ?thesis by (metis map_append append_eq_append_conv length_map takeWhile_dropWhile_id)
  qed
  have scan: "scan_lines maxEventBytes (Split (concat (map (wire enc) es)) nl) = (takeWhile ?short ?ls, \<forall>e \<in> set es. fits enc e)"
    using assms by (simp add: Split_wires reads_back_def scan_lines_ended plain frames_fit [simplified])
  show ?thesis
  proof (cases "\<forall>e \<in> set es. fits enc e")
    case True
    then have all: "takeWhile ?short ?ls = ?ls" "takeWhile (fits enc) es = es"
      using frames_fit [of enc es] by (auto simp only: takeWhile_eq_all_conv)
    show ?thesis
      unfolding readEvents_def scan all using True read_frames [OF assms, of "[]" "[]"] by simp
  next
    case False
    then obtain before e later where es: "es = before @ e # later" "\<not> fits enc e" "\<forall>x \<in> set before. fits enc x"
      using split_list_first_prop [of es "\<lambda>e. \<not> fits enc e"] by auto
    have cut: "takeWhile ?short ?ls = concat (map (frame enc) before) @ [''event: '' @ event_name e]"
      unfolding es(1) by (rule frames_cut [OF es(2,3)])
    have all: "takeWhile (fits enc) es = before" using es by (simp add: takeWhile_append2)
    have "read_lines (follow_event tx) [''event: '' @ event_name e] ?zero out = (True, out)" for out
      by (simp add: HasPrefix_def)
    then show ?thesis
      unfolding readEvents_def scan cut all using False read_frames [of before tx enc "[''event: '' @ event_name e]" "[]"] assms es(1) by simp
  qed
qed

text \<open>A line, a heartbeat, a line on the other stream, and the end.\<close>

definition demo_events :: "event list" where
  "demo_events = [LineEvent StreamStdout ''a'', KeepAlive, LineEvent StreamStderr ''b'', EndEvent 1 ''COMPLETED'' False]"

definition demo_json :: "event \<Rightarrow> string" where
  "demo_json e = (case e of LineEvent s l \<Rightarrow> Stream_text s @ '':'' @ l | EndEvent _ status _ \<Rightarrow> status | KeepAlive \<Rightarrow> ''-'')"

definition demo_texts :: "Texts \<Rightarrow> Texts" where
  "demo_texts tx = tx\<lparr>tx_line := \<lambda>s. (case Cut s (CHR '':'') of (stream, line, _) \<Rightarrow> Some (stream, line)),
     tx_end := \<lambda>s. Some (1, s, False)\<rparr>"

theorem followed_stream_is_printed_witness:
  "\<exists>tx. readEvents (follow_event tx) (concat (map (wire demo_json) demo_events)) [] =
     (True, [OutLine ''a'', ErrLine ''b'', ErrLine ''attempt 1 ended: COMPLETED''])"
proof -
  define tx where "tx = demo_texts undefined"
  have "\<forall>e \<in> set demo_events. reads_back tx demo_json e"
    by (simp add: tx_def demo_texts_def demo_events_def demo_json_def reads_back_def)
  note followed_stream_is_printed [OF this]
  moreover have "\<forall>e \<in> set demo_events. fits demo_json e"
    by (simp add: demo_events_def demo_json_def fits_def maxEventBytes_def)
  moreover have "concat (map printed_of demo_events) = [OutLine ''a'', ErrLine ''b'', ErrLine ''attempt 1 ended: COMPLETED'']"
    by code_simp
  ultimately show ?thesis by (auto simp: takeWhile_eq_all_conv [THEN iffD2])
qed

section \<open>A node and its own command line\<close>

text \<open>
  C21. A node that was set up accepts its own command line. After a setup that succeeds, a command on the node that is
  given no token takes the one of the token file, which is the one that was reported; every request it makes
  carries it, and the tokens of the configuration the daemon reads back authenticate it: the named entry holds
  its digest, and every other token of the previous configuration is still there.
\<close>

theorem installed_node_accepts_its_command_line:
  assumes run: "Setup_Run env opts d = (True, r, d')" and wet: "\<not> op_DryRun opts"
    and codec: "tokens_survive env" and apart: "separate_files env (withDefaults env opts)"
    and here: "gl_token g = ''''" "TokenPath (gl_config g) = TokenPath (op_ConfigPath (withDefaults env opts))"
  shows "let o1 = withDefaults env opts; cl = newClient g (d'\<lparr>dk_faults := []\<rparr>) in
    cl_token cl = so_Token r \<and>
    (''Authorization'', ''Bearer '' @ so_Token r) \<in> set (hq_Headers (request_to cl m p body)) \<and>
    (\<exists>content cfg. dk_files d' (op_ConfigPath o1) = Some content \<and> in_decode env content Default = Some cfg \<and>
      (\<exists>t. authenticate (in_digest env) (c_Tokens cfg) (''Bearer '' @ so_Token r) = Some t) \<and>
      (\<exists>t \<in> set (c_Tokens cfg). t_Name t = op_TokenName o1 \<and> t_Hash t = HashToken (in_digest env) (so_Token r)) \<and>
      (\<forall>cfg0 t. Load (in_libs env) (map_option (in_decode env) (dk_files d (op_ConfigPath o1))) = Some (Inr cfg0) \<longrightarrow>
         t \<in> set (c_Tokens cfg0) \<longrightarrow> t_Name t \<noteq> op_TokenName o1 \<longrightarrow> t \<in> set (c_Tokens cfg)))"
proof -
  let ?o = "withDefaults env opts" and ?d = "d'\<lparr>dk_faults := []\<rparr>"
  note works = setup_leaves_a_working_token [OF run wet codec apart, unfolded Let_def]
  have "ReadToken (gl_config g) ?d = ReadToken (op_ConfigPath ?o) ?d" using here(2) by (simp add: ReadToken_def)
  moreover have "fst (ReadToken (op_ConfigPath ?o) ?d) = Some (so_Token r)" using works by blast
  ultimately have token: "cl_token (newClient g ?d) = so_Token r"
    using here(1) by (simp add: newClient_def resolve_cli_token_def)
  have "so_Token r \<noteq> ''''"
    by (rule Setup_Run_installs [OF run wet codec apart]) (simp add: installed_def)
  then have "(''Authorization'', ''Bearer '' @ so_Token r) \<in> set (hq_Headers (request_to (newClient g ?d) m p body))"
    using token by (simp add: request_to_def)
  moreover have "\<exists>content cfg. dk_files d' (op_ConfigPath ?o) = Some content \<and> in_decode env content Default = Some cfg \<and>
      (\<exists>t. authenticate (in_digest env) (c_Tokens cfg) (''Bearer '' @ so_Token r) = Some t) \<and>
      (\<exists>t \<in> set (c_Tokens cfg). t_Name t = op_TokenName ?o \<and> t_Hash t = HashToken (in_digest env) (so_Token r)) \<and>
      (\<forall>cfg0 t. Load (in_libs env) (map_option (in_decode env) (dk_files d (op_ConfigPath ?o))) = Some (Inr cfg0) \<longrightarrow>
         t \<in> set (c_Tokens cfg0) \<longrightarrow> t_Name t \<noteq> op_TokenName ?o \<longrightarrow> t \<in> set (c_Tokens cfg))"
    by (rule ex_forward [OF works], erule ex_forward, (elim conjE, intro conjI; assumption))
  ultimately show ?thesis using token unfolding Let_def by (intro conjI)
qed

theorem installed_node_accepts_its_command_line_witness:
  "\<exists>r d'. \<exists>cfg :: Config. \<exists>t. Setup_Run demo_installer demo_options fresh_disk = (True, r, d') \<and>
     cl_token (newClient \<lparr>gl_server = ''http://n'', gl_token = '''', gl_config = ''/etc/processd/processd.yaml''\<rparr> (d'\<lparr>dk_faults := []\<rparr>)) =
       so_Token r \<and>
     authenticate rev (c_Tokens cfg) (''Bearer '' @ so_Token r) = Some t"
proof (rule demo_outcome)
  fix r d'
  assume run: "Setup_Run demo_installer demo_options fresh_disk = (True, r, d')"
  let ?g = "\<lparr>gl_server = ''http://n'', gl_token = '''', gl_config = ''/etc/processd/processd.yaml''\<rparr> :: Globals"
  have opts: "\<not> op_DryRun demo_options" "in_digest demo_installer = rev" by (simp_all add: demo_options_def demo_installer_def)
  have here: "gl_token ?g = ''''" "TokenPath (gl_config ?g) = TokenPath (op_ConfigPath (withDefaults demo_installer demo_options))"
    by (simp_all add: demo_files)
  note works = installed_node_accepts_its_command_line [OF run opts(1) demo_codec demo_files(1) here, unfolded Let_def opts(2)]
  have "\<exists>cfg :: Config. \<exists>t. authenticate rev (c_Tokens cfg) (''Bearer '' @ so_Token r) = Some t"
    using works [THEN conjunct2, THEN conjunct2] by (elim exE conjE) (intro exI)
  then show ?thesis using run works [THEN conjunct1] by blast
qed

section \<open>Parameters on the command line\<close>

definition value_of :: "string list \<Rightarrow> string \<Rightarrow> string option" where
  "value_of raw name =
     map_option (\<lambda>entry. fst (snd (Cut entry (CHR ''='')))) (find (\<lambda>entry. fst (Cut entry (CHR ''='')) = name) (rev raw))"

lemma map_of_put_param [simp]: "map_of (put_param n v ps) = (map_of ps)(n \<mapsto> v)"
  by (induction ps rule: put_param.induct) auto

lemma find_append_value: "find P (xs @ ys) = (case find P xs of None \<Rightarrow> find P ys | Some x \<Rightarrow> Some x)"
  by (induction xs) auto

lemma parse_params_spec:
  "case parse_params raw params of
     Inr ps \<Rightarrow> (\<forall>entry \<in> set raw. snd (snd (Cut entry (CHR ''=''))) \<and> fst (Cut entry (CHR ''='')) \<noteq> '''') \<and>
       map_of ps = (\<lambda>name. case value_of raw name of None \<Rightarrow> map_of params name | Some v \<Rightarrow> Some v)
   | Inl e \<Rightarrow> (\<exists>entry \<in> set raw. e = Usage entry \<and> \<not> (snd (snd (Cut entry (CHR ''=''))) \<and> fst (Cut entry (CHR ''='')) \<noteq> ''''))"
proof (induction raw arbitrary: params)
  case Nil
  then show ?case by (simp add: value_of_def)
next
  case (Cons entry raw)
  obtain name v found where c: "Cut entry (CHR ''='') = (name, v, found)" by (rule prod_cases3)
  show ?case
  proof (cases "found \<and> name \<noteq> ''''")
    case True
    have "value_of (entry # raw) n = (case value_of raw n of None \<Rightarrow> if n = name then Some v else None | Some u \<Rightarrow> Some u)" for n
      using c by (auto simp: value_of_def find_append_value split: option.splits)
    then show ?thesis
      using Cons.IH [of "put_param name v params"] c True by (auto split: sum.splits option.splits)
  next
    case False
    then show ?thesis using c by auto
  qed
qed

end
