(* ===== verification/Spec2Isabelle.thy ===== *)
theory Spec2Isabelle
  imports CronSearch SystemProps WorkersProps ScheduleProps LogTail LogsProps NotifierProps Scalar RoutesProps FleetApiProps
    StreamsProps Runner SqliteProps CliProps
begin

text \<open>
  Processd: a process manager in Go. One daemon runs and supervises command-line programs on its
  Linux host, through a REST API, with a queue, retries, locks, schedules and a SQLite database; a
  daemon can also be the hub of a fleet and forward requests to other daemons. The same binary installs a
  node and is the command line client of its API.

  \<^bold>\<open>How the parts interact.\<close> A request (\<^verbatim>\<open>internal/api\<close>) becomes an execution and is handed to the scheduler
  (\<^verbatim>\<open>internal/queue\<close>), which records it (\<^verbatim>\<open>internal/store\<close>), takes a slot and a lock, and starts the
  attempt through the supervisor (\<^verbatim>\<open>internal/supervisor\<close>), or leaves it QUEUED. The supervisor spawns the
  process (\<^verbatim>\<open>internal/runner\<close>) with its log files (\<^verbatim>\<open>internal/logstore\<close>), waits for it, turns its end into an
  outcome under the retry policy (\<^verbatim>\<open>internal/retry\<close>), and tells the scheduler, which dispatches what
  waits, and the notifier (\<^verbatim>\<open>internal/notify\<close>). The schedule runner (\<^verbatim>\<open>internal/schedule\<close>, over
  \<^verbatim>\<open>internal/cron\<close>) submits executions by the clock. \<^verbatim>\<open>internal/config\<close> says which workers exist;
  \<^verbatim>\<open>internal/daemon\<close> puts it all together. \<^verbatim>\<open>internal/setup\<close> writes the configuration, token and unit of a node;
  the commands of \<^verbatim>\<open>internal/cli\<close> read that token and call the API.

  \<^bold>\<open>Theories and sources.\<close>

  \<^item> \<open>Prelude\<close>; \<open>GoStrings\<close>, \<open>GoTime\<close>, \<open>GoFloat\<close>: shared lemmas, and what the code uses of the Go library:
    string functions, civil time with zones, IEEE 754 doubles.
  \<^item> \<^verbatim>\<open>core\<close> (\<open>Core\<close>): executions, the transition table, \<^verbatim>\<open>TransitionTo\<close>, the errors.
  \<^item> \<^verbatim>\<open>queue/slots.go\<close> (\<open>Slots\<close>) and \<^verbatim>\<open>queue/scheduler.go\<close> (\<open>Scheduler\<close>, \<open>SchedulerProps\<close>).
  \<^item> \<^verbatim>\<open>cron\<close> (\<open>Cron\<close>, \<open>CronSearch\<close>): the expression language, \<^verbatim>\<open>Next\<close> and \<^verbatim>\<open>Between\<close>.
  \<^item> \<^verbatim>\<open>retry\<close> (\<open>Retry\<close>): the delay curve in float64 arithmetic, budgets and triggers.
  \<^item> \<^verbatim>\<open>store/sqlite\<close> (\<open>Store\<close>, \<open>StoreProps\<close>): the statements as operations on tables that can fail;
    \<open>Sqlite\<close>, \<open>SqliteProps\<close>: the text of timestamps, cursors and rows, the listing on it, migrations.
  \<^item> \<^verbatim>\<open>config\<close> (\<open>WorkerTypes\<close>, \<open>Config\<close>, \<open>Render\<close>, \<open>Workers\<close>, \<open>WorkersProps\<close>, \<open>Scalar\<close>): workers and
    policies, params and placeholders, defaults, validation and loading, durations and sizes as text.
  \<^item> \<^verbatim>\<open>supervisor\<close> (\<open>World\<close>, \<open>Supervisor\<close>, \<open>SupervisorProps\<close>): the state of a daemon and the life of one attempt.
  \<^item> the daemon they form (\<open>Runtime\<close>, \<open>System\<close>, \<open>SystemProps\<close>): the handlers as a step relation.
  \<^item> \<^verbatim>\<open>schedule\<close> (\<open>ScheduleRunner\<close>, \<open>ScheduleProps\<close>).
  \<^item> \<^verbatim>\<open>logstore\<close> (\<open>Files\<close>, \<open>Logs\<close>, \<open>LogRead\<close>, \<open>LogTail\<close>, \<open>LogsProps\<close>): writing, rotation, reading back,
    following and retention over a file system whose calls can fail.
  \<^item> \<^verbatim>\<open>notify\<close> (\<open>Notifier\<close>, \<open>NotifierProps\<close>).
  \<^item> \<^verbatim>\<open>runner\<close> (\<open>Runner\<close>): \<^verbatim>\<open>/proc\<close>, credentials, environment, signals.
  \<^item> \<^verbatim>\<open>metrics\<close> (\<open>Metrics\<close>) and \<^verbatim>\<open>api/metrics.go\<close> (\<open>MetricsApi\<close>).
  \<^item> \<^verbatim>\<open>fleet\<close> (\<open>Fleet\<close>, \<open>FleetProps\<close>) and \<^verbatim>\<open>api/fleet.go\<close> (\<open>FleetApi\<close>, \<open>FleetApiProps\<close>).
  \<^item> \<^verbatim>\<open>api\<close> (\<open>Api\<close>, \<open>ApiProps\<close>): tokens, errors, filters and the handlers; \<^verbatim>\<open>api/stream.go\<close> (\<open>Streams\<close>,
    \<open>StreamsProps\<close>); \<^verbatim>\<open>api/routes.go\<close> (\<open>Routes\<close>, \<open>RoutesProps\<close>): the path of a request to its handler.
  \<^item> \<^verbatim>\<open>daemon\<close> (\<open>Daemon\<close>): building, reload, retention, boot and shutdown, the descriptor limit.
  \<^item> \<^verbatim>\<open>setup\<close> (\<open>Setup\<close>, \<open>SetupProps\<close>): defaults, token, directories, configuration, unit file and service, over
    a host whose calls can fail.
  \<^item> \<^verbatim>\<open>cli\<close> (\<open>Cli\<close>: requests, errors and event streams of \<^verbatim>\<open>client.go\<close>; \<open>Restart\<close>, \<open>RestartProps\<close>: \<^verbatim>\<open>restart.go\<close>;
    \<open>CliCommands\<close>, \<open>CliProps\<close>: the other commands, what they print, and the composition with \<open>Setup\<close>, \<open>Fleet\<close>
    and \<open>Streams\<close>).

  \<^bold>\<open>State and steps.\<close> The record \<open>World\<close> is what one daemon keeps: database, slot table, attempts under
  supervision, drain flags, loaded workers. Each handler of the code is one function on it, with
  what the operating system, the clock and the random source answered as an argument. \<open>System.step\<close> has
  one rule per event (submission, dispatch pass, end of an attempt, timeout, stop, signal, shutdown,
  drain, reload); \<open>System.reachable\<close> starts from a restart on any database and adds retention. The database
  carries a schedule of faults, so every statement of a theorem covers every statement that fails.

  \<^bold>\<open>What the lemmas show.\<close>

  \<^item> Safety of the daemon (\<open>Runtime\<close>, \<open>System\<close>, \<open>SystemProps\<close>): one holder per lock, no more than
    \<^verbatim>\<open>max_processes\<close> attempts, running attempts agree with their rows, rows move along the transition
    table only; what a restart and a submission leave on every branch; where a dispatch pass that works
    on rows it has read loses a cancellation. The locales \<open>settle_callback\<close>
    (\<open>SupervisorProps\<close>) and \<open>starter\<close> (\<open>SchedulerProps\<close>) state what scheduler and supervisor promise each
    other; \<open>System\<close> interprets both on the code's definitions.
  \<^item> The API refines those steps (\<open>RoutesProps\<close>): a request is at most one of them between statements on
    keys and the audit trail; readers change nothing; handlers need a token. Idempotency (\<open>ApiProps\<close>).
  \<^item> Functional correctness: the outcome of an attempt, the cron search against the set of matching
    minutes, pagination against the sorted table, the delay curve against its closed form, substitution,
    loading, firing passes, log rotation against an unbounded log, followers and streams against the
    lines of the file, merged fleet pages, histograms, fingerprints, environments, sizes as text.
  \<^item> The store on text (\<open>SqliteProps\<close>): the text of an instant sorts like it and reads back as it, rows read
    back as the execution they were written from, and so the SQL listing refines the one of \<open>Store\<close>; each
    migration runs once, in order, whatever fails.
  \<^item> Installation and client (\<open>SetupProps\<close>, \<open>RestartProps\<close>, \<open>CliProps\<close>): what a setup that fails leaves of the old
    configuration, tokens kept on a second run and accepted by the node, the order of the calls of a restart
    and its end, node names through the proxy, printed streams against the frames the daemon writes.

  \<^bold>\<open>Loops.\<close> Structural recursion or a measure, except the search of \<^verbatim>\<open>Next\<close> and the passes over it, which
  are partial functions into options: that they end, in a zone with one offset, is proved, and one input is
  shown on which \<^verbatim>\<open>Next\<close> does not. A stream is a list of rounds, one per tick. The two polling
  loops of a restart take fuel: \<open>restart_ends\<close> shows that \<open>Suc n\<close> is enough when the wait is at most \<open>n\<close> polls of
  250 ms and the clock moves on by each.

  \<^bold>\<open>Parameters.\<close> Regular expressions, the time zone database, URL, JSON, SHA-256 and base64 codecs, the
  decimal form of a float, accounts, processes and sockets are arguments; a theorem that needs more of them
  than that they are functions says so.

  \<^bold>\<open>Not modelled.\<close> Log lines, the texts of error messages, the HTTP transport and its timeouts, SQL text, the
  statements inside a migration, goroutine scheduling below the level of a handler, removal of empty log
  directories, file modes and owners, the probe for systemd and the execution of \<^verbatim>\<open>systemctl\<close>, flag parsing
  and column alignment on the terminal, \<^verbatim>\<open>serve\<close> (wiring only), \<^verbatim>\<open>internal/webui\<close> (embedded assets),
  \<^verbatim>\<open>internal/version\<close> and \<^verbatim>\<open>cmd\<close>.
\<close>

end
